(* ===== verification/Go_Strings.thy ===== *)
theory Go_Strings
  imports Main "HOL-Library.Sublist" "HOL-Library.Char_ord" "HOL-Library.List_Lexorder"
    "HOL-Library.Code_Target_Numeral"
begin

text \<open>
  Go strings and the functions of package \<open>strings\<close> that the modelled code calls.

  A Go string is a sequence of bytes, which is what \<^typ>\<open>string\<close> (lists of 8-bit characters)
  is.  The functions that decode UTF-8 (\<open>ToLower\<close>, \<open>TrimSpace\<close>, \<open>Fields\<close>) are modelled on their
  ASCII range: a byte above 127 is left alone by \<open>ToLower\<close> and is not white space.  Everything the
  code does byte by byte (indexing, \<open>WriteByte\<close>, comparison) is exact.
\<close>

section \<open>Collections of the development\<close>

named_theorems go_simps \<open>equations of the string and path functions\<close>
named_theorems keyword_defs \<open>definitions of the string constants of the code\<close>

section \<open>Characters the code names\<close>

abbreviation TAB :: char where "TAB \<equiv> CHR 0x09"
abbreviation LF :: char where "LF \<equiv> CHR 0x0A"
abbreviation CR :: char where "CR \<equiv> CHR 0x0D"
abbreviation SPC :: char where "SPC \<equiv> CHR 0x20"
abbreviation DQUOTE :: char where "DQUOTE \<equiv> CHR 0x22"
abbreviation SQUOTE :: char where "SQUOTE \<equiv> CHR 0x27"
abbreviation BTICK :: char where "BTICK \<equiv> CHR 0x60"
abbreviation BSLASH :: char where "BSLASH \<equiv> CHR 0x5C"
abbreviation NUL :: char where "NUL \<equiv> CHR 0x00"

definition is_upper :: "char \<Rightarrow> bool" where
  "is_upper c \<longleftrightarrow> 65 \<le> (of_char c :: nat) \<and> (of_char c :: nat) \<le> 90"

definition is_lower :: "char \<Rightarrow> bool" where
  "is_lower c \<longleftrightarrow> 97 \<le> (of_char c :: nat) \<and> (of_char c :: nat) \<le> 122"

definition is_digit :: "char \<Rightarrow> bool" where
  "is_digit c \<longleftrightarrow> 48 \<le> (of_char c :: nat) \<and> (of_char c :: nat) \<le> 57"

definition lower_char :: "char \<Rightarrow> char" where
  "lower_char c = (if is_upper c then char_of ((of_char c :: nat) + 32) else c)"

definition upper_char :: "char \<Rightarrow> char" where
  "upper_char c = (if is_lower c then char_of ((of_char c :: nat) - 32) else c)"

text \<open>ASCII white space, as \<open>strings.TrimSpace\<close> and \<open>strings.Fields\<close> use it.\<close>

definition is_space :: "char \<Rightarrow> bool" where
  "is_space c \<longleftrightarrow> List.member [SPC, TAB, LF, CHR 0x0B, CHR 0x0C, CR] c"

text \<open>\<open>unicode.IsSpace(rune(b))\<close> of a single byte: the Latin-1 spaces count too.\<close>

definition is_space_byte :: "char \<Rightarrow> bool" where
  "is_space_byte c \<longleftrightarrow> is_space c \<or> c = CHR 0x85 \<or> c = CHR 0xA0"

section \<open>Package strings\<close>

definition HasPrefix :: "string \<Rightarrow> string \<Rightarrow> bool" where
  "HasPrefix s p \<longleftrightarrow> prefix p s"

definition HasSuffix :: "string \<Rightarrow> string \<Rightarrow> bool" where
  "HasSuffix s p \<longleftrightarrow> suffix p s"

definition Contains :: "string \<Rightarrow> string \<Rightarrow> bool" where
  "Contains s t \<longleftrightarrow> sublist t s"

definition ContainsAny :: "string \<Rightarrow> string \<Rightarrow> bool" where
  "ContainsAny s cs \<longleftrightarrow> list_ex (List.member cs) s"

definition ContainsByte :: "string \<Rightarrow> char \<Rightarrow> bool" where
  "ContainsByte s c \<longleftrightarrow> List.member s c"

definition TrimPrefix :: "string \<Rightarrow> string \<Rightarrow> string" where
  "TrimPrefix s p = (if HasPrefix s p then drop (length p) s else s)"

definition TrimLeft :: "string \<Rightarrow> string \<Rightarrow> string" where
  "TrimLeft s cs = dropWhile (List.member cs) s"

definition TrimRight :: "string \<Rightarrow> string \<Rightarrow> string" where
  "TrimRight s cs = rev (dropWhile (List.member cs) (rev s))"

definition Trim :: "string \<Rightarrow> string \<Rightarrow> string" where
  "Trim s cs = TrimRight (TrimLeft s cs) cs"

definition TrimSpace :: "string \<Rightarrow> string" where
  "TrimSpace s = rev (dropWhile is_space (rev (dropWhile is_space s)))"

definition ToLower :: "string \<Rightarrow> string" where
  "ToLower s = map lower_char s"

definition ToUpper :: "string \<Rightarrow> string" where
  "ToUpper s = map upper_char s"

text \<open>\<open>strings.Index\<close>: the first position at which the needle starts.\<close>

fun Index :: "string \<Rightarrow> string \<Rightarrow> nat option" where
  "Index [] t = (if t = [] then Some 0 else None)"
| "Index (c # s) t = (if prefix t (c # s) then Some 0 else map_option Suc (Index s t))"

text \<open>\<open>strings.Split\<close> by a one-byte separator.\<close>

fun SplitByte :: "char \<Rightarrow> string \<Rightarrow> string list" where
  "SplitByte sep [] = [[]]"
| "SplitByte sep (c # s) =
     (if c = sep then [] # SplitByte sep s
      else (case SplitByte sep s of [] \<Rightarrow> [[c]] | w # ws \<Rightarrow> (c # w) # ws))"

fun Join :: "string list \<Rightarrow> string \<Rightarrow> string" where
  "Join [] sep = []"
| "Join [w] sep = w"
| "Join (w # v # ws) sep = w @ sep @ Join (v # ws) sep"

text \<open>\<open>strings.Fields\<close>: the maximal runs of bytes that are not white space.\<close>

fun fields_acc :: "string \<Rightarrow> string \<Rightarrow> string list" where
  "fields_acc [] cur = (if cur = [] then [] else [cur])"
| "fields_acc (c # s) cur =
     (if is_space c then (if cur = [] then fields_acc s [] else cur # fields_acc s [])
      else fields_acc s (cur @ [c]))"

definition Fields :: "string \<Rightarrow> string list" where
  "Fields s = fields_acc s []"

text \<open>\<open>strings.ReplaceAll\<close> of a non-empty needle by a word.\<close>

function ReplaceAll :: "string \<Rightarrow> string \<Rightarrow> string \<Rightarrow> string" where
  "ReplaceAll [] old new = []"
| "ReplaceAll (c # s) old new =
     (if old \<noteq> [] \<and> prefix old (c # s) then new @ ReplaceAll (drop (length old) (c # s)) old new
      else c # ReplaceAll s old new)"
  by pat_completeness auto
termination
  by (relation "measure (\<lambda>(s, _, _). length s)") auto

section \<open>Package strconv\<close>

definition digit_value :: "char \<Rightarrow> int" where
  "digit_value c = int (of_char c) - 48"

text \<open>\<open>strconv.Atoi\<close>: an optional sign, decimal digits, and a value of 64 bits.\<close>

definition atoi_digits :: "string \<Rightarrow> int option" where
  "atoi_digits s =
     (if s = [] \<or> \<not> list_all is_digit s then None
      else Some (foldl (\<lambda>n c. 10 * n + digit_value c) 0 s))"

definition int64_max :: int where "int64_max = 9223372036854775807"

definition atoi_signed :: "string \<Rightarrow> int option" where
  "atoi_signed s =
     (case s of
        [] \<Rightarrow> None
      | c # r \<Rightarrow>
          if c = CHR ''-'' then map_option uminus (atoi_digits r)
          else if c = CHR ''+'' then atoi_digits r
          else atoi_digits s)"

definition Atoi :: "string \<Rightarrow> int option" where
  "Atoi s =
     (case atoi_signed s of
        None \<Rightarrow> None
      | Some v \<Rightarrow> if - int64_max - 1 \<le> v \<and> v \<le> int64_max then Some v else None)"

text \<open>
  \<open>value, _ := strconv.Atoi(s)\<close>: the value is 0 for bad syntax, and the nearest bound when the
  number is out of range.
\<close>

definition AtoiValue :: "string \<Rightarrow> int" where
  "AtoiValue s =
     (case atoi_signed s of
        None \<Rightarrow> 0
      | Some v \<Rightarrow> max (- int64_max - 1) (min int64_max v))"

definition ParseBool :: "string \<Rightarrow> bool" where
  "ParseBool s = List.member [''1'', ''t'', ''T'', ''true'', ''TRUE'', ''True''] s"

section \<open>Package encoding/hex\<close>

definition hex_digit :: "nat \<Rightarrow> char" where
  "hex_digit n = ''0123456789abcdef'' ! n"

definition hex_encode :: "string \<Rightarrow> string" where
  "hex_encode b = concat (map (\<lambda>c. [hex_digit (of_char c div 16), hex_digit (of_char c mod 16)]) b)"

end
