(* ===== verification/Security_Policy.thy ===== *)
theory Security_Policy
  imports Go_Strings "HOL-Library.AList" "HOL-Library.Signed_Division"
begin

text \<open>
  \<open>securitypolicy/policy.go\<close> and \<open>securitypolicy/bundles.go\<close>: the settings catalogue, the named
  profiles, the user's selection with its overrides and its resolution into an effective policy.

  Profiles, decisions and setting ids are strings in the code (\<open>type Profile string\<close>), and so they
  are here; a Go map with string keys is an association list, in some iteration order.
\<close>

section \<open>Constants\<close>

type_synonym profile = string
type_synonym decision = string
type_synonym setting_id = string
type_synonym smap = "(string \<times> string) list"

definition ProfileExtraStrict :: profile where [keyword_defs]: "ProfileExtraStrict = ''extra_strict''"
definition ProfileReasonable :: profile where [keyword_defs]: "ProfileReasonable = ''reasonable''"
definition ProfileLLMAdvisor :: profile where [keyword_defs]: "ProfileLLMAdvisor = ''llm_advisor''"
definition ProfileLLMJudge :: profile where [keyword_defs]: "ProfileLLMJudge = ''llm_judge''"
definition ProfileLessStrict :: profile where [keyword_defs]: "ProfileLessStrict = ''less_strict''"
definition ProfileMinimal :: profile where [keyword_defs]: "ProfileMinimal = ''minimal''"
definition ProfileYOLO :: profile where [keyword_defs]: "ProfileYOLO = ''yolo''"

definition DecisionAllow :: decision where [keyword_defs]: "DecisionAllow = ''allow''"
definition DecisionLLMReview :: decision where [keyword_defs]: "DecisionLLMReview = ''llm_review''"
definition DecisionAsk :: decision where [keyword_defs]: "DecisionAsk = ''ask''"
definition DecisionDeny :: decision where [keyword_defs]: "DecisionDeny = ''deny''"

definition SettingReadCommands :: setting_id where [keyword_defs]: "SettingReadCommands = ''commands.read''"
definition SettingUnknownCommands :: setting_id where [keyword_defs]: "SettingUnknownCommands = ''commands.unknown''"
definition SettingScriptExecution :: setting_id where [keyword_defs]: "SettingScriptExecution = ''commands.scripts''"
definition SettingFileCreate :: setting_id where [keyword_defs]: "SettingFileCreate = ''filesystem.create''"
definition SettingFileOverwrite :: setting_id where [keyword_defs]: "SettingFileOverwrite = ''filesystem.overwrite''"
definition SettingFileAppend :: setting_id where [keyword_defs]: "SettingFileAppend = ''filesystem.append''"
definition SettingFileDelete :: setting_id where [keyword_defs]: "SettingFileDelete = ''filesystem.delete''"
definition SettingPrivilegeEscalation :: setting_id where [keyword_defs]: "SettingPrivilegeEscalation = ''system.privilege_escalation''"
definition SettingServiceChanges :: setting_id where [keyword_defs]: "SettingServiceChanges = ''system.service_changes''"
definition SettingPackageChanges :: setting_id where [keyword_defs]: "SettingPackageChanges = ''system.package_changes''"
definition SettingRawDeviceAccess :: setting_id where [keyword_defs]: "SettingRawDeviceAccess = ''system.raw_devices''"
definition SettingNetworkAccess :: setting_id where [keyword_defs]: "SettingNetworkAccess = ''network.outbound''"
definition SettingRemoteMutation :: setting_id where [keyword_defs]: "SettingRemoteMutation = ''remote.mutations''"
definition SettingCloudChanges :: setting_id where [keyword_defs]: "SettingCloudChanges = ''remote.cloud_changes''"
definition SettingContainerChanges :: setting_id where [keyword_defs]: "SettingContainerChanges = ''remote.container_changes''"
definition SettingDatabaseDestructive :: setting_id where [keyword_defs]: "SettingDatabaseDestructive = ''remote.database_destructive''"
definition SettingScheduledChanges :: setting_id where [keyword_defs]: "SettingScheduledChanges = ''autonomy.scheduled_changes''"
definition SettingCredentialAccess :: setting_id where [keyword_defs]: "SettingCredentialAccess = ''data.credential_access''"
definition SettingRememberApprovals :: setting_id where [keyword_defs]: "SettingRememberApprovals = ''approval.reuse_this_session''"
definition SettingProtectCritical :: setting_id where [keyword_defs]: "SettingProtectCritical = ''filesystem.protect_critical_paths''"
definition SettingProtectCredentials :: setting_id where [keyword_defs]: "SettingProtectCredentials = ''filesystem.protect_credential_paths''"
definition SettingMaxCommandBytes :: setting_id where [keyword_defs]: "SettingMaxCommandBytes = ''limits.command_bytes''"
definition SettingMaxSegments :: setting_id where [keyword_defs]: "SettingMaxSegments = ''limits.command_segments''"
definition SettingTimeoutSeconds :: setting_id where [keyword_defs]: "SettingTimeoutSeconds = ''limits.timeout_seconds''"
definition SettingMaxOutputBytes :: setting_id where [keyword_defs]: "SettingMaxOutputBytes = ''limits.output_bytes''"

definition SchemaVersion :: int where "SchemaVersion = 1"

definition KindDecision :: string where [keyword_defs]: "KindDecision = ''decision''"
definition KindBool :: string where [keyword_defs]: "KindBool = ''bool''"
definition KindInt :: string where [keyword_defs]: "KindInt = ''int''"

section \<open>Data\<close>

record setting =
  setting_ID :: setting_id
  setting_Category :: string
  setting_Label :: string
  setting_Description :: string
  setting_Kind :: string
  setting_Min :: int
  setting_Max :: int

text \<open>A selection holds the overrides of a Go map; \<open>nil\<close> and the empty map are both \<open>[]\<close>.\<close>

record selection =
  sel_Version :: int
  sel_Profile :: profile
  sel_Overrides :: smap

record effective_policy =
  pol_Profile :: profile
  pol_Values :: smap
  pol_Origins :: smap
  pol_Hash :: string

record profile_bundle =
  bundle_ID :: profile
  bundle_Label :: string
  bundle_Description :: string
  bundle_Values :: smap

datatype policy_error =
    SelectionRequired
  | UnsupportedVersion int
  | UnknownProfile profile
  | UnknownSetting setting_id
  | NotADecision
  | NotABool
  | NotInRange int int
  | UnsupportedKind string
  | InSetting setting_id policy_error

section \<open>Settings catalogue\<close>

definition settings :: "setting list" where
  "settings =
   [\<lparr>setting_ID = SettingReadCommands, setting_Category = ''Commands'',
      setting_Label = ''Read-only commands'',
      setting_Description = ''Known diagnostics and inspection commands'',
      setting_Kind = KindDecision, setting_Min = 0, setting_Max = 0\<rparr>,
    \<lparr>setting_ID = SettingUnknownCommands, setting_Category = ''Commands'',
      setting_Label = ''Unknown commands'',
      setting_Description = ''Commands whose effects cannot be classified'',
      setting_Kind = KindDecision, setting_Min = 0, setting_Max = 0\<rparr>,
    \<lparr>setting_ID = SettingScriptExecution, setting_Category = ''Commands'',
      setting_Label = ''Script interpreters'',
      setting_Description = ''Shell, Python, Node, Ruby, and Perl script execution'',
      setting_Kind = KindDecision, setting_Min = 0, setting_Max = 0\<rparr>,
    \<lparr>setting_ID = SettingFileCreate, setting_Category = ''Filesystem'',
      setting_Label = ''Create files'',
      setting_Description = ''Create a path that does not already exist'',
      setting_Kind = KindDecision, setting_Min = 0, setting_Max = 0\<rparr>,
    \<lparr>setting_ID = SettingFileOverwrite, setting_Category = ''Filesystem'',
      setting_Label = ''Overwrite files'',
      setting_Description = ''Replace or truncate an existing path'',
      setting_Kind = KindDecision, setting_Min = 0, setting_Max = 0\<rparr>,
    \<lparr>setting_ID = SettingFileAppend, setting_Category = ''Filesystem'',
      setting_Label = ''Append to files'',
      setting_Description = ''Append data to an existing or new path'',
      setting_Kind = KindDecision, setting_Min = 0, setting_Max = 0\<rparr>,
    \<lparr>setting_ID = SettingFileDelete, setting_Category = ''Filesystem'',
      setting_Label = ''Delete files'',
      setting_Description = ''Remove files, directories, or repository content'',
      setting_Kind = KindDecision, setting_Min = 0, setting_Max = 0\<rparr>,
    \<lparr>setting_ID = SettingProtectCritical, setting_Category = ''Filesystem'',
      setting_Label = ''Protect critical paths'',
      setting_Description = ''Escalate writes or deletes targeting roots, system areas, repositories, or backups'',
      setting_Kind = KindBool, setting_Min = 0, setting_Max = 0\<rparr>,
    \<lparr>setting_ID = SettingProtectCredentials, setting_Category = ''Filesystem'',
      setting_Label = ''Protect credential paths'',
      setting_Description = ''Escalate access to known keys, tokens, histories, and credential stores'',
      setting_Kind = KindBool, setting_Min = 0, setting_Max = 0\<rparr>,
    \<lparr>setting_ID = SettingPrivilegeEscalation, setting_Category = ''System'',
      setting_Label = ''Privilege escalation'',
      setting_Description = ''sudo, su, doas, permission, and ownership changes'',
      setting_Kind = KindDecision, setting_Min = 0, setting_Max = 0\<rparr>,
    \<lparr>setting_ID = SettingServiceChanges, setting_Category = ''System'',
      setting_Label = ''Service changes'',
      setting_Description = ''Start, stop, restart, enable, or disable services'',
      setting_Kind = KindDecision, setting_Min = 0, setting_Max = 0\<rparr>,
    \<lparr>setting_ID = SettingPackageChanges, setting_Category = ''System'',
      setting_Label = ''Package changes'',
      setting_Description = ''Install, remove, upgrade, or publish packages'',
      setting_Kind = KindDecision, setting_Min = 0, setting_Max = 0\<rparr>,
    \<lparr>setting_ID = SettingRawDeviceAccess, setting_Category = ''System'',
      setting_Label = ''Raw device access'',
      setting_Description = ''Format, wipe, mount, or write block devices'',
      setting_Kind = KindDecision, setting_Min = 0, setting_Max = 0\<rparr>,
    \<lparr>setting_ID = SettingNetworkAccess, setting_Category = ''Network and remote'',
      setting_Label = ''Outbound network'',
      setting_Description = ''Network probes, downloads, and remote reads'',
      setting_Kind = KindDecision, setting_Min = 0, setting_Max = 0\<rparr>,
    \<lparr>setting_ID = SettingRemoteMutation, setting_Category = ''Network and remote'',
      setting_Label = ''Remote mutations'',
      setting_Description = ''Commands that can change a remote system'',
      setting_Kind = KindDecision, setting_Min = 0, setting_Max = 0\<rparr>,
    \<lparr>setting_ID = SettingCloudChanges, setting_Category = ''Network and remote'',
      setting_Label = ''Cloud changes'',
      setting_Description = ''AWS, Azure, GCP, Terraform, and Kubernetes resource changes'',
      setting_Kind = KindDecision, setting_Min = 0, setting_Max = 0\<rparr>,
    \<lparr>setting_ID = SettingContainerChanges, setting_Category = ''Network and remote'',
      setting_Label = ''Container changes'',
      setting_Description = ''Docker, Podman, and Kubernetes workload mutations'',
      setting_Kind = KindDecision, setting_Min = 0, setting_Max = 0\<rparr>,
    \<lparr>setting_ID = SettingDatabaseDestructive, setting_Category = ''Network and remote'',
      setting_Label = ''Destructive database'',
      setting_Description = ''DROP, TRUNCATE, and unbounded DELETE operations'',
      setting_Kind = KindDecision, setting_Min = 0, setting_Max = 0\<rparr>,
    \<lparr>setting_ID = SettingScheduledChanges, setting_Category = ''Autonomy'',
      setting_Label = ''Scheduled changes'',
      setting_Description = ''Cron, at, timers, and durable background-job mutations'',
      setting_Kind = KindDecision, setting_Min = 0, setting_Max = 0\<rparr>,
    \<lparr>setting_ID = SettingCredentialAccess, setting_Category = ''Data'',
      setting_Label = ''Credential access'',
      setting_Description = ''Read or expose secret-bearing files, environment, or process data'',
      setting_Kind = KindDecision, setting_Min = 0, setting_Max = 0\<rparr>,
    \<lparr>setting_ID = SettingRememberApprovals, setting_Category = ''Approvals'',
      setting_Label = ''Reuse approvals'',
      setting_Description = ''Reuse an exact human-approved command during this process only'',
      setting_Kind = KindBool, setting_Min = 0, setting_Max = 0\<rparr>,
    \<lparr>setting_ID = SettingMaxCommandBytes, setting_Category = ''Limits'',
      setting_Label = ''Command bytes'',
      setting_Description = ''Maximum UTF-8 command size before execution'',
      setting_Kind = KindInt, setting_Min = 256, setting_Max = 65536\<rparr>,
    \<lparr>setting_ID = SettingMaxSegments, setting_Category = ''Limits'',
      setting_Label = ''Command segments'',
      setting_Description = ''Maximum commands in one chained shell action'',
      setting_Kind = KindInt, setting_Min = 1, setting_Max = 64\<rparr>,
    \<lparr>setting_ID = SettingTimeoutSeconds, setting_Category = ''Limits'',
      setting_Label = ''Command timeout'',
      setting_Description = ''Maximum wall-clock seconds for one shell action'',
      setting_Kind = KindInt, setting_Min = 1, setting_Max = 3600\<rparr>,
    \<lparr>setting_ID = SettingMaxOutputBytes, setting_Category = ''Limits'',
      setting_Label = ''Captured output'',
      setting_Description = ''Maximum combined stdout and stderr retained or emitted'',
      setting_Kind = KindInt, setting_Min = 512, setting_Max = 1048576\<rparr>]"

definition Catalog :: "setting list" where
  "Catalog = settings"

definition SettingByID :: "setting_id \<Rightarrow> setting option" where
  "SettingByID i = List.find (\<lambda>s. setting_ID s = i) settings"

section \<open>Bundles\<close>

definition boolString :: "bool \<Rightarrow> string" where
  "boolString b = (if b then ''true'' else ''false'')"

definition digit_char :: "nat \<Rightarrow> char" where
  "digit_char d = char_of (48 + d)"

text \<open>The loop of \<open>intString\<close>; a value that is not positive leaves the result as it is.\<close>

fun intString_loop :: "nat \<Rightarrow> string \<Rightarrow> string" where
  "intString_loop v result =
     (if 0 < v then intString_loop (v div 10) (digit_char (v mod 10) # result) else result)"

declare intString_loop.simps [simp del]

definition intString :: "int \<Rightarrow> string" where
  "intString v = (let r = intString_loop (nat v) [] in if r = '''' then ''0'' else r)"

definition decisions ::
  "decision \<Rightarrow> decision \<Rightarrow> decision \<Rightarrow>
   decision \<Rightarrow> decision \<Rightarrow> decision \<Rightarrow> decision \<Rightarrow>
   decision \<Rightarrow> decision \<Rightarrow> decision \<Rightarrow> decision \<Rightarrow>
   decision \<Rightarrow> decision \<Rightarrow> decision \<Rightarrow> decision \<Rightarrow> decision \<Rightarrow>
   decision \<Rightarrow> decision \<Rightarrow>
   bool \<Rightarrow> bool \<Rightarrow> bool \<Rightarrow> int \<Rightarrow> int \<Rightarrow> int \<Rightarrow> int \<Rightarrow> smap" where
  "decisions
     read unknown scripts
     create overwrite appendPolicy deletePolicy
     privilege service packages rawDevices
     network remote cloud containers database
     scheduled credentials
     remember protectCritical protectCredentials
     commandBytes segments timeoutSeconds outputBytes =
   [(SettingReadCommands, read),
    (SettingUnknownCommands, unknown),
    (SettingScriptExecution, scripts),
    (SettingFileCreate, create),
    (SettingFileOverwrite, overwrite),
    (SettingFileAppend, appendPolicy),
    (SettingFileDelete, deletePolicy),
    (SettingPrivilegeEscalation, privilege),
    (SettingServiceChanges, service),
    (SettingPackageChanges, packages),
    (SettingRawDeviceAccess, rawDevices),
    (SettingNetworkAccess, network),
    (SettingRemoteMutation, remote),
    (SettingCloudChanges, cloud),
    (SettingContainerChanges, containers),
    (SettingDatabaseDestructive, database),
    (SettingScheduledChanges, scheduled),
    (SettingCredentialAccess, credentials),
    (SettingRememberApprovals, boolString remember),
    (SettingProtectCritical, boolString protectCritical),
    (SettingProtectCredentials, boolString protectCredentials),
    (SettingMaxCommandBytes, intString commandBytes),
    (SettingMaxSegments, intString segments),
    (SettingTimeoutSeconds, intString timeoutSeconds),
    (SettingMaxOutputBytes, intString outputBytes)]"

definition bundle_ExtraStrict :: smap where
  "bundle_ExtraStrict = decisions
     DecisionAllow DecisionDeny DecisionDeny
     DecisionAsk DecisionDeny DecisionAsk DecisionDeny
     DecisionDeny DecisionAsk DecisionDeny DecisionDeny
     DecisionAsk DecisionDeny DecisionDeny DecisionDeny DecisionDeny
     DecisionDeny DecisionDeny
     False True True 4096 4 15 4096"

definition bundle_Reasonable :: smap where
  "bundle_Reasonable = decisions
     DecisionAllow DecisionAsk DecisionAsk
     DecisionAllow DecisionAsk DecisionAllow DecisionAsk
     DecisionAsk DecisionAsk DecisionAsk DecisionDeny
     DecisionAsk DecisionAsk DecisionAsk DecisionAsk DecisionAsk
     DecisionAsk DecisionDeny
     False True True 8192 16 30 8192"

definition bundle_LLMJudge :: smap where
  "bundle_LLMJudge = decisions
     DecisionAllow DecisionLLMReview DecisionLLMReview
     DecisionLLMReview DecisionLLMReview DecisionLLMReview DecisionLLMReview
     DecisionLLMReview DecisionLLMReview DecisionLLMReview DecisionDeny
     DecisionLLMReview DecisionLLMReview DecisionLLMReview DecisionLLMReview DecisionLLMReview
     DecisionLLMReview DecisionDeny
     False True True 8192 16 30 8192"

definition bundle_LessStrict :: smap where
  "bundle_LessStrict = decisions
     DecisionAllow DecisionLLMReview DecisionAllow
     DecisionAllow DecisionAllow DecisionAllow DecisionAsk
     DecisionAsk DecisionAsk DecisionAllow DecisionDeny
     DecisionAllow DecisionAsk DecisionAsk DecisionAllow DecisionAsk
     DecisionAllow DecisionAsk
     True True True 16384 24 60 16384"

definition bundle_Minimal :: smap where
  "bundle_Minimal = decisions
     DecisionAllow DecisionAllow DecisionAllow
     DecisionAllow DecisionAllow DecisionAllow DecisionAllow
     DecisionAllow DecisionAllow DecisionAllow DecisionAsk
     DecisionAllow DecisionAllow DecisionAllow DecisionAllow DecisionAllow
     DecisionAllow DecisionAsk
     True True True 32768 32 120 32768"

definition bundle_YOLO :: smap where
  "bundle_YOLO = decisions
     DecisionAllow DecisionAllow DecisionAllow
     DecisionAllow DecisionAllow DecisionAllow DecisionAllow
     DecisionAllow DecisionAllow DecisionAllow DecisionAllow
     DecisionAllow DecisionAllow DecisionAllow DecisionAllow DecisionAllow
     DecisionAllow DecisionAllow
     False False False 65536 64 3600 1048576"


text \<open>The table of \<open>bundleValues\<close>; the advisor profile shares the values of the reasonable one.\<close>

definition bundleValues :: "(profile \<times> smap) list" where
  "bundleValues =
    [(ProfileExtraStrict, bundle_ExtraStrict),
     (ProfileReasonable, bundle_Reasonable),
     (ProfileLLMJudge, bundle_LLMJudge),
     (ProfileLessStrict, bundle_LessStrict),
     (ProfileMinimal, bundle_Minimal),
     (ProfileYOLO, bundle_YOLO),
     (ProfileLLMAdvisor, bundle_Reasonable)]"

definition bundle_labels :: "(profile \<times> string \<times> string) list" where
  "bundle_labels =
    [(ProfileExtraStrict, ''Extra strict'',
       ''Known reads run; opaque and destructive actions are denied''),
     (ProfileReasonable, ''Reasonable'',
       ''Reads run; mutations ask; credentials and raw devices stay blocked''),
     (ProfileLLMAdvisor, ''LLM advisor'',
       ''Reasonable policy with plain-language explanations and approve/reject advice; you decide''),
     (ProfileLLMJudge, ''LLM judge'',
       ''Known reads run; most other actions need judge review then human approval; credentials and raw devices stay blocked''),
     (ProfileLessStrict, ''Less strict'',
       ''Routine recoverable changes run; destructive and remote changes still ask''),
     (ProfileMinimal, ''Minimal'',
       ''Most actions run; critical paths and credentials still interrupt''),
     (ProfileYOLO, ''YOLO'',
       ''No CvkeHarness approval gates; operating-system protections still apply'')]"

definition BundleFor :: "profile \<Rightarrow> profile_bundle option" where
  "BundleFor p =
     (case map_of bundleValues p of
        None \<Rightarrow> None
      | Some values \<Rightarrow>
          (let (l, d) = (case map_of bundle_labels p of None \<Rightarrow> ('''', '''') | Some ld \<Rightarrow> ld)
           in Some \<lparr>bundle_ID = p, bundle_Label = l, bundle_Description = d,
                    bundle_Values = values\<rparr>))"

definition profile_ids :: "profile list" where
  "profile_ids =
    [ProfileExtraStrict, ProfileReasonable, ProfileLLMAdvisor, ProfileLLMJudge,
     ProfileLessStrict, ProfileMinimal, ProfileYOLO]"

definition Profiles :: "profile_bundle list" where
  "Profiles = map (\<lambda>i. case BundleFor i of Some b \<Rightarrow> b
     | None \<Rightarrow> \<lparr>bundle_ID = '''', bundle_Label = '''', bundle_Description = '''',
               bundle_Values = []\<rparr>) profile_ids"

section \<open>Validation\<close>

definition validateValue :: "setting \<Rightarrow> string \<Rightarrow> policy_error + unit" where
  "validateValue s v =
     (if setting_Kind s = KindDecision then
        (if List.member [DecisionAllow, DecisionLLMReview, DecisionAsk, DecisionDeny] v
         then Inr () else Inl NotADecision)
      else if setting_Kind s = KindBool then
        (if v \<noteq> ''true'' \<and> v \<noteq> ''false'' then Inl NotABool else Inr ())
      else if setting_Kind s = KindInt then
        (case Atoi v of
           None \<Rightarrow> Inl (NotInRange (setting_Min s) (setting_Max s))
         | Some parsed \<Rightarrow>
             if parsed < setting_Min s \<or> setting_Max s < parsed
             then Inl (NotInRange (setting_Min s) (setting_Max s)) else Inr ())
      else Inl (UnsupportedKind (setting_Kind s)))"

fun validate_overrides :: "smap \<Rightarrow> policy_error + unit" where
  "validate_overrides [] = Inr ()"
| "validate_overrides ((i, v) # rest) =
     (case SettingByID i of
        None \<Rightarrow> Inl (UnknownSetting i)
      | Some s \<Rightarrow>
          (case validateValue s v of
             Inl e \<Rightarrow> Inl (InSetting i e)
           | Inr _ \<Rightarrow> validate_overrides rest))"

definition Validate :: "selection option \<Rightarrow> policy_error + unit" where
  "Validate sel =
     (case sel of
        None \<Rightarrow> Inl SelectionRequired
      | Some s \<Rightarrow>
          if sel_Version s \<noteq> SchemaVersion then Inl (UnsupportedVersion (sel_Version s))
          else if BundleFor (sel_Profile s) = None then Inl (UnknownProfile (sel_Profile s))
          else validate_overrides (sel_Overrides s))"

definition Normalize :: "selection \<Rightarrow> selection" where
  "Normalize s =
     s\<lparr>sel_Version := (if sel_Version s = 0 then SchemaVersion else sel_Version s),
       sel_Profile := (if sel_Profile s = '''' then ProfileReasonable else sel_Profile s),
       sel_Overrides := map (\<lambda>(k, v). (k, ToLower (TrimSpace v))) (sel_Overrides s)\<rparr>"

definition DefaultSelection :: selection where
  "DefaultSelection =
     \<lparr>sel_Version = SchemaVersion, sel_Profile = ProfileReasonable, sel_Overrides = []\<rparr>"

section \<open>Resolution\<close>

text \<open>Assigning every entry of one map to another.\<close>

definition assign_all :: "smap \<Rightarrow> smap \<Rightarrow> smap" where
  "assign_all new m = foldl (\<lambda>acc (k, v). AList.update k v acc) m new"

text \<open>
  The hash covers the JSON of the schema version, the profile and the values, which JSON prints in
  key order.  Encoding and hashing are the parameter \<open>hash8\<close> on exactly that payload.
\<close>

type_synonym policy_payload = "int \<times> profile \<times> smap"

definition Resolve ::
  "(policy_payload \<Rightarrow> string) \<Rightarrow> selection option \<Rightarrow> policy_error + effective_policy" where
  "Resolve hash8 sel =
     (let s = Normalize (case sel of None \<Rightarrow> DefaultSelection | Some s \<Rightarrow> s) in
      case Validate (Some s) of
        Inl e \<Rightarrow> Inl e
      | Inr _ \<Rightarrow>
         (let base = (case BundleFor (sel_Profile s) of None \<Rightarrow> [] | Some b \<Rightarrow> bundle_Values b);
              values = assign_all (sel_Overrides s) (assign_all base []);
              origins = assign_all (map (\<lambda>(k, _). (k, ''override'')) (sel_Overrides s))
                          (assign_all (map (\<lambda>(k, _). (k, ''profile'')) base) [])
          in Inr \<lparr>pol_Profile = sel_Profile s, pol_Values = values, pol_Origins = origins,
                  pol_Hash = hash8 (SchemaVersion, sel_Profile s, sort_key fst values)\<rparr>))"

section \<open>Reading an effective policy\<close>

definition map_get :: "smap \<Rightarrow> string \<Rightarrow> string" where
  "map_get m k = (case map_of m k of None \<Rightarrow> '''' | Some v \<Rightarrow> v)"

definition pol_Value :: "effective_policy \<Rightarrow> setting_id \<Rightarrow> string" where
  "pol_Value p i = map_get (pol_Values p) i"

definition pol_Decision :: "effective_policy \<Rightarrow> setting_id \<Rightarrow> decision" where
  "pol_Decision p i = map_get (pol_Values p) i"

definition pol_Bool :: "effective_policy \<Rightarrow> setting_id \<Rightarrow> bool" where
  "pol_Bool p i = ParseBool (map_get (pol_Values p) i)"

definition pol_Int :: "effective_policy \<Rightarrow> setting_id \<Rightarrow> int" where
  "pol_Int p i = AtoiValue (map_get (pol_Values p) i)"

definition OverrideCount :: "effective_policy \<Rightarrow> nat" where
  "OverrideCount p = length (filter (\<lambda>(_, origin). origin = ''override'') (pol_Origins p))"

definition plural :: "nat \<Rightarrow> string" where
  "plural n = (if n = 1 then '''' else ''s'')"

definition Summary :: "effective_policy \<Rightarrow> string" where
  "Summary p =
     (let label = ReplaceAll (pol_Profile p) ''_'' '' ''; n = OverrideCount p
      in if 0 < n then label @ '' + '' @ intString (int n) @ '' override'' @ plural n else label)"

section \<open>Editing a selection\<close>

definition SetOverride :: "selection \<Rightarrow> setting_id \<Rightarrow> string \<Rightarrow> policy_error + selection" where
  "SetOverride s i v =
     (case SettingByID i of
        None \<Rightarrow> Inl (UnknownSetting i)
      | Some st \<Rightarrow>
          (let v' = ToLower (TrimSpace v) in
           case validateValue st v' of
             Inl e \<Rightarrow> Inl e
           | Inr _ \<Rightarrow> Inr (s\<lparr>sel_Overrides := AList.update i v' (sel_Overrides s)\<rparr>)))"

definition ClearOverride :: "selection \<Rightarrow> setting_id \<Rightarrow> selection" where
  "ClearOverride s i = s\<lparr>sel_Overrides := AList.delete i (sel_Overrides s)\<rparr>"

definition ApplyProfile :: "selection \<Rightarrow> profile \<Rightarrow> policy_error + selection" where
  "ApplyProfile s p =
     (if BundleFor p = None then Inl (UnknownProfile p)
      else Inr (s\<lparr>sel_Version := SchemaVersion, sel_Profile := p, sel_Overrides := []\<rparr>))"

definition intSettingOptions :: "setting_id \<Rightarrow> string list" where
  "intSettingOptions i =
     (if i = SettingMaxCommandBytes
      then [''1024'', ''4096'', ''8192'', ''16384'', ''32768'', ''65536'']
      else if i = SettingMaxSegments
      then [''1'', ''4'', ''8'', ''16'', ''24'', ''32'', ''64'']
      else if i = SettingTimeoutSeconds
      then [''5'', ''15'', ''30'', ''60'', ''120'', ''300'', ''900'', ''3600'']
      else if i = SettingMaxOutputBytes
      then [''512'', ''4096'', ''8192'', ''16384'', ''32768'', ''65536'', ''262144'', ''1048576'']
      else [])"

fun position :: "'a list \<Rightarrow> 'a \<Rightarrow> nat option" where
  "position [] x = None"
| "position (y # ys) x = (if y = x then Some 0 else map_option Suc (position ys x))"

definition kind_values :: "setting \<Rightarrow> string list" where
  "kind_values s =
     (if setting_Kind s = KindDecision
      then [DecisionAllow, DecisionLLMReview, DecisionAsk, DecisionDeny]
      else if setting_Kind s = KindBool then [''false'', ''true'']
      else if setting_Kind s = KindInt then intSettingOptions (setting_ID s)
      else [])"

text \<open>
  The remainder is Go's (it truncates towards zero), so a large negative step gives a negative
  index, and an unknown kind an empty list: both index out of range, a panic, here \<^const>\<open>None\<close>.
\<close>

definition NextValue :: "setting \<Rightarrow> string \<Rightarrow> int \<Rightarrow> string option" where
  "NextValue s current delta =
     (let values = kind_values s; n = int (length values) in
      case position values current of
        Some index \<Rightarrow>
          (let j = (int index + delta + n) smod n
           in if 0 \<le> j \<and> j < n then Some (values ! nat j) else None)
      | None \<Rightarrow> (if values = [] then None else Some (values ! 0)))"

definition OverrideKeys :: "selection option \<Rightarrow> string list" where
  "OverrideKeys sel = (case sel of None \<Rightarrow> [] | Some s \<Rightarrow> sort (map fst (sel_Overrides s)))"


section \<open>Well-formed policies\<close>

text \<open>
  An entry is valid when the catalogue knows its id and accepts its value.  A policy is well formed
  when its values are exactly the catalogue's settings, each once and each valid: this is what
  execution may rely on, whatever the user selected.
\<close>

definition valid_entry :: "setting_id \<Rightarrow> string \<Rightarrow> bool" where
  "valid_entry k v = (case SettingByID k of None \<Rightarrow> False | Some s \<Rightarrow> validateValue s v = Inr ())"

definition well_formed_policy :: "effective_policy \<Rightarrow> bool" where
  "well_formed_policy p \<longleftrightarrow>
     distinct (map fst (pol_Values p)) \<and>
     set (map fst (pol_Values p)) = set (map setting_ID settings) \<and>
     (\<forall>(k, v) \<in> set (pol_Values p). valid_entry k v)"

definition valid_decisions :: "decision list" where
  "valid_decisions = [DecisionAllow, DecisionLLMReview, DecisionAsk, DecisionDeny]"

definition decision_settings :: "setting_id list" where
  "decision_settings =
    [SettingReadCommands, SettingUnknownCommands, SettingScriptExecution, SettingFileCreate,
     SettingFileOverwrite, SettingFileAppend, SettingFileDelete, SettingPrivilegeEscalation,
     SettingServiceChanges, SettingPackageChanges, SettingRawDeviceAccess, SettingNetworkAccess,
     SettingRemoteMutation, SettingCloudChanges, SettingContainerChanges,
     SettingDatabaseDestructive, SettingScheduledChanges, SettingCredentialAccess]"

definition bool_settings :: "setting_id list" where
  "bool_settings = [SettingRememberApprovals, SettingProtectCritical, SettingProtectCredentials]"

definition int_settings :: "(setting_id \<times> int \<times> int) list" where
  "int_settings =
    [(SettingMaxCommandBytes, 256, 65536), (SettingMaxSegments, 1, 64),
     (SettingTimeoutSeconds, 1, 3600), (SettingMaxOutputBytes, 512, 1048576)]"

lemma distinct_setting_ids: "distinct (map setting_ID settings)"
  by code_simp

lemma find_distinct:
  "distinct (map f xs) \<Longrightarrow> x \<in> set xs \<Longrightarrow> List.find (\<lambda>y. f y = f x) xs = Some x"
  by (induction xs) auto

lemma SettingByID_in: "s \<in> set settings \<Longrightarrow> SettingByID (setting_ID s) = Some s"
  unfolding SettingByID_def by (rule find_distinct [OF distinct_setting_ids])

lemma SettingByID_Some: "SettingByID i = Some s \<Longrightarrow> s \<in> set settings \<and> setting_ID s = i"
  by (auto simp: SettingByID_def find_Some_iff in_set_conv_nth)

text \<open>The columns of the catalogue that resolution and validation read.\<close>

definition settings_table :: "(setting_id \<times> string \<times> int \<times> int) list" where
  "settings_table =
     map (\<lambda>s. (setting_ID s, setting_Kind s, setting_Min s, setting_Max s)) settings"

lemmas settings_table_eq = settings_table_def [unfolded settings_def, simplified]

lemma settings_table_in:
  "(i, k, lo, hi) \<in> set settings_table \<Longrightarrow>
   \<exists>s \<in> set settings. setting_ID s = i \<and> setting_Kind s = k \<and> setting_Min s = lo \<and> setting_Max s = hi"
  by (auto simp: settings_table_def)

lemma decision_settings_catalog:
  "\<forall>i \<in> set decision_settings. \<exists>s \<in> set settings. setting_ID s = i \<and> setting_Kind s = KindDecision"
proof
  fix i assume "i \<in> set decision_settings"
  then have "(i, KindDecision, 0, 0) \<in> set settings_table"
    by (auto simp: decision_settings_def settings_table_eq)
  then show "\<exists>s \<in> set settings. setting_ID s = i \<and> setting_Kind s = KindDecision"
    using settings_table_in by blast
qed

lemma bool_settings_catalog:
  "\<forall>i \<in> set bool_settings. \<exists>s \<in> set settings. setting_ID s = i \<and> setting_Kind s = KindBool"
proof
  fix i assume "i \<in> set bool_settings"
  then have "(i, KindBool, 0, 0) \<in> set settings_table"
    by (auto simp: bool_settings_def settings_table_eq)
  then show "\<exists>s \<in> set settings. setting_ID s = i \<and> setting_Kind s = KindBool"
    using settings_table_in by blast
qed

lemma int_settings_catalog:
  "\<forall>(i, lo, hi) \<in> set int_settings.
     \<exists>s \<in> set settings. setting_ID s = i \<and> setting_Kind s = KindInt
       \<and> setting_Min s = lo \<and> setting_Max s = hi"
proof clarify
  fix i lo hi assume "(i, lo, hi) \<in> set int_settings"
  then have "(i, KindInt, lo, hi) \<in> set settings_table"
    by (auto simp: int_settings_def settings_table_eq)
  then show "\<exists>s \<in> set settings. setting_ID s = i \<and> setting_Kind s = KindInt
       \<and> setting_Min s = lo \<and> setting_Max s = hi"
    by (rule settings_table_in)
qed

lemma kinds_distinct: "KindBool \<noteq> KindDecision" "KindInt \<noteq> KindDecision" "KindInt \<noteq> KindBool"
  by (simp_all add: keyword_defs)

lemma valid_entry_in:
  "s \<in> set settings \<Longrightarrow> setting_ID s = i \<Longrightarrow> valid_entry i v \<longleftrightarrow> validateValue s v = Inr ()"
  using SettingByID_in [of s] by (auto simp: valid_entry_def)

lemma valid_entry_decision:
  assumes "i \<in> set decision_settings"
  shows "valid_entry i v \<longleftrightarrow> v \<in> set valid_decisions"
proof -
  obtain s where s: "s \<in> set settings" "setting_ID s = i" "setting_Kind s = KindDecision"
    using decision_settings_catalog assms by blast
  show ?thesis
    by (simp add: valid_entry_in [OF s(1,2)] validateValue_def s(3) valid_decisions_def)
qed

lemma valid_entry_bool:
  assumes "i \<in> set bool_settings"
  shows "valid_entry i v \<longleftrightarrow> v \<in> {''true'', ''false''}"
proof -
  obtain s where s: "s \<in> set settings" "setting_ID s = i" "setting_Kind s = KindBool"
    using bool_settings_catalog assms by blast
  show ?thesis
    by (auto simp: valid_entry_in [OF s(1,2)] validateValue_def s(3) kinds_distinct)
qed

lemma valid_entry_int:
  assumes "(i, lo, hi) \<in> set int_settings"
  shows "valid_entry i v \<longleftrightarrow> (\<exists>n. Atoi v = Some n \<and> lo \<le> n \<and> n \<le> hi)"
proof -
  obtain s where s: "s \<in> set settings" "setting_ID s = i" "setting_Kind s = KindInt"
    "setting_Min s = lo" "setting_Max s = hi"
    using bspec [OF int_settings_catalog assms] by auto
  show ?thesis
    by (auto simp: valid_entry_in [OF s(1,2)] validateValue_def s(3-5) kinds_distinct
        split: option.splits)
qed

subsection \<open>Integers print and read back\<close>

lemma digit_char_of_char: "d < 10 \<Longrightarrow> of_char (digit_char d) = (48 + d :: nat)"
  by (simp add: digit_char_def)

lemma is_digit_digit_char: "d < 10 \<Longrightarrow> is_digit (digit_char d)"
  by (simp add: is_digit_def digit_char_of_char)

lemma digit_value_digit_char: "d < 10 \<Longrightarrow> digit_value (digit_char d) = int d"
  by (simp add: digit_value_def digit_char_of_char)

lemma digit_char_not_sign: "d < 10 \<Longrightarrow> digit_char d \<noteq> CHR ''-'' \<and> digit_char d \<noteq> CHR ''+''"
  by (auto dest!: arg_cong [where f = "of_char :: char \<Rightarrow> nat"] simp: digit_char_of_char)

lemma intString_loop_acc: "intString_loop v acc = intString_loop v [] @ acc"
proof (induction v arbitrary: acc rule: less_induct)
  case (less v)
  show ?case
  proof (cases "0 < v")
    case True
    then have "v div 10 < v" by simp
    from less.IH [OF this, of "digit_char (v mod 10) # acc"]
         less.IH [OF this, of "[digit_char (v mod 10)]"] True
    show ?thesis by (simp add: intString_loop.simps [of v])
  qed (simp add: intString_loop.simps)
qed

lemma intString_loop_step:
  "0 < v \<Longrightarrow> intString_loop v [] = intString_loop (v div 10) [] @ [digit_char (v mod 10)]"
  by (subst intString_loop.simps) (simp add: intString_loop_acc [of "v div 10" "[_]"])

lemma intString_loop_value:
  "list_all is_digit (intString_loop v []) \<and>
   foldl (\<lambda>n c. 10 * n + digit_value c) 0 (intString_loop v []) = int v"
proof (induction v rule: less_induct)
  case (less v)
  show ?case
  proof (cases "0 < v")
    case True
    then have "v div 10 < v" by simp
    note IH = less.IH [OF this]
    have "10 * int (v div 10) + int (v mod 10) = int v" by presburger
    with IH True show ?thesis
      by (simp add: intString_loop_step is_digit_digit_char digit_value_digit_char)
  qed (simp add: intString_loop.simps)
qed

lemma intString_loop_Nil: "intString_loop v [] = [] \<longleftrightarrow> v = 0"
  by (cases "0 < v") (auto simp: intString_loop_step intString_loop.simps [of 0])

lemma intString_loop_hd:
  "0 < v \<Longrightarrow> \<exists>c r. intString_loop v [] = c # r \<and> c \<noteq> CHR ''-'' \<and> c \<noteq> CHR ''+''"
proof (induction v rule: less_induct)
  case (less v)
  show ?case
  proof (cases "v div 10 = 0")
    case True
    with less.prems show ?thesis
      by (simp add: intString_loop_step intString_loop.simps [of 0] digit_char_not_sign)
  next
    case False
    with less.prems less.IH [of "v div 10"]
    obtain c r where "intString_loop (v div 10) [] = c # r" "c \<noteq> CHR ''-''" "c \<noteq> CHR ''+''"
      by auto
    then show ?thesis using less.prems by (simp add: intString_loop_step [of v])
  qed
qed

lemma Atoi_intString_loop:
  assumes "0 < v" "int v \<le> int64_max"
  shows "Atoi (intString_loop v []) = Some (int v)"
proof -
  obtain c r where cr: "intString_loop v [] = c # r" "c \<noteq> CHR ''-''" "c \<noteq> CHR ''+''"
    using intString_loop_hd [OF assms(1)] by blast
  have "atoi_digits (c # r) = Some (int v)"
    using intString_loop_value [of v] by (simp add: atoi_digits_def cr(1))
  with cr assms(2) show ?thesis
    by (simp add: Atoi_def atoi_signed_def int64_max_def)
qed

text \<open>A non-negative 64-bit integer written by \<open>intString\<close> is read back by \<open>strconv.Atoi\<close>.\<close>

theorem Atoi_intString:
  assumes "0 \<le> n" "n \<le> int64_max"
  shows "Atoi (intString n) = Some n"
proof (cases "n = 0")
  case True
  then show ?thesis
    by (simp add: intString_def intString_loop.simps Atoi_def atoi_signed_def atoi_digits_def
        is_digit_def digit_value_def int64_max_def)
next
  case False
  with assms have "0 < nat n" "int (nat n) \<le> int64_max" by simp_all
  then show ?thesis
    using Atoi_intString_loop [of "nat n"] assms(1)
    by (auto simp: intString_def Let_def intString_loop_Nil)
qed

theorem Atoi_intString_witness: "Atoi (intString 1048576) = Some 1048576"
  using Atoi_intString [of 1048576] by (simp add: int64_max_def)

subsection \<open>The shipped bundles are valid\<close>

lemma valid_entry_decision_each:
  "v \<in> set valid_decisions \<Longrightarrow> list_all (\<lambda>i. valid_entry i v) decision_settings"
  by (simp add: list_all_iff valid_entry_decision)

lemma valid_entry_boolString: "i \<in> set bool_settings \<Longrightarrow> valid_entry i (boolString b)"
  by (simp add: valid_entry_bool boolString_def)

lemma valid_entry_intString:
  "(i, lo, hi) \<in> set int_settings \<Longrightarrow> 0 \<le> n \<Longrightarrow> lo \<le> n \<Longrightarrow> n \<le> hi \<Longrightarrow> hi \<le> int64_max
   \<Longrightarrow> valid_entry i (intString n)"
  by (simp add: valid_entry_int Atoi_intString)

lemma decisions_valid:
  assumes "set [d1, d2, d3, d4, d5, d6, d7, d8, d9, d10, d11, d12, d13, d14, d15, d16, d17, d18]
           \<subseteq> set valid_decisions"
    and "256 \<le> n1 \<and> n1 \<le> 65536" "1 \<le> n2 \<and> n2 \<le> 64" "1 \<le> n3 \<and> n3 \<le> 3600"
        "512 \<le> n4 \<and> n4 \<le> 1048576"
  shows "\<forall>(k, v) \<in> set (decisions d1 d2 d3 d4 d5 d6 d7 d8 d9 d10 d11 d12 d13 d14 d15 d16 d17 d18
           b1 b2 b3 n1 n2 n3 n4). valid_entry k v"
proof -
  have dec: "valid_entry i v" if "i \<in> set decision_settings" "v \<in> set valid_decisions" for i v
    using that by (simp add: valid_entry_decision)
  have boo: "valid_entry i (boolString b)" if "i \<in> set bool_settings" for i b
    using that by (rule valid_entry_boolString)
  have int1: "valid_entry SettingMaxCommandBytes (intString n1)"
    using assms(2) by (intro valid_entry_intString [of _ 256 65536]) (simp_all add: int_settings_def int64_max_def)
  have int2: "valid_entry SettingMaxSegments (intString n2)"
    using assms(3) by (intro valid_entry_intString [of _ 1 64]) (simp_all add: int_settings_def int64_max_def)
  have int3: "valid_entry SettingTimeoutSeconds (intString n3)"
    using assms(4) by (intro valid_entry_intString [of _ 1 3600]) (simp_all add: int_settings_def int64_max_def)
  have int4: "valid_entry SettingMaxOutputBytes (intString n4)"
    using assms(5) by (intro valid_entry_intString [of _ 512 1048576]) (simp_all add: int_settings_def int64_max_def)
  show ?thesis
    using assms(1) int1 int2 int3 int4
    by (simp add: decisions_def dec boo decision_settings_def bool_settings_def)
qed

lemma decisions_keys:
  "map fst (decisions d1 d2 d3 d4 d5 d6 d7 d8 d9 d10 d11 d12 d13 d14 d15 d16 d17 d18
     b1 b2 b3 n1 n2 n3 n4) = decision_settings @ bool_settings @ map fst int_settings"
  by (simp add: decisions_def decision_settings_def bool_settings_def int_settings_def)

lemma catalog_keys:
  "set (decision_settings @ bool_settings @ map fst int_settings) = set (map setting_ID settings)"
  by (auto simp: decision_settings_def bool_settings_def int_settings_def settings_def)

lemma distinct_keys: "distinct (decision_settings @ bool_settings @ map fst int_settings)"
proof (rule card_distinct)
  have "card (set (map setting_ID settings)) = length settings"
    using distinct_card [OF distinct_setting_ids] by simp
  also have "\<dots> = length (decision_settings @ bool_settings @ map fst int_settings)"
    by (simp add: decision_settings_def bool_settings_def int_settings_def settings_def)
  finally show "card (set (decision_settings @ bool_settings @ map fst int_settings)) =
      length (decision_settings @ bool_settings @ map fst int_settings)"
    by (simp only: catalog_keys)
qed

lemmas bundle_defs = bundle_ExtraStrict_def bundle_Reasonable_def bundle_LLMJudge_def
  bundle_LessStrict_def bundle_Minimal_def bundle_YOLO_def

text \<open>A bundle has every setting once, and every value it sets is one the catalogue accepts.\<close>

definition complete_values :: "smap \<Rightarrow> bool" where
  "complete_values vs \<longleftrightarrow>
     distinct (map fst vs) \<and> set (map fst vs) = set (map setting_ID settings) \<and>
     (\<forall>(k, v) \<in> set vs. valid_entry k v)"

lemma complete_decisions:
  assumes "set [d1, d2, d3, d4, d5, d6, d7, d8, d9, d10, d11, d12, d13, d14, d15, d16, d17, d18]
           \<subseteq> set valid_decisions"
    and "256 \<le> n1 \<and> n1 \<le> 65536" "1 \<le> n2 \<and> n2 \<le> 64" "1 \<le> n3 \<and> n3 \<le> 3600"
        "512 \<le> n4 \<and> n4 \<le> 1048576"
  shows "complete_values (decisions d1 d2 d3 d4 d5 d6 d7 d8 d9 d10 d11 d12 d13 d14 d15 d16 d17 d18
           b1 b2 b3 n1 n2 n3 n4)"
  unfolding complete_values_def decisions_keys
  using distinct_keys catalog_keys decisions_valid [OF assms] by blast

lemma bundle_complete_each:
  "complete_values bundle_ExtraStrict" "complete_values bundle_Reasonable"
  "complete_values bundle_LLMJudge" "complete_values bundle_LessStrict"
  "complete_values bundle_Minimal" "complete_values bundle_YOLO"
  unfolding bundle_defs by (rule complete_decisions; simp add: valid_decisions_def)+

lemma bundles_complete: "(p, vs) \<in> set bundleValues \<Longrightarrow> complete_values vs"
  unfolding bundleValues_def using bundle_complete_each by auto

lemma BundleFor_complete: "BundleFor p = Some b \<Longrightarrow> complete_values (bundle_Values b)"
  by (auto simp: BundleFor_def split: option.splits prod.splits
      dest!: map_of_SomeD intro: bundles_complete)

section \<open>Resolution\<close>

lemma map_of_assign_all:
  "map_of (assign_all new m) k = (case map_of (rev new) k of None \<Rightarrow> map_of m k | Some v \<Rightarrow> Some v)"
  unfolding assign_all_def
proof (induction new arbitrary: m)
  case (Cons kv new)
  then show ?case
    by (cases kv) (auto simp: map_of_append update_conv' map_add_def split: option.splits)
qed simp

lemma keys_assign_all: "set (map fst (assign_all new m)) = set (map fst m) \<union> set (map fst new)"
  unfolding assign_all_def
proof (induction new arbitrary: m)
  case (Cons kv new)
  then show ?case by (cases kv) (auto simp: dom_update)
qed simp

lemma distinct_assign_all: "distinct (map fst m) \<Longrightarrow> distinct (map fst (assign_all new m))"
  unfolding assign_all_def
proof (induction new arbitrary: m)
  case (Cons kv new)
  then show ?case by (cases kv) (simp add: distinct_update)
qed simp

lemma assign_all_entries:
  assumes "distinct (map fst m)" "(k, v) \<in> set (assign_all new m)"
  shows "(k, v) \<in> set m \<or> (k, v) \<in> set new"
proof -
  have "map_of (assign_all new m) k = Some v"
    using assms by (simp add: distinct_assign_all)
  then show ?thesis
    by (auto simp: map_of_assign_all split: option.splits dest: map_of_SomeD)
qed

lemma map_of_rev_distinct: "distinct (map fst xs) \<Longrightarrow> map_of (rev xs) = map_of xs"
  by (rule map_of_inject_set [THEN iffD2]) (simp_all add: rev_map [symmetric])

lemma validate_overrides_ok:
  "validate_overrides os = Inr () \<longleftrightarrow> (\<forall>(k, v) \<in> set os. valid_entry k v)"
  by (induction os rule: validate_overrides.induct)
     (auto simp: valid_entry_def split: option.splits sum.splits)

lemma valid_entry_key: "valid_entry k v \<Longrightarrow> k \<in> set (map setting_ID settings)"
  using SettingByID_Some by (fastforce simp: valid_entry_def split: option.splits)

lemma Resolve_cases:
  assumes "Resolve h sel = Inr p"
  obtains s b where "s = Normalize (case sel of None \<Rightarrow> DefaultSelection | Some s \<Rightarrow> s)"
    and "sel_Version s = SchemaVersion" "BundleFor (sel_Profile s) = Some b"
    and "validate_overrides (sel_Overrides s) = Inr ()"
    and "pol_Profile p = sel_Profile s"
    and "pol_Values p = assign_all (sel_Overrides s) (assign_all (bundle_Values b) [])"
    and "pol_Origins p = assign_all (map (\<lambda>(k, _). (k, ''override'')) (sel_Overrides s))
           (assign_all (map (\<lambda>(k, _). (k, ''profile'')) (bundle_Values b)) [])"
    and "pol_Hash p = h (SchemaVersion, sel_Profile s, sort_key fst (pol_Values p))"
  using assms
  by (auto simp: Resolve_def Validate_def Let_def split: sum.splits option.splits if_splits)

text \<open>
  C22: whatever selection the user stored, a policy that resolves is well formed: every setting of
  the catalogue has exactly one value, and that value is one the catalogue accepts.
\<close>

theorem Resolve_well_formed:
  assumes "Resolve h sel = Inr p"
  shows "well_formed_policy p"
  using assms
proof (rule Resolve_cases)
  fix s b
  assume b: "BundleFor (sel_Profile s) = Some b"
    and ok: "validate_overrides (sel_Overrides s) = Inr ()"
    and vals: "pol_Values p = assign_all (sel_Overrides s) (assign_all (bundle_Values b) [])"
  let ?base = "assign_all (bundle_Values b) []"
  note complete = BundleFor_complete [OF b, unfolded complete_values_def]
  have over: "\<forall>(k, v) \<in> set (sel_Overrides s). valid_entry k v"
    using ok by (simp add: validate_overrides_ok)
  have d: "distinct (map fst ?base)" by (rule distinct_assign_all) simp
  have keys: "set (map fst (pol_Values p)) = set (map setting_ID settings)"
    using complete over valid_entry_key unfolding vals keys_assign_all by fastforce
  have "valid_entry k v" if "(k, v) \<in> set (pol_Values p)" for k v
    using assign_all_entries [OF d, of k v "sel_Overrides s"] that over complete
      assign_all_entries [of "[]" k v "bundle_Values b"] vals by auto
  with keys d show ?thesis
    by (auto simp: well_formed_policy_def vals intro: distinct_assign_all)
qed

lemma Resolve_total:
  "Validate (Some (Normalize s)) = Inr () \<Longrightarrow> \<exists>p. Resolve h (Some s) = Inr p"
  by (simp add: Resolve_def Let_def)

lemma BundleFor_known: "p \<in> set profile_ids \<Longrightarrow> BundleFor p \<noteq> None"
proof -
  have "set profile_ids \<subseteq> fst ` set bundleValues" by (simp add: profile_ids_def bundleValues_def)
  then show "p \<in> set profile_ids \<Longrightarrow> ?thesis"
    using map_of_eq_None_iff [of bundleValues p] by (auto simp: BundleFor_def split: option.splits)
qed

lemma lower_ask: "ToLower (TrimSpace '' ASK '') = DecisionAsk"
  by code_simp

definition example_selection :: selection where
  "example_selection =
     \<lparr>sel_Version = 0, sel_Profile = ProfileYOLO, sel_Overrides = [(SettingFileDelete, '' ASK '')]\<rparr>"

lemma example_selection_resolves: "\<exists>p. Resolve h (Some example_selection) = Inr p"
proof (rule Resolve_total)
  have "ProfileYOLO \<noteq> ''''" "ProfileYOLO \<in> set profile_ids"
    by (simp_all add: ProfileYOLO_def profile_ids_def)
  moreover have "valid_entry SettingFileDelete DecisionAsk"
    by (subst valid_entry_decision) (simp_all add: decision_settings_def valid_decisions_def)
  ultimately show "Validate (Some (Normalize example_selection)) = Inr ()"
    using BundleFor_known [of ProfileYOLO]
    by (simp add: Validate_def Normalize_def example_selection_def validate_overrides_ok lower_ask
        del: validate_overrides.simps)
qed

theorem Resolve_well_formed_witness:
  "\<exists>p. Resolve (\<lambda>_. ''h'') (Some example_selection) = Inr p \<and> well_formed_policy p"
  using example_selection_resolves Resolve_well_formed by blast

text \<open>
  In a resolved policy an override wins over the profile, its value trimmed and lowered, and
  every other setting keeps the value of the profile's bundle.
\<close>

theorem Resolve_values:
  assumes "Resolve h (Some s) = Inr p" and "distinct (map fst (sel_Overrides s))"
  shows "pol_Value p i =
     (case map_of (sel_Overrides s) i of
        Some v \<Rightarrow> ToLower (TrimSpace v)
      | None \<Rightarrow> (case BundleFor (pol_Profile p) of
                  Some b \<Rightarrow> map_get (bundle_Values b) i | None \<Rightarrow> ''''))"
  using assms(1)
proof (rule Resolve_cases)
  fix t b
  assume t: "t = Normalize (case Some s of None \<Rightarrow> DefaultSelection | Some s \<Rightarrow> s)"
    and b: "BundleFor (sel_Profile t) = Some b" and prof: "pol_Profile p = sel_Profile t"
    and vals: "pol_Values p = assign_all (sel_Overrides t) (assign_all (bundle_Values b) [])"
  have over: "sel_Overrides t = map (\<lambda>(k, v). (k, ToLower (TrimSpace v))) (sel_Overrides s)"
    by (simp add: t Normalize_def)
  have "map_of (rev (sel_Overrides t)) = map_of (sel_Overrides t)"
    using assms(2) by (intro map_of_rev_distinct) (simp add: over comp_def case_prod_beta)
  moreover have "map_of (rev (bundle_Values b)) = map_of (bundle_Values b)"
    using BundleFor_complete [OF b] by (intro map_of_rev_distinct) (simp add: complete_values_def)
  moreover have "map_of (sel_Overrides t) i = map_option (\<lambda>v. ToLower (TrimSpace v)) (map_of (sel_Overrides s) i)"
    unfolding over by (simp add: map_of_map)
  ultimately show ?thesis
    by (auto simp: pol_Value_def map_get_def vals map_of_assign_all b prof split: option.splits)
qed

theorem Resolve_values_witness:
  "\<exists>p. Resolve (\<lambda>_. ''h'') (Some example_selection) = Inr p
      \<and> pol_Value p SettingFileDelete = DecisionAsk"
proof -
  obtain p where p: "Resolve (\<lambda>_. ''h'') (Some example_selection) = Inr p"
    using example_selection_resolves by blast
  with Resolve_values [OF p, of SettingFileDelete] show ?thesis
    by (simp add: example_selection_def lower_ask)
qed

text \<open>A well-formed policy answers every question execution asks of it.\<close>

lemma well_formed_entry:
  assumes "well_formed_policy p" "i \<in> set (map setting_ID settings)"
  shows "valid_entry i (map_get (pol_Values p) i)"
proof -
  have "i \<in> set (map fst (pol_Values p))" using assms by (simp add: well_formed_policy_def)
  then obtain v where v: "map_of (pol_Values p) i = Some v"
    by (cases "map_of (pol_Values p) i") (auto simp: map_of_eq_None_iff)
  with map_of_SomeD [OF v] assms(1) show ?thesis
    by (auto simp: well_formed_policy_def map_get_def)
qed

lemma decision_settings_known: "i \<in> set decision_settings \<Longrightarrow> i \<in> set (map setting_ID settings)"
  using decision_settings_catalog by force

lemma well_formed_decision:
  "well_formed_policy p \<Longrightarrow> i \<in> set decision_settings \<Longrightarrow> pol_Decision p i \<in> set valid_decisions"
  using well_formed_entry [OF _ decision_settings_known] valid_entry_decision
  by (simp add: pol_Decision_def)

lemma Atoi_AtoiValue: "Atoi s = Some n \<Longrightarrow> AtoiValue s = n"
  by (auto simp: Atoi_def AtoiValue_def split: option.splits if_splits)

lemma well_formed_int:
  assumes "well_formed_policy p" "(i, lo, hi) \<in> set int_settings"
  shows "lo \<le> pol_Int p i \<and> pol_Int p i \<le> hi"
proof -
  have "i \<in> set (map setting_ID settings)"
    using bspec [OF int_settings_catalog assms(2)] by auto
  with well_formed_entry [OF assms(1)] valid_entry_int [OF assms(2)] show ?thesis
    by (auto simp: pol_Int_def dest: Atoi_AtoiValue)
qed

section \<open>Editing keeps a selection valid\<close>

lemma set_update: "set (AList.update k v al) \<subseteq> insert (k, v) (set al)"
  by (induction al) auto

text \<open>
  a selection that validates still validates after an override is set with \<open>SetOverride\<close> and
  after any override is then cleared, and the override that was set takes effect.
\<close>

theorem SetOverride_keeps_valid:
  assumes "Validate (Some s) = Inr ()" and "SetOverride s i v = Inr s'"
  shows "Validate (Some s') = Inr () \<and> Validate (Some (ClearOverride s' j)) = Inr ()
    \<and> map_of (sel_Overrides s') i = Some (ToLower (TrimSpace v))"
proof -
  let ?v = "ToLower (TrimSpace v)"
  have s': "s' = s\<lparr>sel_Overrides := AList.update i ?v (sel_Overrides s)\<rparr>" "valid_entry i ?v"
    using assms(2) by (auto simp: SetOverride_def valid_entry_def Let_def split: option.splits sum.splits)
  have ok: "\<forall>(k, v) \<in> set (sel_Overrides s). valid_entry k v"
    and hd: "sel_Version s = SchemaVersion" "BundleFor (sel_Profile s) \<noteq> None"
    using assms(1) by (auto simp: Validate_def validate_overrides_ok split: if_splits)
  have over: "\<forall>(k, v) \<in> set (sel_Overrides s'). valid_entry k v"
    using set_update [of i ?v "sel_Overrides s"] ok s'(2) by (fastforce simp: s'(1))
  then have "\<forall>(k, v) \<in> set (AList.delete j (sel_Overrides s')). valid_entry k v"
    by (auto simp: AList.delete_eq)
  with over hd show ?thesis
    by (simp add: Validate_def validate_overrides_ok s'(1) ClearOverride_def update_conv')
qed

theorem SetOverride_keeps_valid_witness:
  "\<exists>s'. SetOverride DefaultSelection SettingFileDelete '' ASK '' = Inr s'
     \<and> Validate (Some s') = Inr ()"
proof -
  have "valid_entry SettingFileDelete DecisionAsk"
    by (subst valid_entry_decision) (simp_all add: decision_settings_def valid_decisions_def)
  then obtain s' where s': "SetOverride DefaultSelection SettingFileDelete '' ASK '' = Inr s'"
    by (auto simp: SetOverride_def valid_entry_def lower_ask split: option.splits)
  have "Validate (Some DefaultSelection) = Inr ()"
    using BundleFor_known [of ProfileReasonable]
    by (simp add: Validate_def DefaultSelection_def profile_ids_def)
  from SetOverride_keeps_valid [OF this s'] s' show ?thesis by blast
qed

lemma smod_nonneg: "0 \<le> (a::int) \<Longrightarrow> 0 < b \<Longrightarrow> a smod b = a mod b"
  by (cases "a = 0") (simp_all add: signed_modulo_int_def)

lemma position_nth: "distinct xs \<Longrightarrow> i < length xs \<Longrightarrow> position xs (xs ! i) = Some i"
proof (induction xs arbitrary: i)
  case (Cons x xs)
  then show ?case by (cases i) auto
qed simp

lemma position_Some: "position xs x = Some i \<Longrightarrow> i < length xs \<and> xs ! i = x"
  by (induction xs arbitrary: i) (auto split: if_splits)

lemma position_None: "position xs x = None \<longleftrightarrow> x \<notin> set xs"
  by (induction xs) auto

lemma kind_values_catalog: "s \<in> set settings \<Longrightarrow> distinct (kind_values s) \<and> kind_values s \<noteq> []"
proof -
  have "list_all (\<lambda>s. distinct (kind_values s) \<and> kind_values s \<noteq> []) settings"
    by code_simp
  then show "s \<in> set settings \<Longrightarrow> ?thesis" by (simp add: list_all_iff)
qed

text \<open>
  Stepping through the values of a setting in either direction cycles: a step forward followed
  by the same step back returns to the value it started from, and every value reached is a value
  the setting accepts.  No step of at most one full turn panics.
\<close>

theorem NextValue_cycles:
  assumes "s \<in> set settings" "v \<in> set (kind_values s)" "\<bar>d\<bar> \<le> int (length (kind_values s))"
  shows "\<exists>w. NextValue s v d = Some w \<and> w \<in> set (kind_values s) \<and> NextValue s w (- d) = Some v"
proof -
  let ?vs = "kind_values s" let ?n = "int (length (kind_values s))"
  have dist: "distinct ?vs" and ne: "?vs \<noteq> []" using kind_values_catalog [OF assms(1)] by auto
  obtain i where i: "position ?vs v = Some i"
    using assms(2) position_None [of ?vs v] by (cases "position ?vs v") auto
  note iv = position_Some [OF i]
  define j where "j = nat ((int i + d + ?n) mod ?n)"
  have n0: "0 < ?n" using ne by simp
  have j: "j < length ?vs" "int j = (int i + d + ?n) mod ?n"
    using n0 by (simp_all add: j_def nat_less_iff)
  have bk: "(int j + - d + ?n) mod ?n = int i"
  proof -
    have "(int j + - d + ?n) mod ?n = (int i + d + ?n + - d + ?n) mod ?n"
      unfolding j(2) by (simp add: mod_simps)
    also have "\<dots> = int i mod ?n" by simp
    finally show ?thesis using iv by simp
  qed
  have "0 \<le> int i + d + ?n" "0 \<le> int j + - d + ?n" using assms(3) by auto
  then have "NextValue s v d = Some (?vs ! j)" "NextValue s (?vs ! j) (- d) = Some v"
    using i iv j n0 bk position_nth [OF dist j(1)]
    by (simp_all add: NextValue_def Let_def smod_nonneg j_def)
  with j(1) show ?thesis by auto
qed

theorem NextValue_cycles_witness:
  "\<exists>w. NextValue (settings ! 22) ''64'' 1 = Some w \<and> w \<in> set (kind_values (settings ! 22))
     \<and> NextValue (settings ! 22) w (- 1) = Some ''64''"
proof -
  have "settings ! 22 \<in> set settings" by (simp add: settings_def)
  moreover have "List.member (kind_values (settings ! 22)) ''64''" 
    by code_simp
  ultimately show ?thesis
    using NextValue_cycles [of "settings ! 22" "''64''" 1] by (cases "kind_values (settings ! 22)") auto
qed

end
