(* ===== verification/Shell_Parser.thy ===== *)
theory Shell_Parser
  imports Go_Strings
begin

text \<open>
  The command parser of \<open>tools/shell.go\<close>: \<open>ParseShellCommand\<close> with its quoted heredocs
  (\<open>parseQuotedHeredoc\<close>), the boundary trimming and the normal form under which a command is
  remembered.  The Go loops run over byte indices with look-ahead; here a loop is a recursion over
  the bytes that remain, and a step that consumes several bytes returns the shorter rest.
\<close>

section \<open>Data\<close>

record shell_segment =
  seg_Command :: string
  seg_Normalized :: string
  seg_Heredoc :: bool

record parsed_command =
  parsed_Segments :: "shell_segment list"
  parsed_Operators :: "string list"

datatype parse_error =
    EmptyCommand
  | MalformedNear string
  | BlockedSyntax string
  | UnterminatedDelimiter
  | UnsupportedDelimiter string
  | DelimiterNotAtLineEnd
  | UnterminatedHeredoc string
  | UnterminatedEscape
  | UnterminatedQuote

section \<open>Trimming\<close>

definition boundary_ws :: string where
  "boundary_ws = [SPC, TAB, CR, LF]"

abbreviation is_boundary :: "char \<Rightarrow> bool" where
  "is_boundary c \<equiv> List.member boundary_ws c"

text \<open>On the reversed command: drop boundary bytes up to one that an odd run of backslashes escapes.\<close>

fun trim_trailing :: "string \<Rightarrow> string" where
  "trim_trailing [] = []"
| "trim_trailing (c # r) =
     (if \<not> is_boundary c then c # r
      else if odd (length (takeWhile (\<lambda>d. d = BSLASH) r)) then c # r
      else trim_trailing r)"

definition trimShellBoundaryWhitespace :: "string \<Rightarrow> string" where
  "trimShellBoundaryWhitespace command =
     (let c = TrimLeft command boundary_ws
      in if Contains c ''<<'' then c else rev (trim_trailing (rev c)))"

section \<open>Normal form of a segment\<close>

record norm_state =
  ns_out :: string
  ns_single :: bool
  ns_double :: bool
  ns_escaped :: bool
  ns_pending :: bool

definition norm_init :: norm_state where
  "norm_init = \<lparr>ns_out = [], ns_single = False, ns_double = False, ns_escaped = False,
                ns_pending = False\<rparr>"

text \<open>Writing a byte, after the one space that stands for a pending run of blanks.\<close>

definition norm_write :: "char \<Rightarrow> norm_state \<Rightarrow> norm_state" where
  "norm_write ch s = s\<lparr>ns_out := ns_out s @ [ch]\<rparr>"

definition norm_flush :: "norm_state \<Rightarrow> norm_state" where
  "norm_flush s =
     (if ns_pending s \<and> ns_out s \<noteq> []
      then s\<lparr>ns_out := ns_out s @ [SPC], ns_pending := False\<rparr> else s)"

definition norm_step :: "norm_state \<Rightarrow> char \<Rightarrow> norm_state" where
  "norm_step s ch =
     (if ns_escaped s then (norm_write ch (norm_flush s))\<lparr>ns_escaped := False\<rparr>
      else if ns_single s then
        (let t = norm_write ch s in if ch = SQUOTE then t\<lparr>ns_single := False\<rparr> else t)
      else if ns_double s then
        (let t = norm_write ch s in
         if ch = BSLASH then t\<lparr>ns_escaped := True\<rparr>
         else if ch = DQUOTE then t\<lparr>ns_double := False\<rparr> else t)
      else if ch = SPC \<or> ch = TAB then s\<lparr>ns_pending := (ns_out s \<noteq> [])\<rparr>
      else
        (let t = norm_write ch (norm_flush s) in
         if ch = BSLASH then t\<lparr>ns_escaped := True\<rparr>
         else if ch = SQUOTE then t\<lparr>ns_single := True\<rparr>
         else if ch = DQUOTE then t\<lparr>ns_double := True\<rparr> else t))"

definition normalizeShellWhitespace :: "string \<Rightarrow> string" where
  "normalizeShellWhitespace segment =
     (let trimmed = trimShellBoundaryWhitespace segment in
      if trimmed = [] then []
      else trimShellBoundaryWhitespace (ns_out (foldl norm_step norm_init trimmed)))"

section \<open>Quoted heredocs\<close>

definition is_line_break :: "char \<Rightarrow> bool" where
  "is_line_break c \<longleftrightarrow> c = LF \<or> c = CR"

definition is_blank :: "char \<Rightarrow> bool" where
  "is_blank c \<longleftrightarrow> c = SPC \<or> c = TAB"

text \<open>The rest after one line break, a CRLF pair counting as one.\<close>

fun skip_line_break :: "string \<Rightarrow> string" where
  "skip_line_break [] = []"
| "skip_line_break (c # r) =
     (case r of [] \<Rightarrow> [] | d # r' \<Rightarrow> if c = CR \<and> d = LF then r' else r)"

text \<open>The body of a heredoc: what remains from the end of the line that is the delimiter.\<close>

function heredoc_rest :: "string \<Rightarrow> string \<Rightarrow> string option" where
  "heredoc_rest delimiter body =
     (let line = takeWhile (\<lambda>c. \<not> is_line_break c) body;
          r = dropWhile (\<lambda>c. \<not> is_line_break c) body
      in if line = delimiter then Some r
         else if r = [] then None
         else heredoc_rest delimiter (skip_line_break r))"
  by pat_completeness auto
termination
proof (relation "measure (\<lambda>(_, body). length body)")
  fix delimiter body line r :: string
  assume r: "r = dropWhile (\<lambda>c. \<not> is_line_break c) body" "r \<noteq> []"
  have "length (skip_line_break r) < length r"
    using r(2) by (cases r) (auto split: list.splits)
  also have "\<dots> \<le> length body" unfolding r(1) by (rule length_dropWhile_le)
  finally show "((delimiter, skip_line_break r), (delimiter, body)) \<in> measure (\<lambda>(_, body). length body)"
    by simp
qed simp

declare heredoc_rest.simps [simp del]

definition delimiter_specials :: string where
  "delimiter_specials =
     [SPC, TAB, CR, LF, BSLASH, BTICK] @ ''$<>&|;'' @ [DQUOTE, SQUOTE]"

text \<open>
  Applied to the command from its \<open><<\<close> on; the result is the text of the heredoc up to the end of
  its terminator line and what follows it.
\<close>

definition parseQuotedHeredoc :: "string \<Rightarrow> parse_error + string \<times> string" where
  "parseQuotedHeredoc s =
     (if length s \<le> 2 \<or> take 2 s \<noteq> ''<<'' \<or> s ! 2 = CHR ''<'' then Inl (BlockedSyntax ''<'')
      else case dropWhile is_blank (drop 2 s) of
        [] \<Rightarrow> Inl (BlockedSyntax ''unquoted heredoc'')
      | quote # t \<Rightarrow>
         if quote \<noteq> SQUOTE \<and> quote \<noteq> DQUOTE then Inl (BlockedSyntax ''unquoted heredoc'')
         else if \<not> List.member t quote then Inl UnterminatedDelimiter
         else
           (let delimiter = takeWhile (\<lambda>c. c \<noteq> quote) t;
                header = dropWhile is_blank (drop (length delimiter + 1) t)
            in if delimiter = [] \<or> ContainsAny delimiter delimiter_specials
               then Inl (UnsupportedDelimiter delimiter)
               else if header = [] \<or> \<not> is_line_break (hd header) then Inl DelimiterNotAtLineEnd
               else case heredoc_rest delimiter (skip_line_break header) of
                 None \<Rightarrow> Inl (UnterminatedHeredoc delimiter)
               | Some rest \<Rightarrow> Inr (take (length s - length rest) s, rest)))"

section \<open>The parser\<close>

record parse_state =
  ps_Segments :: "shell_segment list"
  ps_Operators :: "string list"
  ps_current :: string
  ps_single :: bool
  ps_double :: bool
  ps_escaped :: bool
  ps_heredoc :: bool

definition parse_init :: parse_state where
  "parse_init = \<lparr>ps_Segments = [], ps_Operators = [], ps_current = [], ps_single = False,
     ps_double = False, ps_escaped = False, ps_heredoc = False\<rparr>"

definition write_byte :: "char \<Rightarrow> parse_state \<Rightarrow> parse_state" where
  "write_byte ch st = st\<lparr>ps_current := ps_current st @ [ch]\<rparr>"

text \<open>Closing the current segment, with the operator that ends it (empty at the end of input).\<close>

definition flush :: "string \<Rightarrow> parse_state \<Rightarrow> parse_error + parse_state" where
  "flush operator st =
     (let raw = trimShellBoundaryWhitespace (ps_current st) in
      if raw = [] then
        (if operator = [] \<and> ps_Segments st = [] then Inl EmptyCommand
         else if operator \<noteq> [] then Inl (MalformedNear operator)
         else Inr st)
      else
        (let normalized = (if ps_heredoc st then raw else normalizeShellWhitespace raw)
         in Inr (st\<lparr>ps_Segments := ps_Segments st
                     @ [\<lparr>seg_Command = raw, seg_Normalized = normalized, seg_Heredoc = ps_heredoc st\<rparr>],
                   ps_current := [], ps_heredoc := False,
                   ps_Operators := ps_Operators st @ (if operator = [] then [] else [operator])\<rparr>)))"

fun next_is :: "char \<Rightarrow> string \<Rightarrow> bool" where
  "next_is c [] = False"
| "next_is c (d # r) = (d = c)"

text \<open>A byte inside quotes or after a backslash.\<close>

definition step_quoted :: "char \<Rightarrow> string \<Rightarrow> parse_state \<Rightarrow> parse_error + parse_state \<times> string" where
  "step_quoted ch rest st =
     (if ps_escaped st then
        (if ch = LF \<or> ch = CR then Inl (BlockedSyntax ''line continuation'')
         else Inr ((write_byte ch st)\<lparr>ps_escaped := False\<rparr>, rest))
      else if ps_single st then
        Inr (let t = write_byte ch st in if ch = SQUOTE then t\<lparr>ps_single := False\<rparr> else t, rest)
      else
        (if ch = BTICK then Inl (BlockedSyntax [BTICK])
         else if ch = CHR ''$'' \<and> next_is CHR ''('' rest then Inl (BlockedSyntax ''$('')
         else if ch = BSLASH then Inr ((write_byte ch st)\<lparr>ps_escaped := True\<rparr>, rest)
         else if ch = DQUOTE then Inr ((write_byte ch st)\<lparr>ps_double := False\<rparr>, rest)
         else Inr (write_byte ch st, rest)))"

definition flush_then :: "string \<Rightarrow> parse_state \<Rightarrow> string \<Rightarrow> parse_error + parse_state \<times> string" where
  "flush_then operator st rest =
     (case flush operator st of Inl e \<Rightarrow> Inl e | Inr st' \<Rightarrow> Inr (st', rest))"

text \<open>A byte outside quotes: the operators, the redirections and everything the parser refuses.\<close>

definition step_plain :: "char \<Rightarrow> string \<Rightarrow> parse_state \<Rightarrow> parse_error + parse_state \<times> string" where
  "step_plain ch rest st =
     (if ch = SPC \<or> ch = TAB then Inr (write_byte ch st, rest)
      else if ch = BSLASH then Inr ((write_byte ch st)\<lparr>ps_escaped := True\<rparr>, rest)
      else if ch = SQUOTE then Inr ((write_byte ch st)\<lparr>ps_single := True\<rparr>, rest)
      else if ch = DQUOTE then Inr ((write_byte ch st)\<lparr>ps_double := True\<rparr>, rest)
      else if ch = LF \<or> ch = CR then
        (let rest' = (if ch = CR \<and> next_is LF rest then tl rest else rest) in
         if TrimSpace (ps_current st) \<noteq> [] then flush_then [LF] st rest' else Inr (st, rest'))
      else if ch = BTICK then Inl (BlockedSyntax [BTICK])
      else if ch = CHR ''$'' then
        (if next_is CHR ''('' rest then Inl (BlockedSyntax ''$('') else Inr (write_byte ch st, rest))
      else if ch = CHR ''>'' then
        (if next_is CHR ''('' rest then Inl (BlockedSyntax ''>('')
         else if next_is CHR ''>'' rest then Inr (write_byte (hd rest) (write_byte ch st), tl rest)
         else Inr (write_byte ch st, rest))
      else if ch = CHR ''<'' then
        (if next_is CHR ''('' rest then Inl (BlockedSyntax ''<('')
         else if next_is CHR ''<'' rest then
           (case parseQuotedHeredoc (ch # rest) of
              Inl e \<Rightarrow> Inl e
            | Inr (heredoc, rest') \<Rightarrow>
                Inr (st\<lparr>ps_current := ps_current st @ heredoc, ps_heredoc := True\<rparr>, rest'))
         else Inr (write_byte ch st, rest))
      else if ch = CHR ''|'' then
        (if next_is CHR ''|'' rest then flush_then ''||'' st (tl rest) else flush_then ''|'' st rest)
      else if ch = CHR ''&'' then
        (if ps_current st \<noteq> [] \<and> last (ps_current st) = CHR ''>'' then Inr (write_byte ch st, rest)
         else if next_is CHR ''&'' rest then flush_then ''&&'' st (tl rest)
         else Inl (BlockedSyntax ''&''))
      else if ch = CHR '';'' then flush_then '';'' st rest
      else Inr (write_byte ch st, rest))"

definition parse_step :: "char \<Rightarrow> string \<Rightarrow> parse_state \<Rightarrow> parse_error + parse_state \<times> string" where
  "parse_step ch rest st =
     (if ps_escaped st \<or> ps_single st \<or> ps_double st then step_quoted ch rest st
      else step_plain ch rest st)"

lemma suffix_skip_line_break: "suffix (skip_line_break s) s"
  by (cases s) (auto simp: suffix_def split: list.splits)

lemma suffix_heredoc_rest: "heredoc_rest d body = Some rest \<Longrightarrow> suffix rest body"
proof (induction d body rule: heredoc_rest.induct)
  case (1 d body)
  let ?r = "dropWhile (\<lambda>c. \<not> is_line_break c) body"
  have suf: "suffix ?r body" by (rule suffix_dropWhile)
  show ?case
  proof (cases "takeWhile (\<lambda>c. \<not> is_line_break c) body = d")
    case True
    with "1.prems" suf show ?thesis by (simp add: heredoc_rest.simps [of d body] Let_def)
  next
    case False
    with "1.prems" have "?r \<noteq> []" "heredoc_rest d (skip_line_break ?r) = Some rest"
      by (auto simp: heredoc_rest.simps [of d body] Let_def split: if_splits)
    from "1.IH" [OF refl refl False this] suf suffix_skip_line_break [of ?r] show ?thesis
      by (blast intro: suffix_order.trans)
  qed
qed

lemma parseQuotedHeredoc_suffix:
  "parseQuotedHeredoc s = Inr (h, rest) \<Longrightarrow>
   suffix rest (drop 2 s) \<and> h = take (length s - length rest) s \<and> take 2 s = ''<<'' \<and> 2 < length s"
proof -
  assume p: "parseQuotedHeredoc s = Inr (h, rest)"
  then obtain quote t d header where
    qt: "dropWhile is_blank (drop 2 s) = quote # t"
    and hd: "header = dropWhile is_blank (drop (length d + 1) t)"
    and r: "heredoc_rest d (skip_line_break header) = Some rest"
    and h: "h = take (length s - length rest) s" "take 2 s = ''<<''" "2 < length s"
    by (auto simp: parseQuotedHeredoc_def Let_def split: if_splits list.splits option.splits)
  have "suffix rest header"
    using suffix_heredoc_rest [OF r] suffix_skip_line_break by (blast intro: suffix_order.trans)
  also have "suffix header t"
    unfolding hd by (blast intro: suffix_order.trans suffix_dropWhile suffix_drop)
  also have "suffix t (drop 2 s)"
    using suffix_dropWhile [of is_blank "drop 2 s"] unfolding qt by (auto simp: suffix_def)
  finally (suffix_order.trans) show ?thesis using h by blast
qed

text \<open>A heredoc is a piece of the command: nothing is added, nothing is lost.\<close>

lemma parseQuotedHeredoc_split:
  assumes "parseQuotedHeredoc s = Inr (h, rest)"
  shows "s = h @ rest" "2 \<le> length h" "take 2 h = ''<<''"
proof -
  note p = parseQuotedHeredoc_suffix [OF assms]
  then obtain u where u: "drop 2 s = u @ rest" by (auto simp: suffix_def)
  have s: "s = (take 2 s @ u) @ rest" using u append_take_drop_id [of 2 s] by simp
  then have "length s - length rest = length (take 2 s @ u)"
    by (metis add_diff_cancel_right' length_append)
  with s p have h: "h = take 2 s @ u" by (metis append_eq_conv_conj)
  with s show "s = h @ rest" by simp
  from h p show "2 \<le> length h" "take 2 h = ''<<''" by simp_all
qed

lemma flush_then_rest: "flush_then op st rest = Inr (st', rest') \<Longrightarrow> rest' = rest"
  by (auto simp: flush_then_def split: sum.splits)

lemma parse_step_length: "parse_step ch rest st = Inr (st', rest') \<Longrightarrow> length rest' \<le> length rest"
proof -
  assume p: "parse_step ch rest st = Inr (st', rest')"
  have here: "length rest' \<le> length rest"
    if "parseQuotedHeredoc (CHR ''<'' # rest) = Inr (h, rest')" for h
    using parseQuotedHeredoc_split(1,2) [OF that] by (cases h) auto
  show ?thesis
    using p here
    by (auto simp: parse_step_def step_quoted_def step_plain_def Let_def
        split: if_splits sum.splits prod.splits dest!: flush_then_rest)
qed

function parse_loop :: "string \<Rightarrow> parse_state \<Rightarrow> parse_error + parse_state" where
  "parse_loop [] st = Inr st"
| "parse_loop (ch # rest) st =
     (case parse_step ch rest st of Inl e \<Rightarrow> Inl e | Inr (st', rest') \<Rightarrow> parse_loop rest' st')"
  by pat_completeness auto
termination
  by (relation "measure (\<lambda>(s, _). length s)") (auto dest: parse_step_length intro: le_imp_less_Suc)

definition ParseShellCommand :: "string \<Rightarrow> parse_error + parsed_command" where
  "ParseShellCommand command =
     (let cmd = trimShellBoundaryWhitespace command in
      if cmd = [] then Inl EmptyCommand
      else case parse_loop cmd parse_init of
        Inl e \<Rightarrow> Inl e
      | Inr st \<Rightarrow>
         if ps_escaped st then Inl UnterminatedEscape
         else if ps_single st \<or> ps_double st then Inl UnterminatedQuote
         else case flush [] st of
           Inl e \<Rightarrow> Inl e
         | Inr st' \<Rightarrow>
            if length (ps_Segments st') \<le> length (ps_Operators st')
            then Inl (MalformedNear (last (ps_Operators st')))
            else Inr \<lparr>parsed_Segments = ps_Segments st', parsed_Operators = ps_Operators st'\<rparr>)"

definition ValidateShellCommand :: "string \<Rightarrow> parse_error option" where
  "ValidateShellCommand command = (case ParseShellCommand command of Inl e \<Rightarrow> Some e | Inr _ \<Rightarrow> None)"

definition normalizeApprovedShellCommand :: "string \<Rightarrow> string" where
  "normalizeApprovedShellCommand command =
     (case ParseShellCommand command of
        Inl _ \<Rightarrow> normalizeShellWhitespace command
      | Inr p \<Rightarrow>
         (case parsed_Segments p of
            [seg] \<Rightarrow> if parsed_Operators p = [] then seg_Normalized seg
                     else normalizeShellWhitespace command
          | _ \<Rightarrow> normalizeShellWhitespace command))"


section \<open>Invariants of the parser\<close>

text \<open>What every successful step keeps holds of the state in which the loop ends.\<close>

lemma parse_loop_invariant:
  assumes step: "\<And>ch rest st st' rest'. P st (ch # rest) \<Longrightarrow>
      parse_step ch rest st = Inr (st', rest') \<Longrightarrow> P st' rest'"
    and "parse_loop s st = Inr st'" and "P st s"
  shows "P st' []"
  using assms(2,3)
proof (induction s st rule: parse_loop.induct)
  case (2 ch rest st)
  then obtain st1 rest1 where s: "parse_step ch rest st = Inr (st1, rest1)"
    and l: "parse_loop rest1 st1 = Inr st'"
    by (auto split: sum.splits)
  from "2.IH" [OF s refl l] step [OF "2.prems"(2) s] show ?case by simp
qed simp

lemma flush_then_iff:
  "flush_then op st rest = Inr (st', rest') \<longleftrightarrow> rest' = rest \<and> flush op st = Inr st'"
  by (auto simp: flush_then_def split: sum.splits)

lemma flush_current: "flush op st = Inr st' \<Longrightarrow> op \<noteq> [] \<Longrightarrow> ps_current st' = []"
  by (auto simp: flush_def Let_def split: if_splits)

lemma flush_cases:
  assumes "flush operator st = Inr st'"
  obtains (keep) "st' = st" "operator = []" "trimShellBoundaryWhitespace (ps_current st) = []"
      "ps_Segments st \<noteq> []"
  | (close) sg where "seg_Command sg = trimShellBoundaryWhitespace (ps_current st)"
      "seg_Command sg \<noteq> []" "seg_Heredoc sg = ps_heredoc st"
      "seg_Normalized sg = (if ps_heredoc st then seg_Command sg
         else normalizeShellWhitespace (seg_Command sg))"
      "st' = st\<lparr>ps_Segments := ps_Segments st @ [sg], ps_current := [], ps_heredoc := False,
             ps_Operators := ps_Operators st @ (if operator = [] then [] else [operator])\<rparr>"
  using assms
proof (cases "trimShellBoundaryWhitespace (ps_current st) = []")
  case True
  with assms keep show ?thesis by (auto simp: flush_def split: if_splits)
next
  case False
  with assms show ?thesis by (intro close [of "\<lparr>seg_Command = trimShellBoundaryWhitespace (ps_current st),
      seg_Normalized = (if ps_heredoc st then trimShellBoundaryWhitespace (ps_current st)
         else normalizeShellWhitespace (trimShellBoundaryWhitespace (ps_current st))),
      seg_Heredoc = ps_heredoc st\<rparr>"]) (auto simp: flush_def Let_def)
qed

text \<open>The text that stands for an operator; a line break is written in three ways.\<close>

definition operator_text :: "string \<Rightarrow> string \<Rightarrow> bool" where
  "operator_text operator t \<longleftrightarrow>
     List.member [''|'', ''||'', ''&&'', '';''] operator \<and> t = operator
     \<or> operator = [LF] \<and> List.member [[LF], [CR], [CR, LF]] t"

lemma TrimSpace_empty:
  assumes "TrimSpace s = []"
  shows "list_all is_space s"
proof -
  have "\<forall>c \<in> set (dropWhile is_space s). is_space c"
    using assms by (simp add: TrimSpace_def dropWhile_eq_Nil_conv)
  then have "dropWhile is_space s = []"
    using hd_dropWhile [of is_space s] by (metis list.set_sel(1))
  then show ?thesis by (simp add: dropWhile_eq_Nil_conv list_all_iff)
qed

lemma flush_modes_kept:
  "flush op st = Inr st' \<Longrightarrow>
   ps_single st' = ps_single st \<and> ps_double st' = ps_double st \<and> ps_escaped st' = ps_escaped st"
  by (auto simp: flush_def Let_def split: if_splits)

text \<open>
  The cases of a step as its callers need them: either a piece \<open>u\<close> of the input goes to the current
  segment (or is a line break that goes nowhere), or it is an operator that closes the segment.
\<close>

lemma parse_step_cases:
  assumes "parse_step ch rest st = Inr (st', rest')"
  obtains (grow) u where "ch # rest = u @ rest'" "ps_current st' = ps_current st @ u"
      "ps_Segments st' = ps_Segments st" "ps_Operators st' = ps_Operators st"
  | (skip) u where "ch # rest = u @ rest'" "list_all is_boundary u" "st' = st" "list_all is_space (ps_current st)"
  | (close) op u where "ch # rest = u @ rest'" "operator_text op u" "flush op st = Inr st'"
proof (cases "ps_escaped st \<or> ps_single st \<or> ps_double st")
  case True
  with assms grow [of "[ch]"] show ?thesis
    by (auto simp: parse_step_def step_quoted_def write_byte_def Let_def split: if_splits)
next
  case False
  have blank: "list_all is_boundary [LF]" "list_all is_boundary [CR]" "list_all is_boundary [CR, LF]"
    by (simp_all add: boundary_ws_def)
  have next_D: "next_is c xs \<Longrightarrow> xs = c # tl xs" for c xs by (cases xs) auto
  have p: "step_plain ch rest st = Inr (st', rest')" using assms False by (simp add: parse_step_def)
  consider "ch = LF \<or> ch = CR" | "ch = CHR ''<''" "next_is CHR ''<'' rest"
    | "ch = CHR ''|'' \<or> ch = CHR ''&'' \<or> ch = CHR '';''" "ps_current st' \<noteq> ps_current st @ [ch]"
    | (other) "\<not> (ch = LF \<or> ch = CR)" "\<not> (ch = CHR ''<'' \<and> next_is CHR ''<'' rest)"
       "\<not> (ch = CHR ''|'' \<or> ch = CHR ''&'' \<or> ch = CHR '';'') \<or> ps_current st' = ps_current st @ [ch]"
    by blast
  then show ?thesis
  proof cases
    case 1
    define rest1 where "rest1 = (if ch = CR \<and> next_is LF rest then tl rest else rest)"
    define u where "u = (if ch = CR \<and> next_is LF rest then [CR, LF] else [ch])"
    have u: "ch # rest = u @ rest1" "list_all is_boundary u" "operator_text [LF] u"
      using 1 blank next_D [of LF rest] by (auto simp: u_def rest1_def operator_text_def)
    have "rest' = rest1 \<and> (st' = st \<and> list_all is_space (ps_current st) \<or> flush [LF] st = Inr st')"
      using p 1 TrimSpace_empty by (auto simp: step_plain_def Let_def flush_then_iff rest1_def split: if_splits)
    with u skip [of u] close [of u "[LF]"] show ?thesis by auto
  next
    case 2
    with p obtain h where h: "parseQuotedHeredoc (ch # rest) = Inr (h, rest')"
      "st' = st\<lparr>ps_current := ps_current st @ h, ps_heredoc := True\<rparr>"
      by (cases rest) (auto simp: step_plain_def split: if_splits sum.splits)
    with parseQuotedHeredoc_split(1) [OF h(1)] grow [of h] show ?thesis by simp
  next
    case 3
    note sep = p 3(2)
    have two: "ch # rest = [ch, ch] @ tl rest" if "next_is ch rest" using next_D [OF that] by simp
    from 3(1) show ?thesis
    proof (elim disjE)
      assume ch: "ch = CHR ''|''"
      with sep two close [of "[ch]" "[ch]"] close [of "[ch, ch]" "[ch, ch]"] show ?thesis
        by (cases "next_is ch rest") (simp_all add: step_plain_def flush_then_iff operator_text_def)
    next
      assume ch: "ch = CHR ''&''"
      have "\<not> (ps_current st \<noteq> [] \<and> last (ps_current st) = CHR ''>'')"
        using sep ch by (auto simp: step_plain_def write_byte_def)
      with sep ch two close [of "[ch, ch]" "[ch, ch]"] show ?thesis
        by (cases "next_is ch rest") (simp_all add: step_plain_def flush_then_iff operator_text_def)
    next
      assume ch: "ch = CHR '';''"
      with sep close [of "[ch]" "[ch]"] show ?thesis
        by (simp add: step_plain_def flush_then_iff operator_text_def)
    qed
  next
    case other
    show ?thesis
    proof (cases "ch = CHR ''>'' \<and> next_is CHR ''>'' rest")
      case True
      with p grow [of "''>>''"] show ?thesis
        by (cases rest) (auto simp: step_plain_def write_byte_def split: if_splits)
    next
      case False
      have nd: "\<not> next_is CHR ''>'' rest" if "ch = CHR ''>''" using False that by simp
      have "rest' = rest \<and> ps_current st' = ps_current st @ [ch] \<and>
          ps_Segments st' = ps_Segments st \<and> ps_Operators st' = ps_Operators st"
      proof (cases "ch = CHR ''|'' \<or> ch = CHR ''&'' \<or> ch = CHR '';''")
        case True
        with other(3) have cur: "ps_current st' \<noteq> []" by simp
        then have nf: "flush op st \<noteq> Inr st'" if "op \<noteq> []" for op
          using flush_current that by blast
        from True p show ?thesis
          by (elim disjE) (auto simp: step_plain_def flush_then_iff nf write_byte_def split: if_splits)
      next
        case no: False
        then have "rest' = rest \<and> st' \<in> {write_byte ch st, (write_byte ch st)\<lparr>ps_escaped := True\<rparr>,
            (write_byte ch st)\<lparr>ps_single := True\<rparr>, (write_byte ch st)\<lparr>ps_double := True\<rparr>}"
          using p other(1,2) nd by (simp add: step_plain_def split: if_splits)
        then show ?thesis by (auto simp: write_byte_def)
      qed
      with grow [of "[ch]"] show ?thesis by simp
    qed
  qed
qed

section \<open>The segments are the commands\<close>

text \<open>
  What the policy sees segment by segment is all of what \<open>sh -c\<close> is later given.  Pieces of text and the texts
  of the operators between them, put together again.
\<close>

fun weave :: "string list \<Rightarrow> string list \<Rightarrow> string" where
  "weave [] us = concat us"
| "weave (t # ts) [] = t @ weave ts []"
| "weave (t # ts) (u # us) = t @ u @ weave ts us"

lemma weave_snoc:
  "length ts = length us \<Longrightarrow> weave (ts @ [t]) us = weave ts us @ t"
  "length ts = length us \<Longrightarrow> weave (ts @ [t]) (us @ [u]) = weave ts us @ t @ u"
  by (induction ts us rule: list_induct2) auto

text \<open>
  \<open>piece_of c t\<close>: the command \<open>c\<close> of a segment is the text \<open>t\<close> without the white space around it.  (Of white space in
  front of it that is no blank, a form feed for example, something may be left in \<open>c\<close>.)
\<close>

definition piece_of :: "string \<Rightarrow> string \<Rightarrow> bool" where
  "piece_of c t \<longleftrightarrow> (\<exists>w u b v. c = w @ b \<and> t = u @ b @ v \<and> list_all is_space w \<and> list_all is_space u \<and> list_all is_boundary v)"

definition growing :: "string \<Rightarrow> string \<Rightarrow> bool" where
  "growing c t \<longleftrightarrow> (\<exists>w u b. c = w @ b \<and> t = u @ b \<and> list_all is_space w \<and> list_all is_space u)"

lemma piece_ofI:
  "c = w @ b \<Longrightarrow> t = u @ b @ v \<Longrightarrow> list_all is_space w \<Longrightarrow> list_all is_space u \<Longrightarrow> list_all is_boundary v \<Longrightarrow> piece_of c t"
  unfolding piece_of_def by blast

lemma growingI: "c = w @ b \<Longrightarrow> t = u @ b \<Longrightarrow> list_all is_space w \<Longrightarrow> list_all is_space u \<Longrightarrow> growing c t"
  unfolding growing_def by blast

lemma boundary_space: "is_boundary c \<Longrightarrow> is_space c"
  by (auto simp: boundary_ws_def is_space_def)

lemma boundary_spaces: "list_all is_boundary s \<Longrightarrow> list_all is_space s"
  using boundary_space by (auto simp: list_all_iff)

lemma trim_trailing_split:
  "\<exists>v. r = v @ trim_trailing r \<and> list_all is_boundary v
     \<and> (v \<noteq> [] \<longrightarrow> even (length (takeWhile (\<lambda>d. d = BSLASH) (trim_trailing r))))"
proof (induction r rule: trim_trailing.induct)
  case (2 c r)
  show ?case
  proof (cases "is_boundary c \<and> even (length (takeWhile (\<lambda>d. d = BSLASH) r))")
    case True
    with 2 obtain v where v: "r = v @ trim_trailing r" "list_all is_boundary v"
      "v \<noteq> [] \<longrightarrow> even (length (takeWhile (\<lambda>d. d = BSLASH) (trim_trailing r)))" by auto
    then have "even (length (takeWhile (\<lambda>d. d = BSLASH) (trim_trailing r)))"
      using True by (cases "v = []") auto
    with True v show ?thesis by (intro exI [of _ "c # v"]) auto
  next
    case False
    then show ?thesis by auto
  qed
qed simp

lemma trim_split:
  obtains l v where "s = l @ trimShellBoundaryWhitespace s @ v" "list_all is_boundary l" "list_all is_boundary v"
    "v \<noteq> [] \<longrightarrow> even (length (takeWhile (\<lambda>d. d = BSLASH) (rev (trimShellBoundaryWhitespace s))))"
proof -
  let ?l = "takeWhile is_boundary s" and ?t = "TrimLeft s boundary_ws"
  have s: "s = ?l @ ?t" by (simp only: TrimLeft_def takeWhile_dropWhile_id)
  have l: "list_all is_boundary ?l" by (auto simp: list_all_iff dest: set_takeWhileD)
  obtain v where v: "rev ?t = v @ trim_trailing (rev ?t)" "list_all is_boundary v"
    "v \<noteq> [] \<longrightarrow> even (length (takeWhile (\<lambda>d. d = BSLASH) (trim_trailing (rev ?t))))"
    using trim_trailing_split by blast
  have t: "?t = rev (trim_trailing (rev ?t)) @ rev v" using v(1) by (metis rev_append rev_rev_ident)
  show thesis
  proof (cases "Contains ?t ''<<''")
    case True
    then have "trimShellBoundaryWhitespace s = ?t" by (simp add: trimShellBoundaryWhitespace_def Let_def)
    with that [of ?l "[]"] s l show thesis by simp
  next
    case False
    then have trim: "trimShellBoundaryWhitespace s = rev (trim_trailing (rev ?t))"
      by (simp add: trimShellBoundaryWhitespace_def Let_def)
    show thesis
    proof (rule that [of ?l "rev v"])
      show "s = ?l @ trimShellBoundaryWhitespace s @ rev v" using s t by (simp add: trim)
      show "rev v \<noteq> [] \<longrightarrow> even (length (takeWhile (\<lambda>d. d = BSLASH) (rev (trimShellBoundaryWhitespace s))))"
        using v(3) by (simp add: trim)
    qed (use l v(2) in simp_all)
  qed
qed

text \<open>A segment that is closed is the piece it has grown to, trimmed.\<close>

lemma piece_of_growing:
  assumes "growing cur t"
  shows "piece_of (trimShellBoundaryWhitespace cur) t"
proof -
  from assms obtain w u b where g: "cur = w @ b" "t = u @ b" "list_all is_space w" "list_all is_space u"
    by (auto simp: growing_def)
  let ?c = "trimShellBoundaryWhitespace cur"
  obtain l v where lv: "cur = l @ ?c @ v" "list_all is_boundary l" "list_all is_boundary v" by (rule trim_split)
  from g(1) lv(1) have "w @ b = l @ ?c @ v" by simp
  then consider (later) l2 where "l = w @ l2" "b = l2 @ ?c @ v" | (earlier) w2 where "w = l @ w2" "w2 @ b = ?c @ v"
    by (auto simp: append_eq_append_conv2)
  then show ?thesis
  proof cases
    case later
    show ?thesis
    proof (rule piece_ofI)
      show "?c = [] @ ?c" "t = (u @ l2) @ ?c @ v" by (simp_all add: g(2) later)
      show "list_all is_space (u @ l2)" using g(4) lv(2) boundary_spaces by (simp add: later)
    qed (use lv(3) in simp_all)
  next
    case earlier
    then consider (all) z where "w2 = ?c @ z" "v = z @ b" | (some) b1 where "?c = w2 @ b1" "b = b1 @ v"
      unfolding append_eq_append_conv2 by metis
    then show ?thesis
    proof cases
      case all
      have "?c = ?c @ []" "t = u @ [] @ b" by (simp_all add: g(2))
      moreover have "list_all is_space ?c" using g(3) earlier(1) all(1) by (metis list_all_append)
      moreover have "list_all is_boundary b" using lv(3) by (simp add: all(2))
      ultimately show ?thesis unfolding piece_of_def using g(4) by blast
    next
      case some
      have "t = u @ b1 @ v" by (simp add: g(2) some(2))
      moreover have "list_all is_space w2" using g(3) by (simp add: earlier(1))
      ultimately show ?thesis unfolding piece_of_def using g(4) lv(3) some(1) by blast
    qed
  qed
qed

subsection \<open>One command per segment\<close>

text \<open>
  A reference for where a command ends: the quotes and the escape a reader is in after a text, whether the
  last byte was \<open>>\<close>, and whether an operator or a line break was outside of quotes.  (An \<open>&\<close> right after \<open>>\<close> belongs to a
  redirection.)
\<close>

record scan =
  sc_single :: bool
  sc_double :: bool
  sc_escaped :: bool
  sc_redirect :: bool
  sc_operator :: bool

definition scan_start :: scan where
  "scan_start = \<lparr>sc_single = False, sc_double = False, sc_escaped = False, sc_redirect = False, sc_operator = False\<rparr>"

definition scan_byte :: "scan \<Rightarrow> char \<Rightarrow> scan" where
  "scan_byte r c =
     (let r' = r\<lparr>sc_redirect := (c = CHR ''>'')\<rparr> in
      if sc_escaped r then r'\<lparr>sc_escaped := False\<rparr>
      else if sc_single r then r'\<lparr>sc_single := (c \<noteq> SQUOTE)\<rparr>
      else if c = BSLASH then r'\<lparr>sc_escaped := True\<rparr>
      else if sc_double r then r'\<lparr>sc_double := (c \<noteq> DQUOTE)\<rparr>
      else r'\<lparr>sc_single := (c = SQUOTE), sc_double := (c = DQUOTE),
             sc_operator := sc_operator r \<or> c = LF \<or> c = CR \<or> c = CHR ''|'' \<or> c = CHR '';''
               \<or> c = CHR ''&'' \<and> \<not> sc_redirect r\<rparr>)"

definition scanned :: "string \<Rightarrow> scan" where
  "scanned s = foldl scan_byte scan_start s"

text \<open>The text is one command: no operator outside of quotes, and every quote and escape is complete.\<close>

definition one_command :: "string \<Rightarrow> bool" where
  "one_command s \<longleftrightarrow> \<not> sc_operator (scanned s) \<and> \<not> sc_single (scanned s) \<and> \<not> sc_double (scanned s) \<and> \<not> sc_escaped (scanned s)"

lemma scanned_snoc: "scanned (s @ [c]) = scan_byte (scanned s) c"
  by (simp add: scanned_def)

lemma scanned_Nil: "scanned [] = scan_start"
  by (simp add: scanned_def)

lemma scanned_redirect: "sc_redirect (scanned s) \<longleftrightarrow> s \<noteq> [] \<and> last s = CHR ''>''"
  by (induction s rule: rev_induct) (auto simp: scanned_Nil scan_start_def scanned_snoc scan_byte_def Let_def)

lemma operator_stays: "sc_operator r \<Longrightarrow> sc_operator (foldl scan_byte r s)"
  by (induction s arbitrary: r) (simp_all add: scan_byte_def Let_def)

lemma scan_blanks:
  "list_all is_boundary l \<Longrightarrow> \<not> sc_operator (foldl scan_byte scan_start l) \<Longrightarrow> foldl scan_byte scan_start l = scan_start"
proof (induction l)
  case (Cons c l)
  have "sc_operator (scan_byte scan_start c) \<or> scan_byte scan_start c = scan_start"
    using Cons.prems(1) by (auto simp: boundary_ws_def scan_byte_def scan_start_def Let_def)
  with Cons operator_stays show ?case by auto
qed simp

lemma scan_boundary_quotes:
  "list_all is_boundary v \<Longrightarrow> sc_single (foldl scan_byte r v) = sc_single r \<and> sc_double (foldl scan_byte r v) = sc_double r"
proof (induction v arbitrary: r)
  case (Cons c v)
  then show ?case by (auto simp: boundary_ws_def scan_byte_def Let_def)
qed simp

lemma escaped_parity:
  "\<not> sc_single (scanned s) \<Longrightarrow> sc_escaped (scanned s) \<longleftrightarrow> odd (length (takeWhile (\<lambda>d. d = BSLASH) (rev s)))"
proof (induction s rule: rev_induct)
  case (snoc c s)
  then show ?case by (auto simp: scanned_snoc scan_byte_def Let_def split: if_splits)
qed (simp add: scanned_Nil scan_start_def)

lemma one_command_trim:
  assumes "one_command s"
  shows "one_command (trimShellBoundaryWhitespace s)"
proof -
  let ?c = "trimShellBoundaryWhitespace s"
  obtain l v where lv: "s = l @ ?c @ v" "list_all is_boundary l" "list_all is_boundary v"
    "v \<noteq> [] \<longrightarrow> even (length (takeWhile (\<lambda>d. d = BSLASH) (rev ?c)))" by (rule trim_split)
  have none: "\<not> sc_operator (scanned s)" using assms by (simp add: one_command_def)
  have whole: "scanned s = foldl scan_byte (foldl scan_byte (foldl scan_byte scan_start l) ?c) v"
    unfolding scanned_def by (subst lv(1)) simp
  have "\<not> sc_operator (foldl scan_byte scan_start l)"
    using none operator_stays unfolding whole by blast
  then have start: "scanned s = foldl scan_byte (scanned ?c) v"
    using whole scan_blanks [OF lv(2)] by (simp add: scanned_def)
  have "\<not> sc_operator (scanned ?c)" using none operator_stays unfolding start by blast
  moreover have quotes: "\<not> sc_single (scanned ?c)" "\<not> sc_double (scanned ?c)"
    using assms scan_boundary_quotes [OF lv(3), of "scanned ?c"] by (simp_all add: one_command_def start)
  moreover have "\<not> sc_escaped (scanned ?c)"
    using lv(4) escaped_parity [OF quotes(1)] assms start by (cases "v = []") (auto simp: one_command_def)
  ultimately show ?thesis by (simp add: one_command_def)
qed

definition has_heredoc :: "string \<Rightarrow> bool" where
  "has_heredoc s \<longleftrightarrow> Contains s ''<<''"

lemma has_heredoc_append [simp]: "has_heredoc s \<Longrightarrow> has_heredoc (s @ t)" "has_heredoc t \<Longrightarrow> has_heredoc (s @ t)"
  by (simp_all add: has_heredoc_def Contains_def sublist_append)

lemma has_heredoc_twice [simp]: "has_heredoc s \<Longrightarrow> has_heredoc (s @ [c, d])"
  by simp

lemma has_heredoc_parsed: "parseQuotedHeredoc s = Inr (h, rest) \<Longrightarrow> has_heredoc h"
  using parseQuotedHeredoc_split(3) [of s h rest] sublist_take [of 2 h] by (simp add: has_heredoc_def Contains_def)

lemma has_heredoc_trim:
  assumes "has_heredoc s"
  shows "has_heredoc (trimShellBoundaryWhitespace s)"
proof -
  from assms obtain xs ys where s: "s = xs @ ''<<'' @ ys" by (auto simp: has_heredoc_def Contains_def sublist_def)
  have "\<exists>zs. TrimLeft s boundary_ws = zs @ ''<<'' @ ys"
  proof (cases "list_all is_boundary xs")
    case True
    then have "TrimLeft s boundary_ws = [] @ ''<<'' @ ys"
      unfolding TrimLeft_def s by (subst dropWhile_append2) (auto simp: list_all_iff boundary_ws_def)
    then show ?thesis ..
  next
    case False
    then obtain x where "x \<in> set xs" "\<not> is_boundary x" by (auto simp: list_all_iff)
    then have "TrimLeft s boundary_ws = dropWhile is_boundary xs @ ''<<'' @ ys"
      unfolding TrimLeft_def s by (rule dropWhile_append1)
    then show ?thesis ..
  qed
  then have "Contains (TrimLeft s boundary_ws) ''<<''" by (auto simp: Contains_def sublist_def)
  then show ?thesis by (simp add: trimShellBoundaryWhitespace_def Let_def has_heredoc_def)
qed

text \<open>The parser is in the quotes the reference is in, as long as no heredoc is in the segment.\<close>

definition scans :: "parse_state \<Rightarrow> bool" where
  "scans st \<longleftrightarrow> ps_heredoc st \<and> has_heredoc (ps_current st)
     \<or> \<not> ps_heredoc st \<and> scanned (ps_current st) = \<lparr>sc_single = ps_single st, sc_double = ps_double st, sc_escaped = ps_escaped st,
          sc_redirect = (ps_current st \<noteq> [] \<and> last (ps_current st) = CHR ''>''), sc_operator = False\<rparr>"

lemma scans_init: "scans parse_init"
  by (simp add: scans_def parse_init_def scanned_Nil scan_start_def)

lemma scans_flush:
  assumes "flush op st = Inr st'" "op \<noteq> []" "\<not> (ps_escaped st \<or> ps_single st \<or> ps_double st)"
  shows "scans st'"
  using assms by (auto simp: flush_def Let_def scans_def scanned_Nil scan_start_def split: if_splits)

lemma step_quoted_scans:
  assumes "step_quoted ch rest st = Inr (st', rest')" "scans st" "ps_escaped st \<or> ps_single st \<or> ps_double st"
  shows "scans st'"
proof (cases "ps_heredoc st")
  case True
  then have "has_heredoc (ps_current st)" using assms(2) by (simp add: scans_def)
  with True assms(1) show ?thesis by (auto simp: step_quoted_def write_byte_def scans_def Let_def split: if_splits)
next
  case False
  with assms(2) have sc: "scanned (ps_current st) = \<lparr>sc_single = ps_single st, sc_double = ps_double st,
      sc_escaped = ps_escaped st, sc_redirect = (ps_current st \<noteq> [] \<and> last (ps_current st) = CHR ''>''), sc_operator = False\<rparr>"
    by (simp add: scans_def)
  have snoc: "scanned (ps_current st @ [x]) = scan_byte (scanned (ps_current st)) x" for x by (rule scanned_snoc)
  from False assms(1,3) show ?thesis
    by (simp add: step_quoted_def write_byte_def Let_def split: if_splits)
      (auto simp: scans_def snoc sc scan_byte_def)
qed

text \<open>What a byte outside of quotes does to the current segment.\<close>

lemma step_plain_writes:
  assumes "step_plain ch rest st = Inr (st', rest')"
  obtains (same) "st' = st" | (closed) op where "flush op st = Inr st'" "op \<noteq> []" | (heredoc) "ps_heredoc st'" "has_heredoc (ps_current st')"
    | (twice) "ch = CHR ''>''" "st' = write_byte ch (write_byte ch st)"
    | (escape) "ch = BSLASH" "st' = (write_byte ch st)\<lparr>ps_escaped := True\<rparr>"
    | (single) "ch = SQUOTE" "st' = (write_byte ch st)\<lparr>ps_single := True\<rparr>"
    | (double) "ch = DQUOTE" "st' = (write_byte ch st)\<lparr>ps_double := True\<rparr>"
    | (written) "st' = write_byte ch st" "ch \<notin> {LF, CR, CHR ''|'', CHR '';'', BSLASH, SQUOTE, DQUOTE}"
        "ch = CHR ''&'' \<longrightarrow> ps_current st \<noteq> [] \<and> last (ps_current st) = CHR ''>''"
proof -
  have next_D: "next_is c xs \<Longrightarrow> hd xs = c" for c xs by (cases xs) auto
  consider "ch = LF \<or> ch = CR" | "ch = CHR ''>''" | "ch = CHR ''<''" | "ch = CHR ''|''" | "ch = CHR ''&''" | "ch = CHR '';''"
    | "ch = BSLASH" | "ch = SQUOTE" | "ch = DQUOTE"
    | (other) "ch \<noteq> LF" "ch \<noteq> CR" "ch \<noteq> CHR ''>''" "ch \<noteq> CHR ''<''" "ch \<noteq> CHR ''|''" "ch \<noteq> CHR ''&''" "ch \<noteq> CHR '';''"
        "ch \<noteq> BSLASH" "ch \<noteq> SQUOTE" "ch \<noteq> DQUOTE" by argo
  then show thesis
  proof cases
    case 1
    with assms same closed [of "[LF]"] show thesis
      by (auto simp: step_plain_def Let_def flush_then_iff split: if_splits)
  next
    case 2
    with assms twice written next_D show thesis by (auto simp: step_plain_def split: if_splits)
  next
    case 3
    with assms heredoc written has_heredoc_parsed show thesis
      by (auto simp: step_plain_def split: if_splits sum.splits)
  next
    case 4
    with assms closed [of "''|''"] closed [of "''||''"] show thesis
      by (auto simp: step_plain_def flush_then_iff split: if_splits)
  next
    case 5
    with assms closed [of "''&&''"] written show thesis
      by (auto simp: step_plain_def flush_then_iff split: if_splits)
  next
    case 6
    with assms closed [of "'';''"] show thesis by (simp add: step_plain_def flush_then_iff)
  next
    case 7
    with assms escape show thesis by (simp add: step_plain_def)
  next
    case 8
    with assms single show thesis by (simp add: step_plain_def)
  next
    case 9
    with assms double show thesis by (simp add: step_plain_def)
  next
    case other
    with assms written show thesis by (simp add: step_plain_def split: if_splits)
  qed
qed

lemma step_plain_scans:
  assumes "step_plain ch rest st = Inr (st', rest')" "scans st" "\<not> (ps_escaped st \<or> ps_single st \<or> ps_double st)"
  shows "scans st'"
  using assms(1)
proof (cases rule: step_plain_writes)
  case (closed op)
  then show ?thesis using scans_flush assms(3) by blast
next
  case same
  then show ?thesis using assms(2) by simp
next
  case heredoc
  then show ?thesis by (simp add: scans_def)
next
  case twice
  have "scanned (ps_current st @ [ch, ch]) = scan_byte (scan_byte (scanned (ps_current st)) ch) ch"
    by (simp add: scanned_def)
  with twice assms(2,3) show ?thesis
    by (cases "ps_heredoc st") (simp_all add: scans_def write_byte_def scan_byte_def Let_def)
next
  case written
  with assms(2,3) show ?thesis
    by (cases "ps_heredoc st") (simp_all add: scans_def write_byte_def scanned_snoc scan_byte_def Let_def)
next
  case escape
  with assms(2,3) show ?thesis
    by (cases "ps_heredoc st") (simp_all add: scans_def write_byte_def scanned_snoc scan_byte_def Let_def)
next
  case single
  with assms(2,3) show ?thesis
    by (cases "ps_heredoc st") (simp_all add: scans_def write_byte_def scanned_snoc scan_byte_def Let_def)
next
  case double
  with assms(2,3) show ?thesis
    by (cases "ps_heredoc st") (simp_all add: scans_def write_byte_def scanned_snoc scan_byte_def Let_def)
qed

lemma parse_step_scans:
  "scans st \<Longrightarrow> parse_step ch rest st = Inr (st', rest') \<Longrightarrow> scans st'"
  using step_quoted_scans step_plain_scans by (auto simp: parse_step_def split: if_splits)

text \<open>
  The invariant of the loop over the input \<open>s\<close> still to be read: what was read is the pieces of the segments, the
  operators, and the text \<open>t\<close> of the current segment; every segment is one command or has a heredoc.
\<close>

definition segment_ok :: "shell_segment \<Rightarrow> bool" where
  "segment_ok sg \<longleftrightarrow> seg_Command sg \<noteq> []
     \<and> (if seg_Heredoc sg then has_heredoc (seg_Command sg) else one_command (seg_Command sg))"

definition parse_inv :: "string \<Rightarrow> parse_state \<Rightarrow> string \<Rightarrow> bool" where
  "parse_inv cmd st s \<longleftrightarrow> scans st \<and> list_all segment_ok (ps_Segments st) \<and> length (ps_Segments st) = length (ps_Operators st)
     \<and> (\<exists>ts us t. cmd = weave ts us @ t @ s \<and> growing (ps_current st) t
          \<and> list_all2 piece_of (map seg_Command (ps_Segments st)) ts \<and> list_all2 operator_text (ps_Operators st) us)"

lemma parse_invI:
  assumes "scans st" "list_all segment_ok (ps_Segments st)" "length (ps_Segments st) = length (ps_Operators st)"
    and "growing (ps_current st) t" "list_all2 piece_of (map seg_Command (ps_Segments st)) ts"
    and "list_all2 operator_text (ps_Operators st) us" "cmd = weave ts us @ t @ s"
  shows "parse_inv cmd st s"
  unfolding parse_inv_def using assms by blast

lemma closed_segment_ok:
  assumes "scans st" "\<not> ps_escaped st" "\<not> ps_single st" "\<not> ps_double st"
    and "seg_Command sg = trimShellBoundaryWhitespace (ps_current st)" "seg_Command sg \<noteq> []" "seg_Heredoc sg = ps_heredoc st"
  shows "segment_ok sg"
proof -
  have "if ps_heredoc st then has_heredoc (ps_current st) else one_command (ps_current st)"
    using assms(1-4) by (auto simp: scans_def one_command_def)
  with one_command_trim has_heredoc_trim assms(5-7) show ?thesis by (simp add: segment_ok_def split: if_splits)
qed

lemma growing_append: "growing cur t \<Longrightarrow> growing (cur @ x) (t @ x)"
  unfolding growing_def by (metis append_assoc)

lemma growing_blank:
  assumes "growing cur t" "list_all is_space cur" "list_all is_boundary x"
  shows "growing cur (t @ x)"
proof -
  from assms(1) obtain w u b where g: "cur = w @ b" "t = u @ b" "list_all is_space w" "list_all is_space u"
    by (auto simp: growing_def)
  show ?thesis
  proof (rule growingI)
    show "cur = cur @ []" "t @ x = (t @ x) @ []" by simp_all
    show "list_all is_space (t @ x)" using g assms(2) boundary_spaces [OF assms(3)] by simp
  qed (rule assms(2))
qed

lemma flush_plain:
  "parse_step ch rest st = Inr (st', rest') \<Longrightarrow> flush op st = Inr st' \<Longrightarrow> op \<noteq> [] \<Longrightarrow>
   \<not> ps_escaped st \<and> \<not> ps_single st \<and> \<not> ps_double st"
  using flush_current [of op st st'] flush_modes_kept [of op st st']
  by (auto simp: parse_step_def step_quoted_def write_byte_def Let_def split: if_splits)

lemma parse_inv_step:
  assumes "parse_inv cmd st (ch # rest)" "parse_step ch rest st = Inr (st', rest')"
  shows "parse_inv cmd st' rest'"
proof -
  from assms(1) obtain ts us t where inv: "scans st" "list_all segment_ok (ps_Segments st)"
    "length (ps_Segments st) = length (ps_Operators st)" "cmd = weave ts us @ t @ ch # rest" "growing (ps_current st) t"
    "list_all2 piece_of (map seg_Command (ps_Segments st)) ts" "list_all2 operator_text (ps_Operators st) us"
    by (auto simp: parse_inv_def)
  have scans: "scans st'" using parse_step_scans inv(1) assms(2) .
  show ?thesis
    using assms(2)
  proof (cases rule: parse_step_cases)
    case (grow u)
    have "cmd = weave ts us @ (t @ u) @ rest'" using inv(4) grow(1) by simp
    with scans inv grow growing_append show ?thesis unfolding parse_inv_def by metis
  next
    case (skip u)
    have "cmd = weave ts us @ (t @ u) @ rest'" using inv(4) skip(1) by simp
    with inv skip growing_blank [OF inv(5) skip(4,2)] show ?thesis unfolding parse_inv_def by blast
  next
    case (close op u)
    have ne: "op \<noteq> []" using close(2) by (auto simp: operator_text_def)
    from close(3) obtain sg where sg: "seg_Command sg = trimShellBoundaryWhitespace (ps_current st)"
      "seg_Command sg \<noteq> []" "seg_Heredoc sg = ps_heredoc st" and st': "ps_Segments st' = ps_Segments st @ [sg]"
      "ps_Operators st' = ps_Operators st @ [op]" "ps_current st' = []"
      by (rule flush_cases) (use ne in auto)
    have "segment_ok sg" using closed_segment_ok flush_plain [OF assms(2) close(3) ne] inv(1) sg by blast
    moreover have "piece_of (seg_Command sg) t" using piece_of_growing [OF inv(5)] by (simp add: sg(1))
    moreover have "cmd = weave (ts @ [t]) (us @ [u]) @ [] @ rest'"
      using inv(3,4) close(1) list_all2_lengthD [OF inv(6)] list_all2_lengthD [OF inv(7)] by (simp add: weave_snoc)
    moreover have "growing [] []" by (simp add: growing_def)
    ultimately show ?thesis
      using scans inv close(2)
      by (intro parse_invI [of st' "[]" "ts @ [t]" "us @ [u]"]) (simp_all add: st' list_all2_appendI)
  qed
qed

lemma ParseShellCommand_cases:
  assumes "ParseShellCommand command = Inr p"
  obtains st sg where "parse_loop (trimShellBoundaryWhitespace command) parse_init = Inr st"
    "\<not> ps_escaped st" "\<not> ps_single st" "\<not> ps_double st"
    "parse_inv (trimShellBoundaryWhitespace command) st []"
    "parsed_Segments p = ps_Segments st @ [sg]" "parsed_Operators p = ps_Operators st"
    "seg_Command sg = trimShellBoundaryWhitespace (ps_current st)" "seg_Command sg \<noteq> []" "seg_Heredoc sg = ps_heredoc st"
proof -
  let ?cmd = "trimShellBoundaryWhitespace command"
  from assms obtain st st' where st: "parse_loop ?cmd parse_init = Inr st"
      "\<not> ps_escaped st" "\<not> ps_single st" "\<not> ps_double st"
    and fl: "flush [] st = Inr st'" and len: "length (ps_Operators st') < length (ps_Segments st')"
    and p: "p = \<lparr>parsed_Segments = ps_Segments st', parsed_Operators = ps_Operators st'\<rparr>"
    by (auto simp: ParseShellCommand_def Let_def split: if_splits sum.splits)
  have inv: "parse_inv ?cmd st []"
  proof (rule parse_loop_invariant [OF _ st(1), of "parse_inv ?cmd"])
    have "growing [] []" by (simp add: growing_def)
    then show "parse_inv ?cmd parse_init ?cmd"
      unfolding parse_inv_def using scans_init
      by (intro conjI exI [of _ "[]"]) (simp_all add: parse_init_def)
  qed (rule parse_inv_step)
  from fl show thesis
  proof (cases rule: flush_cases)
    case keep
    with inv len show thesis by (simp add: parse_inv_def)
  next
    case (close sg)
    with st inv p that [of st sg] show thesis by simp
  qed
qed

text \<open>
  C8: Parsing cuts a command at its operators and nowhere else.  An accepted command is, apart from white space at its
  ends, the texts of its segments and operators one after the other: each segment's command stands in the command
  as it is, with its blanks, and only white space around it is left out; each operator is where it was
  found, one between each two neighbours.  No segment is empty, and a segment without a heredoc is one command: it has no
  operator or line break outside of quotes, and its quotes and escapes are complete; one with a heredoc contains \<open><<\<close>.
\<close>

theorem ParseShellCommand_conserves:
  assumes "ParseShellCommand command = Inr p"
  shows "(\<exists>l ts us v. command = l @ weave ts us @ v \<and> list_all is_boundary l \<and> list_all is_boundary v
       \<and> list_all2 piece_of (map seg_Command (parsed_Segments p)) ts \<and> list_all2 operator_text (parsed_Operators p) us)
    \<and> length (parsed_Segments p) = length (parsed_Operators p) + 1
    \<and> (\<forall>sg \<in> set (parsed_Segments p). seg_Command sg \<noteq> []
         \<and> (if seg_Heredoc sg then Contains (seg_Command sg) ''<<'' else one_command (seg_Command sg)))"
proof -
  from assms obtain st sg where p: "\<not> ps_escaped st" "\<not> ps_single st" "\<not> ps_double st"
    "parse_inv (trimShellBoundaryWhitespace command) st []"
    "parsed_Segments p = ps_Segments st @ [sg]" "parsed_Operators p = ps_Operators st"
    "seg_Command sg = trimShellBoundaryWhitespace (ps_current st)" "seg_Command sg \<noteq> []" "seg_Heredoc sg = ps_heredoc st"
    by (rule ParseShellCommand_cases)
  from p(4) obtain ts us t where inv: "scans st" "list_all segment_ok (ps_Segments st)"
    "length (ps_Segments st) = length (ps_Operators st)" "trimShellBoundaryWhitespace command = weave ts us @ t"
    "growing (ps_current st) t" "list_all2 piece_of (map seg_Command (ps_Segments st)) ts"
    "list_all2 operator_text (ps_Operators st) us"
    by (auto simp: parse_inv_def)
  have "segment_ok sg" using closed_segment_ok inv(1) p by blast
  then have ok: "list_all segment_ok (parsed_Segments p)" using inv(2) by (simp add: p)
  have "trimShellBoundaryWhitespace command = weave (ts @ [t]) us"
    using inv(3,4) list_all2_lengthD [OF inv(6)] list_all2_lengthD [OF inv(7)] by (simp add: weave_snoc)
  moreover have "list_all2 piece_of (map seg_Command (parsed_Segments p)) (ts @ [t])"
    using inv(6) piece_of_growing [OF inv(5)] by (simp add: p list_all2_appendI)
  moreover obtain l v where "command = l @ trimShellBoundaryWhitespace command @ v" "list_all is_boundary l" "list_all is_boundary v"
    by (rule trim_split)
  ultimately have "\<exists>l ts us v. command = l @ weave ts us @ v \<and> list_all is_boundary l \<and> list_all is_boundary v
       \<and> list_all2 piece_of (map seg_Command (parsed_Segments p)) ts \<and> list_all2 operator_text (parsed_Operators p) us"
    using inv(7) p(6) by metis
  moreover have "length (parsed_Segments p) = length (parsed_Operators p) + 1" using inv(3) by (simp add: p)
  moreover have "\<forall>sg \<in> set (parsed_Segments p). seg_Command sg \<noteq> []
      \<and> (if seg_Heredoc sg then Contains (seg_Command sg) ''<<'' else one_command (seg_Command sg))"
    using ok unfolding list_all_iff segment_ok_def [abs_def] has_heredoc_def by blast
  ultimately show ?thesis by blast
qed

definition quoted_example :: string where
  "quoted_example = ''rm -rf x | echo '' @ [DQUOTE] @ ''a; b'' @ [DQUOTE]"

lemma quoted_example_parsed:
  "map_sum (\<lambda>_. ()) (\<lambda>p. (map seg_Command (parsed_Segments p), parsed_Operators p)) (ParseShellCommand quoted_example) =
     Inr ([''rm -rf x'', ''echo '' @ [DQUOTE] @ ''a; b'' @ [DQUOTE]], [''|''])"
  by code_simp

theorem ParseShellCommand_conserves_witness:
  "\<exists>l ts us v. quoted_example = l @ weave ts us @ v \<and> list_all is_boundary l \<and> list_all is_boundary v
     \<and> list_all2 piece_of [''rm -rf x'', ''echo '' @ [DQUOTE] @ ''a; b'' @ [DQUOTE]] ts \<and> list_all2 operator_text [''|''] us"
proof -
  obtain p where p: "ParseShellCommand quoted_example = Inr p"
    "map seg_Command (parsed_Segments p) = [''rm -rf x'', ''echo '' @ [DQUOTE] @ ''a; b'' @ [DQUOTE]]" "parsed_Operators p = [''|'']"
    using quoted_example_parsed by (cases "ParseShellCommand quoted_example") auto
  show ?thesis using ParseShellCommand_conserves [OF p(1), THEN conjunct1] unfolding p(2,3) .
qed

section \<open>No substitution survives parsing\<close>

text \<open>
  What the parser must refuse, in its own reading of quotes: does a command or process
  substitution start somewhere in \<open>s\<close>, when it enters \<open>s\<close> inside single quotes (\<open>sq\<close>), inside double
  quotes (\<open>dq\<close>) or after a backslash (\<open>esc\<close>)?  The two bytes of an append operator are one token.
\<close>

fun opens_substitution :: "bool \<Rightarrow> bool \<Rightarrow> bool \<Rightarrow> string \<Rightarrow> bool" where
  "opens_substitution sq dq esc [] = False"
| "opens_substitution sq dq esc (c # s) =
     (if esc then opens_substitution sq dq False s
      else if sq then opens_substitution (c \<noteq> SQUOTE) dq False s
      else if c = BTICK \<or> (c = CHR ''$'' \<and> next_is CHR ''('' s) then True
      else if c = BSLASH then opens_substitution sq dq True s
      else if dq then opens_substitution sq (c \<noteq> DQUOTE) False s
      else if (c = CHR ''<'' \<or> c = CHR ''>'') \<and> next_is CHR ''('' s then True
      else if c = CHR ''>'' \<and> next_is CHR ''>'' s then
        (case s of [] \<Rightarrow> False | d # s' \<Rightarrow> opens_substitution sq dq False s')
      else opens_substitution (c = SQUOTE) (c = DQUOTE) False s)"

abbreviation opens_from :: "parse_state \<Rightarrow> string \<Rightarrow> bool" where
  "opens_from st s \<equiv> opens_substitution (ps_single st) (ps_double st) (ps_escaped st) s"

lemmas opens_Cons = opens_substitution.simps(2)
declare opens_Cons [simp del]

lemma opens_plain_byte:
  "c \<in> {SPC, TAB, LF, CR, CHR ''|'', CHR ''&'', CHR '';''} \<Longrightarrow>
   opens_substitution False False False (c # s) = opens_substitution False False False s"
  by (elim insertE emptyE) (simp_all add: opens_Cons)

lemma opens_other_byte:
  "c \<noteq> BTICK \<Longrightarrow> c \<noteq> CHR ''$'' \<or> \<not> next_is CHR ''('' s \<Longrightarrow> c \<noteq> BSLASH \<Longrightarrow>
   c \<noteq> CHR ''<'' \<and> c \<noteq> CHR ''>'' \<or> \<not> next_is CHR ''('' s \<Longrightarrow>
   c \<noteq> CHR ''>'' \<or> \<not> next_is CHR ''>'' s \<Longrightarrow>
   opens_substitution False False False (c # s)
     = opens_substitution (c = SQUOTE) (c = DQUOTE) False s"
  by (auto simp: opens_Cons)

lemma flush_modes:
  "flush op st = Inr st' \<Longrightarrow>
   ps_single st' = ps_single st \<and> ps_double st' = ps_double st \<and> ps_escaped st' = ps_escaped st"
  by (auto simp: flush_def Let_def split: if_splits)

lemma step_quoted_opens:
  assumes "step_quoted ch rest st = Inr (st', rest')" "ps_escaped st \<or> ps_single st \<or> ps_double st"
  shows "opens_from st (ch # rest) = opens_from st' rest'"
proof (cases "ps_escaped st")
  case True
  with assms show ?thesis
    by (simp add: step_quoted_def write_byte_def opens_Cons split: if_splits) auto
next
  case esc: False
  show ?thesis
  proof (cases "ps_single st")
    case True
    with assms(1) esc show ?thesis
      by (cases "ch = SQUOTE") (auto simp: step_quoted_def write_byte_def opens_Cons Let_def)
  next
    case False
    with assms(2) esc have "ps_double st" by simp
    with assms(1) esc False show ?thesis
      by (simp add: step_quoted_def write_byte_def opens_Cons split: if_splits) auto
  qed
qed

lemma step_plain_opens:
  assumes "step_plain ch rest st = Inr (st', rest')" "\<not> (ps_escaped st \<or> ps_single st \<or> ps_double st)"
    and "\<not> (ch = CHR ''<'' \<and> next_is CHR ''<'' rest)"
  shows "opens_from st (ch # rest) = opens_from st' rest'"
proof -
  note p = assms(1) and modes = assms(2)
  have next_D: "next_is c xs \<Longrightarrow> \<exists>r. xs = c # r" for c xs by (cases xs) auto
  have flat: "opens_from st' r = opens_substitution False False False r" if "flush op st = Inr st'" for op r
    using flush_modes [OF that] modes by simp
  consider "ch = LF \<or> ch = CR" | "ch = CHR ''|'' \<or> ch = CHR ''&'' \<or> ch = CHR '';''"
    | "ch = BSLASH" | "ch = CHR ''>'' \<and> next_is CHR ''>'' rest"
    | (other) "ch \<noteq> LF" "ch \<noteq> CR" "ch \<noteq> CHR ''|''" "ch \<noteq> CHR ''&''" "ch \<noteq> CHR '';''" "ch \<noteq> BSLASH"
        "\<not> (ch = CHR ''>'' \<and> next_is CHR ''>'' rest)"
    by blast
  then show ?thesis
  proof cases
    case 1
    define rest1 where "rest1 = (if ch = CR \<and> next_is LF rest then tl rest else rest)"
    have "rest' = rest1 \<and> (st' = st \<or> flush [LF] st = Inr st')"
      using p 1 by (auto simp: step_plain_def Let_def flush_then_iff rest1_def split: if_splits)
    then have "rest' = rest1" "opens_from st' rest1 = opens_substitution False False False rest1"
      using flat modes by auto
    moreover have "opens_substitution False False False (ch # rest) = opens_substitution False False False rest1"
      using 1 next_D [of LF rest] by (auto simp: rest1_def opens_plain_byte)
    ultimately show ?thesis using modes by simp
  next
    case 2
    have step: "(rest' = rest \<or> (next_is ch rest \<and> rest' = tl rest)) \<and>
        (st' = write_byte ch st \<or> (\<exists>op. flush op st = Inr st'))"
      using p 2 by (elim disjE) (auto simp: step_plain_def flush_then_iff split: if_splits)
    then have single: "rest' = rest \<or> (next_is ch rest \<and> rest' = tl rest)" by blast
    moreover have "opens_from st' rest' = opens_substitution False False False rest'"
      using step modes flat by (auto simp: write_byte_def)
    moreover have "opens_substitution False False False (ch # rest) = opens_substitution False False False rest'"
      using 2 single by (auto simp: opens_plain_byte dest!: next_D)
    ultimately show ?thesis using modes by simp
  next
    case 3
    with p modes show ?thesis by (auto simp: step_plain_def write_byte_def opens_Cons)
  next
    case 4
    with p modes show ?thesis
      by (cases rest) (auto simp: step_plain_def write_byte_def opens_Cons)
  next
    case other
    have ok: "ch \<noteq> BTICK" "ch \<noteq> CHR ''$'' \<or> \<not> next_is CHR ''('' rest"
      "ch \<noteq> CHR ''<'' \<and> ch \<noteq> CHR ''>'' \<or> \<not> next_is CHR ''('' rest"
      using p by (auto simp: step_plain_def)
    have st': "rest' = rest \<and> st' = (if ch = SQUOTE then (write_byte ch st)\<lparr>ps_single := True\<rparr>
        else if ch = DQUOTE then (write_byte ch st)\<lparr>ps_double := True\<rparr> else write_byte ch st)"
    proof (cases "ch = SQUOTE \<or> ch = DQUOTE")
      case True
      with p show ?thesis by (elim disjE) (simp_all add: step_plain_def)
    next
      case False
      with p other ok(1) assms(3) show ?thesis by (simp add: step_plain_def split: if_splits)
    qed
    then have "rest' = rest" "ps_single st' = (ch = SQUOTE)" "ps_double st' = (ch = DQUOTE)" "\<not> ps_escaped st'"
      using modes by (simp_all add: write_byte_def)
    with ok other modes show ?thesis by (simp add: opens_other_byte)
  qed
qed

lemma suffix_trim_trailing: "suffix (trim_trailing s) s"
  by (induction s rule: trim_trailing.induct) (auto simp: suffix_ConsI)

lemma sublist_trim: "sublist (trimShellBoundaryWhitespace s) s"
proof -
  have "sublist (TrimLeft s boundary_ws) s"
    unfolding TrimLeft_def by (intro suffix_imp_sublist suffix_dropWhile)
  moreover have "sublist (rev (trim_trailing (rev t))) t" for t
    using suffix_trim_trailing [of "rev t"]
    by (metis prefix_imp_sublist rev_rev_ident suffix_to_prefix)
  ultimately show ?thesis
    by (auto simp: trimShellBoundaryWhitespace_def Let_def intro: sublist_order.order.trans)
qed

lemma next_is_Contains: "next_is c rest \<Longrightarrow> Contains (d # rest) [d, c]"
  by (cases rest) (auto simp: Contains_def sublist_Cons_right)

lemma parse_loop_opens:
  "parse_loop s st = Inr st' \<Longrightarrow> \<not> Contains s ''<<'' \<Longrightarrow> \<not> opens_from st s"
proof (induction s st rule: parse_loop.induct)
  case (2 ch rest st)
  then obtain st1 rest1 where s: "parse_step ch rest st = Inr (st1, rest1)"
    and l: "parse_loop rest1 st1 = Inr st'"
    by (auto split: sum.splits)
  from s obtain u where u: "ch # rest = u @ rest1"
    by (cases rule: parse_step_cases) auto
  have "\<not> Contains rest1 ''<<''"
    using "2.prems"(2) unfolding u Contains_def by (auto intro: sublist_appendI dest: sublist_order.order.trans)
  then have IH: "\<not> opens_from st1 rest1" using "2.IH" [OF s refl l] by simp
  have "\<not> (ch = CHR ''<'' \<and> next_is CHR ''<'' rest)"
    using "2.prems"(2) next_is_Contains by blast
  with s have "opens_from st (ch # rest) = opens_from st1 rest1"
    using step_quoted_opens step_plain_opens by (auto simp: parse_step_def split: if_splits)
  with IH show ?case by simp
qed simp

text \<open>
  How \<open>sh\<close> reads the text of a command without a heredoc, as POSIX.1-2024 has it, up to the first construct that matters:
  a substitution outside of single quotes, or one of the two constructs the parser does not know, a comment (a \<open>#\<close> at
  the start of a word) and a quotation opened by a dollar sign and a single quote, in which a backslash escapes.  \<open>word\<close>
  says that a word may start.
\<close>

datatype sh_construct = Substitution | Comment | DollarQuote

definition ends_word :: "char \<Rightarrow> bool" where
  "ends_word c \<longleftrightarrow> List.member ([SPC, TAB, LF, CR] @ ''|&;<>()'') c"

fun sh_first :: "bool \<Rightarrow> bool \<Rightarrow> bool \<Rightarrow> bool \<Rightarrow> string \<Rightarrow> sh_construct option" where
  "sh_first sq dq esc word [] = None"
| "sh_first sq dq esc word (c # s) =
     (if esc then sh_first sq dq False False s
      else if sq then sh_first (c \<noteq> SQUOTE) dq False False s
      else if c = BTICK \<or> (c = CHR ''$'' \<and> next_is CHR ''('' s) then Some Substitution
      else if c = BSLASH then sh_first sq dq True False s
      else if dq then sh_first sq (c \<noteq> DQUOTE) False False s
      else if word \<and> c = CHR ''#'' then Some Comment
      else if c = CHR ''$'' \<and> next_is SQUOTE s then Some DollarQuote
      else if (c = CHR ''<'' \<or> c = CHR ''>'') \<and> next_is CHR ''('' s then Some Substitution
      else if c = CHR ''>'' \<and> next_is CHR ''>'' s then
        (case s of [] \<Rightarrow> None | d # s' \<Rightarrow> sh_first sq dq False True s')
      else sh_first (c = SQUOTE) (c = DQUOTE) False (ends_word c) s)"

lemmas sh_first_Cons = sh_first.simps(2)
declare sh_first_Cons [simp del]

lemma sh_first_opens: "sh_first sq dq esc word s = Some Substitution \<Longrightarrow> opens_substitution sq dq esc s"
proof (induction s arbitrary: sq dq esc word rule: length_induct)
  case (1 s)
  then obtain c r where s: "s = c # r" by (cases s) auto
  have IH: "opens_substitution sq' dq' esc' t" if "sh_first sq' dq' esc' word' t = Some Substitution" "length t < length s"
    for sq' dq' esc' word' t using 1(1) that by blast
  note run = 1(2) [unfolded s sh_first_Cons]
  consider "esc" | "\<not> esc" "sq" | "\<not> esc" "\<not> sq" "c = BTICK \<or> c = CHR ''$'' \<and> next_is CHR ''('' r"
    | (plain) "\<not> esc" "\<not> sq" "\<not> (c = BTICK \<or> c = CHR ''$'' \<and> next_is CHR ''('' r)" by blast
  then show ?case
  proof cases
    case plain
    show ?thesis
    proof (cases "c = BSLASH \<or> dq")
      case True
      with plain run show ?thesis using IH [of _ _ _ _ r] by (auto simp: s opens_Cons split: if_splits)
    next
      case unquoted: False
      show ?thesis
      proof (cases "c = CHR ''>'' \<and> next_is CHR ''>'' r")
        case True
        then obtain r' where "r = CHR ''>'' # r'" by (cases r) auto
        with True plain unquoted run show ?thesis using IH [of _ _ _ _ r'] by (simp add: s opens_Cons)
      next
        case False
        with plain unquoted run show ?thesis
          using IH [of _ _ _ _ r] by (auto simp only: s opens_Cons if_False if_True option.distinct option.inject
              sh_construct.distinct simp_thms length_Cons lessI split: if_splits)
      qed
    qed
  qed (use run IH [of _ _ _ _ r] in \<open>simp_all add: s opens_Cons\<close>)
qed


text \<open>A substitution in single quotes is accepted, the same text in double quotes is not.\<close>

definition quoted_substitution :: "char \<Rightarrow> string" where
  "quoted_substitution q = ''echo '' @ [q] @ ''$(id)'' @ [q] @ ''; ls''"

lemma quoted_substitution_parsed:
  "\<not> isl (ParseShellCommand (quoted_substitution SQUOTE)) \<and> isl (ParseShellCommand (quoted_substitution DQUOTE))
     \<and> sh_first False False False True (quoted_substitution DQUOTE) = Some Substitution"
  by code_simp


end
