(* ===== verification/Secrets.thy ===== *)
theory Secrets
  imports Go_Strings
begin

text \<open>
  \<open>internal/secrets\<close>: recognising and masking obvious credentials.  The patterns are Go regular
  expressions; the part of package \<open>regexp\<close> they use is a matcher that lists the ways a pattern can
  match at a position in the order Go prefers them (leftmost-first, greedy).
\<close>

section \<open>Regular expressions\<close>

datatype rx =
    Cls "char \<Rightarrow> bool"
  | Sq rx rx
  | Alt rx rx
  | Star rx
  | Eps
  | WordB

text \<open>A position: the byte before it, if any, and the bytes from it on.\<close>

type_synonym rx_pos = "char option \<times> string"

definition is_word :: "char \<Rightarrow> bool" where
  "is_word c \<longleftrightarrow> is_upper c \<or> is_lower c \<or> is_digit c \<or> c = CHR ''_''"

definition at_word_boundary :: "rx_pos \<Rightarrow> bool" where
  "at_word_boundary p \<longleftrightarrow>
     (case fst p of None \<Rightarrow> False | Some c \<Rightarrow> is_word c)
     \<noteq> (case snd p of [] \<Rightarrow> False | d # _ \<Rightarrow> is_word d)"

text \<open>Greedy iteration: longer first.  An iteration that consumes nothing is not repeated.\<close>

primrec star_from :: "(rx_pos \<Rightarrow> rx_pos list) \<Rightarrow> nat \<Rightarrow> rx_pos \<Rightarrow> rx_pos list" where
  "star_from f 0 p = [p]"
| "star_from f (Suc n) p =
     concat (map (star_from f n) (filter (\<lambda>q. length (snd q) < length (snd p)) (f p))) @ [p]"

primrec match_at :: "rx \<Rightarrow> rx_pos \<Rightarrow> rx_pos list" where
  "match_at (Cls f) p =
     (case snd p of [] \<Rightarrow> [] | c # s \<Rightarrow> if f c then [(Some c, s)] else [])"
| "match_at (Sq r1 r2) p = concat (map (match_at r2) (match_at r1 p))"
| "match_at (Alt r1 r2) p = match_at r1 p @ match_at r2 p"
| "match_at (Star r) p = star_from (match_at r) (length (snd p)) p"
| "match_at Eps p = [p]"
| "match_at WordB p = (if at_word_boundary p then [p] else [])"

fun seqs :: "rx list \<Rightarrow> rx" where
  "seqs [] = Eps"
| "seqs [r] = r"
| "seqs (r # rs) = Sq r (seqs rs)"

fun alts :: "rx list \<Rightarrow> rx" where
  "alts [] = Cls (\<lambda>_. False)"
| "alts [r] = r"
| "alts (r # rs) = Alt r (alts rs)"

definition lit :: "string \<Rightarrow> rx" where
  "lit s = seqs (map (\<lambda>c. Cls (\<lambda>d. d = c)) s)"

text \<open>A literal under \<open>(?i)\<close>, written in lower case.\<close>

definition lit_i :: "string \<Rightarrow> rx" where
  "lit_i s = seqs (map (\<lambda>c. Cls (\<lambda>d. lower_char d = c)) s)"

definition at_least :: "nat \<Rightarrow> rx \<Rightarrow> rx" where
  "at_least n r = seqs (replicate n r @ [Star r])"

definition optional :: "rx \<Rightarrow> rx" where
  "optional r = Alt r Eps"

section \<open>The patterns\<close>

definition is_alnum :: "char \<Rightarrow> bool" where
  "is_alnum c \<longleftrightarrow> is_upper c \<or> is_lower c \<or> is_digit c"

definition key_class :: "char \<Rightarrow> bool" where
  "key_class c \<longleftrightarrow> is_alnum c \<or> List.member ''_-'' c"

definition bearer_class :: "char \<Rightarrow> bool" where
  "bearer_class c \<longleftrightarrow> is_alnum c \<or> List.member ''._~+/=-'' c"

text \<open>\<open>\s\<close> of package \<open>regexp\<close>.\<close>

definition rx_space :: "char \<Rightarrow> bool" where
  "rx_space c \<longleftrightarrow> List.member [TAB, LF, CHR 0x0C, CR, SPC] c"

definition blanks :: rx where "blanks = Star (Cls rx_space)"

definition word_sep :: rx where "word_sep = optional (Cls (List.member ''_-''))"

definition likelySecretPatterns :: "rx list" where
  "likelySecretPatterns =
    [seqs [lit ''sk-or-v1-'', at_least 40 (Cls key_class)],
     seqs [lit ''sk-'', at_least 20 (Cls key_class)],
     seqs [lit ''tvly-'', at_least 16 (Cls key_class)],
     seqs [lit_i ''authorization'', blanks, lit '':'', blanks, lit_i ''bearer'',
           at_least 1 (Cls rx_space), at_least 12 (Cls bearer_class)],
     seqs [WordB,
           alts [seqs [lit_i ''api'', word_sep, lit_i ''key''],
                 seqs [lit_i ''access'', word_sep, lit_i ''token''],
                 seqs [lit_i ''auth'', word_sep, lit_i ''token''],
                 lit_i ''password'', lit_i ''secret''],
           blanks, Cls (List.member '':=''), blanks,
           at_least 8 (Cls (\<lambda>c. \<not> rx_space c \<and> c \<noteq> CHR ''&''))],
     seqs [lit ''-----BEGIN '', Star (Cls (\<lambda>c. is_upper c \<or> c = SPC)),
           lit ''PRIVATE KEY-----'']]"

section \<open>Recognising\<close>

text \<open>\<open>pattern.MatchString\<close>: a match at some position.\<close>

fun matches_from :: "rx \<Rightarrow> char option \<Rightarrow> string \<Rightarrow> bool" where
  "matches_from r prev [] = (match_at r (prev, []) \<noteq> [])"
| "matches_from r prev (c # s) = (match_at r (prev, c # s) \<noteq> [] \<or> matches_from r (Some c) s)"

definition secrets_Contains :: "string \<Rightarrow> bool" where
  "secrets_Contains text = list_ex (\<lambda>r. matches_from r None text) likelySecretPatterns"

section \<open>Masking\<close>

definition redacted :: string where "redacted = ''[REDACTED]''"

text \<open>
  \<open>pattern.ReplaceAllString\<close> for a pattern that matches no empty text: the preferred match at the
  leftmost position is replaced and the search goes on behind it.
\<close>

function replace_from :: "rx \<Rightarrow> char option \<Rightarrow> string \<Rightarrow> string" where
  "replace_from r prev [] = []"
| "replace_from r prev (c # s) =
     (case match_at r (prev, c # s) of
        [] \<Rightarrow> c # replace_from r (Some c) s
      | (prev', s') # _ \<Rightarrow>
          if length s' < length (c # s) then redacted @ replace_from r prev' s'
          else c # replace_from r (Some c) s)"
  by pat_completeness auto
termination
  by (relation "measure (\<lambda>(_, _, s). length s)") auto

definition Mask :: "string \<Rightarrow> string" where
  "Mask text =
     (if text = [] then text
      else foldl (\<lambda>t r. replace_from r None t) text likelySecretPatterns)"

section \<open>Properties\<close>

lemma replace_from_id: "\<not> matches_from r prev s \<Longrightarrow> replace_from r prev s = s"
  by (induction r prev s rule: replace_from.induct) (auto split: list.splits)

lemma foldl_id: "(\<And>r. r \<in> set rs \<Longrightarrow> f t r = t) \<Longrightarrow> foldl f t rs = t"
  by (induction rs) auto

text \<open>
  Masking changes only what the recogniser reports: a text in which \<open>Contains\<close> finds no
  credential is returned as it is.
\<close>

theorem Mask_without_secret:
  assumes "\<not> secrets_Contains text"
  shows "Mask text = text"
proof -
  have "\<not> matches_from r None text" if "r \<in> set likelySecretPatterns" for r
    using assms that by (auto simp: secrets_Contains_def list_ex_iff)
  then show ?thesis by (auto simp: Mask_def intro!: foldl_id replace_from_id)
qed

theorem Mask_without_secret_witness: "Mask ''ls -l'' = ''ls -l''"
proof -
  have "\<not> secrets_Contains ''ls -l''" by code_simp
  then show ?thesis by (rule Mask_without_secret)
qed

text \<open>A text that does hold a credential of the first four kinds at its start loses it.\<close>

lemma Mask_example: "Mask ''key sk-abcdefghijklmnopqrstuvwxyz end'' = ''key [REDACTED] end''"
  by code_simp

end
