(* ===== verification/Go_Paths.thy ===== *)
theory Go_Paths
  imports Go_Strings
begin

text \<open>
  Package \<open>path/filepath\<close> on Unix and the parts of package \<open>os\<close> the code asks about its
  surroundings: environment variables, the working directory, symbolic links, file existence and
  the executable search path.  The answers of the operating system are the fields of the record
  \<open>os_world\<close>; everything lexical (\<open>Clean\<close>, \<open>Base\<close>, \<open>Dir\<close>, \<open>Join\<close>, \<open>ExpandEnv\<close>) is defined.
\<close>

section \<open>Lexical path functions\<close>

fun clean_push :: "bool \<Rightarrow> string list \<Rightarrow> string list \<Rightarrow> string list" where
  "clean_push rooted stack [] = rev stack"
| "clean_push rooted stack (p # ps) =
     (if p = '''' \<or> p = ''.'' then clean_push rooted stack ps
      else if p = ''..'' then
        (case stack of
           [] \<Rightarrow> if rooted then clean_push rooted [] ps else clean_push rooted [''..''] ps
         | q # qs \<Rightarrow> if q = ''..'' then clean_push rooted (''..'' # stack) ps
                    else clean_push rooted qs ps)
      else clean_push rooted (p # stack) ps)"

definition IsAbs :: "string \<Rightarrow> bool" where
  "IsAbs p = HasPrefix p ''/''"

definition Clean :: "string \<Rightarrow> string" where
  "Clean p =
     (if p = '''' then ''.''
      else let parts = clean_push (IsAbs p) [] (SplitByte CHR ''/'' p) in
        if IsAbs p then ''/'' @ Join parts ''/''
        else if parts = [] then ''.'' else Join parts ''/'')"

definition Base :: "string \<Rightarrow> string" where
  "Base p =
     (if p = '''' then ''.''
      else let q = TrimRight p ''/'';
               b = rev (takeWhile (\<lambda>c. c \<noteq> CHR ''/'') (rev q))
           in if b = '''' then ''/'' else b)"

definition Dir :: "string \<Rightarrow> string" where
  "Dir p = Clean (rev (dropWhile (\<lambda>c. c \<noteq> CHR ''/'') (rev p)))"

text \<open>\<open>filepath.Join\<close> of two elements ignores empty ones and cleans the result.\<close>

definition JoinPath :: "string \<Rightarrow> string \<Rightarrow> string" where
  "JoinPath a b =
     (let es = filter (\<lambda>e. e \<noteq> '''') [a, b]
      in if es = [] then '''' else Clean (Join es ''/''))"

section \<open>The operating system\<close>

record os_world =
  env_var :: "string \<Rightarrow> string"             \<comment> \<open>\<open>os.Getenv\<close>; unset variables read as empty\<close>
  getwd :: "string option"                  \<comment> \<open>\<open>os.Getwd\<close>\<close>
  eval_symlinks :: "string \<Rightarrow> string option" \<comment> \<open>\<open>filepath.EvalSymlinks\<close>\<close>
  lstat_exists :: "string \<Rightarrow> bool"           \<comment> \<open>\<open>os.Lstat\<close> succeeds\<close>
  stat_device :: "string \<Rightarrow> bool"            \<comment> \<open>\<open>os.Stat\<close> succeeds on a (character) device\<close>
  look_path :: "string \<Rightarrow> string option"     \<comment> \<open>\<open>exec.LookPath\<close>\<close>

definition UserHomeDir :: "os_world \<Rightarrow> string option" where
  "UserHomeDir w = (let h = env_var w ''HOME'' in if h = '''' then None else Some h)"

definition TempDir :: "os_world \<Rightarrow> string" where
  "TempDir w = (let d = env_var w ''TMPDIR'' in if d = '''' then ''/tmp'' else d)"

definition Abs :: "os_world \<Rightarrow> string \<Rightarrow> string option" where
  "Abs w p = (if IsAbs p then Some (Clean p)
              else map_option (\<lambda>d. JoinPath d p) (getwd w))"

subsection \<open>os.ExpandEnv\<close>

definition is_special_var :: "char \<Rightarrow> bool" where
  "is_special_var c \<longleftrightarrow> is_digit c \<or> List.member ''*#$@!?-'' c"

definition is_alnum_var :: "char \<Rightarrow> bool" where
  "is_alnum_var c \<longleftrightarrow> is_digit c \<or> is_upper c \<or> is_lower c \<or> c = CHR ''_''"

text \<open>
  The name after a dollar sign and the number of bytes it takes up, as \<open>getShellName\<close> in
  package \<open>os\<close> reads them.
\<close>

definition shell_name :: "string \<Rightarrow> string \<times> nat" where
  "shell_name s =
     (case s of
        [] \<Rightarrow> ([], 0)
      | c # r \<Rightarrow>
          if c = CHR ''{'' then
            (if 2 < length s \<and> is_special_var (s ! 1) \<and> s ! 2 = CHR ''}''
             then ([s ! 1], 3)
             else if List.member r CHR ''}'' then
               (let name = takeWhile (\<lambda>d. d \<noteq> CHR ''}'') r
                in if name = [] then ([], 2) else (name, length name + 2))
             else ([], 1))
          else if is_special_var c then ([c], 1)
          else (let name = takeWhile is_alnum_var s in (name, length name)))"

function ExpandEnv :: "os_world \<Rightarrow> string \<Rightarrow> string" where
  "ExpandEnv w [] = []"
| "ExpandEnv w (c # s) =
     (if c = CHR ''$'' \<and> s \<noteq> [] then
        (let (name, n) = shell_name s in
           (if name = [] then (if 0 < n then [] else ''$'') else env_var w name)
           @ ExpandEnv w (drop n s))
      else c # ExpandEnv w s)"
  by pat_completeness auto
termination
  by (relation "measure (\<lambda>(_, s). length s)") auto

section \<open>Facts\<close>

lemma clean_push_abs_no_dotdot:
  assumes "''..'' \<notin> set stack"
  shows "''..'' \<notin> set (clean_push True stack ps)"
  using assms
  by (induction "True" stack ps rule: clean_push.induct) (auto split: list.splits if_splits)

lemma clean_push_plain:
  "'''' \<notin> set stack \<Longrightarrow> ''.'' \<notin> set stack \<Longrightarrow>
   '''' \<notin> set (clean_push r stack ps) \<and> ''.'' \<notin> set (clean_push r stack ps)"
  by (induction r stack ps rule: clean_push.induct) (auto split: list.splits if_splits)

lemma IsAbs_Clean: "IsAbs p \<Longrightarrow> IsAbs (Clean p)"
  by (auto simp: IsAbs_def HasPrefix_def Clean_def Let_def)

end
