(* ===== verification/Shell_Targets.thy ===== *)
theory Shell_Targets
  imports Go_Paths
begin

text \<open>
  Paths and executables as the shell policy of \<open>tools/shell_policy.go\<close> sees them: where a write
  target really points, whether it is a critical path, a raw device or a credential store, and
  whether an executable comes from a trusted directory.
\<close>

section \<open>Expanding and resolving\<close>

definition expandPolicyPath :: "os_world \<Rightarrow> string \<Rightarrow> string" where
  "expandPolicyPath w raw0 =
     (let raw1 = ExpandEnv w (TrimSpace raw0);
          raw = (if HasPrefix raw1 ''~/'' then
                   (case UserHomeDir w of
                      Some home \<Rightarrow> JoinPath home (TrimPrefix raw1 ''~/'')
                    | None \<Rightarrow> raw1)
                 else raw1)
      in if raw = '''' then ''''
         else case Abs w raw of Some absolute \<Rightarrow> Clean absolute | None \<Rightarrow> Clean raw)"

text \<open>The resolved target and whether it is stable, that is, known to be where it says.\<close>

definition resolvePolicyTarget :: "os_world \<Rightarrow> string \<Rightarrow> string \<times> bool" where
  "resolvePolicyTarget w raw0 =
     (let raw = TrimSpace raw0 in
      if raw = '''' then ('''', False)
      else if ContainsAny raw ''*?[{}'' \<or> Contains raw ''$'' \<or> Contains raw [BTICK]
      then (expandPolicyPath w raw, False)
      else
        (let path = expandPolicyPath w raw in
         case eval_symlinks w path of
           Some resolved \<Rightarrow> (Clean resolved, True)
         | None \<Rightarrow>
             (case eval_symlinks w (Dir path) of
                Some resolvedParent \<Rightarrow> (JoinPath resolvedParent (Base path), True)
              | None \<Rightarrow> (path, False))))"

definition pathExists :: "os_world \<Rightarrow> string \<Rightarrow> bool" where
  "pathExists w path = (path \<noteq> '''' \<and> lstat_exists w path)"

section \<open>Critical paths, devices and credentials\<close>

text \<open>\<open>clean == root || HasPrefix(clean, root + "/")\<close>, the containment test of the code.\<close>

definition under :: "string \<Rightarrow> string \<Rightarrow> bool" where
  "under clean root \<longleftrightarrow> clean = root \<or> HasPrefix clean (root @ ''/'')"

definition critical_part :: "string \<Rightarrow> bool" where
  "critical_part part \<longleftrightarrow>
     part = ''.git'' \<or> Contains (ToLower part) ''backup'' \<or> Contains (ToLower part) ''snapshot''"

definition critical_exact :: "os_world \<Rightarrow> string list" where
  "critical_exact w =
     [''/'', ''/Users''] @ (case UserHomeDir w of Some home \<Rightarrow> [Clean home] | None \<Rightarrow> [])"

definition critical_descendants :: "os_world \<Rightarrow> string list" where
  "critical_descendants w =
     [''/System'', ''/Library'', ''/Applications'', ''/bin'', ''/sbin'', ''/usr'', ''/etc'', ''/var'',
      ''/boot'', ''/dev'', ''/Volumes'']
     @ (case UserHomeDir w of
          Some home \<Rightarrow> map (JoinPath home) [''.Trash'', ''.ssh'', ''.aws'', ''.azure'', ''.kube'']
        | None \<Rightarrow> [])"

definition protected_resolved :: "os_world \<Rightarrow> string \<Rightarrow> string" where
  "protected_resolved w protected =
     (case eval_symlinks w (Clean protected) of
        Some resolved \<Rightarrow> Clean resolved
      | None \<Rightarrow> Clean protected)"

definition in_temp :: "os_world \<Rightarrow> string \<Rightarrow> bool" where
  "in_temp w clean =
     (case eval_symlinks w (TempDir w) of
        Some temp \<Rightarrow> under clean (Clean temp)
      | None \<Rightarrow> False)"

definition isCriticalPath :: "os_world \<Rightarrow> string \<Rightarrow> bool" where
  "isCriticalPath w raw =
     (if TrimSpace raw = '''' then False
      else
        (let (path, stable) = resolvePolicyTarget w raw in
         if \<not> stable then True
         else
           (let clean = Clean path in
            if list_ex critical_part (SplitByte CHR ''/'' clean) then True
            else if in_temp w clean then False
            else list_ex (\<lambda>protected. clean = Clean protected) (critical_exact w)
              \<or> list_ex (\<lambda>protected. under clean (protected_resolved w protected))
                  (critical_descendants w))))"

definition isRawDeviceTarget :: "os_world \<Rightarrow> string \<Rightarrow> bool" where
  "isRawDeviceTarget w raw =
     (let (path, stable) = resolvePolicyTarget w raw in
      if \<not> stable \<or> path = '''' then False
      else (let clean = Clean path in
            if clean = ''/dev'' \<or> HasPrefix clean ''/dev/'' then True else stat_device w clean))"

definition credential_markers :: "string list" where
  "credential_markers =
     [''.ssh'', ''.aws'', ''.azure'', ''.kube'', ''.gnupg'', ''.env'', ''credentials'', ''secret'',
      ''token'', ''api_key'', ''apikey'', ''password'', ''private_key'', ''/etc/shadow'',
      ''.bash_history'', ''.zsh_history'', ''kubeconfig'', ''.pem'', ''.key'']"

definition isCredentialTarget :: "string \<Rightarrow> bool" where
  "isCredentialTarget value = list_ex (Contains (ToLower value)) credential_markers"

section \<open>Executables\<close>

definition isTrustedExecutablePath :: "os_world \<Rightarrow> string \<Rightarrow> bool" where
  "isTrustedExecutablePath w path =
     (case eval_symlinks w (expandPolicyPath w path) of
        None \<Rightarrow> False
      | Some resolved \<Rightarrow>
          List.member [''/bin'', ''/sbin'', ''/usr/bin'', ''/usr/sbin''] (Dir (Clean resolved)))"

definition isTrustedShellBuiltin :: "string \<Rightarrow> bool" where
  "isTrustedShellBuiltin command =
     (\<not> ContainsByte command CHR ''/''
      \<and> List.member [''set'', ''pwd'', ''echo'', ''printf'', ''true'', ''false'', ''command'', ''exec'']
          command)"

text \<open>An executable that is not on the search path cannot run, so it needs no review.\<close>

definition executableNeedsReview :: "os_world \<Rightarrow> string \<Rightarrow> bool" where
  "executableNeedsReview w command =
     (if TrimSpace command = '''' \<or> isTrustedShellBuiltin command then False
      else if ContainsByte command CHR ''/'' then \<not> isTrustedExecutablePath w command
      else case look_path w command of
        None \<Rightarrow> False
      | Some resolved \<Rightarrow> \<not> isTrustedExecutablePath w resolved)"

definition isShellInterpreter :: "string \<Rightarrow> bool" where
  "isShellInterpreter base =
     List.member [''sh'', ''bash'', ''zsh'', ''fish'', ''pwsh'', ''powershell''] base"

end
