(* ===== verification/Shell_Tokens.thy ===== *)
theory Shell_Tokens
  imports Shell_Parser
begin

text \<open>
  The tokenizer of \<open>tools/shell_policy.go\<close> (\<open>tokenizePolicySegment\<close> with \<open>scanShellWord\<close>): the
  words of one segment, unquoted, and its redirections; and the helpers that read argument lists.
\<close>

section \<open>Words\<close>

datatype token_error = UnterminatedArgument | UnterminatedTarget | MissingTarget

record quote_state =
  qs_text :: string
  qs_single :: bool
  qs_double :: bool
  qs_escaped :: bool

definition quote_init :: quote_state where
  "quote_init = \<lparr>qs_text = [], qs_single = False, qs_double = False, qs_escaped = False\<rparr>"

definition qs_open :: "quote_state \<Rightarrow> bool" where
  "qs_open q \<longleftrightarrow> qs_single q \<or> qs_double q \<or> qs_escaped q"

definition qs_write :: "char \<Rightarrow> quote_state \<Rightarrow> quote_state" where
  "qs_write ch q = q\<lparr>qs_text := qs_text q @ [ch]\<rparr>"

text \<open>A byte after a backslash or inside quotes: the quotes themselves are not written.\<close>

definition quoted_byte :: "char \<Rightarrow> quote_state \<Rightarrow> quote_state" where
  "quoted_byte ch q =
     (if qs_escaped q then (qs_write ch q)\<lparr>qs_escaped := False\<rparr>
      else if qs_single q then (if ch = SQUOTE then q\<lparr>qs_single := False\<rparr> else qs_write ch q)
      else if ch = DQUOTE then q\<lparr>qs_double := False\<rparr>
      else if ch = BSLASH then q\<lparr>qs_escaped := True\<rparr>
      else qs_write ch q)"

definition is_word_break :: "char \<Rightarrow> bool" where
  "is_word_break ch \<longleftrightarrow> is_space_byte ch \<or> List.member ''|;&<>'' ch"

text \<open>A redirection target, and what is left after it.\<close>

fun scanShellWord :: "string \<Rightarrow> quote_state \<Rightarrow> token_error + string \<times> string" where
  "scanShellWord [] q = (if qs_open q then Inl UnterminatedTarget else Inr (qs_text q, []))"
| "scanShellWord (ch # r) q =
     (if qs_open q then scanShellWord r (quoted_byte ch q)
      else if ch = SQUOTE then scanShellWord r (q\<lparr>qs_single := True\<rparr>)
      else if ch = DQUOTE then scanShellWord r (q\<lparr>qs_double := True\<rparr>)
      else if ch = BSLASH then scanShellWord r (q\<lparr>qs_escaped := True\<rparr>)
      else if is_word_break ch then Inr (qs_text q, ch # r)
      else scanShellWord r (qs_write ch q))"

section \<open>Segments\<close>

datatype redirect_mode = Read | Append | Write

record policy_redirect =
  red_Mode :: redirect_mode
  red_Target :: string
  red_DescriptorOnly :: bool

record token_state =
  ts_argv :: "string list"
  ts_redirects :: "policy_redirect list"
  ts_quote :: quote_state

definition token_init :: token_state where
  "token_init = \<lparr>ts_argv = [], ts_redirects = [], ts_quote = quote_init\<rparr>"

definition token_flush :: "token_state \<Rightarrow> token_state" where
  "token_flush s =
     (if qs_text (ts_quote s) \<noteq> []
      then s\<lparr>ts_argv := ts_argv s @ [qs_text (ts_quote s)],
             ts_quote := (ts_quote s)\<lparr>qs_text := []\<rparr>\<rparr>
      else s)"

definition add_redirect :: "policy_redirect \<Rightarrow> token_state \<Rightarrow> token_state" where
  "add_redirect r s = s\<lparr>ts_redirects := ts_redirects s @ [r]\<rparr>"

text \<open>
  A redirection operator \<open>ch\<close>: a file descriptor before it is dropped, \<open>>>\<close> appends, \<open>&\<close> after it
  means another descriptor, and otherwise a word must follow.
\<close>

definition redirect_mode_of :: "char \<Rightarrow> string \<Rightarrow> redirect_mode" where
  "redirect_mode_of ch rest =
     (if ch = CHR ''<'' then Read else if next_is CHR ''>'' rest then Append else Write)"

text \<open>What follows the operator and its blanks.\<close>

definition redirect_target ::
  "redirect_mode \<Rightarrow> string \<Rightarrow> token_state \<Rightarrow> token_error + token_state \<times> string" where
  "redirect_target mode r s =
     (if next_is CHR ''&'' r then
        (let digits = takeWhile (\<lambda>c. is_digit c \<or> c = CHR ''-'') (tl r)
         in Inr (add_redirect \<lparr>red_Mode = mode, red_Target = digits, red_DescriptorOnly = True\<rparr> s,
                 drop (length digits) (tl r)))
      else
        (case scanShellWord r quote_init of
           Inl e \<Rightarrow> Inl e
         | Inr (target, r') \<Rightarrow>
             if target = '''' then Inl MissingTarget
             else Inr (add_redirect
               \<lparr>red_Mode = mode, red_Target = target, red_DescriptorOnly = False\<rparr> s, r')))"

definition token_redirect ::
  "char \<Rightarrow> string \<Rightarrow> token_state \<Rightarrow> token_error + token_state \<times> string" where
  "token_redirect ch rest s =
     (let fd = qs_text (ts_quote s);
          s1 = (if fd = ''1'' \<or> fd = ''2'' then s\<lparr>ts_quote := (ts_quote s)\<lparr>qs_text := []\<rparr>\<rparr>
                else token_flush s);
          mode = redirect_mode_of ch rest;
          r1 = (if mode = Append then tl rest else rest)
      in redirect_target mode (dropWhile is_space_byte r1) s1)"

definition token_step ::
  "char \<Rightarrow> string \<Rightarrow> token_state \<Rightarrow> token_error + token_state \<times> string" where
  "token_step ch rest s =
     (if qs_open (ts_quote s) then Inr (s\<lparr>ts_quote := quoted_byte ch (ts_quote s)\<rparr>, rest)
      else if ch = SQUOTE then Inr (s\<lparr>ts_quote := (ts_quote s)\<lparr>qs_single := True\<rparr>\<rparr>, rest)
      else if ch = DQUOTE then Inr (s\<lparr>ts_quote := (ts_quote s)\<lparr>qs_double := True\<rparr>\<rparr>, rest)
      else if ch = BSLASH then Inr (s\<lparr>ts_quote := (ts_quote s)\<lparr>qs_escaped := True\<rparr>\<rparr>, rest)
      else if ch = SPC \<or> ch = TAB then Inr (token_flush s, rest)
      else if ch = CHR ''>'' \<or> ch = CHR ''<'' then token_redirect ch rest s
      else Inr (s\<lparr>ts_quote := qs_write ch (ts_quote s)\<rparr>, rest))"

lemma scanShellWord_length:
  "scanShellWord s q = Inr (w, rest) \<Longrightarrow> length rest \<le> length s"
  by (induction s q rule: scanShellWord.induct) (auto split: if_splits)

lemma redirect_target_length:
  "redirect_target mode r s = Inr (s', rest') \<Longrightarrow> length rest' \<le> length r"
  by (auto simp: redirect_target_def Let_def split: if_splits sum.splits dest: scanShellWord_length)

lemma token_redirect_length:
  assumes "token_redirect ch rest s = Inr (s', rest')"
  shows "length rest' \<le> length rest"
proof -
  define r1 where "r1 = (if redirect_mode_of ch rest = Append then tl rest else rest)"
  have "length (dropWhile is_space_byte r1) \<le> length r1" by (rule length_dropWhile_le)
  moreover have "length r1 \<le> length rest" by (simp add: r1_def)
  moreover obtain mode s1 where "redirect_target mode (dropWhile is_space_byte r1) s1 = Inr (s', rest')"
    using assms by (auto simp only: token_redirect_def Let_def r1_def)
  then have "length rest' \<le> length (dropWhile is_space_byte r1)" by (rule redirect_target_length)
  ultimately show ?thesis by linarith
qed

lemma token_step_length: "token_step ch rest s = Inr (s', rest') \<Longrightarrow> length rest' \<le> length rest"
proof -
  assume step: "token_step ch rest s = Inr (s', rest')"
  then have "rest' = rest \<or> token_redirect ch rest s = Inr (s', rest')"
    by (simp add: token_step_def split: if_splits)
  then show ?thesis using token_redirect_length by blast
qed

function token_loop :: "string \<Rightarrow> token_state \<Rightarrow> token_error + token_state" where
  "token_loop [] s = Inr s"
| "token_loop (ch # rest) s =
     (case token_step ch rest s of Inl e \<Rightarrow> Inl e | Inr (s', rest') \<Rightarrow> token_loop rest' s')"
  by pat_completeness auto
termination
  by (relation "measure (\<lambda>(s, _). length s)")
     (auto dest: token_step_length intro: le_imp_less_Suc)

definition tokenizePolicySegment ::
  "string \<Rightarrow> token_error + string list \<times> policy_redirect list" where
  "tokenizePolicySegment command =
     (case token_loop command token_init of
        Inl e \<Rightarrow> Inl e
      | Inr s \<Rightarrow>
          if qs_open (ts_quote s) then Inl UnterminatedArgument
          else (let t = token_flush s in Inr (ts_argv t, ts_redirects t)))"

section \<open>Argument lists\<close>

definition nonFlagArgs :: "string list \<Rightarrow> string list" where
  "nonFlagArgs args = filter (\<lambda>a. \<not> HasPrefix a ''-'') args"

definition firstNonFlag :: "string list \<Rightarrow> string" where
  "firstNonFlag args = (case nonFlagArgs args of [] \<Rightarrow> '''' | a # _ \<Rightarrow> a)"

definition lastNonFlag :: "string list \<Rightarrow> string" where
  "lastNonFlag args = (let items = nonFlagArgs args in if items = [] then '''' else last items)"

fun argValuePrefix :: "string list \<Rightarrow> string \<Rightarrow> string" where
  "argValuePrefix [] p = ''''"
| "argValuePrefix (a # args) p = (if HasPrefix a p then TrimPrefix a p else argValuePrefix args p)"

definition option_match :: "string \<Rightarrow> string list \<Rightarrow> string \<Rightarrow> string option" where
  "option_match arg rest name =
     (if arg = name \<and> rest \<noteq> [] then Some (hd rest)
      else if HasPrefix arg (name @ ''='') then Some (TrimPrefix arg (name @ ''=''))
      else if length name = 2 \<and> HasPrefix arg name \<and> length name < length arg
      then Some (TrimPrefix arg name) else None)"

fun first_match :: "('a \<Rightarrow> 'b option) \<Rightarrow> 'a list \<Rightarrow> 'b option" where
  "first_match f [] = None"
| "first_match f (x # xs) = (case f x of None \<Rightarrow> first_match f xs | Some y \<Rightarrow> Some y)"

fun optionValue :: "string list \<Rightarrow> string list \<Rightarrow> string" where
  "optionValue [] names = ''''"
| "optionValue (arg # rest) names =
     (case first_match (option_match arg rest) names of
        Some v \<Rightarrow> v
      | None \<Rightarrow> optionValue rest names)"

definition hasPrefixArg :: "string list \<Rightarrow> string \<Rightarrow> bool" where
  "hasPrefixArg args p = list_ex (\<lambda>a. HasPrefix a p) args"

definition containsArg :: "string list \<Rightarrow> string list \<Rightarrow> bool" where
  "containsArg args values = list_ex (List.member values) args"

definition containsAnySubstring :: "string \<Rightarrow> string list \<Rightarrow> bool" where
  "containsAnySubstring value needles = list_ex (Contains value) needles"

fun commandStringArg :: "string list \<Rightarrow> string" where
  "commandStringArg [] = ''''"
| "commandStringArg (arg # rest) =
     (if (arg = ''-c'' \<or> arg = ''-Command'' \<or> arg = ''--command'') \<and> rest \<noteq> [] then hd rest
      else commandStringArg rest)"

definition systemctlReadOnly :: "string list \<Rightarrow> bool" where
  "systemctlReadOnly args =
     List.member [''status'', ''show'', ''list-units'', ''list-unit-files'', ''is-active'',
       ''is-enabled'', ''is-failed'', ''cat'', ''help'', ''--version''] (firstNonFlag args)"

end
