(* ===== verification/Shell_Classify.thy ===== *)
theory Shell_Classify
  imports Security_Policy Shell_Targets Shell_Tokens Secrets
begin

text \<open>
  The effect classifier of \<open>tools/shell_policy.go\<close>: what a shell segment does, as a list of effects
  over the settings of the security policy.  Each case of the switch in \<open>classifyShellEffects\<close> is a
  definition of its own; \<open>classify_levels\<close> ties the recursion through nested commands, on the number
  of levels still allowed (five: depths 0 to 4).
\<close>

section \<open>Effects\<close>

record shell_effect =
  eff_Setting :: setting_id
  eff_Detail :: string
  eff_Target :: string

definition eff :: "setting_id \<Rightarrow> string \<Rightarrow> string \<Rightarrow> shell_effect" where
  "eff s d t = \<lparr>eff_Setting = s, eff_Detail = d, eff_Target = t\<rparr>"

abbreviation unknown_effect :: "string \<Rightarrow> string \<Rightarrow> shell_effect" where
  "unknown_effect d t \<equiv> eff SettingUnknownCommands d t"

abbreviation read_effect :: "string \<Rightarrow> string \<Rightarrow> shell_effect" where
  "read_effect d t \<equiv> eff SettingReadCommands d t"

abbreviation joined :: "string list \<Rightarrow> string" where
  "joined args \<equiv> Join args '' ''"

section \<open>Read-only modes of individual programs\<close>

definition packageReadOnlyPolicy :: "string \<Rightarrow> string list \<Rightarrow> bool" where
  "packageReadOnlyPolicy base args =
     (let verb = firstNonFlag args; among = (\<lambda>values. List.member values verb) in
      if List.member [''apt'', ''apt-get''] base
      then among [''list'', ''show'', ''search'', ''policy'', ''check'']
      else if List.member [''yum'', ''dnf''] base
      then among [''list'', ''info'', ''search'', ''check'', ''check-update'', ''repolist'', ''history'']
      else if base = ''apk'' then among [''info'', ''search'', ''list'', ''version'', ''policy'']
      else if base = ''brew''
      then among [''list'', ''info'', ''search'', ''outdated'', ''config'', ''doctor'']
      else if List.member [''pip'', ''pip3''] base
      then among [''list'', ''show'', ''check'', ''freeze'', ''index'']
      else if List.member [''npm'', ''pnpm'', ''yarn''] base
      then among [''list'', ''ls'', ''view'', ''info'', ''search'', ''outdated'', ''audit'']
      else False)"

definition cloud_mutation_words :: "string list" where
  "cloud_mutation_words =
     ['' delete'', '' remove'', '' destroy'', '' apply'', '' create'', '' update'', '' set '', '' patch'',
      '' replace'', '' scale'', '' deploy'', '' import'', '' taint'', '' untaint'']"

definition cloudReadOnly :: "string \<Rightarrow> string list \<Rightarrow> bool" where
  "cloudReadOnly base args =
     (if containsAnySubstring (ToLower (joined args)) cloud_mutation_words then False
      else if List.member [''terraform'', ''tofu''] base
      then containsArg args [''plan'', ''show'', ''state'', ''validate'', ''version'', ''providers'', ''output'']
      else if base = ''kubectl''
      then containsArg args [''get'', ''describe'', ''logs'', ''explain'', ''api-resources'', ''api-versions'',
             ''version'', ''diff'']
      else if base = ''helm''
      then containsArg args [''list'', ''status'', ''get'', ''history'', ''show'', ''search'', ''version'',
             ''template'']
      else containsArg args [''list'', ''show'', ''get'', ''describe'', ''read'', ''status'', ''version'', ''help'']
        \<or> hasPrefixArg args ''describe-'' \<or> hasPrefixArg args ''list-'' \<or> hasPrefixArg args ''get-'')"

definition containerReadOnly :: "string list \<Rightarrow> bool" where
  "containerReadOnly args =
     List.member [''ps'', ''images'', ''inspect'', ''logs'', ''stats'', ''version'', ''info'', ''top'', ''port'']
       (firstNonFlag args)"

definition safe_http_method :: "string \<Rightarrow> bool" where
  "safe_http_method m \<longleftrightarrow> m = ''get'' \<or> m = ''head''"

text \<open>The loop over the arguments of curl: every argument is looked at, flag or not.\<close>

fun curl_mutates :: "string list \<Rightarrow> bool" where
  "curl_mutates [] = False"
| "curl_mutates (arg # rest) =
     (let l = ToLower arg in
      if (l = ''-x'' \<or> l = ''--request'') \<and> rest \<noteq> [] \<and> \<not> safe_http_method (ToLower (hd rest)) then True
      else if HasPrefix l ''-x'' \<and> 2 < length l \<and> \<not> safe_http_method (TrimPrefix l ''-x'') then True
      else if HasPrefix l ''--request='' \<and> \<not> safe_http_method (TrimPrefix l ''--request='') then True
      else if l = ''-d'' \<or> HasPrefix l ''--data'' \<or> l = ''-f'' \<or> HasPrefix l ''--form'' \<or> l = ''-t''
        \<or> HasPrefix l ''--upload-file'' \<or> HasPrefix l ''--json'' then True
      else curl_mutates rest)"

definition httpMutates :: "string \<Rightarrow> string list \<Rightarrow> bool" where
  "httpMutates base args =
     (if base = ''wget''
      then containsAnySubstring (ToLower (joined args)) [''--post-data'', ''--post-file'', ''--method='']
      else curl_mutates args)"

definition destructiveSQL :: "string \<Rightarrow> bool" where
  "destructiveSQL query0 =
     (let query = ToLower query0 in
      if Contains query ''drop '' \<or> Contains query ''truncate '' then True
      else case Index query ''delete from'' of
        Some index \<Rightarrow> \<not> Contains (drop index query) '' where ''
      | None \<Rightarrow> False)"

definition containsNestedDelete :: "string list \<Rightarrow> bool" where
  "containsNestedDelete args =
     containsAnySubstring (ToLower (joined args)) [''-exec rm'', ''-execdir rm'', ''-ok rm'', ''-okdir rm'']"

section \<open>Wrappers around other commands\<close>

definition wrapperFlagConsumesValue :: "string \<Rightarrow> string \<Rightarrow> bool" where
  "wrapperFlagConsumesValue base flag =
     (if List.member [''sudo'', ''doas''] base
      then List.member [''-u'', ''--user'', ''-g'', ''--group'', ''-h'', ''--host'', ''-p'', ''--prompt'', ''-C'',
             ''--close-from'', ''-R'', ''--chroot'', ''-D'', ''--chdir''] flag
      else if base = ''env'' then List.member [''-u'', ''--unset'', ''-C'', ''--chdir''] flag
      else if base = ''xargs''
      then List.member [''-n'', ''--max-args'', ''-L'', ''--max-lines'', ''-P'', ''--max-procs'', ''-s'',
             ''--max-chars'', ''-d'', ''--delimiter'', ''-a'', ''--arg-file'', ''-I'', ''--replace''] flag
      else False)"

fun wrapped_command :: "string \<Rightarrow> string list \<Rightarrow> string list" where
  "wrapped_command base [] = []"
| "wrapped_command base (arg # rest) =
     (if HasPrefix arg ''-'' \<or> (base = ''env'' \<and> Contains arg ''='') then
        (case rest of
           [] \<Rightarrow> []
         | v # rest' \<Rightarrow> if wrapperFlagConsumesValue base arg then wrapped_command base rest'
                       else wrapped_command base rest)
      else arg # rest)"

definition nestedAfterWrapper :: "string \<Rightarrow> string list \<Rightarrow> string list" where
  "nestedAfterWrapper base args =
     (if base = ''su'' \<and> commandStringArg args \<noteq> '''' then [commandStringArg args]
      else wrapped_command base args)"

section \<open>Redirections and arguments\<close>

definition classify_redirect :: "os_world \<Rightarrow> policy_redirect \<Rightarrow> shell_effect list" where
  "classify_redirect w r =
     (if red_DescriptorOnly r \<or> red_Target r = ''/dev/null'' then []
      else
        (let (target, stableTarget) = resolvePolicyTarget w (red_Target r) in
         (case red_Mode r of
            Read \<Rightarrow> [read_effect ''input redirection'' target]
              @ (if isCredentialTarget target
                 then [eff SettingCredentialAccess ''credential-bearing input redirection'' target] else [])
          | Append \<Rightarrow> [eff SettingFileAppend ''file append'' target]
          | Write \<Rightarrow>
              (if \<not> stableTarget then [unknown_effect ''dynamic or unresolved write target'' target] else [])
              @ [if stableTarget \<and> pathExists w target
                 then eff SettingFileOverwrite ''existing-file truncation'' target
                 else eff SettingFileCreate ''new-file redirection'' target])
         @ (if red_Mode r \<noteq> Read \<and> isRawDeviceTarget w target
            then [eff SettingRawDeviceAccess ''raw-device redirection'' target] else [])))"

definition firstPathArg :: "os_world \<Rightarrow> string list \<Rightarrow> string" where
  "firstPathArg w args = expandPolicyPath w (firstNonFlag args)"

definition classify_credentials :: "os_world \<Rightarrow> string list \<Rightarrow> shell_effect list" where
  "classify_credentials w argv =
     (if isCredentialTarget (joined argv)
      then [eff SettingCredentialAccess ''credential-bearing command arguments'' (firstPathArg w (tl argv))]
      else [])
     @ (if secrets_Contains (joined argv)
        then [eff SettingCredentialAccess ''literal secret-like value in command arguments'' '''']
        else [])"

section \<open>The cases of the command switch\<close>

definition classify_sort :: "os_world \<Rightarrow> string list \<Rightarrow> shell_effect list" where
  "classify_sort w args =
     (let target0 = optionValue args [''-o'', ''--output''] in
      if target0 \<noteq> '''' then
        (let (target, stableTarget) = resolvePolicyTarget w target0 in
         (if \<not> stableTarget then [unknown_effect ''dynamic or unresolved sort output'' target] else [])
         @ [eff SettingFileOverwrite ''sort output file mutation'' target])
      else [read_effect ''known read-only command sort'' ''''])"

definition classify_tmutil :: "string list \<Rightarrow> shell_effect list" where
  "classify_tmutil args =
     (if containsArg args [''listlocalsnapshots'', ''listbackups'', ''destinationinfo'', ''status'']
      then [read_effect ''Time Machine inspection'' '''']
      else [eff SettingFileDelete ''Time Machine mutation'' (joined args)])"

definition journalctl_mutates :: "string list \<Rightarrow> bool" where
  "journalctl_mutates args \<longleftrightarrow> hasPrefixArg args ''--vacuum''
     \<or> containsArg args [''--rotate'', ''--sync'', ''--flush'', ''--relinquish-var'']"

definition classify_journalctl :: "string list \<Rightarrow> shell_effect list" where
  "classify_journalctl args =
     (if journalctl_mutates args
      then [eff SettingServiceChanges ''journal mutation'' '''',
            eff SettingFileDelete ''journal retention deletion'' '''']
      else [read_effect ''journal inspection'' ''''])"

definition classify_systemctl :: "string list \<Rightarrow> shell_effect list" where
  "classify_systemctl args =
     (if systemctlReadOnly args then [read_effect ''service inspection'' (firstNonFlag args)]
      else [eff SettingServiceChanges ''service state change'' (firstNonFlag args)])"

definition classify_service :: "string list \<Rightarrow> shell_effect list" where
  "classify_service args =
     (if containsArg args [''status'', ''list'', ''print'']
      then [read_effect ''service inspection'' (firstNonFlag args)]
      else [eff SettingServiceChanges ''service state change'' (firstNonFlag args)])"

definition classify_delete :: "os_world \<Rightarrow> string \<Rightarrow> string list \<Rightarrow> shell_effect list" where
  "classify_delete w base args =
     map (\<lambda>target. eff SettingFileDelete (base @ '' deletion'') (expandPolicyPath w target))
       (nonFlagArgs args)"

definition classify_find :: "os_world \<Rightarrow> string list \<Rightarrow> shell_effect list" where
  "classify_find w args =
     (if containsArg args [''-delete''] \<or> containsNestedDelete args
      then [eff SettingFileDelete ''find deletion'' (firstNonFlag args)]
      else if containsArg args [''-exec'', ''-execdir'', ''-ok'', ''-okdir'']
      then [unknown_effect ''find executes a nested command'' (firstNonFlag args)]
      else
        (let target = optionValue args [''-fprint'', ''-fprint0'', ''-fls'', ''-fprintf''] in
         if target \<noteq> ''''
         then [eff SettingFileOverwrite ''find writes a result file'' (expandPolicyPath w target)]
         else [read_effect ''filesystem search'' (firstNonFlag args)]))"

definition raw_device_effect :: "os_world \<Rightarrow> string \<Rightarrow> shell_effect list" where
  "raw_device_effect w target =
     (if isRawDeviceTarget w target
      then [eff SettingRawDeviceAccess ''raw-device filesystem mutation'' target] else [])"

definition unstable_effect :: "bool \<Rightarrow> string \<Rightarrow> shell_effect list" where
  "unstable_effect stableTarget target =
     (if \<not> stableTarget then [unknown_effect ''dynamic or unresolved filesystem target'' target] else [])"

definition classify_copy :: "os_world \<Rightarrow> string \<Rightarrow> string list \<Rightarrow> shell_effect list" where
  "classify_copy w base args =
     (let directory = optionValue args [''-t'', ''--target-directory''];
          targetArg = (if directory \<noteq> '''' then directory else lastNonFlag args);
          (target, stableTarget) = resolvePolicyTarget w targetArg;
          setting = (if (stableTarget \<and> pathExists w target) \<or> containsArg args [''-f'', ''--force'']
                     then SettingFileOverwrite else SettingFileCreate)
      in unstable_effect stableTarget target
         @ [eff setting (base @ '' filesystem mutation'') target]
         @ raw_device_effect w target
         @ (if base = ''mv'' \<and> 1 < length (nonFlagArgs args)
            then map (\<lambda>source. eff SettingFileDelete ''move removes source path'' (expandPolicyPath w source))
                   (filter (\<lambda>source. source \<noteq> targetArg) (nonFlagArgs args))
            else []))"

definition classify_write_target :: "os_world \<Rightarrow> string \<Rightarrow> string list \<Rightarrow> string \<Rightarrow> shell_effect list" where
  "classify_write_target w base args targetArg =
     (let (target, stableTarget) = resolvePolicyTarget w targetArg;
          setting =
            (if base = ''tee'' \<and> containsArg args [''-a'', ''--append''] then SettingFileAppend
             else if base = ''truncate'' \<or> (stableTarget \<and> pathExists w target) then SettingFileOverwrite
             else SettingFileCreate)
      in unstable_effect stableTarget target
         @ [eff setting (base @ '' filesystem mutation'') target]
         @ raw_device_effect w target)"

definition classify_write :: "os_world \<Rightarrow> string \<Rightarrow> string list \<Rightarrow> shell_effect list" where
  "classify_write w base args =
     (let targets = nonFlagArgs args in
      (if targets = [] then [unknown_effect (base @ '' has no stable filesystem target'') ''''] else [])
      @ concat (map (classify_write_target w base args) targets))"

definition classify_sed :: "os_world \<Rightarrow> string list \<Rightarrow> shell_effect list" where
  "classify_sed w args =
     (if containsArg args [''-i'', ''--in-place''] \<or> hasPrefixArg args ''-i'' \<or> hasPrefixArg args ''--in-place=''
      then [eff SettingFileOverwrite ''in-place sed edit'' (expandPolicyPath w (lastNonFlag args))]
      else [read_effect ''stream transformation'' ''''])"

definition classify_dd :: "os_world \<Rightarrow> string list \<Rightarrow> shell_effect list" where
  "classify_dd w args =
     (let target = argValuePrefix args ''of='' in
      if HasPrefix target ''/dev/'' then [eff SettingRawDeviceAccess ''raw-device write'' target]
      else [eff SettingFileOverwrite ''dd output write'' (expandPolicyPath w target)])"

definition classify_packages :: "string \<Rightarrow> string list \<Rightarrow> shell_effect list" where
  "classify_packages base args =
     (if packageReadOnlyPolicy base args
      then [eff SettingNetworkAccess ''package metadata access'' '''']
      else [eff SettingPackageChanges ''package lifecycle mutation'' (joined args),
            eff SettingNetworkAccess ''package registry access'' ''''])"

definition classify_http :: "string \<Rightarrow> string list \<Rightarrow> shell_effect list" where
  "classify_http base args =
     eff SettingNetworkAccess ''outbound HTTP access'' (lastNonFlag args)
     # (if httpMutates base args
        then [eff SettingRemoteMutation ''remote HTTP mutation'' (lastNonFlag args)] else [])"

definition classify_remote :: "string \<Rightarrow> string list \<Rightarrow> shell_effect list" where
  "classify_remote base args =
     [eff SettingNetworkAccess ''remote transport'' (firstNonFlag args)]
     @ (if base \<noteq> ''ssh'' \<or> 1 < length (nonFlagArgs args) \<or> containsArg args [''--delete'']
        then [eff SettingRemoteMutation ''remote filesystem or command action'' (joined args)] else [])
     @ (if base = ''rsync''
          \<and> containsArg args [''--delete'', ''--delete-before'', ''--delete-after'', ''--delete-excluded'']
        then [eff SettingFileDelete ''rsync deletion'' (lastNonFlag args)] else [])"

definition classify_cloud :: "string \<Rightarrow> string list \<Rightarrow> shell_effect list" where
  "classify_cloud base args =
     [eff SettingNetworkAccess ''remote control-plane access'' '''']
     @ (if cloudReadOnly base args then [read_effect ''cloud resource inspection'' '''']
        else [eff SettingCloudChanges ''cloud resource mutation'' (joined args),
              eff SettingRemoteMutation ''remote control-plane mutation'' ''''])
     @ (if (base = ''kubectl'' \<or> base = ''helm'') \<and> \<not> cloudReadOnly base args
        then [eff SettingContainerChanges ''cluster workload mutation'' (joined args)] else [])"

definition classify_container :: "string list \<Rightarrow> shell_effect list" where
  "classify_container args =
     (if containerReadOnly args then [read_effect ''container inspection'' '''']
      else eff SettingContainerChanges ''container or image mutation'' (joined args)
        # (if containsArg args [''prune'', ''rm'', ''rmi'', ''volume'']
           then [eff SettingFileDelete ''container storage deletion'' (joined args)] else []))"

definition classify_database :: "string list \<Rightarrow> shell_effect list" where
  "classify_database args =
     (let query = ToLower (joined args) in
      if destructiveSQL query
      then [eff SettingDatabaseDestructive ''destructive database statement'' '''',
            eff SettingRemoteMutation ''database mutation'' '''']
      else if Contains query ''select '' \<or> Contains query ''pragma '' \<or> Contains query ''.schema''
      then [read_effect ''database inspection'' '''']
      else [unknown_effect ''database command with unclassified effects'' ''''])"

definition classify_schedule :: "string \<Rightarrow> string list \<Rightarrow> shell_effect list" where
  "classify_schedule base args =
     (if (base = ''crontab'' \<and> containsArg args [''-l'']) \<or> base = ''atq''
      then [read_effect ''schedule inspection'' '''']
      else [eff SettingScheduledChanges ''scheduled-work mutation'' (joined args)])"

fun gitVerbAndArgs :: "string list \<Rightarrow> string \<times> string list" where
  "gitVerbAndArgs [] = ('''', [])"
| "gitVerbAndArgs (arg # rest) =
     (if List.member [''-C'', ''-c'', ''--git-dir'', ''--work-tree'', ''--namespace''] arg then
        (case rest of [] \<Rightarrow> ('''', []) | _ # rest' \<Rightarrow> gitVerbAndArgs rest')
      else if HasPrefix arg ''--git-dir='' \<or> HasPrefix arg ''--work-tree='' \<or> HasPrefix arg ''--namespace=''
        \<or> HasPrefix arg ''-c='' then gitVerbAndArgs rest
      else if HasPrefix arg ''-'' then gitVerbAndArgs rest
      else (arg, rest))"

definition classify_git_branch :: "string list \<Rightarrow> shell_effect list" where
  "classify_git_branch verbArgs =
     (let mutatingFlag = containsArg verbArgs [''-d'', ''-D'', ''-f'', ''-m'', ''-M'', ''-c'', ''-C'',
            ''--delete'', ''--force'', ''--move'', ''--copy'', ''--edit-description'', ''--set-upstream-to'',
            ''--unset-upstream''];
          readMode = containsArg verbArgs [''-a'', ''--all'', ''-r'', ''--remotes'', ''-l'', ''--list'',
            ''--show-current'', ''--contains'', ''--no-contains'', ''--merged'', ''--no-merged'', ''--points-at''];
          createsNamedBranch = (nonFlagArgs verbArgs \<noteq> [] \<and> \<not> readMode)
      in if mutatingFlag \<or> createsNamedBranch then
           (if containsArg verbArgs [''-d'', ''-D'', ''--delete'']
            then [eff SettingFileDelete ''git branch deletion'' (lastNonFlag verbArgs)]
            else [eff SettingFileOverwrite ''git branch mutation'' (lastNonFlag verbArgs)])
         else [read_effect ''git branch inspection'' ''''])"

definition classify_git_remote :: "string list \<Rightarrow> shell_effect list" where
  "classify_git_remote verbArgs =
     (let remoteVerb = firstNonFlag verbArgs in
      if List.member ['''', ''show'', ''get-url''] remoteVerb
      then [read_effect ''git remote inspection'' '''']
      else if List.member [''remove'', ''rm''] remoteVerb
      then [eff SettingFileDelete ''git remote deletion'' (lastNonFlag verbArgs)]
      else [eff SettingFileOverwrite ''git remote configuration mutation'' (joined verbArgs)])"

definition classifyGitEffects :: "string list \<Rightarrow> shell_effect list" where
  "classifyGitEffects args =
     (let (verb, verbArgs) = gitVerbAndArgs args in
      if List.member [''status'', ''diff'', ''log'', ''show'', ''rev-parse'', ''ls-files''] verb
      then [read_effect ''git inspection'' '''']
      else if verb = ''branch'' then classify_git_branch verbArgs
      else if verb = ''remote'' then classify_git_remote verbArgs
      else if verb = ''clean'' then [eff SettingFileDelete ''git clean deletion'' '''']
      else if List.member [''reset'', ''checkout'', ''restore''] verb then
        (if containsArg args [''--hard'', ''-f'', ''--force''] \<or> verb = ''restore''
         then [eff SettingFileOverwrite ''git working-tree overwrite'' '''']
         else [unknown_effect ''git state change'' ''''])
      else if List.member [''push'', ''fetch'', ''pull'', ''clone''] verb then
        [eff SettingNetworkAccess ''git remote access'' '''']
        @ (if verb = ''push'' then [eff SettingRemoteMutation ''git remote mutation'' '''']
           else if verb = ''clone'' then [eff SettingFileCreate ''repository creation'' (lastNonFlag args)]
           else [])
      else [eff SettingFileOverwrite ''git repository mutation'' ''''])"

text \<open>\<open>nested\<close> classifies a nested command line, one level deeper.\<close>

definition deletion_primitives :: "string list" where
  "deletion_primitives =
     [''os.remove'', ''os.unlink'', ''shutil.rmtree'', ''fs.rmsync'', ''fs.unlink'', ''file.delete'', ''unlink('']"

definition classify_interpreter ::
  "(string list \<Rightarrow> shell_effect list) \<Rightarrow> string \<Rightarrow> string list \<Rightarrow> shell_effect list" where
  "classify_interpreter nested base args =
     [eff SettingScriptExecution ''interpreter execution'' (firstNonFlag args)]
     @ (if containsAnySubstring (ToLower (joined args)) deletion_primitives
        then [eff SettingFileDelete ''script contains deletion primitive'' ''''] else [])
     @ (if commandStringArg args \<noteq> '''' \<and> isShellInterpreter base
        then nested [commandStringArg args]
        else [unknown_effect ''opaque interpreter body requires review'' (firstNonFlag args)])"

definition classify_privilege ::
  "(string list \<Rightarrow> shell_effect list) \<Rightarrow> string \<Rightarrow> string list \<Rightarrow> shell_effect list" where
  "classify_privilege nested base args =
     eff SettingPrivilegeEscalation ''privilege escalation'' ''''
     # (let inner = nestedAfterWrapper base args in if inner \<noteq> [] then nested inner else [])"

definition classify_wrapper ::
  "(string list \<Rightarrow> shell_effect list) \<Rightarrow> string \<Rightarrow> string list \<Rightarrow> shell_effect list" where
  "classify_wrapper nested base args =
     (let inner = nestedAfterWrapper base args in
      if inner = [] then [unknown_effect ''opaque command wrapper'' ''''] else nested inner)"

definition read_only_commands :: "string list" where
  "read_only_commands =
     [''set'', ''df'', ''free'', ''uptime'', ''ps'', ''netstat'', ''ss'', ''du'', ''ls'', ''stat'', ''head'',
      ''tail'', ''grep'', ''rg'', ''cat'', ''wc'', ''pwd'', ''whoami'', ''id'', ''uname'', ''date'', ''echo'',
      ''printf'', ''true'', ''false'', ''which'', ''whereis'', ''file'', ''readlink'', ''realpath'']"

definition classify_command ::
  "os_world \<Rightarrow> (string list \<Rightarrow> shell_effect list) \<Rightarrow> string \<Rightarrow> string list \<Rightarrow> shell_effect list" where
  "classify_command w nested base args =
     (let is = List.member in
      if is read_only_commands base then [read_effect (''known read-only command '' @ base) '''']
      else if base = ''sort'' then classify_sort w args
      else if base = ''tmutil'' then classify_tmutil args
      else if base = ''journalctl'' then classify_journalctl args
      else if base = ''systemctl'' then classify_systemctl args
      else if is [''service'', ''launchctl''] base then classify_service args
      else if is [''rm'', ''unlink'', ''rmdir'', ''shred''] base then classify_delete w base args
      else if base = ''find'' then classify_find w args
      else if is [''cp'', ''mv'', ''install'', ''ln''] base then classify_copy w base args
      else if is [''tee'', ''touch'', ''mkdir'', ''truncate''] base then classify_write w base args
      else if base = ''sed'' then classify_sed w args
      else if base = ''dd'' then classify_dd w args
      else if is [''mkfs'', ''wipefs'', ''fdisk'', ''parted'', ''mount'', ''umount''] base
      then [eff SettingRawDeviceAccess ''raw-device or mount mutation'' (firstNonFlag args)]
      else if is [''sudo'', ''doas'', ''su''] base then classify_privilege nested base args
      else if is [''chmod'', ''chown'', ''chgrp'', ''setfacl'', ''dscl'', ''useradd'', ''userdel'', ''usermod''] base
      then [eff SettingPrivilegeEscalation ''permission or identity change'' (lastNonFlag args)]
      else if is [''apt'', ''apt-get'', ''yum'', ''dnf'', ''apk'', ''brew'', ''pip'', ''pip3'', ''npm'', ''pnpm'',
                  ''yarn'', ''gem'', ''cargo''] base then classify_packages base args
      else if is [''curl'', ''wget''] base then classify_http base args
      else if is [''ping'', ''traceroute'', ''dig'', ''nslookup'', ''nc'', ''ncat'', ''telnet''] base
      then [eff SettingNetworkAccess ''network probe'' (lastNonFlag args)]
      else if is [''ssh'', ''scp'', ''sftp'', ''rsync''] base then classify_remote base args
      else if is [''aws'', ''az'', ''gcloud'', ''terraform'', ''tofu'', ''kubectl'', ''helm''] base
      then classify_cloud base args
      else if is [''docker'', ''podman'', ''nerdctl''] base then classify_container args
      else if is [''psql'', ''mysql'', ''sqlite3''] base then classify_database args
      else if is [''crontab'', ''at'', ''atq'', ''atrm'', ''systemd-run''] base then classify_schedule base args
      else if base = ''git'' then classifyGitEffects args
      else if is [''python'', ''python3'', ''node'', ''ruby'', ''perl'', ''sh'', ''bash'', ''zsh'', ''fish'',
                  ''pwsh'', ''powershell''] base then classify_interpreter nested base args
      else if is [''env'', ''command'', ''exec'', ''nohup'', ''xargs'', ''busybox'', ''toybox''] base
      then classify_wrapper nested base args
      else [unknown_effect (''unclassified command '' @ base) ''''])"

section \<open>Segments\<close>

text \<open>A heredoc is classified by its first line.\<close>

definition segment_header :: "shell_segment \<Rightarrow> string" where
  "segment_header segment =
     (if seg_Heredoc segment then takeWhile (\<lambda>c. \<not> is_line_break c) (seg_Command segment)
      else seg_Command segment)"

definition classify_segment ::
  "os_world \<Rightarrow> (string list \<Rightarrow> shell_effect list) \<Rightarrow> shell_segment \<Rightarrow> shell_effect list" where
  "classify_segment w nested segment =
     (case tokenizePolicySegment (segment_header segment) of
        Inl _ \<Rightarrow> [unknown_effect ''unclassifiable command'' '''']
      | Inr (argv, redirects) \<Rightarrow>
          if argv = [] then [unknown_effect ''unclassifiable command'' '''']
          else
            (let command = hd argv;
                 before =
                   (if seg_Heredoc segment
                    then [eff SettingScriptExecution ''quoted heredoc script or data'' ''''] else [])
                   @ concat (map (classify_redirect w) redirects)
                   @ classify_credentials w argv
             in if executableNeedsReview w command
                then before
                  @ [unknown_effect (''untrusted or path-qualified executable '' @ command) command]
                else before @ classify_command w nested (Base command) (tl argv)))"

definition synthetic_segment :: "string list \<Rightarrow> shell_segment" where
  "synthetic_segment argv =
     \<lparr>seg_Command = joined argv, seg_Normalized = joined argv, seg_Heredoc = False\<rparr>"

text \<open>A nested command line: one word is parsed as a command, several are joined into a segment.\<close>

definition classify_synthetic ::
  "(shell_segment \<Rightarrow> shell_effect list) \<Rightarrow> string list \<Rightarrow> shell_effect list" where
  "classify_synthetic classify argv =
     (case argv of
        [command] \<Rightarrow>
          (case ParseShellCommand command of
             Inr parsed \<Rightarrow> concat (map classify (parsed_Segments parsed))
           | Inl _ \<Rightarrow> [unknown_effect ''nested command uses blocked or malformed shell syntax'' ''''])
      | _ \<Rightarrow> classify (synthetic_segment argv))"

primrec classify_levels :: "nat \<Rightarrow> os_world \<Rightarrow> shell_segment \<Rightarrow> shell_effect list" where
  "classify_levels 0 w segment = [unknown_effect ''nested command depth exceeded'' '''']"
| "classify_levels (Suc n) w segment =
     classify_segment w (classify_synthetic (classify_levels n w)) segment"

definition classifyShellEffects :: "os_world \<Rightarrow> shell_segment \<Rightarrow> nat \<Rightarrow> shell_effect list" where
  "classifyShellEffects w segment depth = classify_levels (5 - depth) w segment"

section \<open>Nested syntax\<close>

datatype nested_error = NestedDepthExceeded | NestedBlocked parse_error

fun first_error :: "('a \<Rightarrow> 'e option) \<Rightarrow> 'a list \<Rightarrow> 'e option" where
  "first_error f [] = None"
| "first_error f (x # xs) = (case f x of Some e \<Rightarrow> Some e | None \<Rightarrow> first_error f xs)"

primrec validate_levels :: "nat \<Rightarrow> shell_segment \<Rightarrow> nested_error option" where
  "validate_levels 0 segment = Some NestedDepthExceeded"
| "validate_levels (Suc n) segment =
     (case tokenizePolicySegment (segment_header segment) of
        Inl _ \<Rightarrow> None
      | Inr (argv, _) \<Rightarrow>
          if argv = [] \<or> \<not> isShellInterpreter (Base (hd argv)) then None
          else
            (let nested = commandStringArg (tl argv) in
             if nested = '''' then None
             else case ParseShellCommand nested of
               Inl e \<Rightarrow> Some (NestedBlocked e)
             | Inr parsed \<Rightarrow> first_error (validate_levels n) (parsed_Segments parsed)))"

definition validateNestedShellSyntax :: "shell_segment \<Rightarrow> nat \<Rightarrow> nested_error option" where
  "validateNestedShellSyntax segment depth = validate_levels (5 - depth) segment"

end
