(* ===== verification/Shell_Assess.thy ===== *)
theory Shell_Assess
  imports Shell_Classify "HOL-Library.Multiset"
begin

text \<open>
  \<open>AssessShellCommand\<close> of \<open>tools/shell_policy.go\<close>: the decision an effective policy makes about a
  whole command.  The join of decisions is the interface \<open>severity\<close>, interpreted by the code's
  \<open>strictestSecurityDecision\<close>; the theorems say that the assessment is the strictest decision over
  all effects, that the path and credential protections cannot be argued away, and that a stricter
  policy never decides more leniently.
\<close>

section \<open>Joining decisions\<close>

definition decision_rank :: "decision \<Rightarrow> nat" where
  "decision_rank d =
     (if d = DecisionDeny then 4 else if d = DecisionAsk then 3
      else if d = DecisionLLMReview then 2 else 1)"

definition strictestSecurityDecision :: "decision \<Rightarrow> decision \<Rightarrow> decision" where
  "strictestSecurityDecision a b = (if decision_rank a < decision_rank b then b else a)"

text \<open>
  What the clients of a join rely on: it picks one of its arguments, of the greater rank.
\<close>

locale severity =
  fixes rank :: "'d \<Rightarrow> nat" and join :: "'d \<Rightarrow> 'd \<Rightarrow> 'd"
  assumes join_rank: "rank (join a b) = max (rank a) (rank b)"
    and join_picks: "join a b = a \<or> join a b = b"
begin

lemma fold_rank_ge: "rank d \<le> rank (foldl join d ds)"
proof (induction ds arbitrary: d)
  case (Cons a ds)
  have "rank d \<le> rank (join d a)" by (simp add: join_rank)
  also have "\<dots> \<le> rank (foldl join (join d a) ds)" by (rule Cons.IH)
  finally show ?case by simp
qed simp

lemma fold_rank_mem: "x \<in> set ds \<Longrightarrow> rank x \<le> rank (foldl join d ds)"
proof (induction ds arbitrary: d)
  case (Cons y ds)
  have "rank (join d y) \<le> rank (foldl join (join d y) ds)" by (rule fold_rank_ge)
  with Cons show ?case by (auto simp: join_rank)
qed simp

lemma fold_picks: "foldl join d ds = d \<or> foldl join d ds \<in> set ds"
proof (induction ds arbitrary: d)
  case (Cons y ds)
  with join_picks [of d y] show ?case by (metis foldl_Cons list.set_intros)
qed simp

lemma fold_rank_mono:
  assumes "rank d \<le> rank e" "list_all2 (\<lambda>x y. rank x \<le> rank y) ds es"
  shows "rank (foldl join d ds) \<le> rank (foldl join e es)"
  using assms(2,1)
proof (induction ds es arbitrary: d e rule: list_all2_induct)
  case (Cons x xs y ys)
  have "rank (join d x) \<le> rank (join e y)" using Cons by (auto simp: join_rank)
  then show ?case using Cons.IH by simp
qed simp

end

interpretation strictest: severity decision_rank strictestSecurityDecision
  by unfold_locales (auto simp: strictestSecurityDecision_def)

lemma decision_rank_simps [simp]:
  "decision_rank DecisionDeny = 4" "decision_rank DecisionAsk = 3"
  "decision_rank DecisionLLMReview = 2" "decision_rank DecisionAllow = 1"
  by (simp_all add: decision_rank_def keyword_defs)

lemma decision_rank_bounds: "1 \<le> decision_rank d" "decision_rank d \<le> 4"
  by (simp_all add: decision_rank_def)

lemma decision_rank_deny: "decision_rank d = 4 \<longleftrightarrow> d = DecisionDeny"
  by (simp add: decision_rank_def)

lemma decision_rank_ask: "3 \<le> decision_rank d \<longleftrightarrow> d = DecisionAsk \<or> d = DecisionDeny"
  by (simp add: decision_rank_def)

section \<open>Assessing a command\<close>

datatype assess_error =
    CommandTooLong int
  | BadSyntax parse_error
  | BadNested nested_error
  | TooManySegments nat int

record shell_assessment =
  as_Effects :: "shell_effect list"
  as_Decision :: decision
  as_Reason :: string

definition effect_key :: "shell_effect \<Rightarrow> string" where
  "effect_key e = eff_Setting e @ [NUL] @ eff_Detail e @ [NUL] @ eff_Target e"

text \<open>The first element of each key, in the order of the list.\<close>

fun unique_by :: "('a \<Rightarrow> 'k) \<Rightarrow> 'k list \<Rightarrow> 'a list \<Rightarrow> 'a list" where
  "unique_by key seen [] = []"
| "unique_by key seen (x # xs) =
     (if List.member seen (key x) then unique_by key seen xs
      else x # unique_by key (key x # seen) xs)"

definition uniqueEffects :: "shell_effect list \<Rightarrow> shell_effect list" where
  "uniqueEffects effects = sort_key eff_Setting (unique_by effect_key [] effects)"

definition uniqueStrings :: "string list \<Rightarrow> string list" where
  "uniqueStrings values = unique_by (\<lambda>s. s) [] (filter (\<lambda>s. s \<noteq> '''') values)"

definition printableTarget :: "string \<Rightarrow> string" where
  "printableTarget value = (if value = '''' then ''(unresolved)'' else value)"

definition isPersistentMutationEffect :: "setting_id \<Rightarrow> bool" where
  "isPersistentMutationEffect s =
     List.member [SettingFileCreate, SettingFileAppend, SettingFileOverwrite, SettingFileDelete,
       SettingPrivilegeEscalation] s"

definition needs_critical :: "os_world \<Rightarrow> effective_policy \<Rightarrow> shell_effect \<Rightarrow> bool" where
  "needs_critical w p e \<longleftrightarrow>
     pol_Bool p SettingProtectCritical \<and> isPersistentMutationEffect (eff_Setting e)
     \<and> isCriticalPath w (eff_Target e)"

definition needs_credential :: "effective_policy \<Rightarrow> shell_effect \<Rightarrow> bool" where
  "needs_credential p e \<longleftrightarrow>
     pol_Bool p SettingProtectCredentials
     \<and> isCredentialTarget (eff_Target e @ '' '' @ eff_Detail e)"

text \<open>The decision about one effect: a setting without a value counts as an unknown command.\<close>

definition base_decision :: "effective_policy \<Rightarrow> setting_id \<Rightarrow> decision" where
  "base_decision p s =
     (let d = pol_Decision p s in if d = '''' then pol_Decision p SettingUnknownCommands else d)"

definition effect_decision :: "os_world \<Rightarrow> effective_policy \<Rightarrow> shell_effect \<Rightarrow> decision" where
  "effect_decision w p e =
     (let d1 = base_decision p (eff_Setting e);
          d2 = (if needs_critical w p e then strictestSecurityDecision d1 DecisionAsk else d1)
      in if needs_credential p e
         then strictestSecurityDecision d2 (pol_Decision p SettingCredentialAccess) else d2)"

definition effect_reasons :: "os_world \<Rightarrow> effective_policy \<Rightarrow> shell_effect \<Rightarrow> string list" where
  "effect_reasons w p e =
     (if needs_critical w p e
      then [''critical path '' @ printableTarget (eff_Target e) @ '' requires approval''] else [])
     @ (if needs_credential p e
        then [''credential-bearing path requires '' @ pol_Decision p SettingCredentialAccess] else [])
     @ (if eff_Detail e \<noteq> '''' then [eff_Detail e @ '' is '' @ effect_decision w p e] else [])"

definition command_effects :: "os_world \<Rightarrow> shell_segment list \<Rightarrow> shell_effect list" where
  "command_effects w segments =
     (let es = uniqueEffects (concat (map (\<lambda>sg. classifyShellEffects w sg 0) segments))
      in if es = [] then [unknown_effect ''no classifiable effect'' ''''] else es)"

definition AssessShellCommand ::
  "os_world \<Rightarrow> string \<Rightarrow> effective_policy \<Rightarrow> assess_error + shell_assessment" where
  "AssessShellCommand w command p =
     (if pol_Int p SettingMaxCommandBytes < int (length command)
      then Inl (CommandTooLong (pol_Int p SettingMaxCommandBytes))
      else case ParseShellCommand command of
        Inl e \<Rightarrow> Inl (BadSyntax e)
      | Inr parsed \<Rightarrow>
         (let segments = parsed_Segments parsed in
          case first_error (\<lambda>sg. validateNestedShellSyntax sg 0) segments of
            Some e \<Rightarrow> Inl (BadNested e)
          | None \<Rightarrow>
             if pol_Int p SettingMaxSegments < int (length segments)
             then Inl (TooManySegments (length segments) (pol_Int p SettingMaxSegments))
             else
               (let effects = command_effects w segments;
                    reasons0 = concat (map (effect_reasons w p) effects);
                    reasons = (if reasons0 = [] then [''all classified effects are allowed''] else reasons0)
                in Inr \<lparr>as_Effects = effects,
                        as_Decision = foldl strictestSecurityDecision DecisionAllow
                          (map (effect_decision w p) effects),
                        as_Reason = Join (uniqueStrings reasons) ''; ''\<rparr>)))"

section \<open>Example commands\<close>

definition example_world :: os_world where
  "example_world =
     \<lparr>env_var = (\<lambda>v. if v = ''HOME'' then ''/home/op'' else ''''), getwd = Some ''/srv'',
      eval_symlinks = (\<lambda>p. Some p), lstat_exists = (\<lambda>p. p = ''/etc/hosts''),
      stat_device = (\<lambda>_. False), look_path = (\<lambda>n. Some (''/usr/bin/'' @ n))\<rparr>"

definition unmodified_policy :: "profile \<Rightarrow> smap \<Rightarrow> effective_policy" where
  "unmodified_policy p vs =
     \<lparr>pol_Profile = p, pol_Values = vs, pol_Origins = [], pol_Hash = ''0''\<rparr>"

abbreviation minimal_policy :: effective_policy where
  "minimal_policy \<equiv> unmodified_policy ProfileMinimal bundle_Minimal"

abbreviation reasonable_policy :: effective_policy where
  "reasonable_policy \<equiv> unmodified_policy ProfileReasonable bundle_Reasonable"

lemma assess_rm_hosts:
  "AssessShellCommand example_world ''rm /etc/hosts'' minimal_policy =
     Inr \<lparr>as_Effects = [eff SettingFileDelete ''rm deletion'' ''/etc/hosts''],
          as_Decision = DecisionAsk,
          as_Reason = ''critical path /etc/hosts requires approval; rm deletion is ask''\<rparr>"
  by code_simp

lemma assess_cat_key:
  "AssessShellCommand example_world ''ls ~/.ssh/x'' reasonable_policy =
     Inr \<lparr>as_Effects =
            [eff SettingReadCommands ''known read-only command ls'' '''',
             eff SettingCredentialAccess ''credential-bearing command arguments'' ''/home/op/.ssh/x''],
          as_Decision = DecisionDeny,
          as_Reason = ''known read-only command ls is allow; credential-bearing path requires deny; credential-bearing command arguments is deny''\<rparr>"
  by code_simp

lemma assess_ls:
  "AssessShellCommand example_world ''ls'' reasonable_policy =
     Inr \<lparr>as_Effects = [eff SettingReadCommands ''known read-only command ls'' ''''],
          as_Decision = DecisionAllow, as_Reason = ''known read-only command ls is allow''\<rparr>"
  by code_simp

section \<open>Effects of a command\<close>

lemma set_unique_by: "set (unique_by key seen xs) \<subseteq> set xs"
  by (induction key seen xs rule: unique_by.induct) auto

lemma unique_by_keys: "key ` set (unique_by key seen xs) = key ` set xs - set seen"
  by (induction key seen xs rule: unique_by.induct) auto

lemma distinct_unique_by: "distinct (map key (unique_by key seen xs))"
proof (induction key seen xs rule: unique_by.induct)
  case (2 key seen x xs)
  then show ?case using unique_by_keys [of key "key x # seen" xs] by auto
qed simp

lemma uniqueEffects_keys: "effect_key ` set (uniqueEffects es) = effect_key ` set es"
  by (simp add: uniqueEffects_def unique_by_keys)

lemma uniqueEffects_subset: "set (uniqueEffects es) \<subseteq> set es"
  using set_unique_by by (simp add: uniqueEffects_def)

lemma uniqueEffects_sorted: "sorted (map eff_Setting (uniqueEffects es))"
  by (simp add: uniqueEffects_def)

lemma distinct_uniqueEffects: "distinct (map effect_key (uniqueEffects es))"
proof -
  have "mset (map effect_key (uniqueEffects es)) = mset (map effect_key (unique_by effect_key [] es))"
    by (simp add: uniqueEffects_def)
  from mset_eq_imp_distinct_iff [OF this] show ?thesis using distinct_unique_by by metis
qed

lemma command_effects_nonempty: "command_effects w segments \<noteq> []"
  by (simp add: command_effects_def Let_def)

lemma AssessShellCommand_cases:
  assumes "AssessShellCommand w command p = Inr a"
  obtains parsed where "ParseShellCommand command = Inr parsed"
    and "int (length command) \<le> pol_Int p SettingMaxCommandBytes"
    and "int (length (parsed_Segments parsed)) \<le> pol_Int p SettingMaxSegments"
    and "first_error (\<lambda>sg. validateNestedShellSyntax sg 0) (parsed_Segments parsed) = None"
    and "as_Effects a = command_effects w (parsed_Segments parsed)"
    and "as_Decision a = foldl strictestSecurityDecision DecisionAllow
           (map (effect_decision w p) (as_Effects a))"
  using assms
  by (auto simp: AssessShellCommand_def Let_def not_less split: if_splits sum.splits option.splits)

lemma rank_deny_le: "decision_rank DecisionDeny \<le> decision_rank d \<longleftrightarrow> d = DecisionDeny"
  using decision_rank_bounds(2) [of d] decision_rank_deny [of d] by auto

lemma assessed_effect:
  assumes "AssessShellCommand w command p = Inr a" "e \<in> set (as_Effects a)"
  shows "decision_rank (effect_decision w p e) \<le> decision_rank (as_Decision a)"
  using assms(1)
proof (rule AssessShellCommand_cases)
  assume dec: "as_Decision a = foldl strictestSecurityDecision DecisionAllow
           (map (effect_decision w p) (as_Effects a))"
  show ?thesis unfolding dec using assms(2) by (intro strictest.fold_rank_mem) simp
qed

lemma effect_decision_base:
  "decision_rank (base_decision p (eff_Setting e)) \<le> decision_rank (effect_decision w p e)"
  by (simp add: effect_decision_def Let_def strictest.join_rank le_max_iff_disj)

lemma effect_decision_critical:
  "needs_critical w p e \<Longrightarrow> 3 \<le> decision_rank (effect_decision w p e)"
  by (simp add: effect_decision_def Let_def strictest.join_rank le_max_iff_disj)

lemma effect_decision_credential:
  "needs_credential p e
   \<Longrightarrow> decision_rank (pol_Decision p SettingCredentialAccess) \<le> decision_rank (effect_decision w p e)"
  by (simp add: effect_decision_def Let_def strictest.join_rank le_max_iff_disj)

text \<open>
  C2: the assessment is exactly the strictest decision over the effects it reports: no effect was
  decided more strictly than the command, and a command that is not allowed has an effect that says
  so.  There is always an effect to decide on.
\<close>

theorem AssessShellCommand_strictest:
  assumes "AssessShellCommand w command p = Inr a"
  shows "as_Effects a \<noteq> []
    \<and> (\<forall>e \<in> set (as_Effects a). decision_rank (effect_decision w p e) \<le> decision_rank (as_Decision a))
    \<and> (as_Decision a = DecisionAllow \<or> (\<exists>e \<in> set (as_Effects a). as_Decision a = effect_decision w p e))"
  using assms
proof (rule AssessShellCommand_cases)
  fix parsed
  assume eff: "as_Effects a = command_effects w (parsed_Segments parsed)"
    and dec: "as_Decision a = foldl strictestSecurityDecision DecisionAllow
           (map (effect_decision w p) (as_Effects a))"
  have "as_Decision a = DecisionAllow \<or> as_Decision a \<in> effect_decision w p ` set (as_Effects a)"
    unfolding dec using strictest.fold_picks [of DecisionAllow "map (effect_decision w p) (as_Effects a)"] by simp
  then show ?thesis using eff command_effects_nonempty assessed_effect [OF assms] by auto
qed

theorem AssessShellCommand_strictest_witness:
  "\<exists>a. AssessShellCommand example_world ''rm /etc/hosts'' minimal_policy = Inr a \<and> as_Effects a \<noteq> []
     \<and> (\<exists>e \<in> set (as_Effects a). as_Decision a = effect_decision example_world minimal_policy e)"
  using AssessShellCommand_strictest [OF assess_rm_hosts] assess_rm_hosts
  by (auto simp: keyword_defs)



text \<open>
  while credential paths are protected, a command with an effect whose target or description
  names credential material is decided at least as strictly as the policy's value for credential
  access: if the policy denies such access the command is denied.
\<close>

theorem AssessShellCommand_protects_credentials:
  assumes "AssessShellCommand w command p = Inr a" and "e \<in> set (as_Effects a)"
    and "pol_Bool p SettingProtectCredentials"
    and "isCredentialTarget (eff_Target e @ '' '' @ eff_Detail e)"
  shows "decision_rank (pol_Decision p SettingCredentialAccess) \<le> decision_rank (as_Decision a)
    \<and> (pol_Decision p SettingCredentialAccess = DecisionDeny \<longrightarrow> as_Decision a = DecisionDeny)"
proof -
  have "needs_credential p e" using assms(3,4) by (simp add: needs_credential_def)
  from order_trans [OF effect_decision_credential [OF this] assessed_effect [OF assms(1,2)]]
  show ?thesis using rank_deny_le [of "as_Decision a"] by auto
qed

theorem AssessShellCommand_protects_credentials_witness:
  "\<exists>a. AssessShellCommand example_world ''ls ~/.ssh/x'' reasonable_policy = Inr a
     \<and> as_Decision a = DecisionDeny"
proof -
  have "pol_Bool reasonable_policy SettingProtectCredentials"
    "isCredentialTarget (''/home/op/.ssh/x'' @ '' '' @ ''credential-bearing command arguments'')"
    "pol_Decision reasonable_policy SettingCredentialAccess = DecisionDeny"
    by code_simp+
  with AssessShellCommand_protects_credentials [OF assess_cat_key,
      of "eff SettingCredentialAccess ''credential-bearing command arguments'' ''/home/op/.ssh/x''"]
    assess_cat_key
  show ?thesis by (simp add: eff_def)
qed

section \<open>Stricter policies\<close>

text \<open>
  \<open>q\<close> is at least as strict as \<open>p\<close>: every effect's decision has at least the rank it has under
  \<open>p\<close>, protections that are on stay on, and the size limits are no larger.
\<close>

definition at_least_as_strict :: "effective_policy \<Rightarrow> effective_policy \<Rightarrow> bool" where
  "at_least_as_strict p q \<longleftrightarrow>
     (\<forall>s. decision_rank (base_decision p s) \<le> decision_rank (base_decision q s))
     \<and> decision_rank (pol_Decision p SettingCredentialAccess)
         \<le> decision_rank (pol_Decision q SettingCredentialAccess)
     \<and> (pol_Bool p SettingProtectCritical \<longrightarrow> pol_Bool q SettingProtectCritical)
     \<and> (pol_Bool p SettingProtectCredentials \<longrightarrow> pol_Bool q SettingProtectCredentials)
     \<and> pol_Int q SettingMaxCommandBytes \<le> pol_Int p SettingMaxCommandBytes
     \<and> pol_Int q SettingMaxSegments \<le> pol_Int p SettingMaxSegments"

lemma effect_decision_mono:
  assumes "at_least_as_strict p q"
  shows "decision_rank (effect_decision w p e) \<le> decision_rank (effect_decision w q e)"
proof -
  have "decision_rank (base_decision p (eff_Setting e)) \<le> decision_rank (base_decision q (eff_Setting e))"
    and "needs_critical w p e \<Longrightarrow> needs_critical w q e"
    and "needs_credential p e \<Longrightarrow> needs_credential q e"
    and "decision_rank (pol_Decision p SettingCredentialAccess)
         \<le> decision_rank (pol_Decision q SettingCredentialAccess)"
    using assms by (auto simp: at_least_as_strict_def needs_critical_def needs_credential_def)
  then show ?thesis
    by (simp add: effect_decision_def Let_def strictest.join_rank) linarith
qed

lemma assessed_mono:
  assumes "at_least_as_strict p q" and "AssessShellCommand w command q = Inr b"
  shows "\<exists>a. AssessShellCommand w command p = Inr a \<and> as_Effects a = as_Effects b
    \<and> decision_rank (as_Decision a) \<le> decision_rank (as_Decision b)"
  using assms(2)
proof (rule AssessShellCommand_cases)
  fix parsed
  assume parsed: "ParseShellCommand command = Inr parsed"
    and nested: "first_error (\<lambda>sg. validateNestedShellSyntax sg 0) (parsed_Segments parsed) = None"
    and sizes: "int (length command) \<le> pol_Int q SettingMaxCommandBytes"
      "int (length (parsed_Segments parsed)) \<le> pol_Int q SettingMaxSegments"
    and b: "as_Effects b = command_effects w (parsed_Segments parsed)"
      "as_Decision b = foldl strictestSecurityDecision DecisionAllow (map (effect_decision w q) (as_Effects b))"
  have limits: "\<not> pol_Int p SettingMaxCommandBytes < int (length command)"
    "\<not> pol_Int p SettingMaxSegments < int (length (parsed_Segments parsed))"
    using assms(1) sizes by (auto simp: at_least_as_strict_def)
  define es where "es = command_effects w (parsed_Segments parsed)"
  obtain a where a: "AssessShellCommand w command p = Inr a" "as_Effects a = es"
    "as_Decision a = foldl strictestSecurityDecision DecisionAllow (map (effect_decision w p) es)"
    using limits parsed nested by (simp add: AssessShellCommand_def Let_def es_def)
  have "decision_rank (as_Decision a) \<le> decision_rank (as_Decision b)"
    unfolding a(3) b(2) b(1) es_def [symmetric]
    by (rule strictest.fold_rank_mono)
      (simp_all add: list_all2_conv_all_nth effect_decision_mono [OF assms(1)])
  with a b(1) show ?thesis by (auto simp: es_def)
qed

text \<open>
  Tightening a policy never relaxes a verdict.  If a command is assessed under a policy that is at
  least as strict in every setting, it was assessed under the laxer policy too, with the same effects,
  and the decision under the stricter policy is at least as strict.
\<close>

theorem AssessShellCommand_monotone:
  assumes "at_least_as_strict p q" and "AssessShellCommand w command q = Inr b"
  shows "\<exists>a. AssessShellCommand w command p = Inr a \<and> as_Effects a = as_Effects b
    \<and> decision_rank (as_Decision a) \<le> decision_rank (as_Decision b)"
  using assms by (rule assessed_mono)

text \<open>
  The order between two policies from the order between their tables of values, entry by entry.
\<close>

definition values_le :: "smap \<Rightarrow> smap \<Rightarrow> bool" where
  "values_le vs ws \<longleftrightarrow>
     list_all2 (\<lambda>(k, v) (l, x). k = l \<and> v \<noteq> '''' \<and> x \<noteq> '''' \<and> decision_rank v \<le> decision_rank x) vs ws"

lemma values_le_get:
  assumes "values_le vs ws"
  shows "(map_get vs s = '''' \<longleftrightarrow> map_get ws s = '''')
    \<and> decision_rank (map_get vs s) \<le> decision_rank (map_get ws s)"
  using assms unfolding values_le_def
  by (induction vs ws rule: list_all2_induct) (auto simp: map_get_def)

lemma values_le_base:
  assumes "values_le vs ws" "\<And>i. map_get (pol_Values p) i = map_get vs i"
    "\<And>i. map_get (pol_Values q) i = map_get ws i"
  shows "decision_rank (base_decision p s) \<le> decision_rank (base_decision q s)
    \<and> decision_rank (pol_Decision p s) \<le> decision_rank (pol_Decision q s)"
  using values_le_get [OF assms(1)] by (simp add: base_decision_def pol_Decision_def assms(2,3))

text \<open>The shipped profiles that are ordered, each with the next stricter one.\<close>

definition stricter_profiles :: "(profile \<times> profile) list" where
  "stricter_profiles =
     [(ProfileYOLO, ProfileMinimal), (ProfileMinimal, ProfileLessStrict),
      (ProfileLessStrict, ProfileReasonable), (ProfileReasonable, ProfileExtraStrict),
      (ProfileLLMJudge, ProfileExtraStrict)]"

abbreviation unmodified :: "profile \<Rightarrow> selection" where
  "unmodified prof \<equiv> \<lparr>sel_Version = SchemaVersion, sel_Profile = prof, sel_Overrides = []\<rparr>"

definition bundle_of :: "profile \<Rightarrow> smap" where
  "bundle_of prof = (case BundleFor prof of Some b \<Rightarrow> bundle_Values b | None \<Rightarrow> [])"

lemma Resolve_unmodified:
  assumes "Resolve h (Some (unmodified prof)) = Inr p" and "prof \<in> set profile_ids"
  shows "map_get (pol_Values p) i = map_get (bundle_of prof) i"
  using assms(1)
proof (rule Resolve_cases)
  fix t b
  assume t: "t = Normalize (case Some (unmodified prof) of None \<Rightarrow> DefaultSelection | Some s \<Rightarrow> s)"
    and b: "BundleFor (sel_Profile t) = Some b"
    and vals: "pol_Values p = assign_all (sel_Overrides t) (assign_all (bundle_Values b) [])"
  have "prof \<noteq> ''''" using assms(2) by (auto simp: profile_ids_def keyword_defs)
  then have "sel_Profile t = prof" "sel_Overrides t = []" by (simp_all add: t Normalize_def)
  moreover have "map_of (rev (bundle_Values b)) = map_of (bundle_Values b)"
    using BundleFor_complete [OF b] by (intro map_of_rev_distinct) (simp add: complete_values_def)
  ultimately show ?thesis
    using b by (simp add: bundle_of_def map_get_def vals map_of_assign_all split: option.split)
qed

lemma stricter_values: "list_all (\<lambda>(P, Q). values_le (bundle_of P) (bundle_of Q)) stricter_profiles"
  by code_simp

lemma stricter_limits:
  "list_all (\<lambda>(P, Q). let get = (\<lambda>R. map_get (bundle_of R)) in
     (ParseBool (get P SettingProtectCritical) \<longrightarrow> ParseBool (get Q SettingProtectCritical))
     \<and> (ParseBool (get P SettingProtectCredentials) \<longrightarrow> ParseBool (get Q SettingProtectCredentials))
     \<and> AtoiValue (get Q SettingMaxCommandBytes) \<le> AtoiValue (get P SettingMaxCommandBytes)
     \<and> AtoiValue (get Q SettingMaxSegments) \<le> AtoiValue (get P SettingMaxSegments)) stricter_profiles"
  by code_simp

lemma stricter_profiles_known: "list_all (\<lambda>(P, Q). P \<in> set profile_ids \<and> Q \<in> set profile_ids) stricter_profiles"
  by (simp add: stricter_profiles_def profile_ids_def)

lemma stricter_profiles_strict:
  assumes "(P, Q) \<in> set stricter_profiles"
    and "Resolve h (Some (unmodified P)) = Inr p" and "Resolve h (Some (unmodified Q)) = Inr q"
  shows "at_least_as_strict p q"
proof -
  have known: "P \<in> set profile_ids" "Q \<in> set profile_ids"
    using stricter_profiles_known assms(1) by (auto simp: list_all_iff)
  note p = Resolve_unmodified [OF assms(2) known(1)] and q = Resolve_unmodified [OF assms(3) known(2)]
  have "values_le (bundle_of P) (bundle_of Q)"
    using stricter_values assms(1) by (auto simp: list_all_iff)
  note le = values_le_base [OF this p q]
  show ?thesis
    using le bspec [OF stricter_limits [unfolded list_all_iff] assms(1)]
    by (simp add: at_least_as_strict_def pol_Bool_def pol_Int_def p q Let_def)
qed

text \<open>
  C14: the shipped profiles are ordered: a command assessed under extra_strict is decided no more
  leniently than under reasonable or llm_judge, under reasonable no more leniently than under
  less_strict, and so on through minimal to yolo.
\<close>

theorem profiles_ordered:
  assumes "(P, Q) \<in> set stricter_profiles"
    and "Resolve h (Some (unmodified P)) = Inr p" and "Resolve h (Some (unmodified Q)) = Inr q"
    and "AssessShellCommand w command q = Inr b"
  shows "\<exists>a. AssessShellCommand w command p = Inr a
    \<and> decision_rank (as_Decision a) \<le> decision_rank (as_Decision b)"
  using assessed_mono [OF stricter_profiles_strict [OF assms(1-3)] assms(4)] by blast

lemma unmodified_resolves: "prof \<in> set profile_ids \<Longrightarrow> \<exists>p. Resolve h (Some (unmodified prof)) = Inr p"
proof (rule Resolve_total)
  assume prof: "prof \<in> set profile_ids"
  then have "prof \<noteq> ''''" by (auto simp: profile_ids_def keyword_defs)
  with prof BundleFor_known [OF prof] show "Validate (Some (Normalize (unmodified prof))) = Inr ()"
    by (auto simp: Validate_def Normalize_def)
qed

lemma AssessShellCommand_cong:
  assumes "\<And>i. map_get (pol_Values p) i = map_get (pol_Values q) i"
  shows "AssessShellCommand w command p = AssessShellCommand w command q"
proof -
  have base: "base_decision p = base_decision q"
    by (intro ext) (simp only: base_decision_def pol_Decision_def assms)
  have crit: "needs_critical w p = needs_critical w q" and cred: "needs_credential p = needs_credential q"
    by (intro ext, simp add: needs_critical_def needs_credential_def pol_Bool_def assms)+
  have dec: "effect_decision w p = effect_decision w q"
    by (intro ext) (simp only: effect_decision_def base crit cred pol_Decision_def assms)
  have reasons: "effect_reasons w p = effect_reasons w q"
    by (intro ext) (simp only: effect_reasons_def dec crit cred pol_Decision_def assms)
  show ?thesis by (simp only: AssessShellCommand_def dec reasons pol_Int_def assms)
qed

lemma assess_ls_less_strict:
  "AssessShellCommand example_world ''ls'' (unmodified_policy ProfileLessStrict (bundle_of ProfileLessStrict)) =
     Inr \<lparr>as_Effects = [eff SettingReadCommands ''known read-only command ls'' ''''],
          as_Decision = DecisionAllow, as_Reason = ''known read-only command ls is allow''\<rparr>"
  by code_simp

theorem profiles_ordered_witness:
  "\<exists>p a. Resolve (\<lambda>_. ''h'') (Some (unmodified ProfileMinimal)) = Inr p
     \<and> AssessShellCommand example_world ''ls'' p = Inr a \<and> decision_rank (as_Decision a) \<le> 1"
proof -
  have known: "ProfileMinimal \<in> set profile_ids" "ProfileLessStrict \<in> set profile_ids"
    "(ProfileMinimal, ProfileLessStrict) \<in> set stricter_profiles"
    by (simp_all add: profile_ids_def stricter_profiles_def)
  obtain p q where p: "Resolve (\<lambda>_. ''h'') (Some (unmodified ProfileMinimal)) = Inr p"
    and q: "Resolve (\<lambda>_. ''h'') (Some (unmodified ProfileLessStrict)) = Inr q"
    using unmodified_resolves known(1,2) by meson
  have "AssessShellCommand example_world ''ls'' q =
      AssessShellCommand example_world ''ls'' (unmodified_policy ProfileLessStrict (bundle_of ProfileLessStrict))"
    by (rule AssessShellCommand_cong)
      (simp add: Resolve_unmodified [OF q known(2)] unmodified_policy_def)
  from profiles_ordered [OF known(3) p q this [unfolded assess_ls_less_strict]]
  obtain a where a: "AssessShellCommand example_world ''ls'' p = Inr a" "decision_rank (as_Decision a) \<le> 1"
    by auto
  with p show ?thesis by blast
qed

text \<open>The preconditions of \<open>AssessShellCommand_monotone\<close> for two shipped profiles.\<close>

theorem AssessShellCommand_monotone_witness:
  "\<exists>p q. at_least_as_strict p q \<and> (\<exists>a. AssessShellCommand example_world ''ls'' p = Inr a
     \<and> as_Effects a = [eff SettingReadCommands ''known read-only command ls'' ''''])"
proof -
  have known: "ProfileMinimal \<in> set profile_ids" "ProfileLessStrict \<in> set profile_ids"
    "(ProfileMinimal, ProfileLessStrict) \<in> set stricter_profiles"
    by (simp_all add: profile_ids_def stricter_profiles_def)
  obtain p q where p: "Resolve (\<lambda>_. ''h'') (Some (unmodified ProfileMinimal)) = Inr p"
    and q: "Resolve (\<lambda>_. ''h'') (Some (unmodified ProfileLessStrict)) = Inr q"
    using unmodified_resolves known(1,2) by meson
  have strict: "at_least_as_strict p q" by (rule stricter_profiles_strict [OF known(3) p q])
  have "AssessShellCommand example_world ''ls'' q =
      AssessShellCommand example_world ''ls'' (unmodified_policy ProfileLessStrict (bundle_of ProfileLessStrict))"
    by (rule AssessShellCommand_cong)
      (simp add: Resolve_unmodified [OF q known(2)] unmodified_policy_def)
  from AssessShellCommand_monotone [OF strict this [unfolded assess_ls_less_strict]] strict
  show ?thesis by auto
qed

section \<open>What the classifier does not see\<close>

text \<open>
  \<open>&\<close> is accepted after any \<open>>\<close>, also an escaped one, so a command put in the background is one
  segment with what follows it, and only the first program is classified.
\<close>

lemma escaped_redirect_hides_background_command:
  "AssessShellCommand example_world (''echo '' @ [BSLASH] @ ''>& rm -rf /etc'') reasonable_policy =
     Inr \<lparr>as_Effects = [eff SettingReadCommands ''known read-only command echo'' ''''],
          as_Decision = DecisionAllow, as_Reason = ''known read-only command echo is allow''\<rparr>"
  by code_simp

text \<open>
  A quote inside a shell comment opens a quotation for the parser, but not for the shell: the middle
  line is a command for the shell and a part of an argument for the classifier.
\<close>

lemma comment_quote_hides_command:
  "AssessShellCommand example_world
     (''echo # '' @ [SQUOTE, LF] @ ''rm -rf /etc'' @ [LF] @ ''# '' @ [SQUOTE]) reasonable_policy =
     Inr \<lparr>as_Effects = [eff SettingReadCommands ''known read-only command echo'' ''''],
          as_Decision = DecisionAllow, as_Reason = ''known read-only command echo is allow''\<rparr>"
  by code_simp

text \<open>
  A quotation opened by a dollar sign and a single quote ends at a different quote for the shell (bash, and POSIX.1-2024) than
  for the parser, which knows no escapes in single quotes: the substitution is quoted for the parser and run by the shell.
\<close>

definition dollar_quoted :: string where
  "dollar_quoted = ''echo $'' @ [SQUOTE, BSLASH, SQUOTE, SQUOTE] @ '' $(rm -rf /etc) #'' @ [SQUOTE]"

lemma dollar_quote_hides_substitution:
  "AssessShellCommand example_world dollar_quoted reasonable_policy =
     Inr \<lparr>as_Effects = [eff SettingReadCommands ''known read-only command echo'' ''''],
          as_Decision = DecisionAllow, as_Reason = ''known read-only command echo is allow''\<rparr>
   \<and> sh_first False False False True dollar_quoted = Some DollarQuote"
  by code_simp

text \<open>
  The target of a deletion is expanded in the environment of the harness before it is tested, so a
  variable that is not set there leaves an empty target, which is no critical path: the protection of
  critical paths does not fire for a variable set by the command itself.
\<close>

lemma unset_variable_hides_critical_target:
  "case AssessShellCommand example_world ''X=/etc; rm -r $X'' minimal_policy of
     Inl _ \<Rightarrow> False
   | Inr a \<Rightarrow> as_Decision a = DecisionAllow
       \<and> List.member (as_Effects a) (eff SettingFileDelete ''rm deletion'' '''')"
  by code_simp

end
