(* ===== verification/Go_Time.thy ===== *)
theory Go_Time
  imports Go_Strings
begin

text \<open>
  The part of Go's \<open>time\<close> package the program relies on.  A time is the number of nanoseconds since
  1970-01-01 UTC, unbounded; the zero time of Go is the start of the year 1.  The calendar fields
  used by the cron expressions (\<open>Minute\<close>, \<open>Hour\<close>, \<open>Day\<close>, \<open>Month\<close>, \<open>Weekday\<close>) are computed by the
  proleptic Gregorian calendar, in UTC.
\<close>

type_synonym time = int
type_synonym duration = int

definition Second :: duration where
  "Second = 1000000000"

definition Minute :: duration where
  "Minute = 60 * Second"

definition Hour :: duration where
  "Hour = 60 * Minute"

definition zero_time :: time where
  "zero_time = - 62135596800 * Second"

definition IsZero :: "time \<Rightarrow> bool" where
  "IsZero t \<longleftrightarrow> t = zero_time"

abbreviation After :: "time \<Rightarrow> time \<Rightarrow> bool" where
  "After t u \<equiv> u < t"

abbreviation Before :: "time \<Rightarrow> time \<Rightarrow> bool" where
  "Before t u \<equiv> t < u"

text \<open>
  \<open>Truncate\<close> rounds down to a multiple of \<open>d\<close> since the zero time; for a whole number of seconds that
  divides a day this is a multiple since 1970 too, as the zero time is a midnight.
\<close>

definition Truncate :: "time \<Rightarrow> duration \<Rightarrow> time" where
  "Truncate t d = (if d \<le> 0 then t else t - (t - zero_time) mod d)"

section \<open>Calendar\<close>

definition unix_minutes :: "time \<Rightarrow> int" where
  "unix_minutes t = t div Minute"

definition minute_of :: "time \<Rightarrow> int" where
  "minute_of t = unix_minutes t mod 60"

definition hour_of :: "time \<Rightarrow> int" where
  "hour_of t = unix_minutes t div 60 mod 24"

definition unix_days :: "time \<Rightarrow> int" where
  "unix_days t = unix_minutes t div 1440"

text \<open>1970-01-01 was a Thursday; Sunday is 0.\<close>

definition weekday_of :: "time \<Rightarrow> int" where
  "weekday_of t = (unix_days t + 4) mod 7"

text \<open>
  The date of a day number, counting in eras of 400 years from 0000-03-01, so that the leap day is
  the last day of a year.
\<close>

definition civil_month_day :: "int \<Rightarrow> int \<times> int" where
  "civil_month_day days =
     (let z = days + 719468;
          doe = z mod 146097;
          yoe = (doe - doe div 1460 + doe div 36524 - doe div 146096) div 365;
          doy = doe - (365 * yoe + yoe div 4 - yoe div 100);
          mp = (5 * doy + 2) div 153
      in (if mp < 10 then mp + 3 else mp - 9, doy - (153 * mp + 2) div 5 + 1))"

definition month_of :: "time \<Rightarrow> int" where
  "month_of t = fst (civil_month_day (unix_days t))"

definition day_of :: "time \<Rightarrow> int" where
  "day_of t = snd (civil_month_day (unix_days t))"

lemma minute_pos: "0 < Minute" "0 < Hour" "0 < Second"
  by (simp_all add: Minute_def Hour_def Second_def)

lemma zero_time_minute: "zero_time mod Minute = 0"
  by (simp add: zero_time_def Minute_def Second_def)

lemma Truncate_Minute:
  "Truncate t Minute \<le> t" "t < Truncate t Minute + Minute" "Truncate t Minute mod Minute = 0"
proof -
  have "t - (t - zero_time) mod Minute = (t - zero_time) div Minute * Minute + zero_time"
    by (simp add: minus_mod_eq_div_mult [symmetric])
  moreover have "((t - zero_time) div Minute * Minute + zero_time) mod Minute = 0"
    using zero_time_minute by (simp add: mod_add_eq [symmetric])
  ultimately show "Truncate t Minute mod Minute = 0"
    using minute_pos by (simp add: Truncate_def)
  show "Truncate t Minute \<le> t" "t < Truncate t Minute + Minute"
    using minute_pos(1) pos_mod_bound [of Minute "t - zero_time"] pos_mod_sign [of Minute "t - zero_time"]
    by (simp_all add: Truncate_def)
qed

text \<open>The epoch, a leap day and the zero time, as a check of the calendar.\<close>

lemma calendar_examples:
  "civil_month_day 0 = (1, 1)" "civil_month_day 19782 = (2, 29)" "civil_month_day 19783 = (3, 1)"
  "civil_month_day (unix_days zero_time) = (1, 1)" "weekday_of zero_time = 1"
  by code_simp+

end
