(* ===== verification/Grant_Store.thy ===== *)
theory Grant_Store
  imports Go_Time "HOL-Library.AList"
begin

text \<open>
  The table of scoped authorizations, \<open>state/store_security_grants.go\<close>: \<open>SaveSecurityActionGrant\<close>,
  \<open>ConsumeSecurityActionGrant\<close> with its bounded retries on a locked database, and
  \<open>ListSecurityActionGrants\<close>.  The table is an association list whose key is the primary key
  \<open>digest\<close>; each SQL statement is one function on it.  The database's answers that the program cannot
  determine (busy, failed, a cancelled context) are arguments.
\<close>

section \<open>Grants\<close>

record security_grant =
  g_Digest :: string
  g_ActionKind :: string
  g_MaskedSummary :: string
  g_EffectDigest :: string
  g_PolicyHash :: string
  g_Host :: string
  g_Principal :: string
  g_WorkingDirectory :: string
  g_Source :: string
  g_ExpiresAt :: time
  g_RemainingUses :: int
  g_CreatedAt :: time
  g_UsedAt :: "time option"

type_synonym grant_table = "(string \<times> security_grant) list"

datatype store_error =
    StoreUnavailable
  | MissingBinding
  | ExpiryNotAfterCreation
  | DatabaseError string
  | RetriesExhausted string
  | ContextDone

section \<open>Save\<close>

text \<open>The row that the upsert writes; its arguments \<open>now\<close> and \<open>grant\<close> are those of the Go function.\<close>

definition fill_grant :: "time \<Rightarrow> security_grant \<Rightarrow> security_grant" where
  "fill_grant now grant =
     grant\<lparr>g_RemainingUses := (if g_RemainingUses grant \<le> 0 then 1 else g_RemainingUses grant),
           g_CreatedAt := (if IsZero (g_CreatedAt grant) then now else g_CreatedAt grant)\<rparr>"

definition SaveSecurityActionGrant ::
  "bool \<Rightarrow> time \<Rightarrow> security_grant \<Rightarrow> grant_table \<Rightarrow> store_error + grant_table" where
  "SaveSecurityActionGrant available now grant0 table =
     (if \<not> available then Inl StoreUnavailable
      else if TrimSpace (g_Digest grant0) = '''' \<or> TrimSpace (g_PolicyHash grant0) = ''''
        \<or> TrimSpace (g_EffectDigest grant0) = '''' then Inl MissingBinding
      else
        (let grant = fill_grant now grant0 in
         if IsZero (g_ExpiresAt grant) \<or> \<not> After (g_ExpiresAt grant) (g_CreatedAt grant)
         then Inl ExpiryNotAfterCreation
         else Inr (AList.update (g_Digest grant) (grant\<lparr>g_UsedAt := None\<rparr>) table)))"

section \<open>Consume\<close>

text \<open>The \<open>WHERE\<close> clause of the update: the same bindings, a use left, not expired.\<close>

definition grant_matches :: "security_grant \<Rightarrow> time \<Rightarrow> security_grant \<Rightarrow> bool" where
  "grant_matches grant now row \<longleftrightarrow>
     g_Digest row = g_Digest grant \<and> g_ActionKind row = g_ActionKind grant
     \<and> g_EffectDigest row = g_EffectDigest grant \<and> g_PolicyHash row = g_PolicyHash grant
     \<and> g_Host row = g_Host grant \<and> g_Principal row = g_Principal grant
     \<and> g_WorkingDirectory row = g_WorkingDirectory grant
     \<and> 0 < g_RemainingUses row \<and> now < g_ExpiresAt row"

definition spend :: "time \<Rightarrow> security_grant \<Rightarrow> security_grant" where
  "spend now row = row\<lparr>g_RemainingUses := g_RemainingUses row - 1, g_UsedAt := Some now\<rparr>"

text \<open>The update itself, with the number of rows it affects.\<close>

definition update_grant :: "security_grant \<Rightarrow> time \<Rightarrow> grant_table \<Rightarrow> nat \<times> grant_table" where
  "update_grant grant now table =
     (case map_of table (g_Digest grant) of
        Some row \<Rightarrow> (if grant_matches grant now row
                     then (1, AList.update (g_Digest grant) (spend now row) table) else (0, table))
      | None \<Rightarrow> (0, table))"

text \<open>What the database answers to one attempt.\<close>

datatype exec_answer = ExecOk | ExecError string

definition isSQLiteBusy :: "string \<Rightarrow> bool" where
  "isSQLiteBusy message =
     (let m = ToLower message in Contains m ''sqlite_busy'' \<or> Contains m ''database is locked'')"

text \<open>
  The retry loop; its first argument counts the attempts left.  \<open>answer i\<close> is the database's answer
  to attempt \<open>i\<close> and \<open>cancelled i\<close> whether the context is done while waiting after it.
\<close>

primrec consume_attempts ::
  "nat \<Rightarrow> nat \<Rightarrow> (nat \<Rightarrow> exec_answer) \<Rightarrow> (nat \<Rightarrow> bool) \<Rightarrow> security_grant \<Rightarrow> time \<Rightarrow> string
   \<Rightarrow> grant_table \<Rightarrow> (store_error + bool) \<times> grant_table" where
  "consume_attempts 0 attempt answer cancelled grant now lastError table =
     (Inl (RetriesExhausted lastError), table)"
| "consume_attempts (Suc n) attempt answer cancelled grant now lastError table =
     (case answer attempt of
        ExecOk \<Rightarrow> (let (count, table') = update_grant grant now table in (Inr (count = 1), table'))
      | ExecError e \<Rightarrow>
          if \<not> isSQLiteBusy e then (Inl (DatabaseError e), table)
          else if cancelled attempt then (Inl ContextDone, table)
          else consume_attempts n (attempt + 1) answer cancelled grant now e table)"

definition ConsumeSecurityActionGrant ::
  "bool \<Rightarrow> time \<Rightarrow> (nat \<Rightarrow> exec_answer) \<Rightarrow> (nat \<Rightarrow> bool) \<Rightarrow> security_grant \<Rightarrow> time \<Rightarrow> grant_table
   \<Rightarrow> (store_error + bool) \<times> grant_table" where
  "ConsumeSecurityActionGrant available clock answer cancelled grant now0 table =
     (if \<not> available then (Inl StoreUnavailable, table)
      else consume_attempts 20 0 answer cancelled grant (if IsZero now0 then clock else now0) '''' table)"

definition ListSecurityActionGrants :: "bool \<Rightarrow> grant_table \<Rightarrow> store_error + security_grant list" where
  "ListSecurityActionGrants available table =
     (if \<not> available then Inl StoreUnavailable
      else Inr (sort_key (\<lambda>g. - g_CreatedAt g) (map snd table)))"

section \<open>The ledger of uses\<close>

text \<open>
  What an executor relies on when it spends grants: a spent use was there, and spending changes only
  the entry spent.  \<open>uses\<close> is what an entry still allows.
\<close>

locale grant_ledger =
  fixes uses :: "'t \<Rightarrow> 'k \<Rightarrow> nat"
    and consume :: "'g \<Rightarrow> 't \<Rightarrow> bool \<times> 't"
    and key :: "'g \<Rightarrow> 'k"
  assumes consume_spends: "consume g t = (True, t') \<Longrightarrow> uses t (key g) = Suc (uses t' (key g))"
    and consume_refuses: "consume g t = (False, t') \<Longrightarrow> t' = t"
    and consume_others: "consume g t = (b, t') \<Longrightarrow> k \<noteq> key g \<Longrightarrow> uses t' k = uses t k"
begin

text \<open>A run of attempts, with the list of the entries that were spent.\<close>

fun run_all :: "'g list \<Rightarrow> 't \<Rightarrow> 'k list \<times> 't" where
  "run_all [] t = ([], t)"
| "run_all (g # gs) t =
     (let (b, t') = consume g t; (spent, t'') = run_all gs t'
      in (if b then key g # spent else spent, t''))"

lemma run_all_uses: "run_all gs t = (spent, t') \<Longrightarrow> uses t k = count_list spent k + uses t' k"
proof (induction gs arbitrary: t spent t')
  case (Cons g gs)
  obtain b t1 where c: "consume g t = (b, t1)" by (cases "consume g t")
  obtain spent1 t2 where r: "run_all gs t1 = (spent1, t2)" by (cases "run_all gs t1")
  have eq: "spent = (if b then key g # spent1 else spent1)" "t' = t2"
    using Cons.prems by (simp_all add: c r)
  note ih = Cons.IH [OF r]
  show ?case
  proof (cases b)
    case True
    then show ?thesis
      using ih eq consume_spends [of g t t1] consume_others [OF c, of k] c
      by (cases "k = key g") auto
  next
    case False
    then show ?thesis using ih eq consume_refuses [of g t t1] c by auto
  qed
qed simp

lemma spent_at_most: "run_all gs t = (spent, t') \<Longrightarrow> count_list spent k \<le> uses t k"
  using run_all_uses [of gs t spent t' k] by simp

end

definition uses_left :: "grant_table \<Rightarrow> string \<Rightarrow> nat" where
  "uses_left table digest =
     (case map_of table digest of Some row \<Rightarrow> nat (g_RemainingUses row) | None \<Rightarrow> 0)"

text \<open>One consumption with the database's answers, the way the executor sees it.\<close>

definition consume_request ::
  "security_grant \<times> time \<times> (nat \<Rightarrow> exec_answer) \<times> (nat \<Rightarrow> bool) \<Rightarrow> grant_table \<Rightarrow> bool \<times> grant_table" where
  "consume_request = (\<lambda>(grant, now, answer, cancelled) table.
     (let (r, table') = ConsumeSecurityActionGrant True now answer cancelled grant now table
      in (r = Inr True, table')))"

lemma update_grant_cases:
  "update_grant grant now table = (c, table') \<Longrightarrow>
     (c = 0 \<and> table' = table)
     \<or> (c = 1 \<and> (\<exists>row. map_of table (g_Digest grant) = Some row \<and> grant_matches grant now row
          \<and> table' = AList.update (g_Digest grant) (spend now row) table))"
  by (auto simp: update_grant_def split: option.splits if_splits)

lemma consume_attempts_cases:
  assumes "consume_attempts n i answer cancelled grant now e table = (r, table')"
  shows "(table' = table \<and> r \<noteq> Inr True)
    \<or> (r = Inr True \<and> (\<exists>row. map_of table (g_Digest grant) = Some row \<and> grant_matches grant now row
          \<and> table' = AList.update (g_Digest grant) (spend now row) table))"
  using assms
proof (induction n arbitrary: i e)
  case (Suc n)
  show ?case
  proof (cases "answer i")
    case ExecOk
    obtain c t where u: "update_grant grant now table = (c, t)" by (cases "update_grant grant now table")
    from update_grant_cases [OF u] Suc.prems show ?thesis by (auto simp: ExecOk u)
  next
    case (ExecError e')
    with Suc show ?thesis by (auto split: if_splits)
  qed
qed auto

interpretation ledger: grant_ledger uses_left consume_request "\<lambda>(grant, _). g_Digest grant"
proof unfold_locales
  note cases = consume_request_def ConsumeSecurityActionGrant_def Let_def
  fix g :: "security_grant \<times> time \<times> (nat \<Rightarrow> exec_answer) \<times> (nat \<Rightarrow> bool)" and t t' b k
  obtain grant now answer cancelled where g: "g = (grant, now, answer, cancelled)" by (cases g)
  {
    assume "consume_request g t = (True, t')"
    then show "uses_left t (case g of (grant, _) \<Rightarrow> g_Digest grant)
        = Suc (uses_left t' (case g of (grant, _) \<Rightarrow> g_Digest grant))"
      by (auto simp: g cases uses_left_def update_conv spend_def grant_matches_def
          split: prod.splits dest!: consume_attempts_cases)
  next
    assume "consume_request g t = (False, t')"
    then show "t' = t"
      by (auto simp: g cases split: prod.splits dest!: consume_attempts_cases)
  next
    assume "consume_request g t = (b, t')" "k \<noteq> (case g of (grant, _) \<Rightarrow> g_Digest grant)"
    then show "uses_left t' k = uses_left t k"
      by (auto simp: g cases uses_left_def update_conv split: prod.splits dest!: consume_attempts_cases)
  }
qed

section \<open>Properties\<close>

text \<open>
  C5: a grant cannot be spent more often than it was issued for: whatever sequence of consumption
  attempts follows, at whatever times and with whatever answers of a busy database, the number of
  successful ones for a digest is at most the uses its row has left.
\<close>

theorem grant_spent_at_most:
  "count_list (fst (ledger.run_all requests table)) digest \<le> uses_left table digest"
  using ledger.spent_at_most [of requests table _ _ digest] by (metis prod.collapse)

lemma Consume_ok:
  assumes "answer 0 = ExecOk"
  shows "ConsumeSecurityActionGrant True clock answer cancelled request t table =
    (let (count, table') = update_grant request (if IsZero t then clock else t) table
     in (Inr (count = 1), table'))"
proof -
  have "(20 :: nat) = Suc 19" by simp
  then show ?thesis using assms by (simp only: ConsumeSecurityActionGrant_def consume_attempts.simps) simp
qed

lemma Save_row:
  assumes "SaveSecurityActionGrant True now grant table = Inr saved"
  shows "map_of saved (g_Digest grant) = Some ((fill_grant now grant)\<lparr>g_UsedAt := None\<rparr>)"
  using assms by (auto simp: SaveSecurityActionGrant_def Let_def update_conv fill_grant_def split: if_splits)

text \<open>
  a saved one-use grant is spent by a request exactly when every binding of the request is the
  grant's and the request comes before the expiry; once spent, it is not spent again, at any time.
\<close>

theorem saved_grant_single_use:
  assumes "SaveSecurityActionGrant True now grant table = Inr saved"
    and "g_RemainingUses grant = 1" and "\<not> IsZero t" and "answer 0 = ExecOk"
    and "ConsumeSecurityActionGrant True clock answer cancelled request t saved = (r, after)"
    and "g_Digest request = g_Digest grant"
  shows "(r = Inr True \<longleftrightarrow>
       g_ActionKind request = g_ActionKind grant
       \<and> g_EffectDigest request = g_EffectDigest grant \<and> g_PolicyHash request = g_PolicyHash grant
       \<and> g_Host request = g_Host grant \<and> g_Principal request = g_Principal grant
       \<and> g_WorkingDirectory request = g_WorkingDirectory grant \<and> t < g_ExpiresAt grant)
     \<and> (r = Inr True \<longrightarrow>
          fst (ConsumeSecurityActionGrant True clock answer cancelled request u after) = Inr False)"
proof -
  define row where "row = (fill_grant now grant)\<lparr>g_UsedAt := None\<rparr>"
  have row: "map_of saved (g_Digest request) = Some row"
    using Save_row [OF assms(1)] assms(6) by (simp add: row_def)
  have same: "g_Digest row = g_Digest grant" "g_ActionKind row = g_ActionKind grant"
    "g_EffectDigest row = g_EffectDigest grant" "g_PolicyHash row = g_PolicyHash grant"
    "g_Host row = g_Host grant" "g_Principal row = g_Principal grant"
    "g_WorkingDirectory row = g_WorkingDirectory grant" "g_ExpiresAt row = g_ExpiresAt grant"
    "g_RemainingUses row = 1"
    using assms(2) by (simp_all add: row_def fill_grant_def)
  have r: "r = Inr (fst (update_grant request t saved) = 1)" "after = snd (update_grant request t saved)"
    using assms(3-5) by (auto simp: Consume_ok split: prod.splits)
  have spent: "r = Inr True \<longleftrightarrow> grant_matches request t row"
    by (simp add: r row update_grant_def)
  have "fst (ConsumeSecurityActionGrant True clock answer cancelled request u after) = Inr False"
    if "grant_matches request t row"
    using that assms(4) same(9)
    by (simp add: Consume_ok r row update_grant_def update_conv grant_matches_def spend_def)
  with spent same assms(6) show ?thesis by (auto simp: grant_matches_def)
qed

text \<open>
  An attempt that fails, is cancelled, runs out of retries or finds no matching grant leaves the
  table as it was: a use is spent only when the caller is told so.
\<close>

theorem Consume_failure_keeps_table:
  assumes "ConsumeSecurityActionGrant available clock answer cancelled request t table = (r, after)"
    and "r \<noteq> Inr True"
  shows "after = table"
  using assms by (auto simp: ConsumeSecurityActionGrant_def split: if_splits dest!: consume_attempts_cases)

definition example_grant :: security_grant where
  "example_grant =
     \<lparr>g_Digest = ''d'', g_ActionKind = ''shell_execute'', g_MaskedSummary = ''ls'', g_EffectDigest = ''e'',
      g_PolicyHash = ''p'', g_Host = ''host'', g_Principal = ''1:op'', g_WorkingDirectory = ''/srv'',
      g_Source = ''cli'', g_ExpiresAt = 200, g_RemainingUses = 1, g_CreatedAt = 100, g_UsedAt = None\<rparr>"

lemma example_grant_saved:
  "SaveSecurityActionGrant True 100 example_grant [] = Inr [(''d'', example_grant)]"
  by code_simp

lemma example_grant_expired:
  "ConsumeSecurityActionGrant True 0 (\<lambda>_. ExecOk) (\<lambda>_. False) example_grant 200 [(''d'', example_grant)] =
     (Inr False, [(''d'', example_grant)])"
  by code_simp

lemma example_grant_spent:
  "ConsumeSecurityActionGrant True 0 (\<lambda>_. ExecOk) (\<lambda>_. False) example_grant 199 [(''d'', example_grant)] =
     (Inr True, [(''d'', spend 199 example_grant)])"
  by code_simp

theorem saved_grant_single_use_witness:
  "fst (ConsumeSecurityActionGrant True 0 (\<lambda>_. ExecOk) (\<lambda>_. False) example_grant 150
      [(''d'', spend 199 example_grant)]) = Inr False"
proof -
  have "\<not> IsZero 199" by code_simp
  from saved_grant_single_use [OF example_grant_saved _ this _ example_grant_spent, of 150]
  show ?thesis by (simp add: example_grant_def)
qed

theorem Consume_failure_keeps_table_witness:
  "snd (ConsumeSecurityActionGrant True 0 (\<lambda>_. ExecOk) (\<lambda>_. False) example_grant 200 [(''d'', example_grant)])
     = [(''d'', example_grant)]"
  using Consume_failure_keeps_table [OF example_grant_expired] example_grant_expired by simp

end
