(* ===== verification/Shell_Allowlist.thy ===== *)
theory Shell_Allowlist
  imports Shell_Parser Shell_Tokens Shell_Classify
begin

text \<open>
  The command allowlist of \<open>tools/shell.go\<close>: \<open>validateShellSegment\<close>, \<open>validateAllowedShellCommand\<close>
  and \<open>ValidateAllowedShellCommand\<close>, used when no security policy is installed, with the approved
  commands that \<open>rememberApprovedSegments\<close> collects.  The Go sets \<open>map[string]bool\<close> are lists; the
  nil map of approved commands is \<open>None\<close>.
\<close>

section \<open>Validation\<close>

datatype allow_error =
    BadTokens token_error
  | UsesRedirection string
  | EmptySegment
  | SystemctlMutation
  | JournalctlMutation
  | HeredocNeedsApproval string
  | NotAllowed string
  | SegmentNotAllowed nat string
  | BadCommand parse_error

definition redirect_error :: "shell_segment \<Rightarrow> allow_error option" where
  "redirect_error segment =
     (if seg_Heredoc segment then None
      else case tokenizePolicySegment (seg_Command segment) of
        Inl e \<Rightarrow> Some (BadTokens e)
      | Inr (_, redirects) \<Rightarrow>
          if redirects \<noteq> [] then Some (UsesRedirection (seg_Normalized segment)) else None)"

text \<open>The name looked up in the allowlist: \<open>systemctl status\<close> and the like when listed as such.\<close>

definition allow_key :: "string list \<Rightarrow> string list \<Rightarrow> string" where
  "allow_key allowed parts =
     (let composite = parts ! 0 @ '' '' @ parts ! 1 in
      if 1 < length parts \<and> (parts ! 0 = ''systemctl'' \<or> parts ! 0 = ''journalctl'')
        \<and> List.member allowed composite
      then composite else parts ! 0)"

definition is_approved :: "string list option \<Rightarrow> string \<Rightarrow> bool" where
  "is_approved approved normalized =
     (case approved of None \<Rightarrow> False | Some commands \<Rightarrow> List.member commands normalized)"

definition validateShellSegment ::
  "shell_segment \<Rightarrow> string list \<Rightarrow> string list option \<Rightarrow> allow_error + string" where
  "validateShellSegment segment allowed approved =
     (case redirect_error segment of
        Some e \<Rightarrow> Inl e
      | None \<Rightarrow>
         (let parts = Fields (seg_Command segment) in
          if parts = [] then Inl EmptySegment
          else if hd parts = ''systemctl'' \<and> \<not> systemctlReadOnly (tl parts) then Inl SystemctlMutation
          else if hd parts = ''journalctl'' \<and> journalctl_mutates (tl parts) then Inl JournalctlMutation
          else
            (let baseCmd = allow_key allowed parts in
             if List.member allowed baseCmd then
               (if seg_Heredoc segment \<and> \<not> is_approved approved (seg_Normalized segment)
                then Inl (HeredocNeedsApproval (seg_Normalized segment)) else Inr baseCmd)
             else if is_approved approved (seg_Normalized segment) then Inr baseCmd
             else Inl (NotAllowed (seg_Normalized segment)))))"

text \<open>The loop over the segments; \<open>idx\<close> is the Go index and \<open>n\<close> the number of segments.\<close>

fun validate_segments ::
  "nat \<Rightarrow> nat \<Rightarrow> shell_segment list \<Rightarrow> string list \<Rightarrow> string list option \<Rightarrow> allow_error option" where
  "validate_segments n idx [] allowed approved = None"
| "validate_segments n idx (segment # rest) allowed approved =
     (case validateShellSegment segment allowed approved of
        Inl e \<Rightarrow> Some (if 1 < n then SegmentNotAllowed (idx + 1) (seg_Normalized segment) else e)
      | Inr _ \<Rightarrow> validate_segments n (idx + 1) rest allowed approved)"

definition validateAllowedShellCommand ::
  "string \<Rightarrow> string list \<Rightarrow> string list option \<Rightarrow> allow_error + parsed_command" where
  "validateAllowedShellCommand command allowed approved =
     (case ParseShellCommand command of
        Inl e \<Rightarrow> Inl (BadCommand e)
      | Inr parsed \<Rightarrow>
         (case validate_segments (length (parsed_Segments parsed)) 0 (parsed_Segments parsed) allowed approved of
            Some e \<Rightarrow> Inl e
          | None \<Rightarrow> Inr parsed))"

definition ValidateAllowedShellCommand :: "string \<Rightarrow> string list \<Rightarrow> allow_error option" where
  "ValidateAllowedShellCommand command allowed =
     (case validateAllowedShellCommand command allowed None of Inl e \<Rightarrow> Some e | Inr _ \<Rightarrow> None)"

section \<open>Approved commands\<close>

text \<open>The set that \<open>NewShellToolWithApprovals\<close> builds from the approved commands it is given.\<close>

definition approved_commands :: "string list \<Rightarrow> string list" where
  "approved_commands approved =
     filter (\<lambda>c. c \<noteq> '''') (map normalizeApprovedShellCommand approved)"

definition rememberApprovedSegments :: "parsed_command \<Rightarrow> string list \<Rightarrow> string list" where
  "rememberApprovedSegments parsed approved =
     filter (\<lambda>c. c \<noteq> '''') (map seg_Normalized (parsed_Segments parsed)) @ approved"

definition allSegmentsApproved :: "parsed_command \<Rightarrow> string list \<Rightarrow> bool" where
  "allSegmentsApproved parsed approved \<longleftrightarrow>
     parsed_Segments parsed \<noteq> []
     \<and> list_all (\<lambda>segment. List.member approved (seg_Normalized segment)) (parsed_Segments parsed)"

section \<open>Properties\<close>

text \<open>What a segment must be to pass: the reference against which the code is checked.\<close>

definition segment_allowed :: "shell_segment \<Rightarrow> string list \<Rightarrow> string list option \<Rightarrow> bool" where
  "segment_allowed segment allowed approved \<longleftrightarrow>
     (let parts = Fields (seg_Command segment) in
      (\<not> seg_Heredoc segment \<longrightarrow> (\<exists>argv. tokenizePolicySegment (seg_Command segment) = Inr (argv, [])))
      \<and> parts \<noteq> []
      \<and> (hd parts = ''systemctl'' \<longrightarrow> systemctlReadOnly (tl parts))
      \<and> (hd parts = ''journalctl'' \<longrightarrow> \<not> journalctl_mutates (tl parts))
      \<and> (is_approved approved (seg_Normalized segment)
         \<or> \<not> seg_Heredoc segment
           \<and> (hd parts \<in> set allowed
              \<or> 1 < length parts \<and> (hd parts = ''systemctl'' \<or> hd parts = ''journalctl'')
                \<and> hd parts @ '' '' @ parts ! 1 \<in> set allowed)))"

lemma validateShellSegment_iff:
  "(\<exists>b. validateShellSegment segment allowed approved = Inr b) \<longleftrightarrow> segment_allowed segment allowed approved"
proof -
  have red: "redirect_error segment = None \<longleftrightarrow>
      (\<not> seg_Heredoc segment \<longrightarrow> (\<exists>argv. tokenizePolicySegment (seg_Command segment) = Inr (argv, [])))"
    by (auto simp: redirect_error_def split: sum.splits prod.splits if_splits)
  have key: "parts \<noteq> [] \<Longrightarrow> List.member allowed (allow_key allowed parts) \<longleftrightarrow>
      hd parts \<in> set allowed
      \<or> 1 < length parts \<and> (hd parts = ''systemctl'' \<or> hd parts = ''journalctl'')
        \<and> hd parts @ '' '' @ parts ! 1 \<in> set allowed" for parts
    by (auto simp: allow_key_def hd_conv_nth Let_def)
  show ?thesis
  proof (cases "redirect_error segment")
    case None
    define parts where "parts = Fields (seg_Command segment)"
    show ?thesis
      using None red key [of parts]
      by (cases "parts = []")
        (auto simp: validateShellSegment_def segment_allowed_def Let_def parts_def [symmetric])
  next
    case (Some e)
    with red show ?thesis by (auto simp: validateShellSegment_def segment_allowed_def Let_def)
  qed
qed

lemma validate_segments_None:
  "validate_segments n i segments allowed approved = None \<longleftrightarrow>
     (\<forall>segment \<in> set segments. segment_allowed segment allowed approved)"
proof (induction segments arbitrary: i)
  case (Cons segment rest)
  show ?case
    using Cons.IH [of "i + 1"] validateShellSegment_iff [of segment allowed approved]
    by (cases "validateShellSegment segment allowed approved") auto
qed simp

text \<open>
  the allowlist accepts a command exactly when every segment of it is allowed: tokens without
  redirections, no service or journal mutation, and a first word that is listed, or an approved normal
  form, which a heredoc needs in any case.
\<close>

theorem validateAllowedShellCommand_iff:
  "(\<exists>parsed. validateAllowedShellCommand command allowed approved = Inr parsed) \<longleftrightarrow>
   (\<exists>parsed. ParseShellCommand command = Inr parsed
      \<and> list_all (\<lambda>segment. segment_allowed segment allowed approved) (parsed_Segments parsed))"
  by (auto simp: validateAllowedShellCommand_def validate_segments_None list_all_iff
      split: sum.splits option.splits)
    (metis not_None_eq validate_segments_None)+

lemma segment_allowed_mono:
  assumes "segment_allowed segment allowed (Some approved)" "set allowed \<subseteq> set allowed'"
    "set approved \<subseteq> set approved'"
  shows "segment_allowed segment allowed' (Some approved')"
  using assms by (auto simp: segment_allowed_def is_approved_def Let_def)

text \<open>
  Remembering an approval only adds commands: every command the allowlist accepted before is
  accepted afterwards, whatever the remembered command is.
\<close>

theorem remember_keeps_accepting:
  assumes "validateAllowedShellCommand command allowed (Some approved) = Inr parsed"
  shows "\<exists>parsed'. validateAllowedShellCommand command allowed
           (Some (rememberApprovedSegments remembered approved)) = Inr parsed'"
proof -
  obtain p where p: "ParseShellCommand command = Inr p"
    "\<forall>segment \<in> set (parsed_Segments p). segment_allowed segment allowed (Some approved)"
    using assms by (auto simp: validateAllowedShellCommand_def validate_segments_None
        split: sum.splits option.splits)
  have "set approved \<subseteq> set (rememberApprovedSegments remembered approved)"
    by (auto simp: rememberApprovedSegments_def)
  with p(2) have "\<forall>segment \<in> set (parsed_Segments p).
      segment_allowed segment allowed (Some (rememberApprovedSegments remembered approved))"
    using segment_allowed_mono [OF _ subset_refl] by blast
  then show ?thesis by (simp add: validateAllowedShellCommand_def p(1) iffD2 [OF validate_segments_None])
qed

lemma remember_example:
  "case validateAllowedShellCommand ''df -h | grep x'' [''df'', ''grep''] (Some []) of
     Inl _ \<Rightarrow> False | Inr parsed \<Rightarrow> parsed_Operators parsed = [''|'']"
  by code_simp

theorem remember_keeps_accepting_witness:
  "case ParseShellCommand ''uptime'' of
     Inl _ \<Rightarrow> False
   | Inr remembered \<Rightarrow> \<exists>parsed'. validateAllowedShellCommand ''df -h | grep x'' [''df'', ''grep'']
       (Some (rememberApprovedSegments remembered [])) = Inr parsed'"
proof -
  obtain parsed where "validateAllowedShellCommand ''df -h | grep x'' [''df'', ''grep''] (Some []) = Inr parsed"
    using remember_example by (auto split: sum.splits)
  note accepted = remember_keeps_accepting [OF this]
  have "case ParseShellCommand ''uptime'' of Inl _ \<Rightarrow> False | Inr _ \<Rightarrow> True" by code_simp
  then show ?thesis using accepted by (simp split: sum.splits)
qed

lemma allowlist_rejects:
  "ValidateAllowedShellCommand ''df > /tmp/x'' [''df''] = Some (UsesRedirection ''df > /tmp/x'')"
  "ValidateAllowedShellCommand ''systemctl stop nginx'' [''systemctl''] = Some SystemctlMutation"
  "ValidateAllowedShellCommand ''df; rm x'' [''df''] = Some (SegmentNotAllowed 2 ''rm x'')"
  by code_simp+

end
