(* ===== verification/Tool_Effects.thy ===== *)
theory Tool_Effects
  imports Shell_Assess
begin

text \<open>
  What a tool call does, \<open>classifyToolEffects\<close> and \<open>policyToolEffects\<close> of \<open>tools/registry.go\<close>, and the
  decision a policy makes about it.  The JSON decoder is the argument \<open>decode\<close>: it gives the members of
  a JSON object in their order, duplicates kept, and \<open>None\<close> for text that is no JSON object.
\<close>

section \<open>Arguments of a tool call\<close>

datatype json_value = JString string | JNull | JOther string

type_synonym json_decoder = "string \<Rightarrow> (string \<times> json_value) list option"

text \<open>Decoding into a Go map: the last member with exactly the key; a value that is no string gives the empty string.\<close>

definition map_string :: "(string \<times> json_value) list option \<Rightarrow> string \<Rightarrow> string" where
  "map_string members key =
     (case members of
        None \<Rightarrow> ''''
      | Some ms \<Rightarrow> (case map_of (rev ms) key of Some (JString s) \<Rightarrow> s | _ \<Rightarrow> ''''))"

text \<open>
  Decoding into a string field of a Go struct: every member whose key equals the field's name up to
  case assigns the field, in order; \<open>null\<close> leaves it as it is, another value is an error.
\<close>

fun struct_string :: "string \<Rightarrow> (string \<times> json_value) list \<Rightarrow> string \<Rightarrow> string option" where
  "struct_string field [] current = Some current"
| "struct_string field ((key, value) # ms) current =
     (if ToLower key \<noteq> ToLower field then struct_string field ms current
      else case value of
        JString s \<Rightarrow> struct_string field ms s
      | JNull \<Rightarrow> struct_string field ms current
      | JOther _ \<Rightarrow> None)"

section \<open>Effects\<close>

definition fleet_effects :: "string \<Rightarrow> shell_effect list" where
  "fleet_effects action =
     (if List.member [''hosts'', ''list'', ''inspect''] action
      then [eff SettingReadCommands ''saved fleet manifest and operator transport inspection'' '''']
      else if List.member [''prepare'', ''reconcile''] action
      then [eff SettingReadCommands ''exact remote operation inspection'' '''',
            eff SettingNetworkAccess ''operator-pinned SSH executor connections'' '''',
            eff SettingCredentialAccess ''operator-configured SSH identity authentication'' '''',
            eff SettingFileCreate ''durable bounded batch evidence'' '''']
      else [eff SettingRemoteMutation ''exact enrolled remote executor mutation'' '''',
            eff SettingFileCreate ''remote recovery staging'' '''',
            eff SettingFileOverwrite ''prepared remote file replacement/restoration'' '''',
            eff SettingFileDelete ''prepared remote quarantine/removal'' '''',
            eff SettingServiceChanges ''prepared remote service transaction/rollback'' '''',
            eff SettingNetworkAccess ''operator-pinned SSH dispatch and health checks'' '''',
            eff SettingCredentialAccess ''operator-configured SSH identity authentication'' ''''])"

definition recovery_effects :: "string \<Rightarrow> shell_effect list" where
  "recovery_effects action =
     (if List.member [''list'', ''services'', ''snapshot_targets'', ''ssh_services'', ''inspect'',
           ''reconcile''] action
      then [eff SettingReadCommands ''recovery journal inspection/reconciliation'' '''']
      else if List.member [''prepare'', ''snapshot_prepare'', ''snapshot_restore_prepare''] action
      then [eff SettingFileCreate ''bounded private recovery backup and candidate preparation'' '''']
      else if List.member [''apply_service'', ''recover_service''] action
      then [eff SettingFileCreate ''service configuration staging'' '''',
            eff SettingFileOverwrite ''service configuration replacement or restoration'' '''',
            eff SettingServiceChanges ''prepared service validation, reload and bounded rollback'' '''',
            eff SettingNetworkAccess ''operator-defined loopback health verification'' '''']
      else if List.member [''apply_ssh'', ''recover_ssh'', ''confirm_ssh''] action
      then [eff SettingFileCreate ''SSH configuration and durable watchdog staging'' '''',
            eff SettingFileOverwrite ''SSH configuration application or restoration'' '''',
            eff SettingServiceChanges ''SSH reload, revert-unless-confirmed deadline or explicit commit'' '''',
            eff SettingNetworkAccess ''fixed SSH listener and new authenticated connection verification'' '''']
      else if List.member [''apply_snapshot'', ''recover_snapshot''] action
      then [eff SettingFileCreate ''native subvolume checkpoint/restore clone'' '''',
            eff SettingFileOverwrite ''whole reviewed subvolume namespace replacement'' '''',
            eff SettingFileDelete ''current tree displaced into retained private recovery store'' '''']
      else [eff SettingFileCreate ''prepared recovery file creation'' '''',
            eff SettingFileOverwrite ''prepared recovery file replacement'' '''',
            eff SettingFileDelete ''prepared recovery file quarantine/removal'' ''''])"

definition schedule_effects :: "string \<Rightarrow> shell_effect list" where
  "schedule_effects action =
     (if List.member [''list'', ''runs''] action
      then [eff SettingReadCommands ''scheduled-job inspection'' '''']
      else [eff SettingScheduledChanges (''scheduled-job '' @ action) ''''])"

definition cron_effects :: "string \<Rightarrow> shell_effect list" where
  "cron_effects action =
     (if List.member [''list'', ''show'', ''dry_run''] action
      then [eff SettingReadCommands ''system-cron inspection'' '''']
      else [eff SettingScheduledChanges (''system-cron '' @ action) ''''])"

definition classifyToolEffects :: "json_decoder \<Rightarrow> string \<Rightarrow> string \<Rightarrow> shell_effect list" where
  "classifyToolEffects decode name raw =
     (let action = map_string (decode raw) ''action'' in
      if name = ''recovery_fleet'' then fleet_effects action
      else if name = ''safety_calculate''
      then [eff SettingReadCommands ''deterministic local arithmetic without system changes'' '''']
      else if name = ''recovery_manage'' then recovery_effects action
      else if name = ''schedule_manage'' then schedule_effects action
      else if name = ''system_cron_manage'' then cron_effects action
      else if List.member [''memory_record_finding'', ''memory_remember_target''] name
      then [eff SettingFileAppend ''durable memory write'' '''']
      else if List.member [''web_search'', ''web_fetch''] name
      then [eff SettingNetworkAccess ''external web access'' '''']
      else [eff SettingUnknownCommands (''unclassified tool '' @ name) ''''])"

definition policyToolEffects :: "json_decoder \<Rightarrow> string \<Rightarrow> string \<Rightarrow> shell_effect list" where
  "policyToolEffects decode name arguments =
     uniqueEffects (classifyToolEffects decode name arguments
       @ (if secrets_Contains arguments
          then [eff SettingCredentialAccess ''literal secret-like value in tool arguments'' ''''] else []))"

section \<open>Decisions about effects\<close>

text \<open>The loop over the effects of a tool call, shared by the registry and the grants.\<close>

definition effects_decision :: "effective_policy \<Rightarrow> shell_effect list \<Rightarrow> decision" where
  "effects_decision p effects =
     foldl (\<lambda>d e. strictestSecurityDecision d (base_decision p (eff_Setting e))) DecisionAllow effects"

lemma effects_decision_fold:
  "effects_decision p effects =
     foldl strictestSecurityDecision DecisionAllow (map (\<lambda>e. base_decision p (eff_Setting e)) effects)"
  by (simp add: effects_decision_def foldl_map)

lemma effects_decision_ge:
  "e \<in> set effects \<Longrightarrow>
   decision_rank (base_decision p (eff_Setting e)) \<le> decision_rank (effects_decision p effects)"
  unfolding effects_decision_fold by (rule strictest.fold_rank_mem) simp

lemma if_nonempty: "xs \<noteq> [] \<Longrightarrow> ys \<noteq> [] \<Longrightarrow> (if c then xs else ys) \<noteq> []"
  by simp

lemma classifyToolEffects_nonempty: "classifyToolEffects decode name raw \<noteq> []"
  unfolding classifyToolEffects_def Let_def fleet_effects_def recovery_effects_def
    schedule_effects_def cron_effects_def
  by (intro if_nonempty list.distinct(2))

text \<open>Classification keeps at least one effect of the call: no tool call is decided on nothing.\<close>

lemma policyToolEffects_nonempty: "policyToolEffects decode name raw \<noteq> []"
proof -
  have "effect_key ` set (policyToolEffects decode name raw) \<noteq> {}"
    using classifyToolEffects_nonempty by (auto simp: policyToolEffects_def uniqueEffects_keys)
  then show ?thesis by auto
qed

text \<open>
  A tool that no case knows counts as an unknown command, whatever its arguments are.
\<close>

lemma unknown_tool_effects:
  assumes "name \<noteq> ''recovery_fleet''" "name \<noteq> ''safety_calculate''" "name \<noteq> ''recovery_manage''"
    "name \<noteq> ''schedule_manage''" "name \<noteq> ''system_cron_manage''"
    "\<not> List.member [''memory_record_finding'', ''memory_remember_target''] name"
    "\<not> List.member [''web_search'', ''web_fetch''] name"
  shows "classifyToolEffects decode name raw = [eff SettingUnknownCommands (''unclassified tool '' @ name) '''']"
  by (simp only: classifyToolEffects_def Let_def assms if_False)

text \<open>
  The classifier reads the arguments as a map and the tool reads them into a struct.  The two disagree
  on members that differ in case: here the classifier sees the listing of jobs, the tool their removal.
\<close>

definition mixed_case_arguments :: "(string \<times> json_value) list" where
  "mixed_case_arguments =
     [(''action'', JString ''list''), (''Action'', JString ''remove''), (''id'', JString ''job_1'')]"

lemma mixed_case_action_is_misclassified:
  assumes "decode raw = Some mixed_case_arguments"
  shows "classifyToolEffects decode ''schedule_manage'' raw =
           [eff SettingReadCommands ''scheduled-job inspection'' '''']
    \<and> struct_string ''action'' mixed_case_arguments '''' = Some ''remove''"
proof -
  have "map_string (Some mixed_case_arguments) ''action'' = ''list''"
    "struct_string ''action'' mixed_case_arguments '''' = Some ''remove''"
    by code_simp+
  moreover have "schedule_effects ''list'' = [eff SettingReadCommands ''scheduled-job inspection'' '''']"
    "\<And>raw. classifyToolEffects decode ''schedule_manage'' raw = schedule_effects (map_string (decode raw) ''action'')"
    by (simp_all add: schedule_effects_def classifyToolEffects_def Let_def)
  ultimately show ?thesis using assms by simp
qed

end
