(* ===== verification/Action_Grants.thy ===== *)
theory Action_Grants
  imports Tool_Effects Grant_Store
begin

text \<open>
  How an authorization is bound to one action, \<open>tools/shell_grant.go\<close>: the digest covers the analyzer
  version, the kind of action, the policy, the host, the principal, the working directory, the effects
  and the exact payload.  SHA-256 (as lower-case hex) is the argument \<open>sha\<close> and the JSON encoding of the
  effects the argument \<open>encode\<close>; the theorem about the digest assumes of the hash only that its
  hexadecimal text has no NUL byte.
\<close>

section \<open>Binding\<close>

definition actionAnalyzerVersion :: string where
  "actionAnalyzerVersion = ''effect-policy-v1''"

record host_env =
  he_Hostname :: "string option"
  he_Getwd :: "string option"
  he_User :: "(string \<times> string) option" \<comment> \<open>uid and user name\<close>

datatype grant_error =
    GrantAssess assess_error
  | NoHostname
  | NoWorkingDirectory
  | PolicyDenies profile
  | BadLifetime
  | NoLongerMatches
  | GrantStore store_error

definition action_material ::
  "string \<Rightarrow> string \<Rightarrow> string \<Rightarrow> string \<Rightarrow> string \<Rightarrow> string \<Rightarrow> string \<Rightarrow> string" where
  "action_material actionKind policyHash host prin cwd effectDigest payload =
     Join [actionAnalyzerVersion, actionKind, policyHash, host, prin, cwd, effectDigest, payload] [NUL]"

definition masked_summary :: "string \<Rightarrow> string \<Rightarrow> string" where
  "masked_summary actionKind payload =
     (let text = (if actionKind \<noteq> ''shell_execute'' then actionKind @ '' '' @ payload else payload);
          summary = Mask text
      in if 240 < length summary then take 240 summary @ ''...'' else summary)"

definition securityGrantBindingAtScope ::
  "(string \<Rightarrow> string) \<Rightarrow> (shell_effect list \<Rightarrow> string) \<Rightarrow> string \<Rightarrow> string \<Rightarrow> shell_effect list
   \<Rightarrow> effective_policy \<Rightarrow> string \<Rightarrow> string \<Rightarrow> string \<Rightarrow> security_grant" where
  "securityGrantBindingAtScope sha encode actionKind payload effects p host prin cwd =
     (let effectDigest = sha (encode effects) in
      \<lparr>g_Digest = sha (action_material actionKind (pol_Hash p) host prin cwd effectDigest payload),
       g_ActionKind = actionKind, g_MaskedSummary = masked_summary actionKind payload,
       g_EffectDigest = effectDigest, g_PolicyHash = pol_Hash p, g_Host = host, g_Principal = prin,
       g_WorkingDirectory = cwd, g_Source = '''', g_ExpiresAt = zero_time, g_RemainingUses = 0,
       g_CreatedAt = zero_time, g_UsedAt = None\<rparr>)"

definition current_principal :: "host_env \<Rightarrow> string" where
  "current_principal env =
     (case he_User env of Some (uid, name) \<Rightarrow> uid @ '':'' @ name | None \<Rightarrow> ''unknown'')"

definition securityGrantBinding ::
  "(string \<Rightarrow> string) \<Rightarrow> (shell_effect list \<Rightarrow> string) \<Rightarrow> host_env \<Rightarrow> string \<Rightarrow> string \<Rightarrow> shell_effect list
   \<Rightarrow> effective_policy \<Rightarrow> grant_error + security_grant" where
  "securityGrantBinding sha encode env actionKind payload effects p =
     (case he_Hostname env of
        None \<Rightarrow> Inl NoHostname
      | Some host \<Rightarrow>
         (case he_Getwd env of
            None \<Rightarrow> Inl NoWorkingDirectory
          | Some cwd \<Rightarrow> Inr (securityGrantBindingAtScope sha encode actionKind payload effects p host
                               (current_principal env) cwd)))"

definition shellSecurityGrantBinding ::
  "(string \<Rightarrow> string) \<Rightarrow> (shell_effect list \<Rightarrow> string) \<Rightarrow> host_env \<Rightarrow> os_world \<Rightarrow> string \<Rightarrow> effective_policy
   \<Rightarrow> grant_error + security_grant \<times> shell_assessment" where
  "shellSecurityGrantBinding sha encode env w command0 p =
     (let command = trimShellBoundaryWhitespace command0 in
      case AssessShellCommand w command p of
        Inl e \<Rightarrow> Inl (GrantAssess e)
      | Inr assessment \<Rightarrow>
         (case securityGrantBinding sha encode env ''shell_execute'' command (as_Effects assessment) p of
            Inl e \<Rightarrow> Inl e
          | Inr grant \<Rightarrow> Inr (grant, assessment)))"

section \<open>Issuing\<close>

definition valid_lifetime :: "duration \<Rightarrow> bool" where
  "valid_lifetime ttl \<longleftrightarrow> 0 < ttl \<and> ttl \<le> Hour"

definition issue :: "time \<Rightarrow> duration \<Rightarrow> string \<Rightarrow> security_grant \<Rightarrow> security_grant" where
  "issue now ttl source grant =
     grant\<lparr>g_Source := TrimSpace source, g_CreatedAt := now, g_ExpiresAt := now + ttl,
           g_RemainingUses := 1\<rparr>"

definition NewShellSecurityGrant ::
  "(string \<Rightarrow> string) \<Rightarrow> (shell_effect list \<Rightarrow> string) \<Rightarrow> host_env \<Rightarrow> os_world \<Rightarrow> time \<Rightarrow> string
   \<Rightarrow> effective_policy \<Rightarrow> duration \<Rightarrow> string \<Rightarrow> grant_error + security_grant" where
  "NewShellSecurityGrant sha encode env w now command p ttl source =
     (case shellSecurityGrantBinding sha encode env w command p of
        Inl e \<Rightarrow> Inl e
      | Inr (grant, assessment) \<Rightarrow>
          if as_Decision assessment = DecisionDeny then Inl (PolicyDenies (pol_Profile p))
          else if \<not> valid_lifetime ttl then Inl BadLifetime
          else Inr (issue now ttl source grant))"

definition NewToolSecurityGrant ::
  "(string \<Rightarrow> string) \<Rightarrow> (shell_effect list \<Rightarrow> string) \<Rightarrow> json_decoder \<Rightarrow> host_env \<Rightarrow> time \<Rightarrow> string \<Rightarrow> string
   \<Rightarrow> effective_policy \<Rightarrow> duration \<Rightarrow> string \<Rightarrow> grant_error + security_grant" where
  "NewToolSecurityGrant sha encode decode env now name arguments p ttl source =
     (let effects = policyToolEffects decode name arguments in
      if effects_decision p effects = DecisionDeny then Inl (PolicyDenies (pol_Profile p))
      else if \<not> valid_lifetime ttl then Inl BadLifetime
      else case securityGrantBinding sha encode env name arguments effects p of
        Inl e \<Rightarrow> Inl e
      | Inr grant \<Rightarrow> Inr (issue now ttl source grant))"

text \<open>The effects of the reviewed action and the decision about them, as they are now.\<close>

definition current_effects ::
  "json_decoder \<Rightarrow> os_world \<Rightarrow> string \<Rightarrow> string \<Rightarrow> effective_policy
   \<Rightarrow> assess_error + shell_effect list \<times> decision" where
  "current_effects decode w actionKind payload p =
     (if actionKind = ''shell_execute'' then
        (case AssessShellCommand w payload p of
           Inl e \<Rightarrow> Inl e
         | Inr assessment \<Rightarrow> Inr (as_Effects assessment, as_Decision assessment))
      else (let effects = policyToolEffects decode actionKind payload
            in Inr (effects, effects_decision p effects)))"

definition NewBlockedWorkSecurityGrant ::
  "(string \<Rightarrow> string) \<Rightarrow> (shell_effect list \<Rightarrow> string) \<Rightarrow> json_decoder \<Rightarrow> os_world \<Rightarrow> time \<Rightarrow> string \<Rightarrow> string
   \<Rightarrow> effective_policy \<Rightarrow> security_grant \<Rightarrow> duration \<Rightarrow> string \<Rightarrow> grant_error + security_grant" where
  "NewBlockedWorkSecurityGrant sha encode decode w now actionKind payload p expected ttl source =
     (case current_effects decode w actionKind payload p of
        Inl e \<Rightarrow> Inl (GrantAssess e)
      | Inr (effects, decision) \<Rightarrow>
          if decision = DecisionDeny then Inl (PolicyDenies (pol_Profile p))
          else if \<not> valid_lifetime ttl then Inl BadLifetime
          else
            (let grant = securityGrantBindingAtScope sha encode actionKind payload effects p
                   (g_Host expected) (g_Principal expected) (g_WorkingDirectory expected)
             in if g_Digest grant \<noteq> g_Digest expected \<or> g_EffectDigest grant \<noteq> g_EffectDigest expected
                   \<or> g_PolicyHash grant \<noteq> g_PolicyHash expected \<or> g_ActionKind grant \<noteq> g_ActionKind expected
                then Inl NoLongerMatches
                else Inr (issue now ttl source grant)))"

section \<open>The digest determines the action\<close>

text \<open>A string joined by a byte that occurs in none of the fields but the last.\<close>

lemma nul_append_eq:
  assumes "NUL \<notin> set a" "NUL \<notin> set b"
  shows "a @ NUL # r = b @ NUL # s \<longleftrightarrow> a = b \<and> r = s"
  using assms
proof (induction a arbitrary: b)
  case Nil
  then show ?case by (cases b) auto
next
  case (Cons c a)
  then show ?case by (cases b) auto
qed

definition no_nul :: "string \<Rightarrow> bool" where
  "no_nul s \<longleftrightarrow> NUL \<notin> set s"

lemma action_material_inj:
  assumes "no_nul k" "no_nul k'" "no_nul ph" "no_nul ph'" "no_nul h" "no_nul h'" "no_nul pr" "no_nul pr'"
    "no_nul c" "no_nul c'" "no_nul e" "no_nul e'"
  shows "action_material k ph h pr c e p = action_material k' ph' h' pr' c' e' p'
     \<longleftrightarrow> k = k' \<and> ph = ph' \<and> h = h' \<and> pr = pr' \<and> c = c' \<and> e = e' \<and> p = p'"
  using assms by (simp add: action_material_def no_nul_def nul_append_eq actionAnalyzerVersion_def)

text \<open>
  What the digests of two actions are computed from: the material of each, and the encoding of its effects.
  A pair of these with one hash is a collision of SHA-256.
\<close>

definition hash_collision :: "(string \<Rightarrow> string) \<Rightarrow> string list \<Rightarrow> bool" where
  "hash_collision sha inputs \<longleftrightarrow> list_ex (\<lambda>x. list_ex (\<lambda>y. x \<noteq> y \<and> sha x = sha y) inputs) inputs"

lemma no_hash_collision:
  "\<not> hash_collision sha inputs \<Longrightarrow> x \<in> set inputs \<Longrightarrow> y \<in> set inputs \<Longrightarrow> sha x = sha y \<longleftrightarrow> x = y"
  by (auto simp: hash_collision_def list_ex_iff)

definition digest_inputs ::
  "(string \<Rightarrow> string) \<Rightarrow> (shell_effect list \<Rightarrow> string) \<Rightarrow> string \<Rightarrow> string \<Rightarrow> shell_effect list
   \<Rightarrow> effective_policy \<Rightarrow> string \<Rightarrow> string \<Rightarrow> string \<Rightarrow> string list" where
  "digest_inputs sha encode k payload effects p h pr c =
     [action_material k (pol_Hash p) h pr c (sha (encode effects)) payload, encode effects]"

text \<open>
  C12: A grant is bound to one action.  When two actions have the same digest, and no NUL byte is in the fields that
  are joined by it (the payload apart), then either the hash collides on exactly the inputs of these digests,
  or the actions agree in everything: the kind, the payload byte by byte, the policy, the host, the principal, the
  working directory and the encoding of the effects.
\<close>

theorem grant_digest_determines_action:
  assumes "\<And>s. no_nul (sha s)"
    and "no_nul k" "no_nul k'" "no_nul (pol_Hash p)" "no_nul (pol_Hash p')" "no_nul h" "no_nul h'"
    "no_nul pr" "no_nul pr'" "no_nul c" "no_nul c'"
    and "g_Digest (securityGrantBindingAtScope sha encode k payload effects p h pr c)
       = g_Digest (securityGrantBindingAtScope sha encode k' payload' effects' p' h' pr' c')"
  shows "hash_collision sha (digest_inputs sha encode k payload effects p h pr c
        @ digest_inputs sha encode k' payload' effects' p' h' pr' c')
    \<or> k = k' \<and> payload = payload' \<and> encode effects = encode effects' \<and> pol_Hash p = pol_Hash p'
      \<and> h = h' \<and> pr = pr' \<and> c = c'"
proof -
  let ?inputs = "digest_inputs sha encode k payload effects p h pr c
        @ digest_inputs sha encode k' payload' effects' p' h' pr' c'"
  let ?m = "action_material k (pol_Hash p) h pr c (sha (encode effects)) payload"
  let ?m' = "action_material k' (pol_Hash p') h' pr' c' (sha (encode effects')) payload'"
  have "?m = ?m' \<and> encode effects = encode effects'" if "\<not> hash_collision sha ?inputs"
  proof -
    have "?m = ?m'"
      using no_hash_collision [OF that, of ?m ?m'] assms(12)
      by (simp add: digest_inputs_def securityGrantBindingAtScope_def Let_def)
    moreover from this have "sha (encode effects) = sha (encode effects')"
      using assms action_material_inj [of k k' "pol_Hash p" "pol_Hash p'" h h' pr pr' c c'] by simp
    then have "encode effects = encode effects'"
      using no_hash_collision [OF that] by (simp add: digest_inputs_def)
    ultimately show ?thesis ..
  qed
  then show ?thesis
    using assms action_material_inj [of k k' "pol_Hash p" "pol_Hash p'" h h' pr pr' c c'
        "sha (encode effects)" "sha (encode effects')" payload payload'] by blast
qed

text \<open>
  A grant is only issued for an action the policy does not deny, for at most an hour and for one
  use, bound to the current policy.
\<close>

theorem NewShellSecurityGrant_bounded:
  assumes "NewShellSecurityGrant sha encode env w now command p ttl source = Inr grant"
  shows "g_RemainingUses grant = 1 \<and> g_CreatedAt grant = now \<and> now < g_ExpiresAt grant
    \<and> g_ExpiresAt grant \<le> now + Hour \<and> g_PolicyHash grant = pol_Hash p
    \<and> g_ActionKind grant = ''shell_execute''
    \<and> (\<exists>a. AssessShellCommand w (trimShellBoundaryWhitespace command) p = Inr a
         \<and> as_Decision a \<noteq> DecisionDeny)"
  using assms
  by (auto simp: NewShellSecurityGrant_def shellSecurityGrantBinding_def securityGrantBinding_def
      securityGrantBindingAtScope_def Let_def issue_def valid_lifetime_def
      split: sum.splits if_splits option.splits)

text \<open>
  Approving blocked work never widens what was reviewed: the grant issued has the digest, effects,
  policy, kind and scope of the reviewed envelope, and the action is still not denied.
\<close>

theorem NewBlockedWorkSecurityGrant_exact:
  assumes "NewBlockedWorkSecurityGrant sha encode decode w now kind payload p expected ttl source = Inr grant"
  shows "g_Digest grant = g_Digest expected \<and> g_EffectDigest grant = g_EffectDigest expected
    \<and> g_PolicyHash grant = g_PolicyHash expected \<and> g_ActionKind grant = g_ActionKind expected
    \<and> g_Host grant = g_Host expected \<and> g_Principal grant = g_Principal expected
    \<and> g_WorkingDirectory grant = g_WorkingDirectory expected \<and> g_RemainingUses grant = 1
    \<and> g_ExpiresAt grant \<le> now + Hour
    \<and> (\<exists>effects d. current_effects decode w kind payload p = Inr (effects, d) \<and> d \<noteq> DecisionDeny)"
  using assms
  by (auto simp: NewBlockedWorkSecurityGrant_def securityGrantBindingAtScope_def Let_def issue_def
      valid_lifetime_def split: sum.splits if_splits)

section \<open>Example bindings\<close>

text \<open>A hash without collisions and without NUL bytes, and an encoding, for the witnesses.\<close>

definition hex_char :: "char \<Rightarrow> string" where
  "hex_char c = (let n = of_char c :: nat in [char_of (65 + n div 16), char_of (65 + n mod 16)])"

definition hex_hash :: "string \<Rightarrow> string" where
  "hex_hash s = concat (map hex_char s)"

lemma hex_digits: "(of_char c :: nat) div 16 < 16" "(of_char c :: nat) mod 16 < 16"
proof -
  have "(of_char c :: nat) < 256" by simp
  then show "(of_char c :: nat) div 16 < 16" by (simp only: div_less_iff_less_mult zero_less_numeral)
  show "(of_char c :: nat) mod 16 < 16" by simp
qed

lemma of_char_digit: "d < 16 \<Longrightarrow> of_char (char_of (65 + d :: nat)) = 65 + d"
  by simp

lemma hex_char_inj: "hex_char c = hex_char d \<longleftrightarrow> c = d"
proof
  assume eq: "hex_char c = hex_char d"
  have "65 + of_char c div 16 = (65 + of_char d div 16 :: nat)"
    "65 + of_char c mod 16 = (65 + of_char d mod 16 :: nat)"
    using eq of_char_digit [OF hex_digits(1), of c] of_char_digit [OF hex_digits(1), of d]
      of_char_digit [OF hex_digits(2), of c] of_char_digit [OF hex_digits(2), of d]
    by (simp_all add: hex_char_def Let_def)
  then have "(of_char c :: nat) = of_char d" by (metis add_left_cancel div_mult_mod_eq)
  then show "c = d" by simp
qed simp

lemma hex_hash_eq: "hex_hash s = hex_hash t \<longleftrightarrow> s = t"
proof (induction s arbitrary: t)
  case Nil
  then show ?case by (cases t) (auto simp: hex_hash_def hex_char_def Let_def)
next
  case (Cons c s)
  have split: "hex_hash (x # xs) = hex_char x @ hex_hash xs" for x xs by (simp add: hex_hash_def)
  have len: "length (hex_char x) = 2" for x by (simp add: hex_char_def Let_def)
  show ?case
  proof (cases t)
    case Nil
    then show ?thesis by (simp add: split) (simp add: hex_hash_def hex_char_def Let_def)
  next
    case (Cons d u)
    then show ?thesis using Cons.IH [of u] hex_char_inj [of c d] by (simp add: split len)
  qed
qed

lemma no_nul_hex_hash: "no_nul (hex_hash s)"
proof -
  have "x \<noteq> NUL" if "x \<in> set (hex_char c)" for x c
  proof -
    from that have "of_char x = 65 + (of_char c div 16 :: nat) \<or> of_char x = 65 + (of_char c mod 16 :: nat)"
      using of_char_digit [OF hex_digits(1), of c] of_char_digit [OF hex_digits(2), of c]
      by (auto simp: hex_char_def Let_def)
    then show ?thesis by auto
  qed
  then show ?thesis by (auto simp: no_nul_def hex_hash_def)
qed

text \<open>An encoding of effects: each field in hexadecimal, closed by a byte that is no digit.\<close>

definition encode_effect :: "shell_effect \<Rightarrow> string" where
  "encode_effect e = hex_hash (eff_Setting e) @ ''-'' @ hex_hash (eff_Detail e) @ ''-''
     @ hex_hash (eff_Target e) @ ''-''"

definition encode_effects :: "shell_effect list \<Rightarrow> string" where
  "encode_effects es = concat (map encode_effect es)"

theorem grant_digest_determines_action_witness:
  "g_Digest (securityGrantBindingAtScope hex_hash encode_effects ''shell_execute'' ''ls'' []
      minimal_policy ''h'' ''1:op'' ''/'')
    \<noteq> g_Digest (securityGrantBindingAtScope hex_hash encode_effects ''shell_execute'' ''ls'' []
      minimal_policy ''h'' ''1:op'' ''/srv'')"
proof
  assume eq: "g_Digest (securityGrantBindingAtScope hex_hash encode_effects ''shell_execute'' ''ls'' []
      minimal_policy ''h'' ''1:op'' ''/'')
    = g_Digest (securityGrantBindingAtScope hex_hash encode_effects ''shell_execute'' ''ls'' []
      minimal_policy ''h'' ''1:op'' ''/srv'')"
  have nul: "no_nul ''shell_execute''" "no_nul (pol_Hash minimal_policy)" "no_nul ''h''" "no_nul ''1:op''" "no_nul ''/''"
    "no_nul ''/srv''"
    by (simp_all add: no_nul_def unmodified_policy_def)
  have "\<not> hash_collision hex_hash inputs" for inputs
    by (auto simp: hash_collision_def list_ex_iff hex_hash_eq)
  with grant_digest_determines_action [OF no_nul_hex_hash
      nul(1) nul(1) nul(2) nul(2) nul(3) nul(3) nul(4) nul(4) nul(5) nul(6) eq]
  show False by simp
qed

definition example_host :: host_env where
  "example_host = \<lparr>he_Hostname = Some ''h'', he_Getwd = Some ''/srv'', he_User = Some (''1'', ''op'')\<rparr>"

lemma example_shell_grant:
  "case NewShellSecurityGrant hex_hash encode_effects example_host example_world 100 '' rm /etc/hosts''
     minimal_policy Minute ''cli '' of Inl _ \<Rightarrow> False | Inr _ \<Rightarrow> True"
  by code_simp

theorem NewShellSecurityGrant_bounded_witness:
  "\<exists>grant. NewShellSecurityGrant hex_hash encode_effects example_host example_world 100 '' rm /etc/hosts''
      minimal_policy Minute ''cli '' = Inr grant \<and> g_ExpiresAt grant \<le> 100 + Hour"
proof -
  obtain grant where g: "NewShellSecurityGrant hex_hash encode_effects example_host example_world 100
      '' rm /etc/hosts'' minimal_policy Minute ''cli '' = Inr grant"
    using example_shell_grant by (auto split: sum.splits)
  with NewShellSecurityGrant_bounded [OF g] show ?thesis by blast
qed

text \<open>The envelope of a blocked action, as the executor binds it when it blocks.\<close>

definition example_envelope :: security_grant where
  "example_envelope =
     securityGrantBindingAtScope hex_hash encode_effects ''shell_execute'' ''rm /etc/hosts''
       [eff SettingFileDelete ''rm deletion'' ''/etc/hosts''] minimal_policy ''h'' ''1:op'' ''/srv''"

lemma example_blocked_grant:
  "case NewBlockedWorkSecurityGrant hex_hash encode_effects (\<lambda>_. None) example_world 100 ''shell_execute''
     ''rm /etc/hosts'' minimal_policy example_envelope Minute ''cli'' of Inl _ \<Rightarrow> False | Inr _ \<Rightarrow> True"
  by code_simp

theorem NewBlockedWorkSecurityGrant_exact_witness:
  "\<exists>grant. NewBlockedWorkSecurityGrant hex_hash encode_effects (\<lambda>_. None) example_world 100 ''shell_execute''
      ''rm /etc/hosts'' minimal_policy example_envelope Minute ''cli'' = Inr grant
    \<and> g_WorkingDirectory grant = g_WorkingDirectory example_envelope"
proof -
  obtain grant where g: "NewBlockedWorkSecurityGrant hex_hash encode_effects (\<lambda>_. None) example_world 100
      ''shell_execute'' ''rm /etc/hosts'' minimal_policy example_envelope Minute ''cli'' = Inr grant"
    using example_blocked_grant by (auto split: sum.splits)
  with NewBlockedWorkSecurityGrant_exact [OF g] show ?thesis by blast
qed

end
