(* ===== verification/Shell_Exec.thy ===== *)
theory Shell_Exec
  imports Shell_Approval Shell_Allowlist
begin

text \<open>
  The shell tool of \<open>tools/shell.go\<close>: its configuration, the gate that a command passes before it is
  run (\<open>ShellTool.Execute\<close> up to the call of \<open>sh\<close>), the bounded capture of the output and the result.
  What the program asks of its surroundings is the record \<open>exec_env\<close>; the run itself is the argument
  \<open>run\<close>.  Events and telemetry, which do not influence the outcome, are left out.
\<close>

section \<open>Captured output\<close>

record capture =
  cap_limit :: int
  cap_buf :: string
  cap_truncated :: bool

definition newStreamCaptureWriter :: "int \<Rightarrow> capture" where
  "newStreamCaptureWriter limit = \<lparr>cap_limit = limit, cap_buf = [], cap_truncated = False\<rparr>"

definition capture_Write :: "string \<Rightarrow> capture \<Rightarrow> capture" where
  "capture_Write p w =
     (if p = [] then w
      else
        (let remaining = cap_limit w + 1024 - int (length (cap_buf w)) in
         if remaining \<le> 0 then w\<lparr>cap_truncated := True\<rparr>
         else if remaining < int (length p)
         then w\<lparr>cap_buf := cap_buf w @ take (nat remaining) p, cap_truncated := True\<rparr>
         else w\<lparr>cap_buf := cap_buf w @ p\<rparr>))"

definition truncation_note :: string where
  "truncation_note = [LF] @ ''... (output truncated)''"

definition capture_Result :: "capture \<Rightarrow> string" where
  "capture_Result w =
     (let masked = Mask (cap_buf w);
          cut = (cap_limit w < int (length masked));
          result = (if cut then take (nat (cap_limit w)) masked else masked)
      in if cap_truncated w \<or> cut then result @ truncation_note else result)"

lemma capture_Write_limit: "cap_limit (capture_Write p w) = cap_limit w"
  by (simp add: capture_Write_def Let_def)

lemma capture_Write_bound:
  assumes "int (length (cap_buf w)) \<le> cap_limit w + 1024"
  shows "int (length (cap_buf (capture_Write p w))) \<le> cap_limit (capture_Write p w) + 1024"
  using assms by (auto simp: capture_Write_def Let_def)

text \<open>
  whatever a command prints, in whatever pieces, the harness keeps at most the limit plus 1024
  bytes of it and hands on at most the limit plus the truncation note.
\<close>

theorem capture_bounded:
  assumes "0 \<le> limit"
  shows "int (length (cap_buf (foldl (\<lambda>w p. capture_Write p w) (newStreamCaptureWriter limit) pieces)))
      \<le> limit + 1024
    \<and> int (length (capture_Result (foldl (\<lambda>w p. capture_Write p w) (newStreamCaptureWriter limit) pieces)))
      \<le> limit + int (length truncation_note)"
proof -
  define w where "w = foldl (\<lambda>w p. capture_Write p w) (newStreamCaptureWriter limit) pieces"
  have "int (length (cap_buf w)) \<le> cap_limit w + 1024 \<and> cap_limit w = limit"
    unfolding w_def
  proof (induction pieces rule: rev_induct)
    case Nil
    with assms show ?case by (simp add: newStreamCaptureWriter_def)
  next
    case (snoc p ps)
    then show ?case
      using capture_Write_bound [of "foldl (\<lambda>w p. capture_Write p w) (newStreamCaptureWriter limit) ps" p]
      by (simp add: capture_Write_limit)
  qed
  then show ?thesis
    using assms unfolding w_def [symmetric]
    by (auto simp: capture_Result_def Let_def min_def)
qed

theorem capture_bounded_witness:
  "int (length (capture_Result (capture_Write ''hello'' (newStreamCaptureWriter 2))))
     \<le> 2 + int (length truncation_note)"
  using capture_bounded [of 2 "[''hello'']"] by simp

section \<open>The tool\<close>

record shell_tool =
  st_allowedCommands :: "string list"
  st_approvedCommands :: "string list"
  st_sessionGrants :: "string list"
  st_approver :: "approver option"
  st_storeAvailable :: bool
  st_approvalRequired :: bool
  st_unrestricted :: bool
  st_securityPolicy :: "effective_policy option"
  st_humanApprover :: "approver option"
  st_llmApprover :: "approver option"
  st_timeout :: duration
  st_maxOutput :: int

definition NewShellToolWithApprovals ::
  "string list \<Rightarrow> string list \<Rightarrow> approver option \<Rightarrow> bool \<Rightarrow> shell_tool" where
  "NewShellToolWithApprovals allowed approved approver storeAvailable =
     \<lparr>st_allowedCommands = allowed, st_approvedCommands = approved_commands approved,
      st_sessionGrants = [], st_approver = approver, st_storeAvailable = storeAvailable,
      st_approvalRequired = False, st_unrestricted = False, st_securityPolicy = None,
      st_humanApprover = None, st_llmApprover = None, st_timeout = 30 * Second, st_maxOutput = 4096\<rparr>"

definition applySecurityPolicy ::
  "effective_policy \<Rightarrow> approver option \<Rightarrow> approver option \<Rightarrow> shell_tool \<Rightarrow> shell_tool" where
  "applySecurityPolicy p human llm tool =
     tool\<lparr>st_securityPolicy := Some p, st_humanApprover := human, st_llmApprover := llm,
          st_timeout := pol_Int p SettingTimeoutSeconds * Second,
          st_maxOutput := pol_Int p SettingMaxOutputBytes\<rparr>"

record exec_env =
  env_world :: os_world
  env_host :: host_env
  env_now :: time
  env_answer :: "nat \<Rightarrow> exec_answer"
  env_cancelled :: "nat \<Rightarrow> bool"
  env_sha :: "string \<Rightarrow> string"
  env_encode :: "shell_effect list \<Rightarrow> string"
  env_message :: "allow_error \<Rightarrow> string" \<comment> \<open>the text of an allowlist error\<close>

datatype exec_error =
    SyntaxViolation parse_error
  | PolicyError assess_error
  | Prerequisite string
  | GrantBinding grant_error
  | GrantLookup store_error
  | Approval approval_error
  | NoApprovalPath string

definition bind_grant ::
  "exec_env \<Rightarrow> string \<Rightarrow> effective_policy \<Rightarrow> grant_error + security_grant \<times> shell_assessment" where
  "bind_grant env cmd p =
     shellSecurityGrantBinding (env_sha env) (env_encode env) (env_host env) (env_world env) cmd p"

definition needs_approval :: "decision \<Rightarrow> bool" where
  "needs_approval d \<longleftrightarrow> d = DecisionAsk \<or> d = DecisionLLMReview"

section \<open>The gate under a security policy\<close>

text \<open>Spending a stored one-time grant, when there is a store.\<close>

definition spend_stored_grant ::
  "exec_env \<Rightarrow> shell_tool \<Rightarrow> string \<Rightarrow> effective_policy \<Rightarrow> decision \<Rightarrow> grant_table
   \<Rightarrow> (exec_error + bool) \<times> grant_table" where
  "spend_stored_grant env tool cmd p d table =
     (if needs_approval d \<and> st_storeAvailable tool then
        (case bind_grant env cmd p of
           Inl e \<Rightarrow> (Inl (GrantBinding e), table)
         | Inr (grant, _) \<Rightarrow>
            (case ConsumeSecurityActionGrant True (env_now env) (env_answer env) (env_cancelled env) grant
                    (env_now env) table of
               (Inl e, table') \<Rightarrow> (Inl (GrantLookup e), table')
             | (Inr consumed, table') \<Rightarrow> (Inr consumed, table')))
      else (Inr False, table))"

definition in_session :: "exec_env \<Rightarrow> shell_tool \<Rightarrow> string \<Rightarrow> effective_policy \<Rightarrow> exec_error + bool" where
  "in_session env tool cmd p =
     (case bind_grant env cmd p of
        Inl e \<Rightarrow> Inl (GrantBinding e)
      | Inr (grant, _) \<Rightarrow> Inr (List.member (st_sessionGrants tool) (g_Digest grant)))"

definition advisory_note :: string where
  "advisory_note = ''advisory model found no immediate hazard; human approval is still required; ''"

text \<open>The model's review comes first; it can stop the command, but not let it pass.\<close>

definition review_request ::
  "shell_tool \<Rightarrow> decision \<Rightarrow> approval_request \<Rightarrow> approval_error + approval_request" where
  "review_request tool d request =
     (if d = DecisionLLMReview then
        (case st_llmApprover tool of
           None \<Rightarrow> Inr request
         | Some llm \<Rightarrow>
            (case llm (request\<lparr>req_Command := Mask (req_Command request)\<rparr>) of
               Inl e \<Rightarrow> Inl e
             | Inr _ \<Rightarrow> Inr (request\<lparr>req_ValidationError := advisory_note @ req_ValidationError request\<rparr>)))
      else Inr request)"

definition shell_request :: "string \<Rightarrow> shell_assessment \<Rightarrow> security_grant \<Rightarrow> approval_request" where
  "shell_request cmd assessment grant =
     \<lparr>req_Command = cmd, req_ValidationError = as_Reason assessment, req_Effects = as_Effects assessment,
      req_ActionKind = ''shell_execute'', req_ActionPayload = cmd, req_GrantDigest = g_Digest grant,
      req_Grant = Some grant, req_Advice = None\<rparr>"

text \<open>Asking for approval; the result has the approval mode and the note for the history.\<close>

definition ask_approval ::
  "exec_env \<Rightarrow> shell_tool \<Rightarrow> string \<Rightarrow> effective_policy \<Rightarrow> shell_assessment
   \<Rightarrow> (exec_error + string \<times> string) \<times> shell_tool" where
  "ask_approval env tool cmd p assessment =
     (case bind_grant env cmd p of
        Inl e \<Rightarrow> (Inl (GrantBinding e), tool)
      | Inr (grant, _) \<Rightarrow>
         (case review_request tool (as_Decision assessment) (shell_request cmd assessment grant) of
            Inl e \<Rightarrow> (Inl (Approval e), tool)
          | Inr request \<Rightarrow>
             (case st_humanApprover tool of
                None \<Rightarrow> (Inl (Approval (ApprovalRequired request)), tool)
              | Some human \<Rightarrow>
                 (case human request of
                    Inl e \<Rightarrow> (Inl (Approval e), tool)
                  | Inr decision \<Rightarrow>
                      if \<not> dec_Approved decision
                      then (Inl (Prerequisite ''security violation: approval gate did not approve command''), tool)
                      else
                        (Inr (dec_Mode decision, TrimSpace (dec_HistoryNote decision)),
                         if dec_Remember decision \<and> pol_Bool p SettingRememberApprovals
                           \<and> as_Decision assessment = DecisionAsk
                         then tool\<lparr>st_sessionGrants := g_Digest grant # st_sessionGrants tool\<rparr>
                         else tool)))))"

definition policy_gate ::
  "exec_env \<Rightarrow> shell_tool \<Rightarrow> string \<Rightarrow> effective_policy \<Rightarrow> grant_table
   \<Rightarrow> (exec_error + string \<times> string) \<times> shell_tool \<times> grant_table" where
  "policy_gate env tool cmd p table =
     (case AssessShellCommand (env_world env) cmd p of
        Inl e \<Rightarrow> (Inl (PolicyError e), tool, table)
      | Inr assessment \<Rightarrow>
          if as_Decision assessment = DecisionDeny
          then (Inl (Prerequisite (''security violation: '' @ as_Reason assessment)), tool, table)
          else case spend_stored_grant env tool cmd p (as_Decision assessment) table of
            (Inl e, table') \<Rightarrow> (Inl e, tool, table')
          | (Inr True, table') \<Rightarrow> (Inr (''scoped_one_time_grant'', ''''), tool, table')
          | (Inr False, table') \<Rightarrow>
              if as_Decision assessment = DecisionAsk then
                (case in_session env tool cmd p of
                   Inl e \<Rightarrow> (Inl e, tool, table')
                 | Inr True \<Rightarrow> (Inr (''session_scoped_grant'', ''''), tool, table')
                 | Inr False \<Rightarrow>
                     (let (r, tool') = ask_approval env tool cmd p assessment in (r, tool', table')))
              else if needs_approval (as_Decision assessment) then
                (let (r, tool') = ask_approval env tool cmd p assessment in (r, tool', table'))
              else (Inr (''profile:'' @ pol_Profile p, ''''), tool, table'))"

section \<open>The gate without a policy\<close>

definition legacy_request :: "exec_env \<Rightarrow> string \<Rightarrow> allow_error option \<Rightarrow> approval_request" where
  "legacy_request env cmd err =
     \<lparr>req_Command = cmd,
      req_ValidationError =
        (case err of None \<Rightarrow> ''safety mode requires user approval before every command''
         | Some e \<Rightarrow> env_message env e),
      req_Effects = [], req_ActionKind = '''', req_ActionPayload = '''', req_GrantDigest = '''',
      req_Grant = None, req_Advice = None\<rparr>"

definition legacy_gate ::
  "exec_env \<Rightarrow> shell_tool \<Rightarrow> string \<Rightarrow> parsed_command
   \<Rightarrow> (exec_error + string \<times> string) \<times> shell_tool" where
  "legacy_gate env tool cmd parsed =
     (if st_unrestricted tool then (Inr (SafetyModeUnrestricted, ''''), tool)
      else
        (let err = (case validateAllowedShellCommand cmd (st_allowedCommands tool)
                      (Some (st_approvedCommands tool)) of Inl e \<Rightarrow> Some e | Inr _ \<Rightarrow> None) in
         if err = None \<and> \<not> st_approvalRequired tool then (Inr (''allowlist'', ''''), tool)
         else case st_approver tool of
           None \<Rightarrow> (Inl (NoApprovalPath (req_ValidationError (legacy_request env cmd err))), tool)
         | Some approve \<Rightarrow>
            (case approve (legacy_request env cmd err) of
               Inl e \<Rightarrow> (Inl (Approval e), tool)
             | Inr decision \<Rightarrow>
                 if \<not> dec_Approved decision
                 then (Inl (Prerequisite ''security violation: approval gate did not approve command''), tool)
                 else (Inr (dec_Mode decision, TrimSpace (dec_HistoryNote decision)),
                       if dec_Remember decision \<and> \<not> st_approvalRequired tool
                       then tool\<lparr>st_approvedCommands :=
                              rememberApprovedSegments parsed (st_approvedCommands tool)\<rparr>
                       else tool))))"

section \<open>Execution\<close>

definition shell_gate ::
  "exec_env \<Rightarrow> shell_tool \<Rightarrow> string \<Rightarrow> grant_table
   \<Rightarrow> (exec_error + string \<times> string) \<times> shell_tool \<times> grant_table" where
  "shell_gate env tool cmd table =
     (case ParseShellCommand cmd of
        Inl e \<Rightarrow> (Inl (SyntaxViolation e), tool, table)
      | Inr parsed \<Rightarrow>
         (case st_securityPolicy tool of
            Some p \<Rightarrow> policy_gate env tool cmd p table
          | None \<Rightarrow> (let (r, tool') = legacy_gate env tool cmd parsed in (r, tool', table))))"

text \<open>What the operating system reports about a run of \<open>sh -c\<close>.\<close>

record run_report =
  run_pieces :: "string list"
  run_error :: "string option"
  run_deadline :: bool

datatype shell_result =
    Refused exec_error
  | Finished string
  | TimedOut string duration
  | Exited string string

definition captured_output :: "shell_tool \<Rightarrow> run_report \<Rightarrow> string" where
  "captured_output tool report =
     capture_Result (foldl (\<lambda>w p. capture_Write p w)
       (newStreamCaptureWriter (if st_maxOutput tool \<le> 0 then 4096 else st_maxOutput tool))
       (run_pieces report))"

definition with_note :: "string \<Rightarrow> string \<Rightarrow> string" where
  "with_note note result =
     (if note = '''' then result else if result = '''' then note else note @ [LF, LF] @ result)"

definition shell_Execute ::
  "exec_env \<Rightarrow> (string \<Rightarrow> duration \<Rightarrow> run_report) \<Rightarrow> shell_tool \<Rightarrow> string \<Rightarrow> grant_table
   \<Rightarrow> shell_result \<times> shell_tool \<times> grant_table" where
  "shell_Execute env run tool command table =
     (let cmd = trimShellBoundaryWhitespace command in
      case shell_gate env tool cmd table of
        (Inl e, tool', table') \<Rightarrow> (Refused e, tool', table')
      | (Inr (mode, note), tool', table') \<Rightarrow>
          (let report = run cmd (st_timeout tool');
               result = with_note note (captured_output tool' report)
           in (case run_error report of
                 None \<Rightarrow> Finished result
               | Some e \<Rightarrow> if run_deadline report then TimedOut result (st_timeout tool') else Exited result e,
               tool', table')))"

section \<open>An example session\<close>

definition example_env :: exec_env where
  "example_env =
     \<lparr>env_world = example_world, env_host = example_host, env_now = 150, env_answer = (\<lambda>_. ExecOk),
      env_cancelled = (\<lambda>_. False), env_sha = hex_hash, env_encode = encode_effects,
      env_message = (\<lambda>_. ''not allowed'')\<rparr>"

text \<open>A tool under the minimal profile whose user approves and asks to remember, and one without a user.\<close>

definition attended_tool :: shell_tool where
  "attended_tool =
     applySecurityPolicy minimal_policy (Some (userPrompt_Approve (\<lambda>_. Some 2))) None
       (NewShellToolWithApprovals [] [] None False)"

definition unattended_tool :: shell_tool where
  "unattended_tool =
     applySecurityPolicy minimal_policy None None (NewShellToolWithApprovals [''df''] [] None False)"

lemma attended_gate:
  "case policy_gate example_env attended_tool ''rm /etc/hosts'' minimal_policy [] of
     (Inl _, _) \<Rightarrow> False
   | (Inr (mode, _), tool', table') \<Rightarrow>
       mode = ''user_confirm'' \<and> length (st_sessionGrants tool') = 1 \<and> table' = []"
  by code_simp

lemma attended_gate_result:
  obtains hist tool' where
    "policy_gate example_env attended_tool ''rm /etc/hosts'' minimal_policy [] =
       (Inr (''user_confirm'', hist), tool', [])"
    "length (st_sessionGrants tool') = 1"
  using attended_gate by (auto split: prod.splits sum.splits)

section \<open>What the gate lets pass\<close>

text \<open>The grounds on which the gate may let a command pass that the policy does not allow outright.\<close>

definition spent_grant ::
  "exec_env \<Rightarrow> security_grant \<Rightarrow> grant_table \<Rightarrow> grant_table \<Rightarrow> bool" where
  "spent_grant env grant table table' \<longleftrightarrow>
     (\<exists>row. map_of table (g_Digest grant) = Some row \<and> grant_matches grant (env_now env) row
        \<and> table' = AList.update (g_Digest grant) (spend (env_now env) row) table)"

definition human_approved ::
  "shell_tool \<Rightarrow> string \<Rightarrow> security_grant \<Rightarrow> shell_assessment \<Rightarrow> bool" where
  "human_approved tool cmd grant assessment \<longleftrightarrow>
     (\<exists>human request decision. st_humanApprover tool = Some human
        \<and> review_request tool (as_Decision assessment) (shell_request cmd assessment grant) = Inr request
        \<and> human request = Inr decision \<and> dec_Approved decision)"

lemma ask_approval_cases:
  assumes "ask_approval env tool cmd p assessment = (Inr m, tool')"
  shows "\<exists>grant a. bind_grant env cmd p = Inr (grant, a) \<and> human_approved tool cmd grant assessment
    \<and> (tool' = tool \<or> pol_Bool p SettingRememberApprovals \<and> as_Decision assessment = DecisionAsk
         \<and> tool' = tool\<lparr>st_sessionGrants := g_Digest grant # st_sessionGrants tool\<rparr>)"
  using assms
  by (force simp: ask_approval_def human_approved_def split: sum.splits option.splits if_splits prod.splits)

lemma ask_approval_refused: "ask_approval env tool cmd p assessment = (Inl e, tool') \<Longrightarrow> tool' = tool"
  by (auto simp: ask_approval_def split: sum.splits option.splits if_splits prod.splits)

lemma spend_stored_grant_cases:
  assumes "spend_stored_grant env tool cmd p d table = (r, table')"
  shows "(r \<noteq> Inr True \<and> table' = table)
    \<or> (r = Inr True \<and> needs_approval d \<and> st_storeAvailable tool
       \<and> (\<exists>grant a. bind_grant env cmd p = Inr (grant, a) \<and> spent_grant env grant table table'))"
  using assms
  by (auto simp: spend_stored_grant_def ConsumeSecurityActionGrant_def spent_grant_def
      split: sum.splits if_splits prod.splits dest!: consume_attempts_cases)

text \<open>
  C1: a command passes the gate of a policy only on grounds: it is assessed and not denied, and it is
  allowed outright, or a stored grant bound to exactly this action was spent, or (only where the
  policy asks) this session remembers the grant, or the human approver approved the request.
\<close>

theorem policy_gate_grounds:
  assumes "policy_gate env tool cmd p table = (Inr m, tool', table')"
  shows "\<exists>a. AssessShellCommand (env_world env) cmd p = Inr a \<and> as_Decision a \<noteq> DecisionDeny
    \<and> (\<not> needs_approval (as_Decision a)
       \<or> (\<exists>grant b. bind_grant env cmd p = Inr (grant, b)
            \<and> (spent_grant env grant table table'
               \<or> as_Decision a = DecisionAsk \<and> g_Digest grant \<in> set (st_sessionGrants tool)
               \<or> human_approved tool cmd grant a)))"
proof -
  obtain a where a: "AssessShellCommand (env_world env) cmd p = Inr a" "as_Decision a \<noteq> DecisionDeny"
    using assms by (auto simp: policy_gate_def split: sum.splits if_splits)
  obtain r t1 where s: "spend_stored_grant env tool cmd p (as_Decision a) table = (r, t1)"
    by (cases "spend_stored_grant env tool cmd p (as_Decision a) table")
  note cases = spend_stored_grant_cases [OF s]
  show ?thesis
  proof (cases "needs_approval (as_Decision a)")
    case False
    with a show ?thesis by auto
  next
    case True
    have "r = Inr True \<or> r = Inr False"
      using assms a s by (auto simp: policy_gate_def split: sum.splits bool.splits)
    then show ?thesis
    proof
      assume "r = Inr True"
      with cases a True assms s show ?thesis by (auto simp: policy_gate_def)
    next
      assume r: "r = Inr False"
      have "(\<exists>grant b. bind_grant env cmd p = Inr (grant, b) \<and> as_Decision a = DecisionAsk
          \<and> g_Digest grant \<in> set (st_sessionGrants tool))
        \<or> (\<exists>m' t'. ask_approval env tool cmd p a = (Inr m', t'))"
        using assms a s r True
        by (auto simp: policy_gate_def in_session_def
            split: sum.splits bool.splits if_splits prod.splits)
      then show ?thesis using a ask_approval_cases by blast
    qed
  qed
qed

theorem policy_gate_grounds_witness:
  "\<exists>a. AssessShellCommand example_world ''rm /etc/hosts'' minimal_policy = Inr a \<and> as_Decision a \<noteq> DecisionDeny"
proof -
  obtain hist tool' where g: "policy_gate example_env attended_tool ''rm /etc/hosts'' minimal_policy [] =
      (Inr (''user_confirm'', hist), tool', [])"
    by (rule attended_gate_result)
  from policy_gate_grounds [OF g] show ?thesis by (auto simp: example_env_def)
qed

text \<open>
  C20: a command the policy denies, or cannot assess, is refused, and neither a grant nor the tool's
  memory changes, whoever the approvers are and whatever grants are stored.
\<close>

theorem policy_gate_denied:
  assumes "case AssessShellCommand (env_world env) cmd p of Inl _ \<Rightarrow> True | Inr a \<Rightarrow> as_Decision a = DecisionDeny"
  shows "\<exists>e. policy_gate env tool cmd p table = (Inl e, tool, table)"
  using assms by (auto simp: policy_gate_def split: sum.splits)

theorem policy_gate_denied_witness:
  "\<exists>e. policy_gate example_env attended_tool ''ls ~/.ssh/x'' reasonable_policy [(''d'', example_grant)] =
     (Inl e, attended_tool, [(''d'', example_grant)])"
proof -
  have "case AssessShellCommand (env_world example_env) ''ls ~/.ssh/x'' reasonable_policy of
      Inl _ \<Rightarrow> True | Inr a \<Rightarrow> as_Decision a = DecisionDeny"
    by (simp add: example_env_def assess_cat_key)
  from policy_gate_denied [OF this] show ?thesis .
qed

text \<open>
  C16: a model never authorizes a command: with no human approver, no store of grants and nothing
  remembered in the session, a command that is not allowed outright is refused, whatever the model
  that reviews commands answers.
\<close>

theorem model_review_never_authorizes:
  assumes "st_humanApprover tool = None" and "\<not> st_storeAvailable tool" and "st_sessionGrants tool = []"
    and "AssessShellCommand (env_world env) cmd p = Inr a" and "as_Decision a \<in> {DecisionAsk, DecisionLLMReview}"
  shows "\<exists>e. policy_gate env (tool\<lparr>st_llmApprover := llm\<rparr>) cmd p table =
    (Inl e, tool\<lparr>st_llmApprover := llm\<rparr>, table)"
proof -
  have spend: "spend_stored_grant env (tool\<lparr>st_llmApprover := llm\<rparr>) cmd p d table = (Inr False, table)" for d
    using assms(2) by (simp add: spend_stored_grant_def)
  have ask: "\<exists>e. ask_approval env (tool\<lparr>st_llmApprover := llm\<rparr>) cmd p a = (Inl e, tool\<lparr>st_llmApprover := llm\<rparr>)"
    using assms(1) by (auto simp: ask_approval_def split: sum.splits)
  have session: "in_session env (tool\<lparr>st_llmApprover := llm\<rparr>) cmd p \<noteq> Inr True"
    using assms(3) by (auto simp: in_session_def split: sum.splits)
  have "as_Decision a \<noteq> DecisionDeny" "needs_approval (as_Decision a)"
    using assms(5) by (auto simp: needs_approval_def keyword_defs)
  with spend ask session assms(4) show ?thesis
    by (auto simp: policy_gate_def split: sum.splits bool.splits)
qed

theorem model_review_never_authorizes_witness:
  "\<exists>e tool'. policy_gate example_env
      (unattended_tool\<lparr>st_llmApprover := Some (llmJudge_Approve (\<lambda>_. Some ''SAFE''))\<rparr>)
      ''rm /etc/hosts'' minimal_policy [] = (Inl e, tool', [])"
proof -
  have "AssessShellCommand (env_world example_env) ''rm /etc/hosts'' minimal_policy =
      Inr \<lparr>as_Effects = [eff SettingFileDelete ''rm deletion'' ''/etc/hosts''], as_Decision = DecisionAsk,
        as_Reason = ''critical path /etc/hosts requires approval; rm deletion is ask''\<rparr>"
    by (simp add: example_env_def assess_rm_hosts)
  from model_review_never_authorizes [OF _ _ _ this, of unattended_tool] show ?thesis
    by (fastforce simp: unattended_tool_def applySecurityPolicy_def NewShellToolWithApprovals_def)
qed

text \<open>
  the session remembers a grant only when a human approved that action with the wish to remember
  it, the policy asked (a model's review is never remembered) and allows reuse; nothing is forgotten.
\<close>

theorem session_grants_grow_only_by_approval:
  assumes "policy_gate env tool cmd p table = (r, tool', table')"
    and "st_sessionGrants tool' \<noteq> st_sessionGrants tool"
  shows "\<exists>a grant b. AssessShellCommand (env_world env) cmd p = Inr a \<and> as_Decision a = DecisionAsk
    \<and> pol_Bool p SettingRememberApprovals \<and> bind_grant env cmd p = Inr (grant, b)
    \<and> human_approved tool cmd grant a \<and> st_sessionGrants tool' = g_Digest grant # st_sessionGrants tool"
proof -
  obtain a where a: "AssessShellCommand (env_world env) cmd p = Inr a"
    using assms by (auto simp: policy_gate_def split: sum.splits)
  obtain q t1 where s: "spend_stored_grant env tool cmd p (as_Decision a) table = (q, t1)"
    by (cases "spend_stored_grant env tool cmd p (as_Decision a) table")
  obtain r' where ask: "ask_approval env tool cmd p a = (r', tool')"
    using assms a s
    by (auto simp: policy_gate_def split: sum.splits if_splits bool.splits prod.splits)
  with assms(2) obtain m where "r' = Inr m"
    using ask_approval_refused by (cases r') blast+
  with ask_approval_cases [of env tool cmd p a m tool'] ask assms(2) a show ?thesis
    by auto
qed

theorem session_grants_grow_only_by_approval_witness:
  "\<exists>a grant b. AssessShellCommand example_world ''rm /etc/hosts'' minimal_policy = Inr a
     \<and> as_Decision a = DecisionAsk \<and> bind_grant example_env ''rm /etc/hosts'' minimal_policy = Inr (grant, b)"
proof -
  obtain hist tool' where g: "policy_gate example_env attended_tool ''rm /etc/hosts'' minimal_policy [] =
      (Inr (''user_confirm'', hist), tool', [])" "length (st_sessionGrants tool') = 1"
    by (rule attended_gate_result)
  have "st_sessionGrants attended_tool = []"
    by (simp add: attended_tool_def applySecurityPolicy_def NewShellToolWithApprovals_def)
  with g(2) have "st_sessionGrants tool' \<noteq> st_sessionGrants attended_tool" by auto
  from session_grants_grow_only_by_approval [OF g(1) this] show ?thesis
    by (auto simp: example_env_def)
qed

text \<open>
  A refused command does not run: when the gate refuses, the result of the tool is the same
  whatever the shell would do.
\<close>

theorem refused_never_runs:
  assumes "shell_gate env tool (trimShellBoundaryWhitespace command) table = (Inl e, tool', table')"
  shows "shell_Execute env run tool command table = (Refused e, tool', table')"
  using assms by (simp add: shell_Execute_def)

theorem refused_never_runs_witness:
  "\<exists>e tool' table'. shell_Execute example_env (\<lambda>_ _. \<lparr>run_pieces = [''x''], run_error = None, run_deadline = False\<rparr>)
     attended_tool ''sleep 9 & '' [] = (Refused e, tool', table')"
proof -
  have "ParseShellCommand (trimShellBoundaryWhitespace ''sleep 9 & '') = Inl (BlockedSyntax ''&'')" by code_simp
  then have "shell_gate example_env attended_tool (trimShellBoundaryWhitespace ''sleep 9 & '') [] =
      (Inl (SyntaxViolation (BlockedSyntax ''&'')), attended_tool, [])"
    by (simp add: shell_gate_def)
  from refused_never_runs [OF this] show ?thesis by blast
qed

text \<open>
  without a policy a command passes only if the tool is unrestricted, or every segment is on the
  allowlist and no approval is required, or the approver approved it; and it parses in any case.
\<close>

theorem legacy_gate_grounds:
  assumes "st_securityPolicy tool = None" and "shell_gate env tool cmd table = (Inr m, tool', table')"
  shows "table' = table \<and> (\<exists>parsed. ParseShellCommand cmd = Inr parsed)
    \<and> (st_unrestricted tool
       \<or> (\<exists>parsed. validateAllowedShellCommand cmd (st_allowedCommands tool) (Some (st_approvedCommands tool))
             = Inr parsed) \<and> st_approvalRequired tool = False
       \<or> (\<exists>approve request decision. st_approver tool = Some approve \<and> req_Command request = cmd
            \<and> approve request = Inr decision \<and> dec_Approved decision))"
proof -
  obtain parsed where parsed: "ParseShellCommand cmd = Inr parsed"
    and gate: "legacy_gate env tool cmd parsed = (Inr m, tool')" "table' = table"
    using assms by (auto simp: shell_gate_def split: sum.splits prod.splits)
  have req: "req_Command (legacy_request env cmd e) = cmd" for e by (simp add: legacy_request_def)
  from gate(1) have "st_unrestricted tool
       \<or> (\<exists>parsed. validateAllowedShellCommand cmd (st_allowedCommands tool) (Some (st_approvedCommands tool))
             = Inr parsed) \<and> st_approvalRequired tool = False
       \<or> (\<exists>approve e decision. st_approver tool = Some approve
            \<and> approve (legacy_request env cmd e) = Inr decision \<and> dec_Approved decision)"
    by (auto simp: legacy_gate_def Let_def split: if_splits sum.splits option.splits)
  with parsed gate(2) req show ?thesis by metis
qed

theorem legacy_gate_grounds_witness:
  "\<exists>parsed. ParseShellCommand ''df'' = Inr parsed"
proof -
  define tool where "tool = NewShellToolWithApprovals [''df''] [] None False"
  have pol: "st_securityPolicy tool = None" by (simp add: tool_def NewShellToolWithApprovals_def)
  have "case shell_gate example_env tool ''df'' [] of (Inl _, _) \<Rightarrow> False | (Inr _, _) \<Rightarrow> True"
    unfolding tool_def by code_simp
  then obtain m tool' table' where "shell_gate example_env tool ''df'' [] = (Inr m, tool', table')"
    by (auto split: prod.splits sum.splits)
  from legacy_gate_grounds [OF pol this] show ?thesis by blast
qed

end
