(* ===== verification/Tool_Registry.thy ===== *)
theory Tool_Registry
  imports Shell_Exec
begin

text \<open>
  The tool registry of \<open>tools/registry.go\<close>: registration, lookup, the definitions shown to a model, and
  \<open>ExecuteTool\<close> with \<open>authorizeToolCall\<close>, the authorization boundary for every tool but the shell (which
  has its own, see \<open>Shell_Exec\<close>).  A tool is a record of what the registry calls: its review of a call,
  when it has one, and its execution.  Which of the special tools it is, which the code asks by a type
  assertion, is its kind.
\<close>

section \<open>Registry\<close>

datatype tool_kind = RememberTarget | RecoveryManage | RecoveryFleet | OrdinaryTool

record tool =
  tool_Name :: string
  tool_Description :: string
  tool_Parameters :: string
  tool_Kind :: tool_kind
  tool_Review :: "(string \<Rightarrow> string + string) option" \<comment> \<open>\<open>Inl\<close> an error, \<open>Inr\<close> the summary\<close>
  tool_Execute :: "string \<Rightarrow> string + string"

record registry =
  reg_tools :: "(string \<times> tool) list"
  reg_securityPolicy :: "effective_policy option"
  reg_humanApprover :: "approver option"
  reg_llmApprover :: "approver option"
  reg_storeAvailable :: bool

definition NewRegistry :: registry where
  "NewRegistry = \<lparr>reg_tools = [], reg_securityPolicy = None, reg_humanApprover = None,
     reg_llmApprover = None, reg_storeAvailable = False\<rparr>"

definition Register :: "tool \<Rightarrow> registry \<Rightarrow> registry" where
  "Register t r = r\<lparr>reg_tools := AList.update (tool_Name t) t (reg_tools r)\<rparr>"

definition reg_Get :: "registry \<Rightarrow> string \<Rightarrow> tool option" where
  "reg_Get r name = map_of (reg_tools r) name"

definition ConfigureSecurity ::
  "effective_policy \<Rightarrow> approver option \<Rightarrow> approver option \<Rightarrow> registry \<Rightarrow> registry" where
  "ConfigureSecurity p human llm r =
     r\<lparr>reg_securityPolicy := Some p, reg_humanApprover := human, reg_llmApprover := llm\<rparr>"

definition ConfigureSecurityWithStore ::
  "effective_policy \<Rightarrow> approver option \<Rightarrow> approver option \<Rightarrow> bool \<Rightarrow> registry \<Rightarrow> registry" where
  "ConfigureSecurityWithStore p human llm available r =
     (ConfigureSecurity p human llm r)\<lparr>reg_storeAvailable := available\<rparr>"

definition reg_Names :: "registry \<Rightarrow> string list" where
  "reg_Names r = sort (map fst (reg_tools r))"

record tool_def =
  td_Name :: string
  td_Description :: string
  td_Parameters :: string

definition definitionsForNames :: "registry \<Rightarrow> string list \<Rightarrow> tool_def list" where
  "definitionsForNames r names =
     map (\<lambda>t. \<lparr>td_Name = tool_Name t, td_Description = tool_Description t, td_Parameters = tool_Parameters t\<rparr>)
       (List.map_filter (reg_Get r) names)"

definition reg_Definitions :: "registry \<Rightarrow> tool_def list" where
  "reg_Definitions r = definitionsForNames r (reg_Names r)"

section \<open>Authorization of a call\<close>

record tool_call =
  call_Name :: string
  call_Arguments :: string

datatype call_error =
    MissingName
  | UnknownTool string
  | NeedsPolicy
  | ReviewFailed string
  | CallPrerequisite string
  | CallBinding grant_error
  | CallLookup store_error
  | CallApproval approval_error
  | CallFailed string

definition effect_reason :: "effective_policy \<Rightarrow> shell_effect \<Rightarrow> string" where
  "effect_reason p e = eff_Detail e @ '' is '' @ base_decision p (eff_Setting e)"

text \<open>The review of the call: no summary when the tool has no review.\<close>

definition review_call :: "registry \<Rightarrow> tool_call \<Rightarrow> string + string" where
  "review_call r call =
     (case reg_Get r (call_Name call) of
        Some t \<Rightarrow> (case tool_Review t of Some review \<Rightarrow> review (call_Arguments call) | None \<Rightarrow> Inr '''')
      | None \<Rightarrow> Inr '''')"

definition call_decision :: "effective_policy \<Rightarrow> shell_effect list \<Rightarrow> string \<Rightarrow> decision" where
  "call_decision p effects summary =
     (let d = effects_decision p effects in
      if summary \<noteq> '''' then strictestSecurityDecision d DecisionAsk else d)"

definition call_request ::
  "tool_call \<Rightarrow> shell_effect list \<Rightarrow> string \<Rightarrow> string \<Rightarrow> security_grant \<Rightarrow> approval_request" where
  "call_request call effects reason summary grant =
     \<lparr>req_Command =
        (if summary \<noteq> '''' then Mask summary else Mask (call_Name call @ '' '' @ call_Arguments call)),
      req_ValidationError = reason, req_Effects = effects, req_ActionKind = call_Name call,
      req_ActionPayload = call_Arguments call, req_GrantDigest = g_Digest grant, req_Grant = Some grant,
      req_Advice = None\<rparr>"

definition review_by_model ::
  "approver option \<Rightarrow> decision \<Rightarrow> approval_request \<Rightarrow> approval_error + approval_request" where
  "review_by_model llm d request =
     (case llm of
        Some review \<Rightarrow>
          if d = DecisionLLMReview then
            (case review request of
               Inl e \<Rightarrow> Inl e
             | Inr _ \<Rightarrow> Inr (request\<lparr>req_ValidationError := advisory_note @ req_ValidationError request\<rparr>))
          else Inr request
      | None \<Rightarrow> Inr request)"

definition ask_for_call :: "registry \<Rightarrow> tool_call \<Rightarrow> decision \<Rightarrow> approval_request \<Rightarrow> call_error option" where
  "ask_for_call r call d request0 =
     (case review_by_model (reg_llmApprover r) d request0 of
        Inl e \<Rightarrow> Some (CallApproval e)
      | Inr request \<Rightarrow>
         (case reg_humanApprover r of
            None \<Rightarrow> Some (CallApproval (ApprovalRequired request))
          | Some human \<Rightarrow>
             (case human request of
                Inl e \<Rightarrow> Some (CallApproval e)
              | Inr decision \<Rightarrow>
                  if \<not> dec_Approved decision
                  then Some (CallPrerequisite (''security violation: approval gate did not approve '' @ call_Name call))
                  else None)))"

definition spend_call_grant ::
  "exec_env \<Rightarrow> registry \<Rightarrow> security_grant \<Rightarrow> grant_table \<Rightarrow> (call_error + bool) \<times> grant_table" where
  "spend_call_grant env r grant table =
     (if reg_storeAvailable r then
        (case ConsumeSecurityActionGrant True (env_now env) (env_answer env) (env_cancelled env) grant
                (env_now env) table of
           (Inl e, table') \<Rightarrow> (Inl (CallLookup e), table')
         | (Inr consumed, table') \<Rightarrow> (Inr consumed, table'))
      else (Inr False, table))"

text \<open>\<open>None\<close> is the nil error: the call may be executed.\<close>

definition authorizeToolCall ::
  "exec_env \<Rightarrow> json_decoder \<Rightarrow> registry \<Rightarrow> tool_call \<Rightarrow> grant_table \<Rightarrow> call_error option \<times> grant_table" where
  "authorizeToolCall env decode r call table =
     (case reg_securityPolicy r of
        None \<Rightarrow> (None, table)
      | Some p \<Rightarrow>
          if call_Name call = ''shell_execute'' then (None, table)
          else
            (let effects = policyToolEffects decode (call_Name call) (call_Arguments call) in
             case review_call r call of
               Inl e \<Rightarrow> (Some (ReviewFailed e), table)
             | Inr summary \<Rightarrow>
                (let d = call_decision p effects summary;
                     reason = Join (uniqueStrings (map (effect_reason p) effects)) ''; '' in
                 if d = DecisionDeny then (Some (CallPrerequisite (''security violation: '' @ reason)), table)
                 else if d = DecisionAllow then (None, table)
                 else case securityGrantBinding (env_sha env) (env_encode env) (env_host env) (call_Name call)
                             (call_Arguments call) effects p of
                   Inl e \<Rightarrow> (Some (CallBinding e), table)
                 | Inr grant \<Rightarrow>
                    (case spend_call_grant env r grant table of
                       (Inl e, table') \<Rightarrow> (Some e, table')
                     | (Inr True, table') \<Rightarrow> (None, table')
                     | (Inr False, table') \<Rightarrow>
                         (ask_for_call r call d (call_request call effects reason summary grant), table')))))"

section \<open>Execution of a call\<close>

text \<open>
  What was done about a call: \<open>Executed\<close> names the tool whose \<open>Execute\<close> was called.  \<open>cached\<close> is whether
  the turn already holds a captured endpoint.
\<close>

datatype call_outcome = NotExecuted call_error | Executed tool "string + string"

definition ExecuteTool ::
  "exec_env \<Rightarrow> json_decoder \<Rightarrow> bool \<Rightarrow> registry \<Rightarrow> tool_call \<Rightarrow> grant_table \<Rightarrow> call_outcome \<times> grant_table" where
  "ExecuteTool env decode cached r call table =
     (if call_Name call = '''' then (NotExecuted MissingName, table)
      else case reg_Get r (call_Name call) of
        None \<Rightarrow> (NotExecuted (UnknownTool (call_Name call)), table)
      | Some t \<Rightarrow>
          if tool_Kind t = RememberTarget \<and> cached
          then (Executed t (tool_Execute t (call_Arguments call)), table)
          else if (tool_Kind t = RecoveryManage \<or> tool_Kind t = RecoveryFleet) \<and> reg_securityPolicy r = None
          then (NotExecuted NeedsPolicy, table)
          else case authorizeToolCall env decode r call table of
            (Some e, table') \<Rightarrow> (NotExecuted e, table')
          | (None, table') \<Rightarrow> (Executed t (tool_Execute t (call_Arguments call)), table'))"

section \<open>An example registry\<close>

definition apply_tool :: tool where
  "apply_tool =
     \<lparr>tool_Name = ''recovery_manage'', tool_Description = ''recovery'', tool_Parameters = '''',
      tool_Kind = RecoveryManage, tool_Review = Some (\<lambda>_. Inr ''apply operation op_1''),
      tool_Execute = (\<lambda>_. Inr ''done'')\<rparr>"

definition apply_call :: tool_call where
  "apply_call = \<lparr>call_Name = ''recovery_manage'', call_Arguments = ''apply op_1''\<rparr>"

definition attended_registry :: registry where
  "attended_registry =
     ConfigureSecurity minimal_policy (Some (userPrompt_Approve (\<lambda>_. Some 1))) None
       (Register apply_tool NewRegistry)"

lemma attended_call:
  "case ExecuteTool example_env (\<lambda>_. None) False attended_registry apply_call [] of
     (Executed _ _, _) \<Rightarrow> True | (NotExecuted _, _) \<Rightarrow> False"
  by code_simp

lemma attended_call_executed:
  obtains t result table' where
    "ExecuteTool example_env (\<lambda>_. None) False attended_registry apply_call [] = (Executed t result, table')"
  using attended_call by (auto split: prod.splits call_outcome.splits)

lemma attended_policy: "reg_securityPolicy attended_registry = Some minimal_policy"
  by (simp add: attended_registry_def ConfigureSecurity_def)

lemma attended_review: "review_call attended_registry apply_call = Inr ''apply operation op_1''"
  by (simp add: review_call_def reg_Get_def attended_registry_def ConfigureSecurity_def Register_def
      NewRegistry_def apply_tool_def apply_call_def)

section \<open>Properties\<close>

text \<open>The grounds of an authorization under a policy, other than that the policy allows the call.\<close>

definition call_grounds ::
  "exec_env \<Rightarrow> json_decoder \<Rightarrow> registry \<Rightarrow> effective_policy \<Rightarrow> tool_call \<Rightarrow> grant_table \<Rightarrow> grant_table \<Rightarrow> bool" where
  "call_grounds env decode r p call table table' \<longleftrightarrow>
     (\<exists>grant. securityGrantBinding (env_sha env) (env_encode env) (env_host env) (call_Name call)
          (call_Arguments call) (policyToolEffects decode (call_Name call) (call_Arguments call)) p = Inr grant
        \<and> (reg_storeAvailable r \<and> spent_grant env grant table table'
           \<or> (\<exists>human request decision. reg_humanApprover r = Some human
                \<and> req_ActionKind request = call_Name call \<and> req_ActionPayload request = call_Arguments call
                \<and> req_Grant request = Some grant \<and> human request = Inr decision \<and> dec_Approved decision)))"

lemma spend_call_grant_cases:
  assumes "spend_call_grant env r grant table = (q, table')"
  shows "(q \<noteq> Inr True \<and> table' = table)
    \<or> (q = Inr True \<and> reg_storeAvailable r \<and> spent_grant env grant table table')"
  using assms
  by (auto simp: spend_call_grant_def ConsumeSecurityActionGrant_def spent_grant_def
      split: sum.splits if_splits prod.splits dest!: consume_attempts_cases)

lemma review_by_model_fields:
  "review_by_model llm d request = Inr request' \<Longrightarrow>
   req_ActionKind request' = req_ActionKind request \<and> req_ActionPayload request' = req_ActionPayload request
   \<and> req_Grant request' = req_Grant request"
  by (auto simp: review_by_model_def split: option.splits if_splits sum.splits)

lemma ask_for_call_None:
  assumes "ask_for_call r call d (call_request call effects reason summary grant) = None"
  shows "\<exists>human request decision. reg_humanApprover r = Some human
    \<and> req_ActionKind request = call_Name call \<and> req_ActionPayload request = call_Arguments call
    \<and> req_Grant request = Some grant \<and> human request = Inr decision \<and> dec_Approved decision"
proof -
  let ?request0 = "call_request call effects reason summary grant"
  obtain request where m: "review_by_model (reg_llmApprover r) d ?request0 = Inr request"
    using assms by (auto simp: ask_for_call_def split: sum.splits)
  then have "req_ActionKind request = call_Name call \<and> req_ActionPayload request = call_Arguments call
      \<and> req_Grant request = Some grant"
    using review_by_model_fields [OF m] by (simp add: call_request_def)
  moreover have "\<exists>human decision. reg_humanApprover r = Some human
      \<and> human request = Inr decision \<and> dec_Approved decision"
    using assms m by (auto simp: ask_for_call_def split: sum.splits option.splits if_splits)
  ultimately show ?thesis by blast
qed

lemma authorize_cases:
  assumes "reg_securityPolicy r = Some p" "call_Name call \<noteq> ''shell_execute''"
    and "authorizeToolCall env decode r call table = (None, table')"
  obtains summary where "review_call r call = Inr summary"
    and "call_decision p (policyToolEffects decode (call_Name call) (call_Arguments call)) summary \<noteq> DecisionDeny"
    and "call_decision p (policyToolEffects decode (call_Name call) (call_Arguments call)) summary = DecisionAllow
      \<or> call_grounds env decode r p call table table'"
proof -
  let ?effects = "policyToolEffects decode (call_Name call) (call_Arguments call)"
  obtain summary where s: "review_call r call = Inr summary"
    using assms by (cases "review_call r call") (auto simp: authorizeToolCall_def Let_def)
  let ?d = "call_decision p ?effects summary"
  have deny: "?d \<noteq> DecisionDeny" using assms s by (auto simp: authorizeToolCall_def Let_def)
  have "?d = DecisionAllow \<or> call_grounds env decode r p call table table'"
  proof (cases "?d = DecisionAllow")
    case False
    obtain grant q t1 where g: "securityGrantBinding (env_sha env) (env_encode env) (env_host env) (call_Name call)
        (call_Arguments call) ?effects p = Inr grant" "spend_call_grant env r grant table = (q, t1)"
      using assms s deny False
      by (auto simp: authorizeToolCall_def Let_def split: sum.splits prod.splits)
    from assms s deny False g
    have "q = Inr True \<and> t1 = table' \<or>
        (\<exists>reason. ask_for_call r call ?d (call_request call ?effects reason summary grant) = None)"
      by (auto simp: authorizeToolCall_def Let_def split: sum.splits bool.splits)
    then show ?thesis
      using g(1) spend_call_grant_cases [OF g(2)] ask_for_call_None unfolding call_grounds_def by blast
  qed simp
  with s deny that show ?thesis by blast
qed


text \<open>On the sample the policy allows every effect, and it is the review that asks for the human.\<close>

lemma call_decision_reviewed: "summary \<noteq> '''' \<Longrightarrow> call_decision p effects summary \<noteq> DecisionAllow"
proof
  assume "summary \<noteq> ''''" "call_decision p effects summary = DecisionAllow"
  then have "decision_rank (strictestSecurityDecision (effects_decision p effects) DecisionAsk) = 1"
    by (simp add: call_decision_def Let_def)
  then show False by (simp add: strictest.join_rank)
qed


text \<open>
  The recovery tools are never executed without a security policy, whatever else the registry is
  configured with.
\<close>

theorem recovery_needs_policy:
  assumes "reg_securityPolicy r = None" and "reg_Get r (call_Name call) = Some t"
    and "tool_Kind t \<in> {RecoveryManage, RecoveryFleet}" and "call_Name call \<noteq> ''''"
  shows "ExecuteTool env decode cached r call table = (NotExecuted NeedsPolicy, table)"
  using assms by (auto simp: ExecuteTool_def)

theorem recovery_needs_policy_witness:
  "ExecuteTool example_env (\<lambda>_. None) True (Register apply_tool NewRegistry) apply_call [] =
     (NotExecuted NeedsPolicy, [])"
  by (rule recovery_needs_policy [of _ _ apply_tool])
    (simp_all add: reg_Get_def Register_def NewRegistry_def apply_tool_def apply_call_def)

text \<open>
  a call whose review shows a change to be made (a recovery operation about to be applied) is never
  executed on the strength of the profile alone, even when the profile allows every effect: it needs a
  stored grant or a human approval.
\<close>

theorem reviewed_call_needs_approval:
  assumes "ExecuteTool env decode cached r call table = (Executed t result, table')"
    and "reg_securityPolicy r = Some p" and "call_Name call \<noteq> ''shell_execute''" and "\<not> cached"
    and "review_call r call = Inr summary" and "summary \<noteq> ''''"
  shows "call_grounds env decode r p call table table'"
proof -
  have "authorizeToolCall env decode r call table = (None, table')"
    using assms(1,2,4) by (auto simp: ExecuteTool_def split: if_splits option.splits prod.splits)
  from authorize_cases [OF assms(2,3) this] assms(5) call_decision_reviewed [OF assms(6)]
  show ?thesis by (metis sum.inject(2))
qed

theorem reviewed_call_needs_approval_witness:
  "\<exists>table'. call_grounds example_env (\<lambda>_. None) attended_registry minimal_policy apply_call [] table'"
proof -
  obtain t result table' where
    "ExecuteTool example_env (\<lambda>_. None) False attended_registry apply_call [] = (Executed t result, table')"
    by (rule attended_call_executed)
  from reviewed_call_needs_approval [OF this attended_policy _ _ attended_review] show ?thesis
    by (auto simp: apply_call_def)
qed

end
