(* ===== verification/Cron.thy ===== *)
theory Cron
  imports Go_Time
begin

text \<open>
  Schedules, \<open>scheduler/schedule.go\<close>: \<open>NextRun\<close> for the kinds \<open>at\<close>, \<open>every\<close> and \<open>cron\<close>, with the cron
  parser and matcher.  The two parsers of the standard library it calls are modelled first:
  \<open>time.ParseDuration\<close> (a fraction of a unit is rounded down exactly, where Go goes through float64)
  and \<open>time.Parse\<close> with the layout RFC 3339.
\<close>

section \<open>Durations\<close>

definition two63 :: int where
  "two63 = 9223372036854775808"

definition duration_unit :: "string \<Rightarrow> int option" where
  "duration_unit u =
     map_of [(''ns'', 1), (''us'', 1000), ([CHR 0xC2, CHR 0xB5] @ ''s'', 1000),
       ([CHR 0xCE, CHR 0xBC] @ ''s'', 1000), (''ms'', 1000000), (''s'', Second), (''m'', Minute), (''h'', Hour)] u"

definition decimal_value :: "string \<Rightarrow> int" where
  "decimal_value ds = foldl (\<lambda>n c. n * 10 + digit_value c) 0 ds"

definition is_number_char :: "char \<Rightarrow> bool" where
  "is_number_char c \<longleftrightarrow> c = CHR ''.'' \<or> is_digit c"

text \<open>One number with its unit: its value in nanoseconds and what follows.\<close>

definition duration_item :: "string \<Rightarrow> (int \<times> string) option" where
  "duration_item s =
     (let whole = takeWhile is_digit s; s1 = dropWhile is_digit s;
          dot = (s1 \<noteq> [] \<and> hd s1 = CHR ''.'');
          s2 = (if dot then tl s1 else s1);
          frac = (if dot then takeWhile is_digit s2 else []);
          s3 = (if dot then dropWhile is_digit s2 else s2);
          u = takeWhile (\<lambda>c. \<not> is_number_char c) s3
      in if s = [] \<or> \<not> is_number_char (hd s) \<or> decimal_value whole > two63 then None
         else if whole = [] \<and> frac = [] then None
         else if u = [] then None
         else case duration_unit u of
           None \<Rightarrow> None
         | Some k \<Rightarrow>
             if decimal_value whole > two63 div k then None
             else (let v = decimal_value whole * k + decimal_value frac * k div 10 ^ length frac
                   in if v > two63 then None else Some (v, dropWhile (\<lambda>c. \<not> is_number_char c) s3)))"

lemma dropWhile_shorter: "xs \<noteq> [] \<Longrightarrow> P (hd xs) \<Longrightarrow> length (dropWhile P xs) < length xs"
  by (cases xs) (auto simp: less_Suc_eq_le length_dropWhile_le)

lemma duration_item_shorter: "duration_item s = Some (v, rest) \<Longrightarrow> length rest < length s"
proof -
  assume item: "duration_item s = Some (v, rest)"
  define s1 where "s1 = dropWhile is_digit s"
  define s3 where "s3 = (if s1 \<noteq> [] \<and> hd s1 = CHR ''.'' then dropWhile is_digit (tl s1) else s1)"
  have u: "takeWhile (\<lambda>c. \<not> is_number_char c) s3 \<noteq> []" and rest: "rest = dropWhile (\<lambda>c. \<not> is_number_char c) s3"
    using item by (auto simp: duration_item_def Let_def s1_def s3_def split: if_splits option.splits)
  from u have "s3 \<noteq> []" "\<not> is_number_char (hd s3)" by (cases s3; auto split: if_splits)+
  then have "length rest < length s3" unfolding rest by (rule dropWhile_shorter)
  also have "length s3 \<le> length s1"
    using length_dropWhile_le [of is_digit "tl s1"] by (auto simp: s3_def)
  also have "length s1 \<le> length s" unfolding s1_def by (rule length_dropWhile_le)
  finally show ?thesis .
qed

function duration_items :: "string \<Rightarrow> int \<Rightarrow> int option" where
  "duration_items s d =
     (if s = [] then Some d
      else case duration_item s of
        None \<Rightarrow> None
      | Some (v, rest) \<Rightarrow> if d + v > two63 then None else duration_items rest (d + v))"
  by pat_completeness auto
termination
  by (relation "measure (\<lambda>(s, _). length s)") (auto dest: duration_item_shorter)

declare duration_items.simps [simp del]

definition ParseDuration :: "string \<Rightarrow> duration option" where
  "ParseDuration s0 =
     (let neg = (s0 \<noteq> [] \<and> hd s0 = CHR ''-'');
          s = (if s0 \<noteq> [] \<and> (hd s0 = CHR ''-'' \<or> hd s0 = CHR ''+'') then tl s0 else s0)
      in if s = ''0'' then Some 0
         else if s = [] then None
         else case duration_items s 0 of
           None \<Rightarrow> None
         | Some d \<Rightarrow> if neg then Some (- d) else if d > two63 - 1 then None else Some d)"

section \<open>RFC 3339\<close>

definition days_from_civil :: "int \<Rightarrow> int \<Rightarrow> int \<Rightarrow> int" where
  "days_from_civil y m d =
     (let y' = (if m \<le> 2 then y - 1 else y);
          era = y' div 400;
          yoe = y' mod 400;
          doy = (153 * (if m > 2 then m - 3 else m + 9) + 2) div 5 + d - 1;
          doe = yoe * 365 + yoe div 4 - yoe div 100 + doy
      in era * 146097 + doe - 719468)"

definition is_leap :: "int \<Rightarrow> bool" where
  "is_leap y \<longleftrightarrow> y mod 4 = 0 \<and> (y mod 100 \<noteq> 0 \<or> y mod 400 = 0)"

definition days_in :: "int \<Rightarrow> int \<Rightarrow> int" where
  "days_in y m =
     (if m = 2 then (if is_leap y then 29 else 28)
      else if m = 4 \<or> m = 6 \<or> m = 9 \<or> m = 11 then 30 else 31)"

text \<open>Exactly \<open>n\<close> digits.\<close>

definition digits :: "nat \<Rightarrow> string \<Rightarrow> (int \<times> string) option" where
  "digits n s =
     (if n \<le> length s \<and> list_all is_digit (take n s) then Some (decimal_value (take n s), drop n s) else None)"

definition skip_char :: "char \<Rightarrow> string \<Rightarrow> string option" where
  "skip_char c s = (case s of [] \<Rightarrow> None | d # r \<Rightarrow> if d = c then Some r else None)"

text \<open>The hour of the layout \<open>15\<close> may have one digit.\<close>

definition hour_digits :: "string \<Rightarrow> (int \<times> string) option" where
  "hour_digits s = (case digits 2 s of Some r \<Rightarrow> Some r | None \<Rightarrow> digits 1 s)"

text \<open>An optional fraction of a second, in nanoseconds, after a point or a comma.\<close>

definition fraction :: "string \<Rightarrow> int \<times> string" where
  "fraction s =
     (case s of
        c # d # r \<Rightarrow>
          if (c = CHR ''.'' \<or> c = CHR '','') \<and> is_digit d
          then (let ds = takeWhile is_digit (d # r)
                in (decimal_value (take 9 (ds @ replicate 9 (CHR ''0''))), dropWhile is_digit (d # r)))
          else (0, s)
      | _ \<Rightarrow> (0, s))"

text \<open>The zone: \<open>Z\<close> or an offset, which must end the text; the result is in seconds.\<close>

definition zone_offset :: "string \<Rightarrow> int option" where
  "zone_offset s =
     (case s of
        [] \<Rightarrow> None
      | c # r \<Rightarrow>
          if c = CHR ''Z'' then (if r = [] then Some 0 else None)
          else if c = CHR ''+'' \<or> c = CHR ''-'' then
            (case digits 2 r of
               None \<Rightarrow> None
             | Some (hh, r1) \<Rightarrow>
                (case skip_char CHR '':'' r1 of
                   None \<Rightarrow> None
                 | Some r2 \<Rightarrow>
                    (case digits 2 r2 of
                       None \<Rightarrow> None
                     | Some (mm, r3) \<Rightarrow>
                         if r3 \<noteq> [] \<or> hh > 24 \<or> mm > 60 then None
                         else Some ((if c = CHR ''-'' then -1 else 1) * (hh * 3600 + mm * 60)))))
          else None)"

definition ParseRFC3339 :: "string \<Rightarrow> time option" where
  "ParseRFC3339 s =
     Option.bind (digits 4 s) (\<lambda>(y, s). Option.bind (skip_char CHR ''-'' s) (\<lambda>s.
     Option.bind (digits 2 s) (\<lambda>(m, s). Option.bind (skip_char CHR ''-'' s) (\<lambda>s.
     Option.bind (digits 2 s) (\<lambda>(d, s). Option.bind (skip_char CHR ''T'' s) (\<lambda>s.
     Option.bind (hour_digits s) (\<lambda>(hh, s). Option.bind (skip_char CHR '':'' s) (\<lambda>s.
     Option.bind (digits 2 s) (\<lambda>(mi, s). Option.bind (skip_char CHR '':'' s) (\<lambda>s.
     Option.bind (digits 2 s) (\<lambda>(sec, s).
       (let (nanos, s) = fraction s in
        Option.bind (zone_offset s) (\<lambda>offset.
          if m < 1 \<or> 12 < m \<or> d < 1 \<or> days_in y m < d \<or> 24 \<le> hh \<or> 60 \<le> mi \<or> 60 \<le> sec then None
          else Some ((days_from_civil y m d * 86400 + hh * 3600 + mi * 60 + sec - offset) * Second + nanos))))))))))))))"

lemma parsing_examples:
  "ParseRFC3339 ''1970-01-02T00:00:00Z'' = Some (24 * Hour)"
  "ParseRFC3339 ''2024-02-29T12:00:00.5+02:00'' = Some (1709200800 * Second + 500000000)"
  "ParseRFC3339 ''2023-02-29T12:00:00Z'' = None"
  "ParseDuration ''1h30m'' = Some (90 * Minute)" "ParseDuration ''1.5s'' = Some 1500000000"
  "ParseDuration ''5'' = None" "ParseDuration ''-3ms'' = Some (-3000000)"
  by code_simp+

section \<open>Cron expressions\<close>

text \<open>A field matches anything, or the listed values.\<close>

record cron_field =
  cf_any :: bool
  cf_values :: "int list"

record cron_expr =
  ce_minute :: cron_field
  ce_hour :: cron_field
  ce_dom :: cron_field
  ce_month :: cron_field
  ce_dow :: cron_field

datatype field_error =
    EmptyItem
  | MalformedStep string
  | InvalidStep string
  | MalformedRange string
  | InvalidNumber string
  | RangeReversed
  | RangeOutside int int
  | ValueOutside int int

definition parseCronRange :: "string \<Rightarrow> int \<Rightarrow> int \<Rightarrow> field_error + int \<times> int" where
  "parseCronRange raw minValue maxValue =
     (if raw = ''*'' then Inr (minValue, maxValue)
      else if Contains raw ''-'' then
        (case SplitByte CHR ''-'' raw of
           [a, b] \<Rightarrow>
             (case Atoi a of
                None \<Rightarrow> Inl (InvalidNumber a)
              | Some start \<Rightarrow>
                 (case Atoi b of
                    None \<Rightarrow> Inl (InvalidNumber b)
                  | Some stop \<Rightarrow>
                      if stop < start then Inl RangeReversed
                      else if start < minValue \<or> maxValue < stop then Inl (RangeOutside minValue maxValue)
                      else Inr (start, stop)))
         | _ \<Rightarrow> Inl (MalformedRange raw))
      else case Atoi raw of
        None \<Rightarrow> Inl (InvalidNumber raw)
      | Some n \<Rightarrow> if n < minValue \<or> maxValue < n then Inl (ValueOutside minValue maxValue) else Inr (n, n))"

text \<open>The sum of two 64-bit integers, which wraps around.\<close>

definition add64 :: "int \<Rightarrow> int \<Rightarrow> int" where
  "add64 a b = (a + b + two63) mod (2 * two63) - two63"

text \<open>The loop over the values of a range; it may not end, so its result is an option.\<close>

partial_function (option) cron_steps :: "int \<Rightarrow> int \<Rightarrow> int \<Rightarrow> int list \<Rightarrow> int list option" where
  "cron_steps n stop step acc =
     (if n \<le> stop then cron_steps (add64 n step) stop step (acc @ [n]) else Some acc)"

declare cron_steps.simps [code]

definition with_sunday :: "int \<Rightarrow> int list \<Rightarrow> int list" where
  "with_sunday maxValue ns = (if maxValue = 7 \<and> List.member ns 7 then ns @ [0] else ns)"

text \<open>One item of a list: a range and a step.\<close>

definition item_step :: "string \<Rightarrow> field_error + string \<times> int" where
  "item_step item =
     (if Contains item ''/'' then
        (case SplitByte CHR ''/'' item of
           [base, step] \<Rightarrow>
             (case Atoi step of
                None \<Rightarrow> Inl (InvalidStep step)
              | Some n \<Rightarrow> if n \<le> 0 then Inl (InvalidStep step) else Inr (base, n))
         | _ \<Rightarrow> Inl (MalformedStep item))
      else Inr (item, 1))"

definition parseCronItem :: "string \<Rightarrow> int \<Rightarrow> int \<Rightarrow> (field_error + int list) option" where
  "parseCronItem item minValue maxValue =
     (if item = '''' then Some (Inl EmptyItem)
      else case item_step item of
        Inl e \<Rightarrow> Some (Inl e)
      | Inr (base, step) \<Rightarrow>
         (case parseCronRange base minValue maxValue of
            Inl e \<Rightarrow> Some (Inl e)
          | Inr (start, stop) \<Rightarrow>
              map_option (\<lambda>ns. Inr (with_sunday maxValue ns)) (cron_steps start stop step [])))"

fun parseCronItems :: "string list \<Rightarrow> int \<Rightarrow> int \<Rightarrow> (field_error + int list) option" where
  "parseCronItems [] minValue maxValue = Some (Inr [])"
| "parseCronItems (item # items) minValue maxValue =
     (case parseCronItem (TrimSpace item) minValue maxValue of
        None \<Rightarrow> None
      | Some (Inl e) \<Rightarrow> Some (Inl e)
      | Some (Inr ns) \<Rightarrow>
         (case parseCronItems items minValue maxValue of
            None \<Rightarrow> None
          | Some (Inl e) \<Rightarrow> Some (Inl e)
          | Some (Inr ms) \<Rightarrow> Some (Inr (ns @ ms))))"

text \<open>\<open>None\<close> stands for a parse that does not return.\<close>

definition parseCronField :: "string \<Rightarrow> int \<Rightarrow> int \<Rightarrow> (field_error + cron_field) option" where
  "parseCronField raw0 minValue maxValue =
     (let raw = TrimSpace raw0 in
      if raw = ''*'' then Some (Inr \<lparr>cf_any = True, cf_values = []\<rparr>)
      else map_option (map_sum (\<lambda>e. e) (\<lambda>ns. \<lparr>cf_any = False, cf_values = ns\<rparr>))
        (parseCronItems (SplitByte CHR '','' raw) minValue maxValue))"

definition field_matches :: "cron_field \<Rightarrow> int \<Rightarrow> bool" where
  "field_matches f n = (cf_any f \<or> List.member (cf_values f) n)"

definition expr_matches :: "cron_expr \<Rightarrow> time \<Rightarrow> bool" where
  "expr_matches e t \<longleftrightarrow>
     field_matches (ce_minute e) (minute_of t) \<and> field_matches (ce_hour e) (hour_of t)
     \<and> field_matches (ce_dom e) (day_of t) \<and> field_matches (ce_month e) (month_of t)
     \<and> field_matches (ce_dow e) (weekday_of t)"

datatype schedule_error =
    InvalidAt
  | InvalidEvery string
  | FieldCount
  | InvalidField string field_error
  | Unresolved
  | UnsupportedScheduleKind string

definition cron_fields :: "(string \<times> int \<times> int) list" where
  "cron_fields =
     [(''minute'', 0, 59), (''hour'', 0, 23), (''day-of-month'', 1, 31), (''month'', 1, 12),
      (''day-of-week'', 0, 7)]"

fun parse_fields ::
  "(string \<times> int \<times> int) list \<Rightarrow> string list \<Rightarrow> (schedule_error + cron_field list) option" where
  "parse_fields ((name, lo, hi) # fs) (raw # raws) =
     (case parseCronField raw lo hi of
        None \<Rightarrow> None
      | Some (Inl e) \<Rightarrow> Some (Inl (InvalidField name e))
      | Some (Inr f) \<Rightarrow>
         (case parse_fields fs raws of
            None \<Rightarrow> None
          | Some (Inl e) \<Rightarrow> Some (Inl e)
          | Some (Inr rest) \<Rightarrow> Some (Inr (f # rest))))"
| "parse_fields _ _ = Some (Inr [])"

definition parseCronExpr :: "string \<Rightarrow> (schedule_error + cron_expr) option" where
  "parseCronExpr spec =
     (let parts = Fields spec in
      if length parts \<noteq> 5 then Some (Inl FieldCount)
      else map_option
        (map_sum (\<lambda>e. e) (\<lambda>parsed. \<lparr>ce_minute = parsed ! 0, ce_hour = parsed ! 1, ce_dom = parsed ! 2,
           ce_month = parsed ! 3, ce_dow = parsed ! 4\<rparr>))
        (parse_fields cron_fields parts))"

section \<open>The next run\<close>

text \<open>The search, minute by minute, for a time that matches, before the limit.\<close>

function cron_search :: "cron_expr \<Rightarrow> time \<Rightarrow> time \<Rightarrow> time option" where
  "cron_search e cursor limit =
     (if cursor < limit
      then (if expr_matches e cursor then Some cursor else cron_search e (cursor + Minute) limit)
      else None)"
  by pat_completeness auto
termination
  by (relation "measure (\<lambda>(_, cursor, limit). nat (limit - cursor))") (auto simp: minute_pos(1))

declare cron_search.simps [simp del]

definition NextRun :: "string \<Rightarrow> string \<Rightarrow> time \<Rightarrow> (schedule_error + time) option" where
  "NextRun kind spec now =
     (let k = TrimSpace kind in
      if k = ''at'' then
        (case ParseRFC3339 (TrimSpace spec) of
           None \<Rightarrow> Some (Inl InvalidAt)
         | Some runAt \<Rightarrow> Some (Inr (if \<not> After runAt now then zero_time else runAt)))
      else if k = ''every'' then
        (case ParseDuration (TrimSpace spec) of
           None \<Rightarrow> Some (Inl (InvalidEvery spec))
         | Some d \<Rightarrow> if d \<le> 0 then Some (Inl (InvalidEvery spec)) else Some (Inr (now + d)))
      else if k = ''cron'' then
        (case parseCronExpr spec of
           None \<Rightarrow> None
         | Some (Inl e) \<Rightarrow> Some (Inl e)
         | Some (Inr e) \<Rightarrow>
            (let cursor = Truncate now Minute + Minute in
             case cron_search e cursor (cursor + 366 * 24 * Hour) of
               None \<Rightarrow> Some (Inl Unresolved)
             | Some t \<Rightarrow> Some (Inr t)))
      else Some (Inl (UnsupportedScheduleKind kind)))"

lemma cron_examples:
  "NextRun ''cron'' ''*/15 * * * *'' 0 = Some (Inr (15 * Minute))"
  "NextRun ''cron'' ''5-7,59 0 * * 4'' (6 * Minute) = Some (Inr (7 * Minute))"
  "NextRun ''cron'' ''61 * * * *'' 0 = Some (Inl (InvalidField ''minute'' (ValueOutside 0 59)))"
  "NextRun '' every '' ''90s'' 0 = Some (Inr 90000000000)"
  by code_simp+

section \<open>The loop over a range ends\<close>

text \<open>
  The loop counter has 64 bits.  With a step that cannot pass the largest integer the loop visits the
  multiples of the step; with a larger one the counter wraps around at most once in two steps and
  decreases from one visit of the range to the next.
\<close>

lemma add64_exact: "- two63 \<le> a + b \<Longrightarrow> a + b < two63 \<Longrightarrow> add64 a b = a + b"
  by (simp add: add64_def two63_def)

lemma add64_wraps: "two63 \<le> a + b \<Longrightarrow> a + b < 3 * two63 \<Longrightarrow> add64 a b = a + b - 2 * two63"
proof -
  assume bounds: "two63 \<le> a + b" "a + b < 3 * two63"
  have "(a + b + two63) mod (2 * two63) = (a + b - two63) mod (2 * two63)"
    using mod_add_self2 [of "a + b - two63" "2 * two63"] by (simp add: algebra_simps)
  also have "\<dots> = a + b - two63" using bounds by simp
  finally show ?thesis by (simp add: add64_def)
qed

lemma cron_steps_exact:
  assumes "- two63 \<le> n" "0 < step" "step + stop < two63"
  shows "cron_steps n stop step acc =
    Some (acc @ map (\<lambda>k. n + int k * step) [0..<(if n \<le> stop then Suc (nat ((stop - n) div step)) else 0)])"
  using assms
proof (induction "nat (stop - n + 1)" arbitrary: n acc rule: less_induct)
  case less
  show ?case
  proof (cases "n \<le> stop")
    case False
    then show ?thesis by (simp add: cron_steps.simps)
  next
    case True
    have advance: "add64 n step = n + step" using less.prems True by (intro add64_exact) auto
    have IH: "cron_steps (n + step) stop step (acc @ [n]) =
      Some (acc @ [n] @ map (\<lambda>k. n + step + int k * step)
        [0..<(if n + step \<le> stop then Suc (nat ((stop - (n + step)) div step)) else 0)])"
      using less.hyps [of "n + step" "acc @ [n]"] less.prems True by simp
    have count: "Suc (nat ((stop - n) div step)) =
      Suc (if n + step \<le> stop then Suc (nat ((stop - (n + step)) div step)) else 0)"
    proof (cases "n + step \<le> stop")
      case in_range: True
      have "(stop - n) div step = (stop - (n + step)) div step + 1"
        using div_add_self2 [of step "stop - (n + step)"] less.prems(2) by (simp add: algebra_simps)
      moreover have "0 \<le> (stop - (n + step)) div step"
        using in_range less.prems(2) by (simp add: pos_imp_zdiv_nonneg_iff)
      ultimately show ?thesis using in_range by (simp add: nat_add_distrib)
    next
      case False
      then show ?thesis using True by (simp add: div_pos_pos_trivial)
    qed
    show ?thesis
      unfolding cron_steps.simps [of n] advance using True
      by (simp only: if_True IH count map_upt_Suc) (simp add: algebra_simps)
  qed
qed

lemma cron_steps_wrapping_ends:
  assumes "two63 \<le> step + stop" "step < two63" "0 \<le> stop" "stop < 1000" "- 1000000 \<le> n"
  shows "\<exists>ns. cron_steps n stop step acc = Some ns"
  using assms(5)
proof (induction "nat (n + 1000000)" arbitrary: n acc rule: less_induct)
  case less
  have past: "cron_steps m stop step acc' = Some acc'" if "stop < m" for m acc'
    using that by (simp add: cron_steps.simps)
  note bounds = assms(1-4) less.prems
  consider "stop < n" | "n \<le> stop" "n + step < two63" | "n \<le> stop" "two63 \<le> n + step" by linarith
  then show ?case
  proof cases
    case 1
    then show ?thesis by (simp add: past)
  next
    case 2
    then have "add64 n step = n + step" "stop < n + step"
      using bounds by (auto simp: two63_def intro!: add64_exact)
    then show ?thesis using 2 past by (simp add: cron_steps.simps [of n])
  next
    case 3
    define m where "m = n + step - 2 * two63"
    have m: "m \<le> stop" "m + step < n" "- 1000000 \<le> m + step"
      using bounds 3 by (auto simp: m_def two63_def)
    have m_step: "add64 n step = m" "add64 m step = m + step"
      using add64_wraps [of n step] add64_exact [of m step] bounds 3 by (auto simp: m_def two63_def)
    have "\<exists>ns. cron_steps (m + step) stop step (acc @ [n] @ [m]) = Some ns"
      using m(2,3) less.prems by (intro less.hyps) auto
    then show ?thesis using 3 m(1) m_step by (simp add: cron_steps.simps [of n] cron_steps.simps [of m])
  qed
qed

lemma cron_steps_ends:
  assumes "0 < step" "step < two63" "0 \<le> start" "start \<le> stop" "stop < 1000"
  shows "\<exists>ns. cron_steps start stop step acc = Some ns"
proof (cases "step + stop < two63")
  case True
  then show ?thesis using cron_steps_exact [of start step stop acc] assms by (simp add: two63_def)
next
  case False
  then show ?thesis using cron_steps_wrapping_ends [of step stop start acc] assms by simp
qed

section \<open>Parsing ends\<close>

lemma parseCronRange_bounds:
  "parseCronRange raw lo hi = Inr (start, stop) \<Longrightarrow> lo \<le> hi \<Longrightarrow> lo \<le> start \<and> start \<le> stop \<and> stop \<le> hi"
  by (auto simp: parseCronRange_def split: if_splits option.splits list.splits)

lemma item_step_bounds: "item_step item = Inr (base, step) \<Longrightarrow> 0 < step \<and> step < two63"
  by (auto simp: item_step_def Atoi_def int64_max_def two63_def split: if_splits option.splits list.splits)

lemma parseCronItem_ends:
  "0 \<le> lo \<Longrightarrow> lo \<le> hi \<Longrightarrow> hi < 1000 \<Longrightarrow> \<exists>r. parseCronItem item lo hi = Some r"
  using cron_steps_ends
  by (fastforce simp: parseCronItem_def dest: parseCronRange_bounds item_step_bounds
      split: sum.split prod.split)

lemma parseCronItems_ends:
  "0 \<le> lo \<Longrightarrow> lo \<le> hi \<Longrightarrow> hi < 1000 \<Longrightarrow> \<exists>r. parseCronItems items lo hi = Some r"
proof (induction items)
  case (Cons item items)
  then show ?case
    using parseCronItem_ends [of lo hi "TrimSpace item"] by (auto split: sum.split)
qed simp

lemma parseCronField_ends:
  "0 \<le> lo \<Longrightarrow> lo \<le> hi \<Longrightarrow> hi < 1000 \<Longrightarrow> \<exists>r. parseCronField raw lo hi = Some r"
  using parseCronItems_ends [of lo hi "SplitByte CHR '','' (TrimSpace raw)"]
  by (auto simp: parseCronField_def Let_def)

lemma parse_fields_ends:
  "list_all (\<lambda>(name, lo, hi). 0 \<le> lo \<and> lo \<le> hi \<and> hi < 1000) fs \<Longrightarrow> \<exists>r. parse_fields fs raws = Some r"
proof (induction fs raws rule: parse_fields.induct)
  case (1 name lo hi fs raw raws)
  then obtain r where r: "parseCronField raw lo hi = Some r" using parseCronField_ends by fastforce
  show ?case
  proof (cases r)
    case (Inr f)
    then show ?thesis using r "1.IH" [of r f] "1.prems" by (auto split: sum.split)
  qed (simp add: r)
qed simp_all

lemma parseCronExpr_ends: "\<exists>r. parseCronExpr spec = Some r"
  using parse_fields_ends [of cron_fields "Fields spec"]
  by (auto simp: parseCronExpr_def Let_def cron_fields_def)

lemma NextRun_total: "\<exists>r. NextRun kind spec now = Some r"
  using parseCronExpr_ends [of spec]
  by (auto simp: NextRun_def Let_def split: option.split sum.split)

text \<open>
  C19: asking for the next run always returns: whatever the schedule, the parser's loops over ranges end
  (also when a step makes the 64-bit counter wrap around) and so does the search for a matching minute.
\<close>

theorem NextRun_returns: "\<exists>r. NextRun kind spec now = Some r"
  by (rule NextRun_total)

section \<open>What a field matches\<close>

text \<open>The reference: a number is covered by an item when it is in its range, on a multiple of its step.\<close>

definition on_stride :: "int \<Rightarrow> int \<Rightarrow> int \<Rightarrow> int \<Rightarrow> bool" where
  "on_stride start stop step n \<longleftrightarrow> start \<le> n \<and> n \<le> stop \<and> step dvd (n - start)"

definition item_covers :: "string \<Rightarrow> int \<Rightarrow> int \<Rightarrow> int \<Rightarrow> bool" where
  "item_covers item lo hi n \<longleftrightarrow>
     (case item_step item of
        Inl _ \<Rightarrow> False
      | Inr (base, step) \<Rightarrow>
         (case parseCronRange base lo hi of
            Inl _ \<Rightarrow> False
          | Inr (start, stop) \<Rightarrow>
              on_stride start stop step n \<or> hi = 7 \<and> n = 0 \<and> on_stride start stop step 7))"

definition small_step :: "int \<Rightarrow> string \<Rightarrow> bool" where
  "small_step hi item \<longleftrightarrow> (case item_step item of Inl _ \<Rightarrow> True | Inr (_, step) \<Rightarrow> step + hi < two63)"

lemma stride_set:
  assumes "0 < step" "start \<le> stop"
  shows "n \<in> (\<lambda>k. start + int k * step) ` set [0..<Suc (nat ((stop - start) div step))]
    \<longleftrightarrow> on_stride start stop step n"
proof
  assume "n \<in> (\<lambda>k. start + int k * step) ` set [0..<Suc (nat ((stop - start) div step))]"
  then obtain k where k: "n = start + int k * step" "k \<le> nat ((stop - start) div step)"
    by (auto simp only: image_iff set_upt atLeastLessThan_iff less_Suc_eq_le)
  have "0 \<le> (stop - start) div step" using assms by (simp add: pos_imp_zdiv_nonneg_iff)
  then have "int k \<le> (stop - start) div step" using k(2) by linarith
  then have "int k * step \<le> (stop - start) div step * step"
    using assms(1) by (intro mult_right_mono) auto
  also have "\<dots> \<le> stop - start"
    using assms(1) by (simp add: minus_mod_eq_div_mult [symmetric])
  finally show "on_stride start stop step n" using k(1) assms(1) by (simp add: on_stride_def)
next
  assume on: "on_stride start stop step n"
  define k where "k = nat ((n - start) div step)"
  have "n = start + int k * step" "(n - start) div step \<le> (stop - start) div step"
    using on assms(1) by (auto simp: k_def on_stride_def pos_imp_zdiv_nonneg_iff zdiv_mono1)
  then show "n \<in> (\<lambda>k. start + int k * step) ` set [0..<Suc (nat ((stop - start) div step))]"
    by (intro image_eqI [of _ _ k]) (auto simp: k_def less_Suc_eq_le nat_mono simp del: upt_Suc)
qed

lemma with_sunday_member:
  "n \<in> set (with_sunday hi ns) \<longleftrightarrow> n \<in> set ns \<or> hi = 7 \<and> n = 0 \<and> 7 \<in> set ns"
  by (auto simp: with_sunday_def)

lemma map_sum_Inr: "map_sum f g z = Inr y \<Longrightarrow> \<exists>x. z = Inr x \<and> y = g x"
  by (cases z) auto

lemma parseCronItem_covers:
  assumes "parseCronItem item lo hi = Some (Inr ns)" "small_step hi item" "0 \<le> lo" "lo \<le> hi"
  shows "n \<in> set ns \<longleftrightarrow> item_covers item lo hi n"
proof -
  obtain base step start stop ms where item: "item_step item = Inr (base, step)"
    "parseCronRange base lo hi = Inr (start, stop)" "cron_steps start stop step [] = Some ms"
    "ns = with_sunday hi ms"
    using assms(1) by (auto simp: parseCronItem_def split: if_splits sum.splits prod.splits)
  note bounds = parseCronRange_bounds [OF item(2) assms(4)] item_step_bounds [OF item(1)]
  have "ms = map (\<lambda>k. start + int k * step) [0..<Suc (nat ((stop - start) div step))]"
    using cron_steps_exact [of start step stop "[]"] item(3) bounds assms(2,3) item(1)
    by (simp add: small_step_def two63_def del: upt_Suc)
  then have "m \<in> set ms \<longleftrightarrow> on_stride start stop step m" for m
    using stride_set [of step start stop m] bounds by (simp only: set_map)
  then show ?thesis by (simp add: item item_covers_def with_sunday_member)
qed

lemma parseCronItems_covers:
  "parseCronItems items lo hi = Some (Inr ns) \<Longrightarrow> list_all (\<lambda>item. small_step hi (TrimSpace item)) items
    \<Longrightarrow> 0 \<le> lo \<Longrightarrow> lo \<le> hi
    \<Longrightarrow> n \<in> set ns \<longleftrightarrow> list_ex (\<lambda>item. item_covers (TrimSpace item) lo hi n) items"
proof (induction items arbitrary: ns)
  case (Cons item items)
  then show ?case
    using parseCronItem_covers [of "TrimSpace item" lo hi _ n]
    by (fastforce split: option.splits sum.splits)
qed simp

text \<open>
  a parsed field matches exactly the numbers one of its items covers, a star every number; in the
  field of the weekday a covered 7 stands for Sunday, 0, too.  (The steps must not be within the size
  of the field of the largest 64-bit integer, where the counter wraps around.)
\<close>

theorem parseCronField_matches:
  assumes "parseCronField raw lo hi = Some (Inr f)" "0 \<le> lo" "lo \<le> hi"
    "list_all (\<lambda>item. small_step hi (TrimSpace item)) (SplitByte CHR '','' (TrimSpace raw))"
  shows "field_matches f n \<longleftrightarrow> TrimSpace raw = ''*''
    \<or> list_ex (\<lambda>item. item_covers (TrimSpace item) lo hi n) (SplitByte CHR '','' (TrimSpace raw))"
proof (cases "TrimSpace raw = ''*''")
  case True
  then show ?thesis using assms(1) by (auto simp: parseCronField_def field_matches_def)
next
  case False
  then obtain ns where ns: "parseCronItems (SplitByte CHR '','' (TrimSpace raw)) lo hi = Some (Inr ns)"
    "f = \<lparr>cf_any = False, cf_values = ns\<rparr>"
    using assms(1) by (auto simp: parseCronField_def Let_def dest!: map_sum_Inr)
  then show ?thesis
    using parseCronItems_covers [OF ns(1) assms(4,2,3)] False by (simp add: field_matches_def)
qed

theorem parseCronField_matches_witness:
  "\<exists>f. parseCronField ''1-5/2,7'' 0 7 = Some (Inr f) \<and> (\<forall>n. field_matches f n \<longleftrightarrow>
     ''1-5/2,7'' = ''*'' \<or> list_ex (\<lambda>item. item_covers (TrimSpace item) 0 7 n) [''1-5/2'', ''7''])"
proof -
  define f where "f = \<lparr>cf_any = False, cf_values = [1, 3, 5, 7, 0]\<rparr>"
  have f: "parseCronField ''1-5/2,7'' 0 7 = Some (Inr f)" unfolding f_def by code_simp
  have parts: "TrimSpace ''1-5/2,7'' = ''1-5/2,7''"
    "SplitByte CHR '','' ''1-5/2,7'' = [''1-5/2'', ''7'']" by code_simp+
  have small: "list_all (\<lambda>item. small_step 7 (TrimSpace item)) [''1-5/2'', ''7'']" by code_simp
  show ?thesis
    using parseCronField_matches [OF f, of n for n] f small by (auto simp: parts)
qed

text \<open>A step near the largest integer wraps around: this field matches minute 1 as well as 5.\<close>

lemma huge_step_wraps:
  "case parseCronField ''5-59/9223372036854775806'' 0 59 of
     Some (Inr f) \<Rightarrow> field_matches f 1 \<and> \<not> item_covers ''5-59/9223372036854775806'' 0 59 1
   | _ \<Rightarrow> False"
  by code_simp

section \<open>The next run is the earliest\<close>

lemma cron_search_spec:
  "case cron_search e cursor limit of
     None \<Rightarrow> \<forall>k. cursor + int k * Minute < limit \<longrightarrow> \<not> expr_matches e (cursor + int k * Minute)
   | Some t \<Rightarrow> t < limit \<and> expr_matches e t
       \<and> (\<exists>k. t = cursor + int k * Minute \<and> (\<forall>j<k. \<not> expr_matches e (cursor + int j * Minute)))"
proof (induction e cursor limit rule: cron_search.induct)
  case (1 e cursor limit)
  show ?case
  proof (cases "cursor < limit \<and> \<not> expr_matches e cursor")
    case False
    have "\<not> cursor + int k * Minute < limit" if "\<not> cursor < limit" for k
    proof -
      have "0 \<le> int k * Minute" using minute_pos(1) by simp
      with that show ?thesis by linarith
    qed
    with False show ?thesis by (auto simp: cron_search.simps [of e cursor] intro!: exI [of _ 0])
  next
    case True
    have here: "cron_search e cursor limit = cron_search e (cursor + Minute) limit"
      using True by (simp add: cron_search.simps [of e cursor])
    have later: "cursor + int (Suc k) * Minute = cursor + Minute + int k * Minute" for k
      by (simp add: algebra_simps)
    show ?thesis
    proof (cases "cron_search e (cursor + Minute) limit")
      case None
      then have "\<not> expr_matches e (cursor + int k * Minute)" if "cursor + int k * Minute < limit" for k
        using 1 True that by (cases k) (simp_all only: later, auto)
      then show ?thesis using None here by simp
    next
      case (Some t)
      then obtain k where k: "t = cursor + Minute + int k * Minute"
        "\<forall>j<k. \<not> expr_matches e (cursor + Minute + int j * Minute)" "t < limit" "expr_matches e t"
        using 1 True by auto
      have "\<not> expr_matches e (cursor + int j * Minute)" if "j < Suc k" for j
        using k(2) True that by (cases j) (simp_all only: later, auto)
      moreover have "t = cursor + int (Suc k) * Minute" by (simp only: k(1) later)
      ultimately have "\<exists>k. t = cursor + int k * Minute
          \<and> (\<forall>j<k. \<not> expr_matches e (cursor + int j * Minute))" by blast
      then show ?thesis using k(3,4) Some here by simp
    qed
  qed
qed

lemma whole_minute_steps:
  assumes "u mod Minute = 0" "c mod Minute = 0" "c \<le> u"
  shows "\<exists>k. u = c + int k * Minute"
proof -
  have "Minute dvd (u - c)" using assms(1,2) by (simp add: mod_eq_0_iff_dvd)
  then obtain q where q: "u - c = Minute * q" by (elim dvdE)
  then have "0 \<le> q" using assms(3) minute_pos(1) by (metis diff_ge_0_iff_ge zero_le_mult_iff not_less)
  then show ?thesis using q by (intro exI [of _ "nat q"]) (simp add: algebra_simps)
qed

definition cron_limit :: "time \<Rightarrow> time" where
  "cron_limit now = Truncate now Minute + Minute + 366 * 24 * Hour"

lemma cursor_minute: "(Truncate now Minute + Minute) mod Minute = 0"
  using Truncate_Minute(3) [of now] by simp

lemma cron_search_result:
  assumes "cron_search e (Truncate now Minute + Minute) limit = Some t"
  shows "now < t" "t < limit" "t mod Minute = 0" "expr_matches e t"
proof -
  obtain k where k: "t = Truncate now Minute + Minute + int k * Minute" "t < limit" "expr_matches e t"
    using cron_search_spec [of "Truncate now Minute + Minute" limit e] assms by auto
  have "0 \<le> int k * Minute" using minute_pos(1) by simp
  then show "now < t" using Truncate_Minute(2) [of now] k(1) by simp
  show "t mod Minute = 0" using cursor_minute [of now] by (simp only: k(1) mod_mult_self1)
  show "t < limit" "expr_matches e t" by (fact k)+
qed

text \<open>
  C13: the next run of a cron schedule is the earliest whole minute after now at which the expression
  matches; the schedule is unresolved exactly when no minute of the next 366 days matches.
\<close>

theorem NextRun_cron_earliest:
  assumes "TrimSpace kind = ''cron''" "parseCronExpr spec = Some (Inr e)"
  shows "case NextRun kind spec now of
      Some (Inr t) \<Rightarrow> now < t \<and> t < cron_limit now \<and> t mod Minute = 0 \<and> expr_matches e t
        \<and> (\<forall>u. now < u \<and> u < t \<and> u mod Minute = 0 \<longrightarrow> \<not> expr_matches e u)
    | Some (Inl err) \<Rightarrow> err = Unresolved
        \<and> (\<forall>u. now < u \<and> u < cron_limit now \<and> u mod Minute = 0 \<longrightarrow> \<not> expr_matches e u)
    | None \<Rightarrow> False"
proof -
  define cursor where "cursor = Truncate now Minute + Minute"
  have run: "NextRun kind spec now = (case cron_search e cursor (cron_limit now) of
      None \<Rightarrow> Some (Inl Unresolved) | Some t \<Rightarrow> Some (Inr t))"
    by (simp add: NextRun_def assms Let_def cursor_def cron_limit_def)
  have steps: "\<exists>k. u = cursor + int k * Minute" if "now < u" "u mod Minute = 0" for u
  proof (rule whole_minute_steps)
    show "cursor mod Minute = 0" unfolding cursor_def by (rule cursor_minute)
    have "Truncate now Minute < u" using Truncate_Minute(1) [of now] that(1) by linarith
    then have "\<exists>k. u = Truncate now Minute + int k * Minute"
      using whole_minute_steps [OF that(2) Truncate_Minute(3)] by simp
    then obtain k where k: "u = Truncate now Minute + int k * Minute" ..
    with \<open>Truncate now Minute < u\<close> have "1 \<le> int k" by (cases k) auto
    then have "Minute \<le> int k * Minute" using minute_pos(1) mult_right_mono [of 1 "int k" Minute] by simp
    with k show "cursor \<le> u" by (simp add: cursor_def)
  qed (rule that(2))
  show ?thesis
  proof (cases "cron_search e cursor (cron_limit now)")
    case None
    then have none: "\<not> expr_matches e (cursor + int k * Minute)" if "cursor + int k * Minute < cron_limit now" for k
      using cron_search_spec [of cursor "cron_limit now" e] that by simp
    have "\<not> expr_matches e u" if "now < u" "u < cron_limit now" "u mod Minute = 0" for u
      using steps [OF that(1,3)] that(2) none by blast
    then show ?thesis using None run by simp
  next
    case (Some t)
    then obtain k where k: "t = cursor + int k * Minute" "t < cron_limit now" "expr_matches e t"
      "\<forall>j<k. \<not> expr_matches e (cursor + int j * Minute)"
      using cron_search_spec [of cursor "cron_limit now" e] by auto
    have earliest: "\<not> expr_matches e u" if u: "now < u" "u < t" "u mod Minute = 0" for u
    proof -
      obtain j where j: "u = cursor + int j * Minute" using steps [OF u(1,3)] by blast
      then have "int j * Minute < int k * Minute" using u(2) k(1) by simp
      then have "j < k" using minute_pos(1) by (simp add: mult_less_cancel_right)
      with j k(4) show ?thesis by blast
    qed
    then show ?thesis using Some run cron_search_result [of e now "cron_limit now" t]
      by (simp add: cursor_def)
  qed
qed

theorem NextRun_cron_earliest_witness:
  "(0::time) < 15 * Minute \<and> expr_matches
       \<lparr>ce_minute = \<lparr>cf_any = False, cf_values = [0, 15, 30, 45]\<rparr>, ce_hour = \<lparr>cf_any = True, cf_values = []\<rparr>,
        ce_dom = \<lparr>cf_any = True, cf_values = []\<rparr>, ce_month = \<lparr>cf_any = True, cf_values = []\<rparr>,
        ce_dow = \<lparr>cf_any = True, cf_values = []\<rparr>\<rparr> (15 * Minute)"
proof -
  define e where "e = \<lparr>ce_minute = \<lparr>cf_any = False, cf_values = [0, 15, 30, 45]\<rparr>, ce_hour = \<lparr>cf_any = True, cf_values = []\<rparr>,
        ce_dom = \<lparr>cf_any = True, cf_values = []\<rparr>, ce_month = \<lparr>cf_any = True, cf_values = []\<rparr>,
        ce_dow = \<lparr>cf_any = True, cf_values = []\<rparr>\<rparr>"
  have "TrimSpace ''cron'' = ''cron''" "parseCronExpr ''*/15 * * * *'' = Some (Inr e)"
    unfolding e_def by code_simp+
  from NextRun_cron_earliest [OF this, of 0] show ?thesis
    unfolding cron_examples(1) e_def [symmetric] by simp
qed

lemma NextRun_future_or_zero:
  assumes "NextRun kind spec now = Some (Inr t)"
  shows "now < t \<or> IsZero t" "\<not> now < t \<Longrightarrow> TrimSpace kind = ''at''"
proof -
  have "now < t \<or> TrimSpace kind = ''at'' \<and> IsZero t"
  proof (cases "TrimSpace kind = ''cron''")
    case True
    then obtain e where "cron_search e (Truncate now Minute + Minute)
        (Truncate now Minute + Minute + 366 * 24 * Hour) = Some t"
      using assms by (auto simp: NextRun_def Let_def split: option.splits sum.splits)
    then show ?thesis using cron_search_result(1) by blast
  next
    case False
    then show ?thesis using assms
      by (auto simp: NextRun_def Let_def IsZero_def split: option.splits if_splits)
  qed
  then show "now < t \<or> IsZero t" "\<not> now < t \<Longrightarrow> TrimSpace kind = ''at''" by auto
qed

text \<open>
  a next run lies in the future; only a schedule for a single time that has passed has none, which is
  written as the zero time.
\<close>

theorem NextRun_future:
  assumes "NextRun kind spec now = Some (Inr t)"
  shows "now < t \<or> TrimSpace kind = ''at'' \<and> IsZero t"
  using NextRun_future_or_zero [OF assms] by blast

theorem NextRun_future_witness:
  "(6 * Minute::time) < 7 * Minute \<or> TrimSpace ''cron'' = ''at'' \<and> IsZero (7 * Minute)"
  by (rule NextRun_future [OF cron_examples(2)])

text \<open>
  A schedule for the leap day resolves only within a year before it: just after its run of
  2024-02-29 there is no next run, although the schedule matches in 2028.
\<close>

definition leap_day_schedule :: string where
  "leap_day_schedule = ''0 0 29 2 *''"

definition leap_day_2024 :: time where
  "leap_day_2024 = 28486080 * Minute"

lemma no_leap_day_until_2025:
  assumes "19783 \<le> d" "d \<le> 20148"
  shows "civil_month_day d \<noteq> (2, 29)"
proof (cases "d = 20148")
  case True
  show ?thesis unfolding True by code_simp
next
  case False
  have "d + 719468 = (d - 11017) + 5 * 146097" by simp
  also have "\<dots> mod 146097 = (d - 11017) mod 146097" by (rule mod_mult_self1)
  also have "\<dots> = d - 11017" using assms by (intro mod_pos_pos_trivial) auto
  finally have doe: "(d + 719468) mod 146097 = d - 11017" .
  have parts: "(d - 11017) div 1460 = 6" "(d - 11017) div 36524 = 0" "(d - 11017) div 146096 = 0"
    "(d - 11023) div 365 = 24"
    using assms False int_div_pos_eq [of "d - 11017" 1460 6 "d - 19777"]
      int_div_pos_eq [of "d - 11023" 365 24 "d - 19783"]
    by (simp_all add: div_pos_pos_trivial)
  have sums: "d - 11017 - 6 + 0 - 0 = d - 11023"
    "d - 11017 - (365 * 24 + 24 div 4 - 24 div 100) = d - 19783" by simp_all
  have date: "civil_month_day d =
      (let mp = (5 * (d - 19783) + 2) div 153
       in (if mp < 10 then mp + 3 else mp - 9, d - 19783 - (153 * mp + 2) div 5 + 1))"
    unfolding civil_month_day_def Let_def by (simp only: doe parts sums)
  define mp where "mp = (5 * (d - 19783) + 2) div 153"
  have "0 \<le> mp" unfolding mp_def using assms by (intro pos_imp_zdiv_nonneg_iff [THEN iffD2]) auto
  moreover have "(if mp < 10 then mp + 3 else mp - 9) = 2 \<and> d - 19783 - (153 * mp + 2) div 5 + 1 = 29"
    if "civil_month_day d = (2, 29)"
    using that unfolding date by (simp only: Let_def prod.inject flip: mp_def)
  moreover have "(153 * 11 + 2) div 5 = (337::int)" by simp
  moreover have "mp = 11" if "(if mp < 10 then mp + 3 else mp - 9) = 2" "0 \<le> mp"
    using that by (simp split: if_splits)
  ultimately show ?thesis using assms False by fastforce
qed

lemma leap_day_unresolved:
  "NextRun ''cron'' leap_day_schedule (leap_day_2024 + 5 * Minute) = Some (Inl Unresolved)"
proof -
  define now where "now = leap_day_2024 + 5 * Minute"
  define e where "e = \<lparr>ce_minute = \<lparr>cf_any = False, cf_values = [0]\<rparr>, ce_hour = \<lparr>cf_any = False, cf_values = [0]\<rparr>,
        ce_dom = \<lparr>cf_any = False, cf_values = [29]\<rparr>, ce_month = \<lparr>cf_any = False, cf_values = [2]\<rparr>,
        ce_dow = \<lparr>cf_any = True, cf_values = []\<rparr>\<rparr>"
  have kind: "TrimSpace ''cron'' = ''cron''" and expr: "parseCronExpr leap_day_schedule = Some (Inr e)"
    unfolding e_def by code_simp+
  have limit: "cron_limit now = 29013126 * Minute" unfolding now_def by code_simp
  have no_match: "\<not> expr_matches e u" if u: "now < u" "u < cron_limit now" "u mod Minute = 0" for u
  proof
    assume match: "expr_matches e u"
    define m where "m = unix_minutes u"
    have u_m: "u = m * Minute" using u(3) by (auto simp: m_def unix_minutes_def elim!: dvdE)
    have "28486085 * Minute < m * Minute" "m * Minute < 29013126 * Minute"
      using u(1,2) unfolding limit u_m by (simp_all add: now_def leap_day_2024_def)
    then have m: "28486085 < m" "m < 29013126"
      using minute_pos(1) by (simp_all add: mult_less_cancel_right)
    have "m mod 60 = 0" "m div 60 mod 24 = 0" "civil_month_day (m div 1440) = (2, 29)"
      using match by (auto simp: expr_matches_def e_def field_matches_def minute_of_def hour_of_def
          month_of_def day_of_def unix_days_def m_def prod_eq_iff)
    moreover from this(1,2) have "m mod 1440 = 0" using zmod_zmult2_eq [of 24 m 60] by simp
    then have "m = m div 1440 * 1440" using div_mult_mod_eq [of m 1440] by simp
    then have "19783 \<le> m div 1440" "m div 1440 \<le> 20148" using m by linarith+
    ultimately show False using no_leap_day_until_2025 by blast
  qed
  have "cron_search e (Truncate now Minute + Minute) (cron_limit now) = None"
  proof (rule ccontr)
    assume "cron_search e (Truncate now Minute + Minute) (cron_limit now) \<noteq> None"
    then obtain t where "cron_search e (Truncate now Minute + Minute) (cron_limit now) = Some t" by blast
    note result = cron_search_result [OF this]
    from no_match [OF result(1-3)] result(4) show False ..
  qed
  then show ?thesis by (simp add: NextRun_def kind expr Let_def cron_limit_def flip: now_def)
qed

end
