(* ===== verification/State_DB.thy ===== *)
theory State_DB
  imports Grant_Store
begin

text \<open>
  The part of the state database (\<open>state/store.go\<close>) that the scheduler and the blocked work use: the
  tables as association lists on their primary keys, and the way a store operation talks to the
  database.  A statement is atomic.  Before each statement other processes may have changed the
  database in any way, and the database may answer a statement with an error: both are arguments of the
  model, counted by the statements executed.  The clock is one, too.
\<close>

section \<open>Tables\<close>

text \<open>A nullable column holds an option; flags are stored as integers.\<close>

record job_row =
  jr_id :: string
  jr_name :: string
  jr_schedule_kind :: string
  jr_schedule_spec :: string
  jr_prompt :: string
  jr_enabled :: int
  jr_next_run_at :: "time option"
  jr_last_run_at :: "time option"
  jr_last_run_status :: string
  jr_consecutive_failures :: int
  jr_blocked :: int
  jr_blocked_reason :: string
  jr_blocked_work_id :: string
  jr_claimed_by :: string
  jr_claim_expires_at :: "time option"
  jr_claim_heartbeat_at :: "time option"
  jr_created_at :: time
  jr_updated_at :: time

record job_run =
  run_ID :: int
  run_JobID :: string
  run_StartedAt :: time
  run_FinishedAt :: time
  run_Status :: string
  run_Output :: string
  run_Error :: string
  run_RunID :: int

record work_row =
  wr_id :: string
  wr_created_at :: time
  wr_updated_at :: time
  wr_resolved_at :: "time option"
  wr_task :: string
  wr_task_class :: string
  wr_task_state :: string
  wr_blocked_reason :: string
  wr_pending_approval_type :: string
  wr_pending_approval_payload :: string
  wr_conversation_snapshot :: string
  wr_continuation_data :: string
  wr_scheduled_job_id :: string

text \<open>The recovery tables: the journal of operations with its events and measurements, the watchdog
  guards, and the batches with the target operations they claim.\<close>

record recovery_operation =
  ro_ID :: string
  ro_Target :: string
  ro_Policy :: string
  ro_Status :: string
  ro_Digest :: string
  ro_Manifest :: string
  ro_Revision :: int
  ro_UpdatedAt :: time
  ro_Problem :: string

record recovery_event =
  ev_ID :: string
  ev_Revision :: int
  ev_Status :: string
  ev_At :: time

record recovery_check =
  rk_Sequence :: int
  rk_Revision :: int
  rk_Kind :: string
  rk_ObservedAt :: time
  rk_Evidence :: string

record guard_row =
  gu_lease :: string
  gu_pending :: "string option"

record recovery_batch =
  rb_ID :: string
  rb_Target :: string
  rb_Policy :: string
  rb_Digest :: string
  rb_Manifest :: string
  rb_Progress :: string
  rb_Status :: string
  rb_Problem :: string
  rb_Revision :: int
  rb_UpdatedAt :: time

record state_db =
  db_jobs :: "(string \<times> job_row) list"
  db_runs :: "job_run list"
  db_last_run_id :: int
  db_blocked :: "(string \<times> work_row) list"
  db_grants :: grant_table
  db_operations :: "(string \<times> recovery_operation) list"
  db_events :: "recovery_event list"
  db_checks :: "(string \<times> recovery_check) list"
  db_guards :: "((string \<times> string) \<times> guard_row) list"
  db_batches :: "(string \<times> recovery_batch) list"
  db_batch_claims :: "((string \<times> string) \<times> string) list"
  db_batch_events :: "(recovery_event \<times> string) list"

definition empty_db :: state_db where
  "empty_db = \<lparr>db_jobs = [], db_runs = [], db_last_run_id = 0, db_blocked = [], db_grants = [],
     db_operations = [], db_events = [], db_checks = [], db_guards = [],
     db_batches = [], db_batch_claims = [], db_batch_events = []\<rparr>"

text \<open>The zero time of Go and a missing value of a column.\<close>

definition null_time :: "time \<Rightarrow> time option" where
  "null_time t = (if IsZero t then None else Some t)"

definition time_or_zero :: "time option \<Rightarrow> time" where
  "time_or_zero c = (case c of Some t \<Rightarrow> t | None \<Rightarrow> zero_time)"

definition boolToInt :: "bool \<Rightarrow> int" where
  "boolToInt b = (if b then 1 else 0)"

lemma null_time_roundtrip [simp]: "time_or_zero (null_time t) = t"
  by (simp add: null_time_def time_or_zero_def IsZero_def)

lemma boolToInt_1 [simp]: "boolToInt b = 1 \<longleftrightarrow> b" "boolToInt b = 0 \<longleftrightarrow> \<not> b"
  by (simp_all add: boolToInt_def)

section \<open>Statements\<close>

record store =
  st_available :: bool
  st_answer :: "nat \<Rightarrow> exec_answer"
  st_others :: "nat \<Rightarrow> state_db \<Rightarrow> state_db"
  st_count :: nat
  st_clock :: "nat \<Rightarrow> time"
  st_ticks :: nat
  st_db :: state_db

datatype db_error =
    Unavailable
  | NoRows
  | SQLError string
  | EmptyOwner
  | LeaseNotPositive
  | AlreadyClaimed string
  | ClaimNotOwned string string
  | GrantRejected store_error
  | StoreRefused string

text \<open>
  An operation that changes a state: an error or a value, and the state afterwards.  The state of the
  operations of this theory is the store; operations that also change files run in a larger one.
\<close>

type_synonym ('s, 'e, 'a) state_op = "'s \<Rightarrow> ('e + 'a) \<times> 's"
type_synonym ('e, 'a) store_op = "(store, 'e, 'a) state_op"
type_synonym 'a db = "(db_error, 'a) store_op"

definition return_db :: "'a \<Rightarrow> ('s, 'e, 'a) state_op" where
  "return_db x st = (Inr x, st)"

definition fail_db :: "'e \<Rightarrow> ('s, 'e, 'a) state_op" where
  "fail_db e st = (Inl e, st)"

text \<open>The next operation, unless this one failed (Go's \<open>if err != nil { return err }\<close>).\<close>

definition then_db :: "('s, 'e, 'a) state_op \<Rightarrow> ('a \<Rightarrow> ('s, 'e, 'b) state_op) \<Rightarrow> ('s, 'e, 'b) state_op" where
  "then_db f g st = (case f st of (Inl e, st') \<Rightarrow> (Inl e, st') | (Inr x, st') \<Rightarrow> g x st')"

text \<open>The errors of one layer as errors of the next.\<close>

definition lift_errors :: "('e \<Rightarrow> 'f) \<Rightarrow> ('s, 'e, 'a) state_op \<Rightarrow> ('s, 'f, 'a) state_op" where
  "lift_errors h f st = (case f st of (Inl e, st') \<Rightarrow> (Inl (h e), st') | (Inr x, st') \<Rightarrow> (Inr x, st'))"

text \<open>One statement: what the others did before it, then the answer, then its effect.\<close>

definition statement :: "(state_db \<Rightarrow> 'a \<times> state_db) \<Rightarrow> 'a db" where
  "statement f st =
     (let n = st_count st;
          d = st_others st n (st_db st);
          st' = st\<lparr>st_count := n + 1\<rparr>
      in case st_answer st n of
           ExecError e \<Rightarrow> (Inl (SQLError e), st'\<lparr>st_db := d\<rparr>)
         | ExecOk \<Rightarrow> (let (r, d') = f d in (Inr r, st'\<lparr>st_db := d'\<rparr>)))"

text \<open>A transaction: its statements act on the database as one, or it is rolled back.\<close>

definition transaction :: "(state_db \<Rightarrow> db_error + 'a \<times> state_db) \<Rightarrow> 'a db" where
  "transaction f =
     then_db (statement (\<lambda>d. case f d of Inl e \<Rightarrow> (Inl e, d) | Inr (r, d') \<Rightarrow> (Inr r, d')))
       (\<lambda>r. case r of Inl e \<Rightarrow> fail_db e | Inr x \<Rightarrow> return_db x)"

definition clock_now :: "('e, time) store_op" where
  "clock_now st = (Inr (st_clock st (st_ticks st)), st\<lparr>st_ticks := st_ticks st + 1\<rparr>)"

text \<open>Every operation begins with this check.\<close>

definition when_available :: "'a db \<Rightarrow> 'a db" where
  "when_available f st = (if \<not> st_available st then (Inl Unavailable, st) else f st)"

lemmas db_defs = return_db_def fail_db_def then_db_def lift_errors_def statement_def clock_now_def when_available_def

text \<open>A store no other process uses, whose database always answers.\<close>

definition quiet :: "store \<Rightarrow> bool" where
  "quiet st \<longleftrightarrow> st_available st \<and> st_answer st = (\<lambda>_. ExecOk) \<and> st_others st = (\<lambda>_ d. d)"

definition quiet_store :: "(nat \<Rightarrow> time) \<Rightarrow> state_db \<Rightarrow> store" where
  "quiet_store now d =
     \<lparr>st_available = True, st_answer = (\<lambda>_. ExecOk), st_others = (\<lambda>_ d. d), st_count = 0,
      st_clock = now, st_ticks = 0, st_db = d\<rparr>"

lemma quiet_quiet_store [simp]: "quiet (quiet_store now d)"
  by (simp add: quiet_def quiet_store_def)

lemma statement_quiet:
  "quiet st \<Longrightarrow> statement f st =
     (Inr (fst (f (st_db st))), st\<lparr>st_count := st_count st + 1, st_db := snd (f (st_db st))\<rparr>)"
  by (simp add: quiet_def statement_def Let_def split_beta)

lemma quiet_updates [simp]:
  "quiet (st\<lparr>st_count := n\<rparr>) = quiet st" "quiet (st\<lparr>st_db := d\<rparr>) = quiet st"
  "quiet (st\<lparr>st_ticks := k\<rparr>) = quiet st"
  by (simp_all add: quiet_def)

section \<open>Rows\<close>

text \<open>\<open>UPDATE ... SET ... WHERE id = ? AND ...\<close>, with the number of rows affected:
  the function gives the new row, or none where the condition does not hold.\<close>

definition update_row ::
  "'k \<Rightarrow> ('r \<Rightarrow> 'r option) \<Rightarrow> ('k \<times> 'r) list \<Rightarrow> nat \<times> ('k \<times> 'r) list" where
  "update_row k f table =
     (case map_of table k of
        None \<Rightarrow> (0, table)
      | Some row \<Rightarrow> (case f row of None \<Rightarrow> (0, table) | Some row' \<Rightarrow> (1, AList.update k row' table)))"

text \<open>The effect on a row that the \<open>WHERE\<close> clause selects.\<close>

definition row_when :: "('r \<Rightarrow> bool) \<Rightarrow> ('r \<Rightarrow> 'r) \<Rightarrow> 'r \<Rightarrow> 'r option" where
  "row_when P f row = (if P row then Some (f row) else None)"

lemma row_when_Some [simp]: "row_when P f row = Some row' \<longleftrightarrow> P row \<and> row' = f row"
  by (auto simp: row_when_def)

lemma row_when_None [simp]: "row_when P f row = None \<longleftrightarrow> \<not> P row"
  by (simp add: row_when_def)

lemma update_row_map_of:
  "map_of (snd (update_row k f table)) j =
     (case map_of table j of
        None \<Rightarrow> None
      | Some row \<Rightarrow> Some (if j = k then (case f row of None \<Rightarrow> row | Some row' \<Rightarrow> row') else row))"
  by (auto simp: update_row_def update_conv split: option.split)

text \<open>The rows with a key in \<open>K\<close> changed as \<open>R\<close> says; all the others are the same.\<close>

definition rows_changed :: "string set \<Rightarrow> ('r \<Rightarrow> 'r \<Rightarrow> bool) \<Rightarrow> (string \<times> 'r) list \<Rightarrow> (string \<times> 'r) list \<Rightarrow> bool" where
  "rows_changed K R table table' \<longleftrightarrow>
     (\<forall>k. if k \<in> K then rel_option R (map_of table k) (map_of table' k) else map_of table' k = map_of table k)"

lemma rows_changed_refl [simp]: "rows_changed {} R table table"
  by (simp add: rows_changed_def)

lemma rel_option_trans:
  "rel_option R a b \<Longrightarrow> rel_option R b c \<Longrightarrow> (\<And>r r' r''. R r r' \<Longrightarrow> R r' r'' \<Longrightarrow> R r r'') \<Longrightarrow> rel_option R a c"
  by (cases b) (auto simp: option_rel_Some1 option_rel_Some2)

lemma rows_changed_trans:
  assumes "rows_changed K R t t'" "rows_changed L R t' t''" "\<And>r r' r''. R r r' \<Longrightarrow> R r' r'' \<Longrightarrow> R r r''"
  shows "rows_changed (K \<union> L) R t t''"
  unfolding rows_changed_def
proof
  fix k
  note at_k = assms(1,2) [unfolded rows_changed_def, rule_format, of k]
  show "if k \<in> K \<union> L then rel_option R (map_of t k) (map_of t'' k) else map_of t'' k = map_of t k"
    using at_k rel_option_trans [of R "map_of t k" "map_of t' k" "map_of t'' k", OF _ _ assms(3)]
    by (cases "k \<in> K"; cases "k \<in> L") simp_all
qed

lemma rows_changed_update_row:
  assumes "\<And>r. \<exists>r'. f r = Some r' \<and> R r r'"
  shows "rows_changed {k} R table (snd (update_row k f table))"
  unfolding rows_changed_def
proof
  fix j
  show "if j \<in> {k} then rel_option R (map_of table j) (map_of (snd (update_row k f table)) j)
    else map_of (snd (update_row k f table)) j = map_of table j"
  proof (cases "map_of table j")
    case (Some r)
    obtain r' where "f r = Some r'" "R r r'" using assms [of r] by blast
    then show ?thesis using Some by (auto simp: update_row_map_of)
  qed (auto simp: update_row_map_of)
qed

end
