(* ===== verification/Scheduler_Store.thy ===== *)
theory Scheduler_Store
  imports State_DB
begin

text \<open>
  The scheduled jobs in the database, \<open>state/store_scheduler.go\<close>: saving and reading, the due list, the
  claims with a lease that keep two schedulers from running one job, blocking, deletion and the record
  of runs.  Every SQL statement is a function on the tables; an operation is a sequence of statements.
\<close>

section \<open>Jobs and their rows\<close>

record scheduled_job =
  job_ID :: string
  job_Name :: string
  job_ScheduleKind :: string
  job_ScheduleSpec :: string
  job_Prompt :: string
  job_Enabled :: bool
  job_NextRunAt :: time
  job_LastRunAt :: time
  job_LastRunStatus :: string
  job_ConsecutiveFail :: int
  job_Blocked :: bool
  job_BlockedReason :: string
  job_BlockedWorkID :: string
  job_ClaimedBy :: string
  job_ClaimExpiresAt :: time
  job_ClaimHeartbeatAt :: time
  job_CreatedAt :: time
  job_UpdatedAt :: time

text \<open>The row that \<open>SaveScheduledJob\<close> inserts, and what \<open>scanScheduledJob\<close> makes of a row.\<close>

definition job_values :: "scheduled_job \<Rightarrow> job_row" where
  "job_values job =
     \<lparr>jr_id = job_ID job, jr_name = job_Name job, jr_schedule_kind = job_ScheduleKind job,
      jr_schedule_spec = job_ScheduleSpec job, jr_prompt = job_Prompt job,
      jr_enabled = boolToInt (job_Enabled job), jr_next_run_at = null_time (job_NextRunAt job),
      jr_last_run_at = null_time (job_LastRunAt job), jr_last_run_status = job_LastRunStatus job,
      jr_consecutive_failures = job_ConsecutiveFail job, jr_blocked = boolToInt (job_Blocked job),
      jr_blocked_reason = job_BlockedReason job, jr_blocked_work_id = job_BlockedWorkID job,
      jr_claimed_by = job_ClaimedBy job, jr_claim_expires_at = null_time (job_ClaimExpiresAt job),
      jr_claim_heartbeat_at = null_time (job_ClaimHeartbeatAt job),
      jr_created_at = job_CreatedAt job, jr_updated_at = job_UpdatedAt job\<rparr>"

definition scanScheduledJob :: "job_row \<Rightarrow> scheduled_job" where
  "scanScheduledJob r =
     \<lparr>job_ID = jr_id r, job_Name = jr_name r, job_ScheduleKind = jr_schedule_kind r,
      job_ScheduleSpec = jr_schedule_spec r, job_Prompt = jr_prompt r,
      job_Enabled = (jr_enabled r = 1), job_NextRunAt = time_or_zero (jr_next_run_at r),
      job_LastRunAt = time_or_zero (jr_last_run_at r), job_LastRunStatus = jr_last_run_status r,
      job_ConsecutiveFail = jr_consecutive_failures r, job_Blocked = (jr_blocked r = 1),
      job_BlockedReason = jr_blocked_reason r, job_BlockedWorkID = jr_blocked_work_id r,
      job_ClaimedBy = jr_claimed_by r, job_ClaimExpiresAt = time_or_zero (jr_claim_expires_at r),
      job_ClaimHeartbeatAt = time_or_zero (jr_claim_heartbeat_at r),
      job_CreatedAt = jr_created_at r, job_UpdatedAt = jr_updated_at r\<rparr>"

definition fill_times :: "time \<Rightarrow> scheduled_job \<Rightarrow> scheduled_job" where
  "fill_times now job =
     job\<lparr>job_CreatedAt := (if IsZero (job_CreatedAt job) then now else job_CreatedAt job),
         job_UpdatedAt := (if IsZero (job_UpdatedAt job) then now else job_UpdatedAt job)\<rparr>"

text \<open>The upsert: a conflicting row keeps its creation time.\<close>

definition upserted :: "job_row \<Rightarrow> job_row \<Rightarrow> job_row" where
  "upserted new old = new\<lparr>jr_created_at := jr_created_at old\<rparr>"

definition upsert_job :: "job_row \<Rightarrow> state_db \<Rightarrow> unit \<times> state_db" where
  "upsert_job new d =
     ((), d\<lparr>db_jobs := AList.update (jr_id new)
        (case map_of (db_jobs d) (jr_id new) of
           None \<Rightarrow> new
         | Some old \<Rightarrow> upserted new old) (db_jobs d)\<rparr>)"

definition SaveScheduledJob :: "scheduled_job \<Rightarrow> unit db" where
  "SaveScheduledJob job =
     when_available (then_db clock_now (\<lambda>now. statement (upsert_job (job_values (fill_times now job)))))"

definition select_job :: "string \<Rightarrow> state_db \<Rightarrow> job_row option \<times> state_db" where
  "select_job k d = (map_of (db_jobs d) k, d)"

definition GetScheduledJob :: "string \<Rightarrow> scheduled_job db" where
  "GetScheduledJob k =
     when_available (then_db (statement (select_job k))
       (\<lambda>row. case row of None \<Rightarrow> fail_db NoRows | Some r \<Rightarrow> return_db (scanScheduledJob r)))"

section \<open>Lists\<close>

text \<open>\<open>ORDER BY next_run_at IS NULL, next_run_at ASC, created_at ASC\<close>; ties keep the order of the table.\<close>

definition by_next_run :: "job_row list \<Rightarrow> job_row list" where
  "by_next_run = sort_key (\<lambda>r. time_or_zero (jr_next_run_at r))"

definition list_order :: "job_row list \<Rightarrow> job_row list" where
  "list_order rows =
     sort_key (\<lambda>r. jr_next_run_at r = None) (by_next_run (sort_key jr_created_at rows))"

definition ListScheduledJobs :: "bool \<Rightarrow> scheduled_job list db" where
  "ListScheduledJobs includeDisabled =
     when_available (then_db
       (statement (\<lambda>d. (list_order (filter (\<lambda>r. includeDisabled \<or> jr_enabled r = 1) (map snd (db_jobs d))), d)))
       (\<lambda>rows. return_db (map scanScheduledJob rows)))"

definition due_row :: "time \<Rightarrow> job_row \<Rightarrow> bool" where
  "due_row now r \<longleftrightarrow> jr_enabled r = 1 \<and> jr_blocked r = 0
     \<and> (case jr_next_run_at r of None \<Rightarrow> False | Some t \<Rightarrow> t \<le> now)"

definition ListDueScheduledJobs :: "time \<Rightarrow> scheduled_job list db" where
  "ListDueScheduledJobs now =
     when_available (then_db
       (statement (\<lambda>d. (by_next_run (filter (due_row now) (map snd (db_jobs d))), d)))
       (\<lambda>rows. return_db (map scanScheduledJob rows)))"

section \<open>Claims\<close>

definition claim_free :: "time \<Rightarrow> job_row \<Rightarrow> bool" where
  "claim_free now r \<longleftrightarrow> jr_claimed_by r = ''''
     \<or> (case jr_claim_expires_at r of None \<Rightarrow> True | Some t \<Rightarrow> t \<le> now)"

definition take_claim :: "string \<Rightarrow> time \<Rightarrow> duration \<Rightarrow> job_row \<Rightarrow> job_row" where
  "take_claim owner now lease r =
     r\<lparr>jr_claimed_by := owner, jr_claim_expires_at := Some (now + lease),
       jr_claim_heartbeat_at := Some now, jr_updated_at := now\<rparr>"

text \<open>The claim of a due job skips what someone else holds; a manual one renews its owner's claim, too.\<close>

datatype claim_kind = DueClaim | ManualClaim

definition claim_row :: "claim_kind \<Rightarrow> string \<Rightarrow> time \<Rightarrow> duration \<Rightarrow> job_row \<Rightarrow> job_row option" where
  "claim_row c owner now lease =
     row_when (\<lambda>r. case c of
         DueClaim \<Rightarrow> due_row now r \<and> claim_free now r
       | ManualClaim \<Rightarrow> claim_free now r \<or> jr_claimed_by r = owner)
       (take_claim owner now lease)"

definition refresh_row :: "string \<Rightarrow> time \<Rightarrow> duration \<Rightarrow> job_row \<Rightarrow> job_row option" where
  "refresh_row owner now lease =
     row_when (\<lambda>r. jr_claimed_by r = owner)
       (\<lambda>r. r\<lparr>jr_claim_expires_at := Some (now + lease), jr_claim_heartbeat_at := Some now, jr_updated_at := now\<rparr>)"

definition release_row :: "string \<Rightarrow> time \<Rightarrow> job_row \<Rightarrow> job_row option" where
  "release_row owner now =
     row_when (\<lambda>r. jr_claimed_by r = owner)
       (\<lambda>r. r\<lparr>jr_claimed_by := '''', jr_claim_expires_at := None, jr_claim_heartbeat_at := None, jr_updated_at := now\<rparr>)"

text \<open>An update of one job, with the number of rows affected.\<close>

definition exec_job :: "string \<Rightarrow> (job_row \<Rightarrow> job_row option) \<Rightarrow> nat db" where
  "exec_job k f = statement (\<lambda>d. let (n, jobs) = update_row k f (db_jobs d) in (n, d\<lparr>db_jobs := jobs\<rparr>))"

text \<open>The loop of \<open>ClaimDueScheduledJobs\<close> over the selected ids.\<close>

primrec claim_each :: "string \<Rightarrow> time \<Rightarrow> duration \<Rightarrow> string list \<Rightarrow> scheduled_job list db" where
  "claim_each owner now lease [] = return_db []"
| "claim_each owner now lease (k # ks) =
     then_db (exec_job k (claim_row DueClaim owner now lease)) (\<lambda>n.
       if n = 0 then claim_each owner now lease ks
       else then_db (GetScheduledJob k) (\<lambda>job.
         then_db (claim_each owner now lease ks) (\<lambda>jobs. return_db (job # jobs))))"

definition select_due :: "time \<Rightarrow> nat \<Rightarrow> state_db \<Rightarrow> string list \<times> state_db" where
  "select_due now limit d =
     (map jr_id (take limit (by_next_run
        (filter (\<lambda>r. due_row now r \<and> claim_free now r) (map snd (db_jobs d))))), d)"

definition ClaimDueScheduledJobs :: "string \<Rightarrow> time \<Rightarrow> duration \<Rightarrow> int \<Rightarrow> scheduled_job list db" where
  "ClaimDueScheduledJobs owner now lease limit =
     when_available
       (if owner = '''' then fail_db EmptyOwner
        else if lease \<le> 0 then fail_db LeaseNotPositive
        else then_db (statement (select_due now (nat (if limit \<le> 0 then 100 else limit))))
          (claim_each owner now lease))"

definition ClaimScheduledJob :: "string \<Rightarrow> string \<Rightarrow> time \<Rightarrow> duration \<Rightarrow> scheduled_job db" where
  "ClaimScheduledJob k owner now lease =
     when_available
       (if owner = '''' then fail_db EmptyOwner
        else if lease \<le> 0 then fail_db LeaseNotPositive
        else then_db (exec_job k (claim_row ManualClaim owner now lease))
          (\<lambda>n. if n = 0 then then_db (GetScheduledJob k) (\<lambda>_. fail_db (AlreadyClaimed k))
               else GetScheduledJob k))"

definition RefreshScheduledJobClaim :: "string \<Rightarrow> string \<Rightarrow> time \<Rightarrow> duration \<Rightarrow> unit db" where
  "RefreshScheduledJobClaim k owner now lease =
     when_available
       (if owner = '''' then fail_db EmptyOwner
        else if lease \<le> 0 then fail_db LeaseNotPositive
        else then_db (exec_job k (refresh_row owner now lease))
          (\<lambda>n. if n = 0 then fail_db (ClaimNotOwned k owner) else return_db ()))"

definition ReleaseScheduledJobClaim :: "string \<Rightarrow> string \<Rightarrow> unit db" where
  "ReleaseScheduledJobClaim k owner =
     when_available (then_db clock_now (\<lambda>now.
       then_db (exec_job k (release_row owner now))
         (\<lambda>_. return_db ())))"

section \<open>Blocking, deletion and runs\<close>

definition MarkScheduledJobBlocked :: "string \<Rightarrow> string \<Rightarrow> string \<Rightarrow> unit db" where
  "MarkScheduledJobBlocked k reason workID =
     when_available (then_db clock_now (\<lambda>now.
       then_db (exec_job k (row_when (\<lambda>_. True)
           (\<lambda>r. r\<lparr>jr_blocked := 1, jr_blocked_reason := reason, jr_blocked_work_id := workID,
                  jr_updated_at := now\<rparr>)))
         (\<lambda>_. return_db ())))"

definition UnblockScheduledJob :: "string \<Rightarrow> unit db" where
  "UnblockScheduledJob k =
     when_available (then_db clock_now (\<lambda>now.
       then_db (exec_job k (row_when (\<lambda>_. True)
           (\<lambda>r. r\<lparr>jr_blocked := 0, jr_blocked_reason := '''', jr_blocked_work_id := '''',
                  jr_updated_at := now\<rparr>)))
         (\<lambda>_. return_db ())))"

text \<open>One transaction deletes the runs and the job.\<close>

definition DeleteScheduledJob :: "string \<Rightarrow> unit db" where
  "DeleteScheduledJob k =
     when_available (statement (\<lambda>d.
       ((), d\<lparr>db_runs := filter (\<lambda>r. run_JobID r \<noteq> k) (db_runs d), db_jobs := AList.delete k (db_jobs d)\<rparr>)))"

definition insert_run :: "job_run \<Rightarrow> state_db \<Rightarrow> int \<times> state_db" where
  "insert_run r d =
     (let n = db_last_run_id d + 1
      in (n, d\<lparr>db_runs := db_runs d @ [r\<lparr>run_ID := n\<rparr>], db_last_run_id := n\<rparr>))"

definition RecordScheduledJobRun :: "job_run \<Rightarrow> int db" where
  "RecordScheduledJobRun r = when_available (statement (insert_run r))"

definition ListScheduledJobRuns :: "string \<Rightarrow> int \<Rightarrow> job_run list db" where
  "ListScheduledJobRuns k limit =
     when_available (statement (\<lambda>d.
       (take (nat (if limit \<le> 0 then 20 else limit))
          (sort_key (\<lambda>r. - run_StartedAt r) (filter (\<lambda>r. run_JobID r = k) (db_runs d))), d)))"

section \<open>The tables stay well formed\<close>

text \<open>Each job is stored once, under its id, and the runs are numbered up to the last id given.\<close>

definition jobs_ok :: "state_db \<Rightarrow> bool" where
  "jobs_ok d \<longleftrightarrow> distinct (map fst (db_jobs d)) \<and> (\<forall>(k, r) \<in> set (db_jobs d). jr_id r = k)"

definition runs_ok :: "state_db \<Rightarrow> bool" where
  "runs_ok d \<longleftrightarrow> distinct (map run_ID (db_runs d)) \<and> (\<forall>r \<in> set (db_runs d). run_ID r \<le> db_last_run_id d)"

lemma jobs_ok_runs [simp]:
  "jobs_ok (d\<lparr>db_runs := rs\<rparr>) = jobs_ok d" "jobs_ok (d\<lparr>db_last_run_id := n\<rparr>) = jobs_ok d"
  by (simp_all add: jobs_ok_def)

lemma set_AList_update_cases: "(j, r) \<in> set (AList.update k x xs) \<Longrightarrow> (j, r) = (k, x) \<or> (j, r) \<in> set xs"
  by (induction xs) (auto split: if_splits)

lemma jobs_ok_update:
  "jobs_ok d \<Longrightarrow> jr_id r = k \<Longrightarrow> jobs_ok (d\<lparr>db_jobs := AList.update k r (db_jobs d)\<rparr>)"
  by (fastforce simp: jobs_ok_def distinct_update dest: set_AList_update_cases)

lemma jobs_ok_map_of: "jobs_ok d \<Longrightarrow> map_of (db_jobs d) k = Some r \<Longrightarrow> jr_id r = k"
  by (auto simp: jobs_ok_def dest!: map_of_SomeD)

lemma jobs_ok_update_row:
  assumes "jobs_ok d" "\<And>r r'. f r = Some r' \<Longrightarrow> jr_id r' = jr_id r"
  shows "jobs_ok (d\<lparr>db_jobs := snd (update_row k f (db_jobs d))\<rparr>)"
  using assms jobs_ok_update [OF assms(1), of _ k] jobs_ok_map_of [OF assms(1)]
  by (auto simp: update_row_def split: option.split)

lemma jobs_ok_delete: "jobs_ok d \<Longrightarrow> jobs_ok (d\<lparr>db_runs := rs, db_jobs := AList.delete k (db_jobs d)\<rparr>)"
  by (auto simp: jobs_ok_def AList.delete_eq intro: distinct_map_filter)

lemma jobs_ok_upsert: "jobs_ok d \<Longrightarrow> jobs_ok (snd (upsert_job r d))"
  by (auto simp: upsert_job_def upserted_def intro!: jobs_ok_update split: option.split)

text \<open>An operation keeps a property of the database that the other processes keep.\<close>

definition keeps :: "(state_db \<Rightarrow> bool) \<Rightarrow> ('e, 'a) store_op \<Rightarrow> bool" where
  "keeps P f \<longleftrightarrow> (\<forall>st. (\<forall>n d. P d \<longrightarrow> P (st_others st n d)) \<and> P (st_db st) \<longrightarrow>
     P (st_db (snd (f st))) \<and> st_others (snd (f st)) = st_others st)"

named_theorems keeps_intros \<open>operations that keep a property of the database\<close>

lemma keeps_statement [keeps_intros]: "(\<And>d. P d \<Longrightarrow> P (snd (f d))) \<Longrightarrow> keeps P (statement f)"
  by (auto simp: keeps_def statement_def Let_def split_beta split: exec_answer.split)

lemma keeps_then [keeps_intros]: "keeps P f \<Longrightarrow> (\<And>x. keeps P (g x)) \<Longrightarrow> keeps P (then_db f g)"
  unfolding keeps_def then_db_def by (fastforce split: prod.splits sum.splits)

lemma keeps_basic [keeps_intros]:
  "keeps P (return_db x)" "keeps P (fail_db e)" "keeps P clock_now"
  by (auto simp: keeps_def db_defs)

lemma keeps_lift [keeps_intros]: "keeps P f \<Longrightarrow> keeps P (lift_errors h f)"
  unfolding keeps_def lift_errors_def by (fastforce split: prod.splits sum.splits)

lemma keeps_available [keeps_intros]: "keeps P f \<Longrightarrow> keeps P (when_available f)"
  by (auto simp: keeps_def when_available_def)

lemma keeps_if [keeps_intros]: "keeps P f \<Longrightarrow> keeps P g \<Longrightarrow> keeps P (if c then f else g)"
  by simp

lemma keeps_GetScheduledJob [keeps_intros]: "keeps P (GetScheduledJob k)"
  unfolding GetScheduledJob_def
  by (intro keeps_intros) (auto simp: select_job_def intro: keeps_intros split: option.split)

lemma keeps_exec_job [keeps_intros]:
  "(\<And>r r'. f r = Some r' \<Longrightarrow> jr_id r' = jr_id r) \<Longrightarrow> keeps jobs_ok (exec_job k f)"
  unfolding exec_job_def
  by (intro keeps_intros) (simp add: split_beta jobs_ok_update_row)

lemma keeps_claim_each [keeps_intros]: "keeps jobs_ok (claim_each owner now lease ks)"
  by (induction ks) (auto intro!: keeps_intros simp: claim_row_def take_claim_def)

text \<open>
  every operation on the scheduled jobs, whatever its outcome and whatever other processes do in
  between that keeps it too, keeps the table of jobs well formed: every job once, under its own id.
\<close>

theorem scheduler_keeps_jobs_ok:
  "keeps jobs_ok (SaveScheduledJob job) \<and> keeps jobs_ok (ClaimDueScheduledJobs owner now lease limit)
   \<and> keeps jobs_ok (ClaimScheduledJob k owner now lease)
   \<and> keeps jobs_ok (RefreshScheduledJobClaim k owner now lease)
   \<and> keeps jobs_ok (ReleaseScheduledJobClaim k owner) \<and> keeps jobs_ok (MarkScheduledJobBlocked k reason work)
   \<and> keeps jobs_ok (UnblockScheduledJob k) \<and> keeps jobs_ok (DeleteScheduledJob k)
   \<and> keeps jobs_ok (RecordScheduledJobRun new)"
  unfolding SaveScheduledJob_def ClaimDueScheduledJobs_def ClaimScheduledJob_def
    RefreshScheduledJobClaim_def ReleaseScheduledJobClaim_def MarkScheduledJobBlocked_def
    UnblockScheduledJob_def DeleteScheduledJob_def RecordScheduledJobRun_def
  by (intro conjI keeps_intros)
    (auto simp: claim_row_def refresh_row_def release_row_def take_claim_def jobs_ok_upsert jobs_ok_delete select_due_def insert_run_def Let_def)

section \<open>What is saved is read back\<close>

lemma scan_job_values: "scanScheduledJob (job_values job) = job"
  by (simp add: scanScheduledJob_def job_values_def)

text \<open>
  a saved job is read back as it was, with the missing times of creation and change filled in, and
  with the creation time of the row it replaces.
\<close>

theorem Save_then_Get:
  assumes "quiet st"
  shows "fst (then_db (SaveScheduledJob job) (\<lambda>_. GetScheduledJob (job_ID job)) st) =
    Inr ((fill_times (st_clock st (st_ticks st)) job)
      \<lparr>job_CreatedAt := (case map_of (db_jobs (st_db st)) (job_ID job) of
          Some old \<Rightarrow> jr_created_at old
        | None \<Rightarrow> job_CreatedAt (fill_times (st_clock st (st_ticks st)) job))\<rparr>)"
proof -
  have "st_available st" using assms by (simp add: quiet_def)
  then show ?thesis using assms
    by (simp add: SaveScheduledJob_def GetScheduledJob_def when_available_def then_db_def clock_now_def
        statement_quiet upsert_job_def upserted_def select_job_def return_db_def fail_db_def job_values_def
        scanScheduledJob_def fill_times_def update_conv split: option.split)
qed

section \<open>Claims exclude each other\<close>

text \<open>
  What a scheduler relies on when it claims a job: a claim is given only while nobody else's is live,
  it is live until its lease ends, and only its owner extends or releases it.  \<open>held_by r a t\<close> means that
  the claim of \<open>a\<close> is live at \<open>t\<close>.
\<close>

locale claim_lease =
  fixes held_by :: "'r \<Rightarrow> string \<Rightarrow> time \<Rightarrow> bool"
    and claim :: "'c \<Rightarrow> string \<Rightarrow> time \<Rightarrow> duration \<Rightarrow> 'r \<Rightarrow> 'r option"
    and refresh :: "string \<Rightarrow> time \<Rightarrow> duration \<Rightarrow> 'r \<Rightarrow> 'r option"
    and release :: "string \<Rightarrow> time \<Rightarrow> 'r \<Rightarrow> 'r option"
  assumes one_holder: "held_by r a s \<Longrightarrow> held_by r b t \<Longrightarrow> a = b"
    and claim_excluded: "claim c a t l r = Some r' \<Longrightarrow> held_by r b t \<Longrightarrow> b = a"
    and claim_gives: "a \<noteq> '''' \<Longrightarrow> claim c a t l r = Some r' \<Longrightarrow> s < t + l \<Longrightarrow> held_by r' a s"
    and refresh_gives: "a \<noteq> '''' \<Longrightarrow> refresh a t l r = Some r' \<Longrightarrow> s < t + l \<Longrightarrow> held_by r' a s"
    and refresh_own: "refresh a t l r = Some r' \<Longrightarrow> held_by r b s \<Longrightarrow> b = a"
    and release_own: "release a t r = Some r' \<Longrightarrow> held_by r b s \<Longrightarrow> b = a"
begin

text \<open>
  What each scheduler believes, from the last claim or renewal it was granted: until when the job is
  its own.  The beliefs agree with the row when everyone who believes to hold the job now is right.
\<close>

definition agrees :: "time \<Rightarrow> (string \<Rightarrow> time) \<Rightarrow> 'r \<Rightarrow> bool" where
  "agrees now B r \<longleftrightarrow> (\<forall>a. now < B a \<longrightarrow> (\<forall>s < B a. held_by r a s))"

lemma agrees_exclusive: "agrees now B r \<Longrightarrow> now < B a \<Longrightarrow> now < B b \<Longrightarrow> a = b"
  unfolding agrees_def using one_holder by blast

lemma agrees_later: "agrees now B r \<Longrightarrow> now \<le> later \<Longrightarrow> agrees later B r"
  by (auto simp: agrees_def)

lemma agrees_claim:
  assumes "agrees now B r" "a \<noteq> ''''" "claim c a now l r = Some r'"
  shows "agrees now (B(a := now + l)) r'"
  using assms claim_excluded [OF assms(3)] claim_gives [OF assms(2,3)] by (auto simp: agrees_def)

lemma agrees_refresh:
  assumes "agrees now B r" "a \<noteq> ''''" "refresh a now l r = Some r'"
  shows "agrees now (B(a := now + l)) r'"
  using assms refresh_own [OF assms(3)] refresh_gives [OF assms(2,3)] by (fastforce simp: agrees_def)

lemma agrees_release:
  assumes "agrees now B r" "release a now r = Some r'"
  shows "agrees now (B(a := now)) r'"
  using assms release_own [OF assms(2)] by (fastforce simp: agrees_def)

text \<open>A holder whose claim is live may write the row as it likes: nobody else believes to hold it.\<close>

lemma agrees_holder:
  assumes "agrees now B r" "now < B a"
  shows "agrees now (B(a := now)) r'"
proof -
  have "\<not> now < B b" if "b \<noteq> a" for b using agrees_exclusive [OF assms] that by blast
  then show ?thesis by (simp add: agrees_def)
qed

lemma agrees_unrelated: "agrees now B r \<Longrightarrow> (\<And>a s. held_by r' a s = held_by r a s) \<Longrightarrow> agrees now B r'"
  by (simp add: agrees_def)

end

text \<open>The interface on the rows: what the statements of the store's operations do to a row.\<close>

definition claim_live :: "job_row \<Rightarrow> string \<Rightarrow> time \<Rightarrow> bool" where
  "claim_live r owner now \<longleftrightarrow> owner \<noteq> '''' \<and> jr_claimed_by r = owner
     \<and> (case jr_claim_expires_at r of None \<Rightarrow> False | Some t \<Rightarrow> now < t)"

interpretation job_claims: claim_lease claim_live claim_row refresh_row release_row
  by unfold_locales
    (auto simp: claim_live_def claim_row_def refresh_row_def release_row_def take_claim_def claim_free_def
      split: option.splits claim_kind.splits)

text \<open>
  The life of one row: schedulers claim, renew and release it; the one that holds it writes it back as
  \<open>runClaimed\<close> does after a run, with whatever columns, the claim among them; anything else may change the
  columns that are not about the claim; time passes.  The beliefs of the schedulers are recorded beside
  the row.  What is left out is a scheduler that writes the job back after its own claim has ended.
\<close>

inductive claim_life :: "time \<Rightarrow> (string \<Rightarrow> time) \<Rightarrow> job_row \<Rightarrow> bool" where
  start: "jr_claimed_by r = '''' \<Longrightarrow> claim_life now (\<lambda>_. now) r"
| claimed: "claim_life now B r \<Longrightarrow> a \<noteq> '''' \<Longrightarrow> claim_row c a now l r = Some r' \<Longrightarrow> claim_life now (B(a := now + l)) r'"
| renewed: "claim_life now B r \<Longrightarrow> a \<noteq> '''' \<Longrightarrow> refresh_row a now l r = Some r' \<Longrightarrow> claim_life now (B(a := now + l)) r'"
| released: "claim_life now B r \<Longrightarrow> release_row a now r = Some r' \<Longrightarrow> claim_life now (B(a := now)) r'"
| edited: "claim_life now B r \<Longrightarrow> jr_claimed_by r' = jr_claimed_by r
    \<Longrightarrow> jr_claim_expires_at r' = jr_claim_expires_at r \<Longrightarrow> claim_life now B r'"
| saved: "claim_life now B r \<Longrightarrow> now < B a \<Longrightarrow> upserted (job_values job) r = r' \<Longrightarrow> claim_life now (B(a := now)) r'"
| passed: "claim_life now B r \<Longrightarrow> now \<le> later \<Longrightarrow> claim_life later B r"

lemma claim_life_agrees: "claim_life now B r \<Longrightarrow> job_claims.agrees now B r"
proof (induction rule: claim_life.induct)
  case (start r now)
  then show ?case by (simp add: job_claims.agrees_def)
next
  case (claimed now B r c a l r')
  from job_claims.agrees_claim [OF claimed(4,2,3)] show ?case .
next
  case (renewed now B r a l r')
  from job_claims.agrees_refresh [OF renewed(4,2,3)] show ?case .
next
  case (released now B r a r')
  from job_claims.agrees_release [OF this(3,2)] show ?case .
next
  case (edited now B r r')
  show ?case by (rule job_claims.agrees_unrelated [OF edited(4)]) (simp add: claim_live_def edited)
next
  case (saved now B r a job r')
  from job_claims.agrees_holder [OF saved(4,2)] show ?case .
next
  case (passed now B r later)
  from job_claims.agrees_later [OF this(3,2)] show ?case .
qed


definition example_row :: "string \<Rightarrow> string \<Rightarrow> time option \<Rightarrow> job_row" where
  "example_row k owner expires =
     \<lparr>jr_id = k, jr_name = ''check'', jr_schedule_kind = ''every'', jr_schedule_spec = ''5m'',
      jr_prompt = ''check the host'', jr_enabled = 1, jr_next_run_at = Some 100, jr_last_run_at = None,
      jr_last_run_status = '''', jr_consecutive_failures = 0, jr_blocked = 0, jr_blocked_reason = '''',
      jr_blocked_work_id = '''', jr_claimed_by = owner, jr_claim_expires_at = expires,
      jr_claim_heartbeat_at = None, jr_created_at = 0, jr_updated_at = 0\<rparr>"

text \<open>One scheduler claims the job, its lease ends, another claims it, renews its claim and saves the job, and the first
  claims it again.\<close>

lemma example_life:
  "\<exists>B r. claim_life 175 B r \<and> B ''a'' = 225 \<and> jr_claimed_by r = ''a''"
proof -
  define r0 where "r0 = example_row ''j'' '''' None"
  define r1 where "r1 = the (claim_row DueClaim ''a'' 100 50 r0)"
  define r2 where "r2 = the (claim_row DueClaim ''b'' 160 50 r1)"
  define r3 where "r3 = the (refresh_row ''b'' 170 50 r2)"
  define r4 where "r4 = upserted (job_values (scanScheduledJob r0)) r3"
  define r5 where "r5 = the (claim_row DueClaim ''a'' 175 50 r4)"
  have steps: "claim_row DueClaim ''a'' 100 50 r0 = Some r1" "claim_row DueClaim ''b'' 160 50 r1 = Some r2"
    "refresh_row ''b'' 170 50 r2 = Some r3" "claim_row DueClaim ''a'' 175 50 r4 = Some r5" "jr_claimed_by r5 = ''a''"
    unfolding r5_def r4_def r3_def r2_def r1_def r0_def by code_simp+
  have "claim_life 100 (\<lambda>_. 100) r0" by (rule claim_life.start) (simp add: r0_def example_row_def)
  from claim_life.claimed [OF this _ steps(1)]
  have "claim_life 100 ((\<lambda>_. 100)(''a'' := 150)) r1" by simp
  then have "claim_life 160 ((\<lambda>_. 100)(''a'' := 150)) r1" by (rule claim_life.passed) simp
  from claim_life.claimed [OF this _ steps(2)]
  have "claim_life 160 ((\<lambda>_. 100)(''a'' := 150, ''b'' := 210)) r2" by simp
  then have "claim_life 170 ((\<lambda>_. 100)(''a'' := 150, ''b'' := 210)) r2"
    by (rule claim_life.passed) simp
  from claim_life.renewed [OF this _ steps(3)]
  have "claim_life 170 ((\<lambda>_. 100)(''a'' := 150, ''b'' := 220)) r3" by simp
  then have "claim_life 170 ((\<lambda>_. 100)(''a'' := 150, ''b'' := 220, ''b'' := 170)) r4"
    by (rule claim_life.saved [where a = "''b''"]) (simp_all add: r4_def)
  then have "claim_life 170 ((\<lambda>_. 100)(''a'' := 150, ''b'' := 170)) r4" by simp
  then have "claim_life 175 ((\<lambda>_. 100)(''a'' := 150, ''b'' := 170)) r4" by (rule claim_life.passed) simp
  from claim_life.claimed [OF this _ steps(4)]
  have life: "claim_life 175 ((\<lambda>_. 100)(''a'' := 150, ''b'' := 170, ''a'' := 175 + 50)) r5" by simp
  show ?thesis
    by (rule exI [of _ "(\<lambda>_. 100)(''a'' := 150, ''b'' := 170, ''a'' := 175 + 50)"], rule exI [of _ r5])
      (use life steps(5) in simp)
qed


text \<open>
  A claims the job, its lease ends, B claims it; A's run ends and saves the job with the claim cleared; C
  claims it: B and C both hold it until 210, and both would run it.
\<close>

definition late_save :: "job_row option" where
  "late_save =
     (let r0 = example_row ''j'' '''' None;
          r1 = the (claim_row DueClaim ''a'' 100 50 r0);
          r2 = the (claim_row DueClaim ''b'' 160 50 r1);
          r3 = upserted (job_values ((scanScheduledJob r1)\<lparr>job_ClaimedBy := '''', job_ClaimExpiresAt := zero_time,
                 job_ClaimHeartbeatAt := zero_time\<rparr>)) r2
      in if claim_live r2 ''b'' 165 then claim_row DueClaim ''c'' 165 45 r3 else None)"

lemma late_save_breaks_claims:
  "map_option (\<lambda>r. claim_live r ''c'' 170) late_save = Some True"
  by code_simp

section \<open>A scheduler gets exactly the due jobs\<close>

lemma exec_job_quiet:
  "quiet st \<Longrightarrow> exec_job k f st =
     (Inr (fst (update_row k f (db_jobs (st_db st)))),
      st\<lparr>st_count := st_count st + 1,
         st_db := (st_db st)\<lparr>db_jobs := snd (update_row k f (db_jobs (st_db st)))\<rparr>\<rparr>)"
  by (simp add: exec_job_def statement_quiet split_beta Let_def)

lemma GetScheduledJob_quiet:
  "quiet st \<Longrightarrow> GetScheduledJob k st =
     (case map_of (db_jobs (st_db st)) k of
        None \<Rightarrow> (Inl NoRows, st\<lparr>st_count := st_count st + 1\<rparr>)
      | Some r \<Rightarrow> (Inr (scanScheduledJob r), st\<lparr>st_count := st_count st + 1\<rparr>))"
  by (auto simp: GetScheduledJob_def when_available_def quiet_def then_db_def statement_quiet
      select_job_def fail_db_def return_db_def split: option.split)

lemma claim_each_exact:
  assumes "quiet st" "distinct ks"
    and "\<And>k. k \<in> set ks \<Longrightarrow> \<exists>r. map_of (db_jobs (st_db st)) k = Some r \<and> due_row now r \<and> claim_free now r"
  shows "fst (claim_each owner now lease ks st) =
      Inr (map (\<lambda>k. scanScheduledJob (take_claim owner now lease (the (map_of (db_jobs (st_db st)) k)))) ks)
    \<and> map_of (db_jobs (st_db (snd (claim_each owner now lease ks st)))) =
      (\<lambda>k. map_option (\<lambda>r. if k \<in> set ks then take_claim owner now lease r else r) (map_of (db_jobs (st_db st)) k))"
  using assms
proof (induction ks arbitrary: st)
  case Nil
  then show ?case by (simp add: return_db_def map_option.id [unfolded id_def])
next
  case (Cons k ks)
  obtain r where r: "map_of (db_jobs (st_db st)) k = Some r" "due_row now r" "claim_free now r"
    using Cons.prems(3) [of k] by auto
  define jobs' where "jobs' = AList.update k (take_claim owner now lease r) (db_jobs (st_db st))"
  define st' where "st' = st\<lparr>st_db := (st_db st)\<lparr>db_jobs := jobs'\<rparr>, st_count := st_count st + 2\<rparr>"
  have same: "map_of jobs' j = map_of (db_jobs (st_db st)) j" if "j \<in> set ks" for j
    using that Cons.prems(2) by (auto simp: jobs'_def update_conv)
  have claims: "fst (claim_each owner now lease ks st') =
      Inr (map (\<lambda>k. scanScheduledJob (take_claim owner now lease (the (map_of (db_jobs (st_db st)) k)))) ks)"
    "map_of (db_jobs (st_db (snd (claim_each owner now lease ks st')))) =
      (\<lambda>k. map_option (\<lambda>r. if k \<in> set ks then take_claim owner now lease r else r) (map_of jobs' k))"
    using Cons.IH [of st'] Cons.prems same by (auto simp: st'_def cong: map_cong)
  have table: "(\<lambda>j. map_option (\<lambda>r. if j \<in> set ks then take_claim owner now lease r else r) (map_of jobs' j)) =
      (\<lambda>j. map_option (\<lambda>r. if j \<in> set (k # ks) then take_claim owner now lease r else r) (map_of (db_jobs (st_db st)) j))"
    using r(1) Cons.prems(2) by (auto simp: jobs'_def update_conv fun_eq_iff)
  have "update_row k (claim_row DueClaim owner now lease) (db_jobs (st_db st)) = (1, jobs')"
    using r by (simp add: update_row_def claim_row_def row_when_def jobs'_def)
  then have "claim_each owner now lease (k # ks) st =
      then_db (claim_each owner now lease ks)
        (\<lambda>jobs. return_db (scanScheduledJob (take_claim owner now lease r) # jobs)) st'"
    using Cons.prems(1) by (simp add: then_db_def exec_job_quiet GetScheduledJob_quiet jobs'_def st'_def update_conv)
  then show ?case using claims(1) claims(2) [unfolded table] r(1)
    by (simp add: then_db_def return_db_def split_beta split: sum.split)
qed

lemma select_due_rows:
  assumes "jobs_ok d" "rows = take n (by_next_run (filter P (map snd (db_jobs d))))"
  shows "distinct (map jr_id rows)" "\<And>r. r \<in> set rows \<Longrightarrow> map_of (db_jobs d) (jr_id r) = Some r \<and> P r"
proof -
  have ids: "map jr_id (map snd (db_jobs d)) = map fst (db_jobs d)"
    using assms(1) by (auto simp: jobs_ok_def)
  then have "distinct (map jr_id (map snd (db_jobs d)))" unfolding ids using assms(1) by (simp add: jobs_ok_def)
  then have "distinct (map jr_id (filter P (map snd (db_jobs d))))" by (rule distinct_map_filter)
  then have "distinct (map jr_id (by_next_run (filter P (map snd (db_jobs d)))))"
    by (simp add: by_next_run_def distinct_map)
  then show "distinct (map jr_id rows)" by (simp add: assms(2) take_map [symmetric] del: distinct_map)
  fix r
  assume "r \<in> set rows"
  then have "r \<in> set (filter P (map snd (db_jobs d)))"
    by (auto simp: assms(2) by_next_run_def dest!: in_set_takeD)
  then obtain k where "(k, r) \<in> set (db_jobs d)" "P r" by auto
  then show "map_of (db_jobs d) (jr_id r) = Some r \<and> P r"
    using assms(1) by (fastforce simp: jobs_ok_def)
qed

lemma ClaimDue_quiet:
  assumes "quiet st" "jobs_ok (st_db st)" "owner \<noteq> ''''" "0 < lease"
    and "rows = take (nat (if limit \<le> 0 then 100 else limit))
        (by_next_run (filter (\<lambda>r. due_row now r \<and> claim_free now r) (map snd (db_jobs (st_db st)))))"
  shows "fst (ClaimDueScheduledJobs owner now lease limit st) =
      Inr (map (\<lambda>r. scanScheduledJob (take_claim owner now lease r)) rows)
    \<and> map_of (db_jobs (st_db (snd (ClaimDueScheduledJobs owner now lease limit st)))) =
      (\<lambda>k. map_option (\<lambda>r. if k \<in> jr_id ` set rows then take_claim owner now lease r else r)
        (map_of (db_jobs (st_db st)) k))"
proof -
  note rows = select_due_rows [OF assms(2,5)]
  define st' where "st' = st\<lparr>st_count := st_count st + 1\<rparr>"
  have run: "ClaimDueScheduledJobs owner now lease limit st = claim_each owner now lease (map jr_id rows) st'"
    using assms by (simp add: ClaimDueScheduledJobs_def when_available_def quiet_def then_db_def
        statement_quiet [OF assms(1)] select_due_def st'_def)
  have "quiet st'" "db_jobs (st_db st') = db_jobs (st_db st)" using assms(1) by (simp_all add: st'_def)
  moreover have "\<exists>r. map_of (db_jobs (st_db st)) k = Some r \<and> due_row now r \<and> claim_free now r"
    if "k \<in> set (map jr_id rows)" for k
    using that rows(2) by fastforce
  moreover have jobs: "map (\<lambda>k. scanScheduledJob (take_claim owner now lease (the (map_of (db_jobs (st_db st)) k)))) (map jr_id rows)
      = map (\<lambda>r. scanScheduledJob (take_claim owner now lease r)) rows"
    using rows(2) by auto
  ultimately show ?thesis
    using claim_each_exact [of st' "map jr_id rows" now owner lease, OF _ rows(1)]
    unfolding run by (simp only: jobs set_map) 
qed

text \<open>
  C21: With nobody interfering, a scheduler is given exactly the jobs that are enabled, not blocked, due, and not
  claimed or claimed under a lease that has ended, the longest overdue first and at most as many as it
  asked for (100 when it did not say), each as stored but for the claim, which is its own from now until the lease
  ends.  In the table these jobs have this claim, and every other job is as it was.
\<close>

theorem ClaimDue_exact:
  assumes "quiet st" "jobs_ok (st_db st)" "owner \<noteq> ''''" "0 < lease"
    and "rows = take (nat (if limit \<le> 0 then 100 else limit))
      (sort_key (\<lambda>r. time_or_zero (jr_next_run_at r))
        (filter (\<lambda>r. jr_enabled r = 1 \<and> jr_blocked r = 0
            \<and> (case jr_next_run_at r of None \<Rightarrow> False | Some t \<Rightarrow> t \<le> now)
            \<and> (jr_claimed_by r = '''' \<or> (case jr_claim_expires_at r of None \<Rightarrow> True | Some t \<Rightarrow> t \<le> now)))
          (map snd (db_jobs (st_db st)))))"
    and "claimed = (\<lambda>r. r\<lparr>jr_claimed_by := owner, jr_claim_expires_at := Some (now + lease),
      jr_claim_heartbeat_at := Some now, jr_updated_at := now\<rparr>)"
  shows "fst (ClaimDueScheduledJobs owner now lease limit st) = Inr (map (\<lambda>r. scanScheduledJob (claimed r)) rows)
    \<and> map_of (db_jobs (st_db (snd (ClaimDueScheduledJobs owner now lease limit st)))) =
      (\<lambda>k. map_option (\<lambda>r. if k \<in> jr_id ` set rows then claimed r else r) (map_of (db_jobs (st_db st)) k))"
proof -
  have claim: "claimed = take_claim owner now lease" by (simp add: assms(6) take_claim_def fun_eq_iff)
  have "rows = take (nat (if limit \<le> 0 then 100 else limit))
      (by_next_run (filter (\<lambda>r. due_row now r \<and> claim_free now r) (map snd (db_jobs (st_db st)))))"
    unfolding assms(5) by (simp only: by_next_run_def due_row_def claim_free_def conj_assoc)
  from ClaimDue_quiet [OF assms(1-4) this] show ?thesis unfolding claim .
qed

definition example_jobs :: state_db where
  "example_jobs = empty_db\<lparr>db_jobs := [(''i'', (example_row ''i'' '''' None)\<lparr>jr_next_run_at := Some 90\<rparr>),
     (''j'', example_row ''j'' ''a'' (Some 150)), (''k'', example_row ''k'' '''' None)]\<rparr>"

theorem ClaimDue_exact_witness:
  "fst (ClaimDueScheduledJobs ''b'' 120 50 10 (quiet_store (\<lambda>_. 120) example_jobs)) =
     Inr (map (\<lambda>r. scanScheduledJob (take_claim ''b'' 120 50 r))
       [(example_row ''i'' '''' None)\<lparr>jr_next_run_at := Some 90\<rparr>, example_row ''k'' '''' None])"
proof -
  have "jobs_ok (st_db (quiet_store (\<lambda>_. 120) example_jobs))" by code_simp
  note exact = ClaimDue_exact [OF quiet_quiet_store this, of "''b''" 50 _ 10 120, OF _ _ refl refl]
  have "take (nat (if (10::int) \<le> 0 then 100 else 10)) (sort_key (\<lambda>r. time_or_zero (jr_next_run_at r))
        (filter (\<lambda>r. jr_enabled r = 1 \<and> jr_blocked r = 0
            \<and> (case jr_next_run_at r of None \<Rightarrow> False | Some t \<Rightarrow> t \<le> 120)
            \<and> (jr_claimed_by r = '''' \<or> (case jr_claim_expires_at r of None \<Rightarrow> True | Some t \<Rightarrow> t \<le> 120)))
          (map snd (db_jobs (st_db (quiet_store (\<lambda>_. 120) example_jobs)))))) =
    [(example_row ''i'' '''' None)\<lparr>jr_next_run_at := Some 90\<rparr>, example_row ''k'' '''' None]"
    by code_simp
  with exact show ?thesis by (simp add: take_claim_def)
qed

lemma claim_row_refused:
  "claim_live r a now \<Longrightarrow> b \<noteq> a \<Longrightarrow> claim_row c b now lease r = None"
  by (auto simp: claim_live_def claim_row_def row_when_def claim_free_def split: option.splits claim_kind.split)

text \<open>
  while one scheduler's claim on a job is live, another one that asks for the job is told so and
  changes no job, and the due jobs it is given do not contain it.
\<close>

theorem held_job_refused:
  assumes "quiet st" "jobs_ok (st_db st)" "map_of (db_jobs (st_db st)) k = Some r"
    "claim_live r a now" "b \<noteq> a" "b \<noteq> ''''" "0 < lease"
  shows "fst (ClaimScheduledJob k b now lease st) = Inl (AlreadyClaimed k)
    \<and> db_jobs (st_db (snd (ClaimScheduledJob k b now lease st))) = db_jobs (st_db st)
    \<and> (case fst (ClaimDueScheduledJobs b now lease limit st) of
         Inl _ \<Rightarrow> False | Inr jobs \<Rightarrow> k \<notin> job_ID ` set jobs)"
proof -
  have "update_row k (claim_row ManualClaim b now lease) (db_jobs (st_db st)) = (0, db_jobs (st_db st))"
    using assms(3) claim_row_refused [OF assms(4,5)] by (simp add: update_row_def)
  then have manual: "ClaimScheduledJob k b now lease st =
      (Inl (AlreadyClaimed k), st\<lparr>st_count := st_count st + 2\<rparr>)"
    using assms by (simp add: ClaimScheduledJob_def when_available_def quiet_def then_db_def
        exec_job_quiet [OF assms(1)] GetScheduledJob_quiet fail_db_def)
  have free: "\<not> (due_row now r \<and> claim_free now r)"
    using claim_row_refused [OF assms(4,5), of DueClaim lease]
    by (auto simp: claim_row_def)
  have "k \<notin> jr_id ` set (take n (by_next_run
      (filter (\<lambda>r. due_row now r \<and> claim_free now r) (map snd (db_jobs (st_db st))))))" for n
  proof
    assume "k \<in> jr_id ` set (take n (by_next_run
      (filter (\<lambda>r. due_row now r \<and> claim_free now r) (map snd (db_jobs (st_db st))))))"
    then obtain r' where r': "k = jr_id r'" "r' \<in> set (take n (by_next_run
      (filter (\<lambda>r. due_row now r \<and> claim_free now r) (map snd (db_jobs (st_db st))))))" ..
    from select_due_rows(2) [OF assms(2) refl r'(2)] r'(1) assms(3) free show False by simp
  qed
  then show ?thesis
    unfolding ClaimDue_quiet [OF assms(1,2,6,7) refl, THEN conjunct1] using manual
    by (simp add: image_image scanScheduledJob_def take_claim_def)
qed

theorem held_job_refused_witness:
  "fst (ClaimScheduledJob ''j'' ''b'' 120 50 (quiet_store (\<lambda>_. 120) example_jobs)) = Inl (AlreadyClaimed ''j'')"
proof -
  have "jobs_ok (st_db (quiet_store (\<lambda>_. 120) example_jobs))"
    "map_of (db_jobs (st_db (quiet_store (\<lambda>_. 120) example_jobs))) ''j'' = Some (example_row ''j'' ''a'' (Some 150))"
    "claim_live (example_row ''j'' ''a'' (Some 150)) ''a'' 120" by code_simp+
  from held_job_refused [OF quiet_quiet_store this, of "''b''" 50 10] show ?thesis by simp
qed

theorem Save_then_Get_witness:
  "fst (then_db (SaveScheduledJob (scanScheduledJob (example_row ''j'' '''' None)))
       (\<lambda>_. GetScheduledJob ''j'') (quiet_store (\<lambda>_. 7) empty_db))
   = Inr (scanScheduledJob (example_row ''j'' '''' None))"
proof -
  have eq: "job_ID (scanScheduledJob (example_row ''j'' '''' None)) = ''j''" by code_simp
  have filled: "fill_times 7 (scanScheduledJob (example_row ''j'' '''' None)) =
      scanScheduledJob (example_row ''j'' '''' None)" by code_simp
  show ?thesis
    using Save_then_Get [where st = "quiet_store (\<lambda>_. 7) empty_db"
        and job = "scanScheduledJob (example_row ''j'' '''' None)", OF quiet_quiet_store] filled
    by (simp add: eq quiet_store_def empty_db_def)
qed

end
