(* ===== verification/Scheduler.thy ===== *)
theory Scheduler
  imports Cron Scheduler_Store
begin

text \<open>
  The scheduler service, \<open>scheduler/service.go\<close>: creating, changing, pausing and resuming jobs, and running
  them under a claim.  The runner (the agent that executes a job's prompt) and the random source are
  arguments.  While the runner works other processes change the database; so does the heartbeat that
  renews the claim: both are among the changes of others that every statement of the model admits.
  Telemetry is left out.
\<close>

section \<open>The service\<close>

definition RunStatusOK :: string where "RunStatusOK = ''ok''"
definition RunStatusError :: string where "RunStatusError = ''error''"
definition RunStatusBlocked :: string where "RunStatusBlocked = ''blocked''"
definition TaskStateBlockedWaitingUser :: string where "TaskStateBlockedWaitingUser = ''blocked_waiting_user''"
definition TaskStateRunning :: string where "TaskStateRunning = ''running''"

lemmas run_status_defs [keyword_defs] =
  RunStatusOK_def RunStatusError_def RunStatusBlocked_def TaskStateBlockedWaitingUser_def TaskStateRunning_def

text \<open>The error of a run: its text and what it carries, when it carries them.\<close>

record run_error =
  err_Text :: string
  err_TaskState :: "string option"
  err_WorkID :: "string option"

record run_outcome =
  out_Output :: string
  out_RunID :: int
  out_Error :: "run_error option"

record service =
  svc_owner :: string
  svc_claimLease :: duration
  svc_heartbeatInterval :: duration

datatype sched_error =
    DBFailure db_error
  | PromptEmpty
  | BadSchedule schedule_error
  | NoRandom

definition New :: service where
  "New = \<lparr>svc_owner = '''', svc_claimLease = 5 * Minute, svc_heartbeatInterval = Minute\<rparr>"

definition SetClaimOwner :: "string \<Rightarrow> service \<Rightarrow> service" where
  "SetClaimOwner owner s = s\<lparr>svc_owner := TrimSpace owner\<rparr>"

definition SetClaimLease :: "duration \<Rightarrow> service \<Rightarrow> service" where
  "SetClaimLease lease s = (if lease > 0 then s\<lparr>svc_claimLease := lease\<rparr> else s)"

definition SetHeartbeatInterval :: "duration \<Rightarrow> service \<Rightarrow> service" where
  "SetHeartbeatInterval interval s = (if interval > 0 then s\<lparr>svc_heartbeatInterval := interval\<rparr> else s)"

text \<open>A generated owner is kept; without a random source the owner is \<open>unknown\<close>.\<close>

definition claimOwner :: "string option \<Rightarrow> service \<Rightarrow> string \<times> service" where
  "claimOwner generated s =
     (if svc_owner s = '''' then
        (case generated of None \<Rightarrow> (''unknown'', s) | Some owner \<Rightarrow> (owner, s\<lparr>svc_owner := owner\<rparr>))
      else (svc_owner s, s))"

definition newClaimOwner :: "string option \<Rightarrow> string \<Rightarrow> string option \<Rightarrow> string option" where
  "newClaimOwner hostname pid rand =
     map_option (\<lambda>r. (case hostname of
           None \<Rightarrow> ''unknown-host''
         | Some h \<Rightarrow> if TrimSpace h = '''' then ''unknown-host'' else h) @ '':'' @ pid @ '':owner_'' @ r) rand"

text \<open>The interval at which a running job's claim is renewed.\<close>

definition heartbeat_interval :: "service \<Rightarrow> duration" where
  "heartbeat_interval s =
     (let i0 = (if svc_heartbeatInterval s \<le> 0 then Minute else svc_heartbeatInterval s);
          i1 = (if i0 \<ge> svc_claimLease s \<and> svc_claimLease s > 0 then svc_claimLease s div 2 else i0)
      in if i1 \<le> 0 then Second else i1)"

text \<open>The next run, which always exists as an answer (\<open>NextRun_returns\<close>).\<close>

definition next_run :: "string \<Rightarrow> string \<Rightarrow> time \<Rightarrow> schedule_error + time" where
  "next_run kind spec now = the (NextRun kind spec now)"

definition with_next_run ::
  "string \<Rightarrow> string \<Rightarrow> time \<Rightarrow> (time \<Rightarrow> (sched_error, 'a) store_op) \<Rightarrow> (sched_error, 'a) store_op" where
  "with_next_run kind spec now f =
     (case next_run kind spec now of Inl e \<Rightarrow> fail_db (BadSchedule e) | Inr next \<Rightarrow> f next)"

section \<open>Creating and changing jobs\<close>

definition new_job :: "string \<Rightarrow> string \<Rightarrow> string \<Rightarrow> string \<Rightarrow> string \<Rightarrow> time \<Rightarrow> time \<Rightarrow> scheduled_job" where
  "new_job k name kind spec prompt next now =
     \<lparr>job_ID = k, job_Name = (if TrimSpace name = '''' then ''Scheduled job'' else TrimSpace name),
      job_ScheduleKind = TrimSpace kind, job_ScheduleSpec = TrimSpace spec, job_Prompt = TrimSpace prompt,
      job_Enabled = True, job_NextRunAt = next, job_LastRunAt = zero_time, job_LastRunStatus = '''',
      job_ConsecutiveFail = 0, job_Blocked = False, job_BlockedReason = '''', job_BlockedWorkID = '''',
      job_ClaimedBy = '''', job_ClaimExpiresAt = zero_time, job_ClaimHeartbeatAt = zero_time,
      job_CreatedAt = now, job_UpdatedAt = now\<rparr>"

definition Create ::
  "string option \<Rightarrow> string \<Rightarrow> string \<Rightarrow> string \<Rightarrow> string \<Rightarrow> (sched_error, scheduled_job) store_op" where
  "Create rand name kind spec prompt =
     (if TrimSpace prompt = '''' then fail_db PromptEmpty
      else then_db clock_now (\<lambda>now. with_next_run kind spec now (\<lambda>next.
        case rand of
          None \<Rightarrow> fail_db NoRandom
        | Some r \<Rightarrow>
            (let job = new_job (''job_'' @ r) name kind spec prompt next now
             in then_db (lift_errors DBFailure (SaveScheduledJob job)) (\<lambda>_. return_db job)))))"

definition or_keep :: "string \<Rightarrow> string \<Rightarrow> string" where
  "or_keep new old = (if TrimSpace new \<noteq> '''' then TrimSpace new else old)"

definition edit_job :: "string \<Rightarrow> string \<Rightarrow> string \<Rightarrow> string \<Rightarrow> scheduled_job \<Rightarrow> scheduled_job" where
  "edit_job name kind spec prompt job =
     job\<lparr>job_Name := or_keep name (job_Name job), job_ScheduleKind := or_keep kind (job_ScheduleKind job),
         job_ScheduleSpec := or_keep spec (job_ScheduleSpec job), job_Prompt := or_keep prompt (job_Prompt job)\<rparr>"

definition Update_job ::
  "string \<Rightarrow> string \<Rightarrow> string \<Rightarrow> string \<Rightarrow> string \<Rightarrow> (sched_error, scheduled_job) store_op" where
  "Update_job k name kind spec prompt =
     then_db (lift_errors DBFailure (GetScheduledJob k)) (\<lambda>job0.
       let job = edit_job name kind spec prompt job0 in
       then_db clock_now (\<lambda>now.
       with_next_run (job_ScheduleKind job) (job_ScheduleSpec job) now (\<lambda>next.
       then_db clock_now (\<lambda>now.
         let job' = job\<lparr>job_NextRunAt := next, job_UpdatedAt := now\<rparr>
         in then_db (lift_errors DBFailure (SaveScheduledJob job')) (\<lambda>_. return_db job')))))"

definition SetEnabled :: "string \<Rightarrow> bool \<Rightarrow> (sched_error, scheduled_job) store_op" where
  "SetEnabled k enabled =
     then_db (lift_errors DBFailure (GetScheduledJob k)) (\<lambda>job.
     then_db
       (if enabled
        then then_db clock_now (\<lambda>now. with_next_run (job_ScheduleKind job) (job_ScheduleSpec job) now return_db)
        else return_db zero_time) (\<lambda>next.
     then_db clock_now (\<lambda>now.
       let job' = job\<lparr>job_Enabled := enabled, job_NextRunAt := next, job_UpdatedAt := now\<rparr>
       in then_db (lift_errors DBFailure (SaveScheduledJob job')) (\<lambda>_. return_db job'))))"

section \<open>Running\<close>

definition blockedTaskState :: "run_error option \<Rightarrow> string" where
  "blockedTaskState e =
     (case e of None \<Rightarrow> '''' | Some err \<Rightarrow> (case err_TaskState err of None \<Rightarrow> '''' | Some s \<Rightarrow> s))"

definition run_status :: "run_error option \<Rightarrow> string" where
  "run_status e =
     (if blockedTaskState e = TaskStateBlockedWaitingUser then RunStatusBlocked
      else if e \<noteq> None then RunStatusError else RunStatusOK)"

definition run_error_text :: "run_error option \<Rightarrow> string" where
  "run_error_text e = (case e of None \<Rightarrow> '''' | Some err \<Rightarrow> err_Text err)"

text \<open>What a run leaves on the job: its outcome,\<close>

definition after_outcome :: "time \<Rightarrow> run_error option \<Rightarrow> scheduled_job \<Rightarrow> scheduled_job" where
  "after_outcome started e job0 =
     (let status = run_status e;
          job = job0\<lparr>job_LastRunAt := started, job_LastRunStatus := status\<rparr>
      in if status = RunStatusBlocked
         then job\<lparr>job_Blocked := True, job_BlockedReason := run_error_text e,
                  job_BlockedWorkID := (case e of None \<Rightarrow> job_BlockedWorkID job
                    | Some err \<Rightarrow> (case err_WorkID err of None \<Rightarrow> job_BlockedWorkID job | Some w \<Rightarrow> w))\<rparr>
         else if e \<noteq> None then job\<lparr>job_ConsecutiveFail := job_ConsecutiveFail job + 1\<rparr>
         else job\<lparr>job_ConsecutiveFail := 0, job_Blocked := False, job_BlockedReason := '''',
                  job_BlockedWorkID := ''''\<rparr>)"

text \<open>the next run, unless it was run by hand,\<close>

definition after_schedule :: "bool \<Rightarrow> time \<Rightarrow> scheduled_job \<Rightarrow> scheduled_job" where
  "after_schedule manual finished job =
     (if manual then job
      else if job_ScheduleKind job = ''at'' then job\<lparr>job_Enabled := False, job_NextRunAt := zero_time\<rparr>
      else case next_run (job_ScheduleKind job) (job_ScheduleSpec job) finished of
        Inr next \<Rightarrow> job\<lparr>job_NextRunAt := next\<rparr>
      | Inl _ \<Rightarrow> job\<lparr>job_Enabled := False, job_NextRunAt := zero_time\<rparr>)"

text \<open>and no claim.\<close>

definition after_run :: "bool \<Rightarrow> time \<Rightarrow> time \<Rightarrow> run_error option \<Rightarrow> scheduled_job \<Rightarrow> scheduled_job" where
  "after_run manual started finished e job =
     (after_schedule manual finished (after_outcome started e job))
       \<lparr>job_ClaimedBy := '''', job_ClaimExpiresAt := zero_time, job_ClaimHeartbeatAt := zero_time,
        job_UpdatedAt := finished\<rparr>"

definition run_record :: "scheduled_job \<Rightarrow> time \<Rightarrow> time \<Rightarrow> run_outcome \<Rightarrow> job_run" where
  "run_record job started finished outcome =
     \<lparr>run_ID = 0, run_JobID = job_ID job, run_StartedAt = started, run_FinishedAt = finished,
      run_Status = run_status (out_Error outcome), run_Output = out_Output outcome,
      run_Error = run_error_text (out_Error outcome), run_RunID = out_RunID outcome\<rparr>"

text \<open>A run and the error that comes with it (none for a blocked run).\<close>

definition run_job ::
  "(scheduled_job \<Rightarrow> run_outcome) \<Rightarrow> bool \<Rightarrow> scheduled_job \<Rightarrow> (sched_error, job_run \<times> run_error option) store_op" where
  "run_job runner manual job =
     then_db clock_now (\<lambda>started.
       let outcome = runner job; e = out_Error outcome in
     then_db clock_now (\<lambda>finished.
       let r = run_record job started finished outcome in
     then_db (lift_errors DBFailure (RecordScheduledJobRun r)) (\<lambda>n.
     then_db (lift_errors DBFailure (SaveScheduledJob (after_run manual started finished e job))) (\<lambda>_.
       return_db (r\<lparr>run_ID := n\<rparr>, if run_status e = RunStatusBlocked then None else e)))))"

text \<open>
  The deferred release uses the variable \<open>job\<close>, which the failed read has overwritten with the zero job:
  then it releases the claim on the job with the empty id.
\<close>

definition runClaimed ::
  "string \<Rightarrow> (scheduled_job \<Rightarrow> run_outcome) \<Rightarrow> scheduled_job \<Rightarrow> bool
   \<Rightarrow> (sched_error, job_run \<times> run_error option) store_op" where
  "runClaimed owner runner claimed manual st =
     (case lift_errors DBFailure (GetScheduledJob (job_ID claimed)) st of
        (Inl e, st1) \<Rightarrow> (Inl e, snd (ReleaseScheduledJobClaim '''' owner st1))
      | (Inr job, st1) \<Rightarrow>
         (let (r, st2) = run_job runner manual job st1
          in (r, snd (ReleaseScheduledJobClaim (job_ID job) owner st2))))"

datatype due_error = RunFailed run_error | SchedFailed sched_error

text \<open>The runs of the claimed jobs one after the other, and the first error.\<close>

primrec run_each ::
  "string \<Rightarrow> (scheduled_job \<Rightarrow> run_outcome) \<Rightarrow> scheduled_job list \<Rightarrow> due_error option \<Rightarrow> store
   \<Rightarrow> job_run list \<times> due_error option \<times> store" where
  "run_each owner runner [] firstErr st = ([], firstErr, st)"
| "run_each owner runner (job # jobs) firstErr st =
     (let (r, st1) = runClaimed owner runner job False st;
          err = (case r of Inl e \<Rightarrow> Some (SchedFailed e) | Inr (_, e) \<Rightarrow> map_option RunFailed e);
          first = (if firstErr = None then err else firstErr);
          (runs, last, st2) = run_each owner runner jobs first st1
      in (case r of
            Inl _ \<Rightarrow> (runs, last, st2)
          | Inr (run, e) \<Rightarrow> if e \<noteq> None \<and> run_JobID run = '''' then (runs, last, st2) else (run # runs, last, st2)))"

definition RunDue ::
  "service \<Rightarrow> string option \<Rightarrow> (scheduled_job \<Rightarrow> run_outcome) \<Rightarrow> store
   \<Rightarrow> job_run list \<times> due_error option \<times> service \<times> store" where
  "RunDue s generated runner st =
     (let (owner, s') = claimOwner generated s in
      case then_db clock_now (\<lambda>now. ClaimDueScheduledJobs owner now (svc_claimLease s) 100) st of
        (Inl e, st') \<Rightarrow> ([], Some (SchedFailed (DBFailure e)), s', st')
      | (Inr jobs, st') \<Rightarrow> (let (runs, err, st'') = run_each owner runner jobs None st' in (runs, err, s', st'')))"

definition RunNow ::
  "string \<Rightarrow> service \<Rightarrow> (scheduled_job \<Rightarrow> run_outcome) \<Rightarrow> string \<Rightarrow> bool
   \<Rightarrow> (sched_error, job_run \<times> run_error option) store_op" where
  "RunNow owner s runner k manual =
     then_db clock_now (\<lambda>now.
     then_db (lift_errors DBFailure (ClaimScheduledJob k owner now (svc_claimLease s))) (\<lambda>job.
       runClaimed owner runner job manual))"

section \<open>The heartbeat is fast enough\<close>

text \<open>
  a claim is renewed before it ends: the renewal interval is positive and shorter than the lease,
  for every lease of at least two nanoseconds, whatever interval was configured.
\<close>

theorem heartbeat_before_lease:
  assumes "2 \<le> svc_claimLease s"
  shows "0 < heartbeat_interval s \<and> heartbeat_interval s < svc_claimLease s"
  using assms minute_pos by (auto simp: heartbeat_interval_def Let_def)

theorem heartbeat_before_lease_witness:
  "0 < heartbeat_interval (SetHeartbeatInterval (9 * Minute) New)
   \<and> heartbeat_interval (SetHeartbeatInterval (9 * Minute) New) < 5 * Minute"
proof -
  have "svc_claimLease (SetHeartbeatInterval (9 * Minute) New) = 5 * Minute"
    "2 \<le> svc_claimLease (SetHeartbeatInterval (9 * Minute) New)" by code_simp+
  with heartbeat_before_lease [of "SetHeartbeatInterval (9 * Minute) New"] show ?thesis by simp
qed

section \<open>When a job is due\<close>

lemma next_run_future:
  assumes "next_run kind spec now = Inr t"
  shows "now < t \<or> IsZero t"
proof -
  obtain r where "NextRun kind spec now = Some r" using NextRun_total by blast
  with assms show ?thesis using NextRun_future_or_zero [of kind spec now t] by (simp add: next_run_def)
qed

lemma not_due_before:
  "job_NextRunAt job = at \<Longrightarrow> now < at \<or> IsZero at \<Longrightarrow> due_row t (job_values job) \<Longrightarrow> now < t"
  by (auto simp: due_row_def job_values_def null_time_def split: if_splits)

text \<open>
  a job that was created is free and due only later than it was created; a job for a time that has
  passed is never due.
\<close>

theorem created_job_not_due:
  assumes "Create rand name kind spec prompt st = (Inr job, st')"
  shows "job_CreatedAt job = st_clock st (st_ticks st) \<and> claim_free t (job_values job)
    \<and> (due_row t (job_values job) \<longrightarrow> job_CreatedAt job < t)"
proof -
  obtain at r where at: "next_run kind spec (st_clock st (st_ticks st)) = Inr at"
    and job: "job = new_job (''job_'' @ r) name kind spec prompt at (st_clock st (st_ticks st))"
    using assms by (auto simp: Create_def then_db_def clock_now_def with_next_run_def fail_db_def
        return_db_def Let_def split: if_splits sum.splits option.splits prod.splits)
  have "job_CreatedAt job < t" if "due_row t (job_values job)"
    using not_due_before [OF _ next_run_future [OF at] that] by (simp add: job new_job_def)
  then show ?thesis by (simp add: job new_job_def claim_free_def job_values_def)
qed

lemma after_run_not_due:
  assumes "due_row t (job_values (after_run False started finished e job))"
  shows "finished < t"
proof -
  define job1 where "job1 = after_outcome started e job"
  have kept: "job_ScheduleKind job1 = job_ScheduleKind job" "job_ScheduleSpec job1 = job_ScheduleSpec job"
    by (simp_all add: job1_def after_outcome_def Let_def)
  show ?thesis
  proof (cases "job_ScheduleKind job = ''at''")
    case True
    with assms kept show ?thesis
      by (simp add: after_run_def after_schedule_def due_row_def job_values_def flip: job1_def)
  next
    case False
    show ?thesis
    proof (cases "next_run (job_ScheduleKind job) (job_ScheduleSpec job) finished")
      case (Inl err)
      with assms False kept show ?thesis
        by (simp add: after_run_def after_schedule_def due_row_def job_values_def flip: job1_def)
    next
      case (Inr at)
      have "job_NextRunAt (after_run False started finished e job) = at"
        using False kept Inr by (simp add: after_run_def after_schedule_def flip: job1_def)
      from not_due_before [OF this next_run_future [OF Inr] assms] show ?thesis .
    qed
  qed
qed

lemma after_run_simps:
  "job_ID (after_run manual started finished e job) = job_ID job"
  "job_ClaimedBy (after_run manual started finished e job) = ''''"
  "job_ScheduleKind job = ''at'' \<Longrightarrow> \<not> job_Enabled (after_run False started finished e job)"
  "run_status e = RunStatusBlocked \<Longrightarrow> job_Blocked (after_run manual started finished e job)"
  by (auto simp: after_run_def after_schedule_def after_outcome_def Let_def split: sum.split)

lemma due_row_created [simp]: "due_row t (r\<lparr>jr_created_at := c\<rparr>) = due_row t r"
  by (simp add: due_row_def)

lemma due_row_fill [simp]: "due_row t (job_values (fill_times u job)) = due_row t (job_values job)"
  by (simp add: due_row_def job_values_def fill_times_def)

text \<open>The course of a run that nobody disturbs.\<close>

lemma runClaimed_quiet:
  fixes st :: store and r :: job_row and runner :: "scheduled_job \<Rightarrow> run_outcome" and manual :: bool
  assumes "quiet st" "owner \<noteq> ''''" "map_of (db_jobs (st_db st)) (job_ID claimed) = Some r"
    "jr_id r = job_ID claimed"
  defines "job \<equiv> scanScheduledJob r"
    and "started \<equiv> st_clock st (st_ticks st)" and "finished \<equiv> st_clock st (Suc (st_ticks st))"
  defines "e \<equiv> out_Error (runner job)"
  defines "run \<equiv> (run_record job started finished (runner job))\<lparr>run_ID := db_last_run_id (st_db st) + 1\<rparr>"
    and "row \<equiv> (job_values (fill_times (st_clock st (Suc (Suc (st_ticks st)))) (after_run manual started finished e job)))
      \<lparr>jr_created_at := jr_created_at r\<rparr>"
  shows "\<exists>st'. runClaimed owner runner claimed manual st =
      (Inr (run, if run_status e = RunStatusBlocked then None else e), st')
    \<and> db_runs (st_db st') = db_runs (st_db st) @ [run]
    \<and> map_of (db_jobs (st_db st')) = (map_of (db_jobs (st_db st)))(job_ID claimed \<mapsto> row)"
proof -
  have avail: "st_available st" using assms(1) by (simp add: quiet_def)
  have ids: "job_ID job = job_ID claimed" "jr_id row = job_ID claimed" "jr_claimed_by row = ''''"
    using assms(4) by (simp_all add: job_def row_def scanScheduledJob_def job_values_def fill_times_def after_run_simps)
  have eq: "jr_id (job_values (fill_times u (after_run manual started finished e job))) = job_ID claimed" for u
    using ids(1) by (simp add: job_values_def fill_times_def after_run_simps)
  have no_claim: "release_row owner u row = None" for u
    using ids(3) assms(2) by (simp add: release_row_def)
  show ?thesis
    unfolding runClaimed_def run_job_def
    by (simp add: then_db_def lift_errors_def GetScheduledJob_quiet [OF assms(1)] assms(3) clock_now_def
      Let_def RecordScheduledJobRun_def SaveScheduledJob_def when_available_def avail statement_quiet assms(1)
      insert_run_def upsert_job_def upserted_def return_db_def ReleaseScheduledJobClaim_def exec_job_quiet eq ids(1)
      update_row_def update_conv no_claim flip: job_def started_def finished_def e_def row_def)
      (simp add: run_def update_conv')
qed

text \<open>
  C15: a scheduled run that nobody disturbs ends with its record appended and the job free again, and the
  job is due only later than the run finished; a job for a single time is disabled; a blocked run blocks
  the job, so that it is not due at any time, and is not an error of the scheduler.
\<close>

theorem scheduled_run_effect:
  assumes "quiet st" "owner \<noteq> ''''" "map_of (db_jobs (st_db st)) (job_ID claimed) = Some r"
    "jr_id r = job_ID claimed"
  shows "\<exists>run err st' row. runClaimed owner runner claimed False st = (Inr (run, err), st')
    \<and> db_runs (st_db st') = db_runs (st_db st) @ [run]
    \<and> map_of (db_jobs (st_db st')) = (map_of (db_jobs (st_db st)))(job_ID claimed \<mapsto> row)
    \<and> jr_claimed_by row = ''''
    \<and> (\<forall>t. due_row t row \<longrightarrow> run_FinishedAt run < t)
    \<and> (jr_schedule_kind r = ''at'' \<longrightarrow> jr_enabled row = 0)
    \<and> (run_Status run = RunStatusBlocked \<longrightarrow> (\<forall>t. \<not> due_row t row) \<and> err = None)"
proof -
  define e where "e = out_Error (runner (scanScheduledJob r))"
  define after where "after = after_run False (st_clock st (st_ticks st)) (st_clock st (Suc (st_ticks st))) e
      (scanScheduledJob r)"
  define run where "run = (run_record (scanScheduledJob r) (st_clock st (st_ticks st))
      (st_clock st (Suc (st_ticks st))) (runner (scanScheduledJob r)))\<lparr>run_ID := db_last_run_id (st_db st) + 1\<rparr>"
  define row where "row = (job_values (fill_times (st_clock st (Suc (Suc (st_ticks st)))) after))
      \<lparr>jr_created_at := jr_created_at r\<rparr>"
  obtain st' where run': "runClaimed owner runner claimed False st =
      (Inr (run, if run_status e = RunStatusBlocked then None else e), st')"
    "db_runs (st_db st') = db_runs (st_db st) @ [run]"
    "map_of (db_jobs (st_db st')) = (map_of (db_jobs (st_db st)))(job_ID claimed \<mapsto> row)"
    using runClaimed_quiet [OF assms, of runner False] by (auto simp: e_def after_def run_def row_def)
  have times: "run_FinishedAt run = st_clock st (Suc (st_ticks st))" "run_Status run = run_status e"
    by (simp_all add: run_def run_record_def e_def)
  have due: "run_FinishedAt run < t" if "due_row t row" for t
    using that after_run_not_due unfolding times row_def due_row_created due_row_fill after_def by blast
  have blocked: "\<not> due_row t row" if "run_status e = RunStatusBlocked" for t
    using after_run_simps(4) [OF that]
    by (simp add: row_def due_row_def job_values_def after_def fill_times_def)
  have "jr_claimed_by row = ''''" "jr_schedule_kind r = ''at'' \<longrightarrow> jr_enabled row = 0"
    by (simp_all add: row_def job_values_def fill_times_def after_def after_run_simps scanScheduledJob_def)
  with run' due blocked times(2) show ?thesis by auto
qed

definition ok_runner :: "scheduled_job \<Rightarrow> run_outcome" where
  "ok_runner job = \<lparr>out_Output = ''done'', out_RunID = 1, out_Error = None\<rparr>"

theorem scheduled_run_effect_witness:
  "\<exists>run err st' row. runClaimed ''a'' ok_runner (scanScheduledJob (example_row ''k'' '''' None)) False
       (quiet_store (\<lambda>_. 120) example_jobs) = (Inr (run, err), st') \<and> map_of (db_jobs (st_db st')) ''k'' = Some row
     \<and> (\<forall>t. due_row t row \<longrightarrow> run_FinishedAt run < t)"
proof -
  have job: "job_ID (scanScheduledJob (example_row ''k'' '''' None)) = ''k''" by code_simp
  have row: "map_of (db_jobs (st_db (quiet_store (\<lambda>_. 120) example_jobs)))
      (job_ID (scanScheduledJob (example_row ''k'' '''' None))) = Some (example_row ''k'' '''' None)"
    "jr_id (example_row ''k'' '''' None) = job_ID (scanScheduledJob (example_row ''k'' '''' None))"
    by code_simp+
  show ?thesis
    using scheduled_run_effect [OF quiet_quiet_store _ row, of "''a''" ok_runner] unfolding job by fastforce
qed

theorem created_job_not_due_witness:
  "claim_free 200 (job_values (new_job ''job_1'' ''check'' ''every'' ''5m'' ''look'' (5 * Minute) 0))
   \<and> \<not> due_row 0 (job_values (new_job ''job_1'' ''check'' ''every'' ''5m'' ''look'' (5 * Minute) 0))"
proof -
  define st where "st = quiet_store (\<lambda>_. 0) empty_db"
  have "fst (Create (Some ''1'') ''check'' ''every'' ''5m'' ''look'' st) =
      Inr (new_job ''job_1'' ''check'' ''every'' ''5m'' ''look'' (5 * Minute) 0)"
    unfolding st_def by code_simp
  then have "Create (Some ''1'') ''check'' ''every'' ''5m'' ''look'' st =
      (Inr (new_job ''job_1'' ''check'' ''every'' ''5m'' ''look'' (5 * Minute) 0),
       snd (Create (Some ''1'') ''check'' ''every'' ''5m'' ''look'' st))"
    by (simp add: prod_eq_iff)
  from created_job_not_due [OF this, of "0"] created_job_not_due [OF this, of 200]
  show ?thesis by (simp add: new_job_def)
qed

section \<open>What a run overwrites\<close>

text \<open>
  \<open>runClaimed\<close> reads the job before the run and writes that copy back after it.  A change made while the
  job runs is lost: here the job is paused during its run and enabled again when the run ends.
\<close>

definition job_after :: "(state_db \<Rightarrow> state_db) \<Rightarrow> job_row option" where
  "job_after change =
     (let st = (quiet_store (\<lambda>_. 120) example_jobs)\<lparr>st_others := (\<lambda>n. if n = 1 then change else (\<lambda>d. d))\<rparr>
      in map_of (db_jobs (st_db (snd (runClaimed ''a'' ok_runner
           (scanScheduledJob (example_row ''k'' '''' None)) False st)))) ''k'')"

definition pause_k :: "state_db \<Rightarrow> state_db" where
  "pause_k d = st_db (snd (SetEnabled ''k'' False (quiet_store (\<lambda>_. 125) d)))"

definition delete_k :: "state_db \<Rightarrow> state_db" where
  "delete_k d = st_db (snd (DeleteScheduledJob ''k'' (quiet_store (\<lambda>_. 125) d)))"

lemma pause_during_run_is_undone:
  "map_option jr_enabled (map_of (db_jobs (pause_k example_jobs)) ''k'') = Some 0"
  "map_option (\<lambda>r. (jr_enabled r, jr_next_run_at r)) (job_after pause_k) = Some (1, Some (120 + 5 * Minute))"
  by code_simp+

text \<open>A job deleted during its run comes back when the run ends.\<close>

lemma delete_during_run_is_undone:
  "map_of (db_jobs (delete_k example_jobs)) ''k'' = None"
  "map_option jr_enabled (job_after delete_k) = Some 1"
  by code_simp+

text \<open>A run whose first read fails keeps its claim, so that nobody else can run the job before the lease ends.\<close>

lemma failed_read_keeps_claim:
  "case (let st = (quiet_store (\<lambda>_. 120) example_jobs)\<lparr>st_answer := (\<lambda>n. if n = 0 then ExecError ''busy'' else ExecOk)\<rparr>
         in runClaimed ''a'' ok_runner (scanScheduledJob (example_row ''j'' ''a'' (Some 150))) False st) of
     (r, st) \<Rightarrow> r = Inl (DBFailure (SQLError ''busy''))
       \<and> map_option jr_claimed_by (map_of (db_jobs (st_db st)) ''j'') = Some ''a''"
  by code_simp

text \<open>
  \<open>RunDue\<close> claims all due jobs at once and then runs them one after the other, but only the job that is
  running has a heartbeat.  When the first run takes longer than the lease, another scheduler can claim the
  next job, and the first one runs it all the same, while the other's claim is live, and clears that claim.
\<close>

definition waiting_job_claims :: "state_db \<times> state_db \<times> state_db" where
  "waiting_job_claims =
     (let late = 120 + 10 * Minute;
          claimed = st_db (snd (ClaimDueScheduledJobs ''a'' 120 (5 * Minute) 100 (quiet_store (\<lambda>_. 120) example_jobs)));
          first_run = st_db (snd (runClaimed ''a'' ok_runner (scanScheduledJob (example_row ''i'' '''' None)) False
             (quiet_store (\<lambda>n. if n = 0 then 120 else late) claimed)));
          taken = st_db (snd (ClaimScheduledJob ''k'' ''b'' late (5 * Minute) (quiet_store (\<lambda>_. late) first_run)));
          second_run = st_db (snd (runClaimed ''a'' ok_runner (scanScheduledJob (example_row ''k'' '''' None)) False
             (quiet_store (\<lambda>_. late) taken)))
      in (claimed, taken, second_run))"

lemma waiting_job_runs_without_claim:
  "case waiting_job_claims of (claimed, taken, second_run) \<Rightarrow>
     map_option (\<lambda>r. claim_live r ''a'' 120) (map_of (db_jobs claimed) ''k'') = Some True
     \<and> map_option (\<lambda>r. claim_live r ''b'' (120 + 10 * Minute)) (map_of (db_jobs taken) ''k'') = Some True
     \<and> map run_JobID (db_runs second_run) = [''i'', ''k'']
     \<and> map_option jr_claimed_by (map_of (db_jobs second_run) ''k'') = Some ''''"
  by code_simp

end
