(* ===== verification/Blocked_Work.thy ===== *)
theory Blocked_Work
  imports Scheduler Action_Grants
begin

text \<open>
  Work that waits for a human, \<open>state/store_blocked.go\<close>, and its approval, \<open>ApproveBlockedWork\<close> of
  \<open>tools/shell_grant.go\<close>, which joins three tables: it issues the grant the blocked action waits for,
  resolves the work and unblocks the scheduled job.  The decoders of the stored JSON texts (the envelope
  of the grant, the continuation, the arguments of the shell tool) and the random source are arguments.
\<close>

section \<open>Blocked work\<close>

record blocked_work =
  bw_ID :: string
  bw_CreatedAt :: time
  bw_UpdatedAt :: time
  bw_ResolvedAt :: time
  bw_Task :: string
  bw_TaskClass :: string
  bw_TaskState :: string
  bw_BlockedReason :: string
  bw_PendingApprovalType :: string
  bw_PendingApprovalPayload :: string
  bw_ConversationSnapshot :: string
  bw_ContinuationData :: string
  bw_ScheduledJobID :: string

definition work_values :: "blocked_work \<Rightarrow> work_row" where
  "work_values w =
     \<lparr>wr_id = bw_ID w, wr_created_at = bw_CreatedAt w, wr_updated_at = bw_UpdatedAt w,
      wr_resolved_at = null_time (bw_ResolvedAt w), wr_task = bw_Task w, wr_task_class = bw_TaskClass w,
      wr_task_state = bw_TaskState w, wr_blocked_reason = bw_BlockedReason w,
      wr_pending_approval_type = bw_PendingApprovalType w,
      wr_pending_approval_payload = bw_PendingApprovalPayload w,
      wr_conversation_snapshot = bw_ConversationSnapshot w, wr_continuation_data = bw_ContinuationData w,
      wr_scheduled_job_id = bw_ScheduledJobID w\<rparr>"

definition scanBlockedWork :: "work_row \<Rightarrow> blocked_work" where
  "scanBlockedWork r =
     \<lparr>bw_ID = wr_id r, bw_CreatedAt = wr_created_at r, bw_UpdatedAt = wr_updated_at r,
      bw_ResolvedAt = time_or_zero (wr_resolved_at r), bw_Task = wr_task r, bw_TaskClass = wr_task_class r,
      bw_TaskState = wr_task_state r, bw_BlockedReason = wr_blocked_reason r,
      bw_PendingApprovalType = wr_pending_approval_type r,
      bw_PendingApprovalPayload = wr_pending_approval_payload r,
      bw_ConversationSnapshot = wr_conversation_snapshot r, bw_ContinuationData = wr_continuation_data r,
      bw_ScheduledJobID = wr_scheduled_job_id r\<rparr>"

definition fill_work :: "time \<Rightarrow> blocked_work \<Rightarrow> blocked_work" where
  "fill_work now w =
     w\<lparr>bw_CreatedAt := (if IsZero (bw_CreatedAt w) then now else bw_CreatedAt w),
       bw_UpdatedAt := (if IsZero (bw_UpdatedAt w) then now else bw_UpdatedAt w),
       bw_TaskState := (if bw_TaskState w = '''' then TaskStateBlockedWaitingUser else bw_TaskState w)\<rparr>"

definition upsert_work :: "work_row \<Rightarrow> state_db \<Rightarrow> unit \<times> state_db" where
  "upsert_work new d =
     ((), d\<lparr>db_blocked := AList.update (wr_id new)
        (case map_of (db_blocked d) (wr_id new) of
           None \<Rightarrow> new
         | Some old \<Rightarrow> new\<lparr>wr_created_at := wr_created_at old\<rparr>) (db_blocked d)\<rparr>)"

datatype work_error =
    WorkDB db_error
  | NoWorkID
  | NotAwaiting string
  | NotScoped string
  | NoEnvelope string
  | BadContinuation
  | NoAction string
  | BadShellAction
  | WorkGrant grant_error

definition SaveBlockedWork :: "string option \<Rightarrow> blocked_work \<Rightarrow> (work_error, string) store_op" where
  "SaveBlockedWork rand w0 st =
     (if \<not> st_available st then (Inl (WorkDB Unavailable), st)
      else then_db clock_now (\<lambda>now.
        case (if bw_ID w0 = '''' then map_option (\<lambda>r. ''blocked_'' @ r) rand else Some (bw_ID w0)) of
          None \<Rightarrow> fail_db NoWorkID
        | Some k \<Rightarrow>
            then_db (lift_errors WorkDB (statement (upsert_work (work_values (fill_work now (w0\<lparr>bw_ID := k\<rparr>))))))
              (\<lambda>_. return_db k)) st)"

definition GetBlockedWork :: "string \<Rightarrow> blocked_work db" where
  "GetBlockedWork k =
     when_available (then_db (statement (\<lambda>d. (map_of (db_blocked d) k, d)))
       (\<lambda>row. case row of None \<Rightarrow> fail_db NoRows | Some r \<Rightarrow> return_db (scanBlockedWork r)))"

definition awaiting :: "work_row \<Rightarrow> bool" where
  "awaiting r \<longleftrightarrow> wr_task_state r = TaskStateBlockedWaitingUser"

definition ListBlockedWork :: "blocked_work list db" where
  "ListBlockedWork =
     when_available (then_db
       (statement (\<lambda>d. (sort_key wr_created_at (filter awaiting (map snd (db_blocked d))), d)))
       (\<lambda>rows. return_db (map scanBlockedWork rows)))"

definition resolve_row :: "string \<Rightarrow> time \<Rightarrow> time \<Rightarrow> work_row \<Rightarrow> work_row option" where
  "resolve_row nextState t1 t2 =
     row_when (\<lambda>_. True)
       (\<lambda>r. r\<lparr>wr_task_state := nextState, wr_resolved_at := Some t1, wr_updated_at := t2\<rparr>)"

definition exec_work :: "string \<Rightarrow> (work_row \<Rightarrow> work_row option) \<Rightarrow> nat db" where
  "exec_work k f =
     statement (\<lambda>d. let (n, works) = update_row k f (db_blocked d) in (n, d\<lparr>db_blocked := works\<rparr>))"

definition ResolveBlockedWork :: "string \<Rightarrow> string \<Rightarrow> unit db" where
  "ResolveBlockedWork k nextState0 =
     (let nextState = (if nextState0 = '''' then TaskStateRunning else nextState0) in
      when_available (then_db clock_now (\<lambda>t1. then_db clock_now (\<lambda>t2.
        then_db (exec_work k (resolve_row nextState t1 t2)) (\<lambda>_. return_db ())))))"

text \<open>One resolved piece of work, and the job that was waiting for it.\<close>

definition resolve_one :: "blocked_work \<Rightarrow> blocked_work db" where
  "resolve_one w =
     then_db (ResolveBlockedWork (bw_ID w) TaskStateRunning) (\<lambda>_.
     then_db (if bw_ScheduledJobID w \<noteq> '''' then UnblockScheduledJob (bw_ScheduledJobID w) else return_db ())
       (\<lambda>_. return_db (w\<lparr>bw_TaskState := TaskStateRunning\<rparr>)))"

primrec resolve_each :: "(blocked_work \<Rightarrow> bool) \<Rightarrow> blocked_work list \<Rightarrow> blocked_work list db" where
  "resolve_each P [] = return_db []"
| "resolve_each P (w # ws) =
     (if P w
      then then_db (resolve_one w) (\<lambda>w'. then_db (resolve_each P ws) (\<lambda>ws'. return_db (w' # ws')))
      else resolve_each P ws)"

definition ResolveBlockedShellCommand :: "string \<Rightarrow> blocked_work list db" where
  "ResolveBlockedShellCommand command =
     when_available (then_db ListBlockedWork
       (resolve_each (\<lambda>w. bw_PendingApprovalType w = ''shell_command''
                        \<and> bw_PendingApprovalPayload w = command)))"

definition blockedGrantDigest :: "(string \<Rightarrow> security_grant option) \<Rightarrow> string \<Rightarrow> string" where
  "blockedGrantDigest decode_grant payload =
     (case decode_grant payload of
        None \<Rightarrow> payload
      | Some grant \<Rightarrow> if g_Digest grant \<noteq> '''' then g_Digest grant else payload)"

definition waits_for :: "(string \<Rightarrow> security_grant option) \<Rightarrow> string \<Rightarrow> blocked_work \<Rightarrow> bool" where
  "waits_for decode_grant digest w \<longleftrightarrow> bw_PendingApprovalType w = ''security_action''
     \<and> blockedGrantDigest decode_grant (bw_PendingApprovalPayload w) = digest"

definition ResolveBlockedSecurityGrant ::
  "(string \<Rightarrow> security_grant option) \<Rightarrow> string \<Rightarrow> blocked_work list db" where
  "ResolveBlockedSecurityGrant decode_grant digest =
     when_available (then_db ListBlockedWork (resolve_each (waits_for decode_grant digest)))"

section \<open>Approval\<close>

definition save_grant :: "security_grant \<Rightarrow> unit db" where
  "save_grant grant =
     when_available (then_db clock_now (\<lambda>now.
       case SaveSecurityActionGrant True now grant [] of
         Inl e \<Rightarrow> fail_db (GrantRejected e)
       | Inr _ \<Rightarrow> statement (\<lambda>d.
           ((), d\<lparr>db_grants := (case SaveSecurityActionGrant True now grant (db_grants d) of
                                 Inl _ \<Rightarrow> db_grants d | Inr table \<Rightarrow> table)\<rparr>))))"

record stored_json =
  sj_grant :: "string \<Rightarrow> security_grant option" \<comment> \<open>the envelope of the approval\<close>
  sj_call :: "string \<Rightarrow> (string \<times> string) option" \<comment> \<open>name and arguments of the blocked tool call\<close>
  sj_command :: "string \<Rightarrow> string option" \<comment> \<open>the command of the shell tool's arguments\<close>

text \<open>The action of a blocked tool call: its name and the text the grant binds.\<close>

definition blocked_action :: "stored_json \<Rightarrow> blocked_work \<Rightarrow> work_error + string \<times> string" where
  "blocked_action json w =
     (case sj_call json (bw_ContinuationData w) of
        None \<Rightarrow> Inl BadContinuation
      | Some (name, arguments) \<Rightarrow>
          if TrimSpace name = '''' then Inl (NoAction (bw_ID w))
          else if name = ''shell_execute''
          then (case sj_command json arguments of
                  None \<Rightarrow> Inl BadShellAction
                | Some command \<Rightarrow> Inr (name, command))
          else Inr (name, arguments))"

text \<open>The checks before the grant: what is approved and the envelope it was reviewed in.\<close>

definition reviewed_action ::
  "stored_json \<Rightarrow> blocked_work \<Rightarrow> work_error + security_grant \<times> string \<times> string" where
  "reviewed_action json w =
     (if bw_TaskState w \<noteq> TaskStateBlockedWaitingUser then Inl (NotAwaiting (bw_ID w))
      else if bw_PendingApprovalType w \<noteq> ''security_action'' \<or> bw_PendingApprovalPayload w = ''''
      then Inl (NotScoped (bw_ID w))
      else case sj_grant json (bw_PendingApprovalPayload w) of
        None \<Rightarrow> Inl (NoEnvelope (bw_ID w))
      | Some expected \<Rightarrow>
          if g_Digest expected = '''' then Inl (NoEnvelope (bw_ID w))
          else (case blocked_action json w of
                  Inl e \<Rightarrow> Inl e
                | Inr (name, payload) \<Rightarrow> Inr (expected, name, payload)))"

definition ApproveBlockedWork ::
  "(string \<Rightarrow> string) \<Rightarrow> (shell_effect list \<Rightarrow> string) \<Rightarrow> json_decoder \<Rightarrow> stored_json \<Rightarrow> os_world
   \<Rightarrow> effective_policy \<Rightarrow> string \<Rightarrow> duration \<Rightarrow> string \<Rightarrow> (work_error, security_grant) store_op" where
  "ApproveBlockedWork sha encode decode json w p workID ttl source st =
     (if \<not> st_available st then (Inl (WorkDB Unavailable), st)
      else then_db (lift_errors WorkDB (GetBlockedWork (TrimSpace workID))) (\<lambda>work.
        case reviewed_action json work of
          Inl e \<Rightarrow> fail_db e
        | Inr (expected, name, payload) \<Rightarrow>
            then_db clock_now (\<lambda>now.
            case NewBlockedWorkSecurityGrant sha encode decode w now name payload p expected ttl source of
              Inl e \<Rightarrow> fail_db (WorkGrant e)
            | Inr grant \<Rightarrow>
                then_db (lift_errors WorkDB (save_grant grant)) (\<lambda>_.
                then_db (lift_errors WorkDB (ResolveBlockedSecurityGrant (sj_grant json) (g_Digest grant)))
                  (\<lambda>_. return_db grant)))) st)"

section \<open>Resolving in an undisturbed store\<close>

text \<open>What resolving does to a piece of work and to the job that waited for it; all else is kept.\<close>

definition work_resolved :: "work_row \<Rightarrow> work_row \<Rightarrow> bool" where
  "work_resolved r r' \<longleftrightarrow> wr_task_state r' = TaskStateRunning"

definition job_unblocked :: "job_row \<Rightarrow> job_row \<Rightarrow> bool" where
  "job_unblocked r r' \<longleftrightarrow> jr_blocked r' = 0 \<and> jr_enabled r' = jr_enabled r
     \<and> jr_next_run_at r' = jr_next_run_at r \<and> jr_claimed_by r' = jr_claimed_by r
     \<and> jr_claim_expires_at r' = jr_claim_expires_at r"

definition resolved_in :: "string set \<Rightarrow> string set \<Rightarrow> state_db \<Rightarrow> state_db \<Rightarrow> bool" where
  "resolved_in K J d d' \<longleftrightarrow> rows_changed K work_resolved (db_blocked d) (db_blocked d')
     \<and> rows_changed J job_unblocked (db_jobs d) (db_jobs d')
     \<and> db_grants d' = db_grants d \<and> db_runs d' = db_runs d"

lemma resolved_in_refl: "resolved_in {} {} d d"
  by (simp add: resolved_in_def)

lemma resolved_in_trans:
  assumes "resolved_in K J d d'" "resolved_in L M d' d''"
  shows "resolved_in (K \<union> L) (J \<union> M) d d''"
  using assms rows_changed_trans [of K work_resolved "db_blocked d" "db_blocked d'" L "db_blocked d''"]
    rows_changed_trans [of J job_unblocked "db_jobs d" "db_jobs d'" M "db_jobs d''"]
  by (simp add: resolved_in_def work_resolved_def job_unblocked_def)

definition waiting_job :: "blocked_work \<Rightarrow> string set" where
  "waiting_job w = (if bw_ScheduledJobID w = '''' then {} else {bw_ScheduledJobID w})"

lemma ResolveBlockedWork_quiet:
  assumes "quiet st"
  shows "\<exists>st'. ResolveBlockedWork k TaskStateRunning st = (Inr (), st') \<and> quiet st'
    \<and> resolved_in {k} {} (st_db st) (st_db st')"
  using assms
  by (auto simp: ResolveBlockedWork_def then_db_def when_available_def quiet_def [of st] clock_now_def
      exec_work_def statement_quiet return_db_def Let_def split_beta resolved_in_def resolve_row_def
      row_when_def work_resolved_def TaskStateRunning_def intro!: rows_changed_update_row)

lemma UnblockScheduledJob_quiet:
  assumes "quiet st"
  shows "\<exists>st'. UnblockScheduledJob k st = (Inr (), st') \<and> quiet st'
    \<and> resolved_in {} {k} (st_db st) (st_db st')"
  using assms
  by (auto simp: UnblockScheduledJob_def then_db_def when_available_def quiet_def [of st] clock_now_def
      exec_job_quiet return_db_def resolved_in_def row_when_def job_unblocked_def
      intro!: rows_changed_update_row)

lemma resolve_one_quiet:
  assumes "quiet st"
  shows "\<exists>st'. resolve_one w st = (Inr (w\<lparr>bw_TaskState := TaskStateRunning\<rparr>), st') \<and> quiet st'
    \<and> resolved_in {bw_ID w} (waiting_job w) (st_db st) (st_db st')"
proof -
  obtain st1 where one: "ResolveBlockedWork (bw_ID w) TaskStateRunning st = (Inr (), st1)" "quiet st1"
    "resolved_in {bw_ID w} {} (st_db st) (st_db st1)"
    using ResolveBlockedWork_quiet [OF assms] by blast
  obtain st2 where two: "UnblockScheduledJob (bw_ScheduledJobID w) st1 = (Inr (), st2)" "quiet st2"
    "resolved_in {} {bw_ScheduledJobID w} (st_db st1) (st_db st2)"
    using UnblockScheduledJob_quiet [OF one(2)] by blast
  show ?thesis
    using one two resolved_in_trans [OF one(3) two(3)]
    by (simp add: resolve_one_def then_db_def return_db_def waiting_job_def)
qed

lemma resolve_each_quiet:
  assumes "quiet st"
  shows "\<exists>st'. resolve_each P ws st = (Inr (map (\<lambda>w. w\<lparr>bw_TaskState := TaskStateRunning\<rparr>) (filter P ws)), st')
    \<and> quiet st'
    \<and> resolved_in (bw_ID ` set (filter P ws)) (\<Union> (waiting_job ` set (filter P ws))) (st_db st) (st_db st')"
  using assms
proof (induction ws arbitrary: st)
  case Nil
  then show ?case by (simp add: return_db_def resolved_in_refl)
next
  case (Cons w ws)
  show ?case
  proof (cases "P w")
    case False
    then show ?thesis using Cons by simp
  next
    case True
    obtain st1 where one: "resolve_one w st = (Inr (w\<lparr>bw_TaskState := TaskStateRunning\<rparr>), st1)" "quiet st1"
      "resolved_in {bw_ID w} (waiting_job w) (st_db st) (st_db st1)"
      using resolve_one_quiet [OF Cons.prems] by blast
    obtain st2 where rest: "resolve_each P ws st1 =
        (Inr (map (\<lambda>w. w\<lparr>bw_TaskState := TaskStateRunning\<rparr>) (filter P ws)), st2)" "quiet st2"
      "resolved_in (bw_ID ` set (filter P ws)) (\<Union> (waiting_job ` set (filter P ws))) (st_db st1) (st_db st2)"
      using Cons.IH [OF one(2)] by blast
    show ?thesis
      using True one rest resolved_in_trans [OF one(3) rest(3)] by (simp add: then_db_def return_db_def)
  qed
qed

section \<open>What an approval grants\<close>

lemma GetBlockedWork_quiet:
  "quiet st \<Longrightarrow> GetBlockedWork k st =
     ((case map_of (db_blocked (st_db st)) k of None \<Rightarrow> Inl NoRows | Some r \<Rightarrow> Inr (scanBlockedWork r)),
      st\<lparr>st_count := st_count st + 1\<rparr>)"
  by (auto simp: GetBlockedWork_def when_available_def quiet_def then_db_def statement_quiet
      fail_db_def return_db_def split: option.split)

lemma Approve_steps:
  assumes "ApproveBlockedWork sha encode decode json w p workID ttl source st = (Inr grant, st')"
  obtains work st1 expected name payload where
    "GetBlockedWork (TrimSpace workID) st = (Inr work, st1)"
    "reviewed_action json work = Inr (expected, name, payload)"
    "NewBlockedWorkSecurityGrant sha encode decode w (st_clock st1 (st_ticks st1)) name payload p expected
       ttl source = Inr grant"
    "then_db (lift_errors WorkDB (save_grant grant)) (\<lambda>_.
       then_db (lift_errors WorkDB (ResolveBlockedSecurityGrant (sj_grant json) (g_Digest grant)))
         (\<lambda>_. return_db grant)) (st1\<lparr>st_ticks := st_ticks st1 + 1\<rparr>) = (Inr grant, st')"
proof -
  obtain work st1 where get: "GetBlockedWork (TrimSpace workID) st = (Inr work, st1)"
    using assms by (auto simp: ApproveBlockedWork_def then_db_def lift_errors_def split: if_splits prod.splits sum.splits)
  obtain expected name payload where reviewed: "reviewed_action json work = Inr (expected, name, payload)"
    using assms get by (auto simp: ApproveBlockedWork_def then_db_def lift_errors_def fail_db_def
        split: if_splits sum.splits)
  define st2 where "st2 = st1\<lparr>st_ticks := st_ticks st1 + 1\<rparr>"
  define save where "save = (\<lambda>g. then_db (lift_errors WorkDB (save_grant g)) (\<lambda>_.
       then_db (lift_errors WorkDB (ResolveBlockedSecurityGrant (sj_grant json) (g_Digest g)))
         (\<lambda>_. return_db g)))"
  have rest: "(case NewBlockedWorkSecurityGrant sha encode decode w (st_clock st1 (st_ticks st1)) name payload p
        expected ttl source of Inl e \<Rightarrow> fail_db (WorkGrant e) | Inr g \<Rightarrow> save g) st2 = (Inr grant, st')"
    using assms get reviewed unfolding save_def
    by (simp add: ApproveBlockedWork_def then_db_def [of "lift_errors WorkDB (GetBlockedWork (TrimSpace workID))"]
        then_db_def [of clock_now] lift_errors_def [of WorkDB "GetBlockedWork (TrimSpace workID)"]
        clock_now_def st2_def split: if_splits)
  then obtain g where g: "NewBlockedWorkSecurityGrant sha encode decode w (st_clock st1 (st_ticks st1)) name
      payload p expected ttl source = Inr g" "save g st2 = (Inr grant, st')"
    by (auto simp: fail_db_def split: sum.splits)
  moreover from g(2) have "g = grant"
    by (auto simp: save_def then_db_def return_db_def split: prod.splits sum.splits)
  ultimately show ?thesis using that get reviewed by (auto simp: save_def st2_def)
qed

text \<open>
  C11: whatever the database answers and others do to it, an approval that succeeds grants exactly what was
  reviewed: the work read from the table was waiting with a scoped envelope, and the grant has the
  envelope's digest, effects, policy and scope, for one use within an hour, of an action the policy does
  not deny now.
\<close>

theorem approval_grants_reviewed_action:
  assumes "ApproveBlockedWork sha encode decode json w p workID ttl source st = (Inr grant, st')"
  shows "\<exists>work expected name payload now.
    fst (GetBlockedWork (TrimSpace workID) st) = Inr work
    \<and> bw_TaskState work = TaskStateBlockedWaitingUser \<and> bw_PendingApprovalType work = ''security_action''
    \<and> sj_grant json (bw_PendingApprovalPayload work) = Some expected
    \<and> blocked_action json work = Inr (name, payload)
    \<and> g_Digest grant = g_Digest expected \<and> g_EffectDigest grant = g_EffectDigest expected
    \<and> g_PolicyHash grant = g_PolicyHash expected \<and> g_ActionKind grant = name
    \<and> g_Host grant = g_Host expected \<and> g_Principal grant = g_Principal expected
    \<and> g_WorkingDirectory grant = g_WorkingDirectory expected \<and> g_RemainingUses grant = 1
    \<and> now < g_ExpiresAt grant \<and> g_ExpiresAt grant \<le> now + Hour
    \<and> (\<exists>effects d. current_effects decode w name payload p = Inr (effects, d) \<and> d \<noteq> DecisionDeny)"
proof (rule Approve_steps [OF assms])
  fix work st1 expected name payload
  assume steps: "GetBlockedWork (TrimSpace workID) st = (Inr work, st1)"
    "reviewed_action json work = Inr (expected, name, payload)"
    "NewBlockedWorkSecurityGrant sha encode decode w (st_clock st1 (st_ticks st1)) name payload p expected
       ttl source = Inr grant"
  have "bw_TaskState work = TaskStateBlockedWaitingUser" "bw_PendingApprovalType work = ''security_action''"
    "sj_grant json (bw_PendingApprovalPayload work) = Some expected"
    "blocked_action json work = Inr (name, payload)"
    using steps(2) by (auto simp: reviewed_action_def split: if_splits option.splits sum.splits)
  moreover have "g_Digest grant = g_Digest expected \<and> g_EffectDigest grant = g_EffectDigest expected
    \<and> g_PolicyHash grant = g_PolicyHash expected \<and> g_ActionKind grant = name
    \<and> g_Host grant = g_Host expected \<and> g_Principal grant = g_Principal expected
    \<and> g_WorkingDirectory grant = g_WorkingDirectory expected \<and> g_RemainingUses grant = 1
    \<and> st_clock st1 (st_ticks st1) < g_ExpiresAt grant \<and> g_ExpiresAt grant \<le> st_clock st1 (st_ticks st1) + Hour
    \<and> (\<exists>effects d. current_effects decode w name payload p = Inr (effects, d) \<and> d \<noteq> DecisionDeny)"
    using steps(3) by (auto simp: NewBlockedWorkSecurityGrant_def securityGrantBindingAtScope_def Let_def
        issue_def valid_lifetime_def split: sum.splits if_splits)
  ultimately show ?thesis using steps(1) by auto
qed

section \<open>What an approval changes\<close>

lemma save_grant_quiet:
  assumes "quiet st"
  shows "save_grant grant st =
    (case SaveSecurityActionGrant True (st_clock st (st_ticks st)) grant (db_grants (st_db st)) of
       Inl e \<Rightarrow> (Inl (GrantRejected e), st\<lparr>st_ticks := st_ticks st + 1\<rparr>)
     | Inr table \<Rightarrow> (Inr (), st\<lparr>st_ticks := st_ticks st + 1, st_count := st_count st + 1,
                         st_db := (st_db st)\<lparr>db_grants := table\<rparr>\<rparr>))"
proof -
  have "st_available st" using assms by (simp add: quiet_def)
  have same: "(\<exists>e. SaveSecurityActionGrant True now grant t1 = Inl e \<and> SaveSecurityActionGrant True now grant t2 = Inl e)
    \<or> (\<exists>a b. SaveSecurityActionGrant True now grant t1 = Inr a \<and> SaveSecurityActionGrant True now grant t2 = Inr b)"
    for now t1 t2
    by (simp add: SaveSecurityActionGrant_def Let_def)
  show ?thesis
    using same [of "st_clock st (st_ticks st)" "[]" "db_grants (st_db st)"] \<open>st_available st\<close> assms
    by (auto simp: save_grant_def when_available_def then_db_def clock_now_def statement_quiet fail_db_def)
qed

text \<open>The unresolved work that waits for a grant, in the order of its creation.\<close>

definition waiting_works :: "(string \<Rightarrow> security_grant option) \<Rightarrow> string \<Rightarrow> state_db \<Rightarrow> blocked_work list" where
  "waiting_works decode digest d =
     filter (waits_for decode digest)
       (map scanBlockedWork (sort_key wr_created_at (filter awaiting (map snd (db_blocked d)))))"

lemma Resolve_quiet:
  assumes "quiet st"
  shows "\<exists>r st'. ResolveBlockedSecurityGrant decode digest st = (Inr r, st') \<and> quiet st'
    \<and> resolved_in (bw_ID ` set (waiting_works decode digest (st_db st)))
        (\<Union> (waiting_job ` set (waiting_works decode digest (st_db st)))) (st_db st) (st_db st')"
proof -
  define st1 where "st1 = st\<lparr>st_count := st_count st + 1\<rparr>"
  have "st_available st" using assms by (simp add: quiet_def)
  then have "ResolveBlockedSecurityGrant decode digest st =
      resolve_each (waits_for decode digest)
        (map scanBlockedWork (sort_key wr_created_at (filter awaiting (map snd (db_blocked (st_db st)))))) st1"
    using assms(1) by (simp add: ResolveBlockedSecurityGrant_def ListBlockedWork_def when_available_def
        then_db_def statement_quiet return_db_def st1_def)
  moreover have "quiet st1" "st_db st1 = st_db st" using assms by (simp_all add: st1_def)
  ultimately show ?thesis
    using resolve_each_quiet [of st1 "waits_for decode digest"
        "map scanBlockedWork (sort_key wr_created_at (filter awaiting (map snd (db_blocked (st_db st)))))"]
    unfolding waiting_works_def by auto
qed

lemma Approve_quiet:
  assumes "ApproveBlockedWork sha encode decode json w p workID ttl source st = (Inr grant, st')" "quiet st"
  obtains now table where
    "SaveSecurityActionGrant True now grant (db_grants (st_db st)) = Inr table"
    "db_grants (st_db st') = table"
    "resolved_in (bw_ID ` set (waiting_works (sj_grant json) (g_Digest grant) (st_db st)))
       (\<Union> (waiting_job ` set (waiting_works (sj_grant json) (g_Digest grant) (st_db st))))
       ((st_db st)\<lparr>db_grants := table\<rparr>) (st_db st')"
proof (rule Approve_steps [OF assms(1)])
  fix work and st1 :: store and expected name payload
  define st2 where "st2 = st1\<lparr>st_ticks := st_ticks st1 + 1\<rparr>"
  assume get: "GetBlockedWork (TrimSpace workID) st = (Inr work, st1)"
    and "then_db (lift_errors WorkDB (save_grant grant)) (\<lambda>_.
       then_db (lift_errors WorkDB (ResolveBlockedSecurityGrant (sj_grant json) (g_Digest grant)))
         (\<lambda>_. return_db grant)) (st1\<lparr>st_ticks := st_ticks st1 + 1\<rparr>) = (Inr grant, st')"
  then have rest: "then_db (lift_errors WorkDB (save_grant grant)) (\<lambda>_.
       then_db (lift_errors WorkDB (ResolveBlockedSecurityGrant (sj_grant json) (g_Digest grant)))
         (\<lambda>_. return_db grant)) st2 = (Inr grant, st')" by (simp add: st2_def)
  have st2: "quiet st2" "st_db st2 = st_db st"
    using get assms(2) by (auto simp: GetBlockedWork_quiet st2_def)
  obtain table where table: "SaveSecurityActionGrant True (st_clock st2 (st_ticks st2)) grant
      (db_grants (st_db st)) = Inr table"
    using rest st2 by (auto simp: then_db_def lift_errors_def save_grant_quiet split: sum.splits)
  define st3 where "st3 = st2\<lparr>st_ticks := st_ticks st2 + 1, st_count := st_count st2 + 1,
      st_db := (st_db st)\<lparr>db_grants := table\<rparr>\<rparr>"
  have st3: "quiet st3" "st_db st3 = (st_db st)\<lparr>db_grants := table\<rparr>" using st2 by (simp_all add: st3_def)
  have "then_db (lift_errors WorkDB (ResolveBlockedSecurityGrant (sj_grant json) (g_Digest grant)))
      (\<lambda>_. return_db grant) st3 = (Inr grant, st')"
    using rest st2 table by (simp add: then_db_def [of "lift_errors WorkDB (save_grant grant)"]
        lift_errors_def [of WorkDB "save_grant grant"] save_grant_quiet st3_def)
  moreover obtain r st4 where "ResolveBlockedSecurityGrant (sj_grant json) (g_Digest grant) st3 = (Inr r, st4)"
    "resolved_in (bw_ID ` set (waiting_works (sj_grant json) (g_Digest grant) (st_db st3)))
        (\<Union> (waiting_job ` set (waiting_works (sj_grant json) (g_Digest grant) (st_db st3)))) (st_db st3) (st_db st4)"
    using Resolve_quiet [OF st3(1)] by blast
  ultimately have resolved: "resolved_in (bw_ID ` set (waiting_works (sj_grant json) (g_Digest grant) (st_db st)))
       (\<Union> (waiting_job ` set (waiting_works (sj_grant json) (g_Digest grant) (st_db st))))
       ((st_db st)\<lparr>db_grants := table\<rparr>) (st_db st')"
    using st3(2) by (simp add: then_db_def lift_errors_def return_db_def waiting_works_def)
  show ?thesis using that [OF table _ resolved] resolved by (simp add: resolved_in_def)
qed

text \<open>
  C9: an approval that nobody disturbs makes the blocked action executable and releases what waited for it:
  the grant can be spent until it expires, exactly the work waiting for this grant is resolved, the jobs
  waiting with it are unblocked and keep their schedule and claims, and all other rows stay as they are.
\<close>

theorem approval_releases_waiting_work:
  assumes "ApproveBlockedWork sha encode decode json w p workID ttl source st = (Inr grant, st')" "quiet st"
    and "\<not> IsZero t" "t < g_ExpiresAt grant" "answer 0 = ExecOk"
  shows "fst (ConsumeSecurityActionGrant True clock answer cancelled grant t (db_grants (st_db st'))) = Inr True
    \<and> rows_changed (bw_ID ` set (waiting_works (sj_grant json) (g_Digest grant) (st_db st))) work_resolved
        (db_blocked (st_db st)) (db_blocked (st_db st'))
    \<and> rows_changed (\<Union> (waiting_job ` set (waiting_works (sj_grant json) (g_Digest grant) (st_db st)))) job_unblocked
        (db_jobs (st_db st)) (db_jobs (st_db st'))"
proof (rule Approve_quiet [OF assms(1,2)])
  fix now table
  assume table: "SaveSecurityActionGrant True now grant (db_grants (st_db st)) = Inr table"
    "db_grants (st_db st') = table"
    and resolved: "resolved_in (bw_ID ` set (waiting_works (sj_grant json) (g_Digest grant) (st_db st)))
       (\<Union> (waiting_job ` set (waiting_works (sj_grant json) (g_Digest grant) (st_db st))))
       ((st_db st)\<lparr>db_grants := table\<rparr>) (st_db st')"
  have "map_of table (g_Digest grant) = Some ((fill_grant now grant)\<lparr>g_UsedAt := None\<rparr>)"
    by (rule Save_row [OF table(1)])
  moreover have "grant_matches grant t ((fill_grant now grant)\<lparr>g_UsedAt := None\<rparr>)"
    using assms(4) by (simp add: grant_matches_def fill_grant_def)
  ultimately have "fst (ConsumeSecurityActionGrant True clock answer cancelled grant t table) = Inr True"
    using assms(3) by (simp add: Consume_ok [where answer = answer, OF assms(5)] update_grant_def)
  with resolved table(2) show ?thesis by (simp add: resolved_in_def)
qed

text \<open>
  an approval that fails in an undisturbed store changes nothing: no grant is issued, no work is
  resolved, no job is unblocked.
\<close>

theorem failed_approval_changes_nothing:
  assumes "ApproveBlockedWork sha encode decode json w p workID ttl source st = (Inl e, st')" "quiet st"
  shows "st_db st' = st_db st"
proof -
  have resolves: False if "quiet st3"
    "then_db (lift_errors WorkDB (ResolveBlockedSecurityGrant (sj_grant json) digest)) (\<lambda>_. return_db grant) st3
       = (Inl e', st4)" for st3 st4 :: store and digest and grant :: security_grant and e'
    using Resolve_quiet [OF that(1), of "sj_grant json" digest] that(2)
    by (auto simp: then_db_def lift_errors_def return_db_def)
  define st1 where "st1 = st\<lparr>st_count := st_count st + 1\<rparr>"
  define st2 where "st2 = st1\<lparr>st_ticks := Suc (st_ticks st1)\<rparr>"
  have quiet2: "quiet st2" "st_db st2 = st_db st" using assms(2) by (simp_all add: st1_def st2_def)
  have save: "st_db st' = st_db st"
    if "then_db (lift_errors WorkDB (save_grant g)) (\<lambda>_.
         then_db (lift_errors WorkDB (ResolveBlockedSecurityGrant (sj_grant json) (g_Digest g)))
           (\<lambda>_. return_db g)) st2 = (Inl e, st')" for g
  proof (cases "SaveSecurityActionGrant True (st_clock st2 (st_ticks st2)) g (db_grants (st_db st2))")
    case (Inl _)
    with that quiet2 show ?thesis
      by (auto simp: then_db_def [of "lift_errors WorkDB (save_grant g)"]
          lift_errors_def [of WorkDB "save_grant g"] save_grant_quiet)
  next
    case (Inr table)
    define st3 where "st3 = st2\<lparr>st_ticks := st_ticks st2 + 1, st_count := st_count st2 + 1,
      st_db := (st_db st2)\<lparr>db_grants := table\<rparr>\<rparr>"
    have "then_db (lift_errors WorkDB (ResolveBlockedSecurityGrant (sj_grant json) (g_Digest g)))
           (\<lambda>_. return_db g) st3 = (Inl e, st')"
      using that quiet2(1) Inr by (simp add: then_db_def [of "lift_errors WorkDB (save_grant g)"]
          lift_errors_def [of WorkDB "save_grant g"] save_grant_quiet st3_def)
    moreover have "quiet st3" using quiet2(1) by (simp add: st3_def)
    ultimately show ?thesis using resolves by blast
  qed
  show ?thesis
  proof (cases "map_of (db_blocked (st_db st)) (TrimSpace workID)")
    case None
    with assms show ?thesis
      by (auto simp: ApproveBlockedWork_def quiet_def then_db_def lift_errors_def GetBlockedWork_quiet [OF assms(2)])
  next
    case (Some r)
    have rest: "(case reviewed_action json (scanBlockedWork r) of
          Inl e \<Rightarrow> fail_db e
        | Inr (expected, name, payload) \<Rightarrow>
            then_db clock_now (\<lambda>now.
            case NewBlockedWorkSecurityGrant sha encode decode w now name payload p expected ttl source of
              Inl e \<Rightarrow> fail_db (WorkGrant e)
            | Inr grant \<Rightarrow>
                then_db (lift_errors WorkDB (save_grant grant)) (\<lambda>_.
                then_db (lift_errors WorkDB (ResolveBlockedSecurityGrant (sj_grant json) (g_Digest grant)))
                  (\<lambda>_. return_db grant)))) st1 = (Inl e, st')"
      using assms Some
      by (simp add: ApproveBlockedWork_def then_db_def [of "lift_errors WorkDB (GetBlockedWork (TrimSpace workID))"]
        lift_errors_def [of WorkDB "GetBlockedWork (TrimSpace workID)"] GetBlockedWork_quiet quiet_def [of st] st1_def)
    show ?thesis
    proof (cases "reviewed_action json (scanBlockedWork r)")
      case (Inl _)
      with rest show ?thesis by (auto simp: fail_db_def st1_def)
    next
      case (Inr reviewed)
      obtain expected name payload where reviewed: "reviewed = (expected, name, payload)" by (cases reviewed)
      have rest2: "(case NewBlockedWorkSecurityGrant sha encode decode w (st_clock st1 (st_ticks st1)) name payload p
            expected ttl source of
          Inl e \<Rightarrow> fail_db (WorkGrant e)
        | Inr grant \<Rightarrow>
            then_db (lift_errors WorkDB (save_grant grant)) (\<lambda>_.
            then_db (lift_errors WorkDB (ResolveBlockedSecurityGrant (sj_grant json) (g_Digest grant)))
              (\<lambda>_. return_db grant))) st2 = (Inl e, st')"
        using rest by (simp add: Inr reviewed then_db_def [of clock_now] clock_now_def st2_def)
      show ?thesis
      proof (cases "NewBlockedWorkSecurityGrant sha encode decode w (st_clock st1 (st_ticks st1)) name payload p
            expected ttl source")
        case (Inl _)
        with rest2 show ?thesis using quiet2(2) by (auto simp: fail_db_def)
      next
        case (Inr g)
        with rest2 show ?thesis by (intro save [of g]) simp
      qed
    qed
  qed
qed

section \<open>An example\<close>

definition example_json :: stored_json where
  "example_json =
     \<lparr>sj_grant = (\<lambda>s. if s = ''envelope'' then Some example_envelope else None),
      sj_call = (\<lambda>s. if s = ''call'' then Some (''shell_execute'', ''args'') else None),
      sj_command = (\<lambda>s. if s = ''args'' then Some ''rm /etc/hosts'' else None)\<rparr>"

definition example_work :: work_row where
  "example_work =
     \<lparr>wr_id = ''blocked_1'', wr_created_at = 50, wr_updated_at = 50, wr_resolved_at = None, wr_task = ''clean'',
      wr_task_class = ''maintenance'', wr_task_state = TaskStateBlockedWaitingUser,
      wr_blocked_reason = ''approval'', wr_pending_approval_type = ''security_action'',
      wr_pending_approval_payload = ''envelope'', wr_conversation_snapshot = '''',
      wr_continuation_data = ''call'', wr_scheduled_job_id = ''k''\<rparr>"

definition example_blocked_db :: state_db where
  "example_blocked_db =
     empty_db\<lparr>db_blocked := [(''blocked_1'', example_work)],
              db_jobs := [(''k'', (example_row ''k'' '''' None)\<lparr>jr_blocked := 1\<rparr>)]\<rparr>"

lemma example_approval:
  "case ApproveBlockedWork hex_hash encode_effects (\<lambda>_. None) example_json example_world minimal_policy
      '' blocked_1'' Minute ''cli'' (quiet_store (\<lambda>_. 100) example_blocked_db) of
     (Inl _, _) \<Rightarrow> False
   | (Inr grant, st) \<Rightarrow> g_ExpiresAt grant = 100 + Minute
       \<and> map_option jr_blocked (map_of (db_jobs (st_db st)) ''k'') = Some 0"
  by code_simp

lemma case_result:
  "(case x of (Inl _, _) \<Rightarrow> False | (Inr g, s) \<Rightarrow> P g s) \<Longrightarrow> \<exists>g s. x = (Inr g, s) \<and> P g s"
  by (cases x; cases "fst x") auto

theorem approval_grants_reviewed_action_witness:
  "\<exists>grant st'. ApproveBlockedWork hex_hash encode_effects (\<lambda>_. None) example_json example_world minimal_policy
      '' blocked_1'' Minute ''cli'' (quiet_store (\<lambda>_. 100) example_blocked_db) = (Inr grant, st')
    \<and> g_RemainingUses grant = 1"
proof -
  obtain grant st' where approved: "ApproveBlockedWork hex_hash encode_effects (\<lambda>_. None) example_json example_world
      minimal_policy '' blocked_1'' Minute ''cli'' (quiet_store (\<lambda>_. 100) example_blocked_db) = (Inr grant, st')"
    using case_result [OF example_approval] by blast
  with approval_grants_reviewed_action [OF approved] show ?thesis by blast
qed

theorem approval_releases_waiting_work_witness:
  "\<exists>grant st'. ApproveBlockedWork hex_hash encode_effects (\<lambda>_. None) example_json example_world minimal_policy
      '' blocked_1'' Minute ''cli'' (quiet_store (\<lambda>_. 100) example_blocked_db) = (Inr grant, st')
    \<and> fst (ConsumeSecurityActionGrant True 0 (\<lambda>_. ExecOk) (\<lambda>_. False) grant 200 (db_grants (st_db st'))) = Inr True"
proof -
  obtain grant st' where approved: "ApproveBlockedWork hex_hash encode_effects (\<lambda>_. None) example_json example_world
      minimal_policy '' blocked_1'' Minute ''cli'' (quiet_store (\<lambda>_. 100) example_blocked_db) = (Inr grant, st')"
    "g_ExpiresAt grant = 100 + Minute"
    using case_result [OF example_approval] by blast
  have "\<not> IsZero 200" "(200::time) < 100 + Minute" by code_simp+
  then show ?thesis
    using approval_releases_waiting_work [OF approved(1) quiet_quiet_store, of 200 "\<lambda>_. ExecOk" 0 "\<lambda>_. False"]
      approved by auto
qed

theorem failed_approval_changes_nothing_witness:
  "st_db (snd (ApproveBlockedWork hex_hash encode_effects (\<lambda>_. None) example_json example_world minimal_policy
      ''blocked_2'' Minute ''cli'' (quiet_store (\<lambda>_. 100) example_blocked_db))) = example_blocked_db"
proof -
  define st where "st = quiet_store (\<lambda>_. 100) example_blocked_db"
  have "fst (ApproveBlockedWork hex_hash encode_effects (\<lambda>_. None) example_json example_world minimal_policy
      ''blocked_2'' Minute ''cli'' st) = Inl (WorkDB NoRows)" unfolding st_def by code_simp
  then have "ApproveBlockedWork hex_hash encode_effects (\<lambda>_. None) example_json example_world minimal_policy
      ''blocked_2'' Minute ''cli'' st = (Inl (WorkDB NoRows), snd (ApproveBlockedWork hex_hash encode_effects (\<lambda>_. None)
      example_json example_world minimal_policy ''blocked_2'' Minute ''cli'' st))"
    by (simp add: prod_eq_iff)
  from failed_approval_changes_nothing [OF this] show ?thesis by (simp add: st_def) (simp add: quiet_store_def)
qed

end
