(* ===== verification/Quantity.thy ===== *)
theory Quantity
  imports Complex_Main "HOL-Library.Signed_Division" Security_Policy
begin

text \<open>
  Checked arithmetic on quantities with units, \<open>recovery/quantity.go\<close>: decimal strings as exact
  rationals, two-operand dimensional arithmetic, explicit rounding and the bound of a signed 64-bit
  result.  \<open>big.Rat\<close> and \<open>big.Int\<close> are unbounded, as \<^typ>\<open>rat\<close> and \<^typ>\<open>int\<close> are.
\<close>

section \<open>Units and decimals\<close>

record quantity =
  q_Value :: string
  q_Unit :: string

record calculation =
  calc_Operation :: string
  calc_Left :: quantity
  calc_Right :: quantity
  calc_OutputUnit :: string
  calc_Rounding :: string
  calc_Expected :: string

record calculation_result =
  res_Exact :: string
  res_Value :: string
  res_Unit :: string
  res_Rounding :: string
  res_ExpectedMatches :: "bool option"

datatype calc_error =
    BadDecimal
  | MissingDigits
  | UnknownUnit string
  | DimensionsDiffer
  | CompoundDimension
  | DivisionByZero
  | UnsupportedDivision
  | UnknownOperation
  | OutputDimension
  | FractionNeedsRounding
  | UnknownRounding
  | ExceedsInt64
  | ExpectedDiffers

text \<open>The dimension and the factor of a unit.\<close>

definition unitDefinition :: "string \<Rightarrow> calc_error + string \<times> int \<times> int" where
  "unitDefinition u =
     (case map_of
        [(''count'', (''scalar'', 1, 1)), (''%'', (''scalar'', 1, 100)),
         (''B'', (''bytes'', 1, 1)), (''kB'', (''bytes'', 1000, 1)), (''MB'', (''bytes'', 1000000, 1)),
         (''GB'', (''bytes'', 1000000000, 1)),
         (''KiB'', (''bytes'', 2 ^ 10, 1)), (''MiB'', (''bytes'', 2 ^ 20, 1)), (''GiB'', (''bytes'', 2 ^ 30, 1)),
         (''TiB'', (''bytes'', 2 ^ 40, 1)),
         (''ms'', (''time'', 1, 1000)), (''s'', (''time'', 1, 1)), (''min'', (''time'', 60, 1)),
         (''h'', (''time'', 3600, 1))] u of
        None \<Rightarrow> Inl (UnknownUnit u)
      | Some d \<Rightarrow> Inr d)"

definition digits_value :: "string \<Rightarrow> int" where
  "digits_value ds = foldl (\<lambda>n c. 10 * n + digit_value c) 0 ds"

definition count_char :: "char \<Rightarrow> string \<Rightarrow> nat" where
  "count_char c s = length (filter (\<lambda>d. d = c) s)"

text \<open>\<open>strings.SplitN(text, ".", 2)\<close>: what is before and after the first point.\<close>

definition split_point :: "string \<Rightarrow> string \<times> string option" where
  "split_point s =
     (case dropWhile (\<lambda>c. c \<noteq> CHR ''.'') s of
        [] \<Rightarrow> (s, None)
      | _ # rest \<Rightarrow> (takeWhile (\<lambda>c. c \<noteq> CHR ''.'') s, Some rest))"

definition decimal :: "string \<Rightarrow> calc_error + rat" where
  "decimal v =
     (if v = '''' \<or> 64 < length v \<or> Trim v ''-0123456789.'' \<noteq> '''' \<or> 1 < count_char (CHR ''.'') v
        \<or> 1 < count_char (CHR ''-'') v \<or> ContainsByte (tl v) (CHR ''-'') then Inl BadDecimal
      else
        (let text = TrimPrefix v ''-'' in
         if text = '''' \<or> HasPrefix text ''.'' \<or> HasSuffix text ''.'' then Inl MissingDigits
         else
           (let (whole, fraction) = split_point text;
                ds = (case fraction of None \<Rightarrow> whole | Some f \<Rightarrow> whole @ f);
                scale = (case fraction of None \<Rightarrow> 0 | Some f \<Rightarrow> length f);
                n = (if HasPrefix v ''-'' then - digits_value ds else digits_value ds)
            in Inr (Fract n (10 ^ scale)))))"

definition quantityBase :: "quantity \<Rightarrow> calc_error + rat \<times> string" where
  "quantityBase q =
     (case decimal (q_Value q) of
        Inl e \<Rightarrow> Inl e
      | Inr x \<Rightarrow>
         (case unitDefinition (q_Unit q) of
            Inl e \<Rightarrow> Inl e
          | Inr (dm, num, den) \<Rightarrow> Inr (x * Fract num den, dm)))"

section \<open>Rounding\<close>

text \<open>\<open>QuoRem\<close> truncates towards zero.\<close>

definition roundRational :: "rat \<Rightarrow> string \<Rightarrow> calc_error + int" where
  "roundRational x mode =
     (let (n, d) = quotient_of x; q = n sdiv d; r = n - q * d; s = sgn n in
      if mode = ''exact'' then (if r \<noteq> 0 then Inl FractionNeedsRounding else Inr q)
      else if mode = ''floor'' then Inr (if r < 0 then q - 1 else q)
      else if mode = ''ceil'' then Inr (if 0 < r then q + 1 else q)
      else if mode = ''nearest_even'' then
        Inr (if d < 2 * \<bar>r\<bar> \<or> 2 * \<bar>r\<bar> = d \<and> odd q then q + s else q)
      else Inl UnknownRounding)"

section \<open>Calculation\<close>

text \<open>The exact result in base units, with its dimension.\<close>

definition combine ::
  "string \<Rightarrow> rat \<Rightarrow> string \<Rightarrow> rat \<Rightarrow> string \<Rightarrow> calc_error + rat \<times> string" where
  "combine operation a ad b bd =
     (if operation = ''add'' \<or> operation = ''subtract'' then
        (if ad \<noteq> bd then Inl DimensionsDiffer
         else Inr (if operation = ''add'' then a + b else a - b, ad))
      else if operation = ''multiply'' then
        (if ad \<noteq> ''scalar'' \<and> bd \<noteq> ''scalar'' then Inl CompoundDimension
         else Inr (a * b, if ad = ''scalar'' then bd else ad))
      else if operation = ''divide'' then
        (if b = 0 then Inl DivisionByZero
         else if ad = bd then Inr (a / b, ''scalar'')
         else if bd \<noteq> ''scalar'' then Inl UnsupportedDivision
         else Inr (a / b, ad))
      else Inl UnknownOperation)"

definition int_text :: "int \<Rightarrow> string" where
  "int_text n = (if n < 0 then CHR ''-'' # intString (- n) else intString n)"

definition RatString :: "rat \<Rightarrow> string" where
  "RatString x = (let (n, d) = quotient_of x in if d = 1 then int_text n else int_text n @ ''/'' @ int_text d)"

definition IsInt64 :: "int \<Rightarrow> bool" where
  "IsInt64 n \<longleftrightarrow> - (2 ^ 63) \<le> n \<and> n < 2 ^ 63"

definition no_result :: calculation_result where
  "no_result = \<lparr>res_Exact = '''', res_Value = '''', res_Unit = '''', res_Rounding = '''', res_ExpectedMatches = None\<rparr>"

text \<open>The exact result in output units.\<close>

definition exact_result :: "calculation \<Rightarrow> calc_error + rat" where
  "exact_result c =
     (case quantityBase (calc_Left c) of
        Inl e \<Rightarrow> Inl e
      | Inr (a, ad) \<Rightarrow>
         (case quantityBase (calc_Right c) of
            Inl e \<Rightarrow> Inl e
          | Inr (b, bd) \<Rightarrow>
             (case combine (calc_Operation c) a ad b bd of
                Inl e \<Rightarrow> Inl e
              | Inr (x, dm) \<Rightarrow>
                 (case unitDefinition (calc_OutputUnit c) of
                    Inl e \<Rightarrow> Inl e
                  | Inr (udim, num, den) \<Rightarrow>
                      if dm \<noteq> udim then Inl OutputDimension else Inr (x / Fract num den)))))"

text \<open>The result so far and the error, if any, as the Go function returns them.\<close>

definition Calculate :: "calculation \<Rightarrow> calculation_result \<times> calc_error option" where
  "Calculate c =
     (case exact_result c of
        Inl e \<Rightarrow> (no_result, Some e)
      | Inr x \<Rightarrow>
         (let out = no_result\<lparr>res_Exact := RatString x, res_Unit := calc_OutputUnit c,
                              res_Rounding := calc_Rounding c\<rparr> in
          case roundRational x (calc_Rounding c) of
            Inl e \<Rightarrow> (out, Some e)
          | Inr n \<Rightarrow>
              if \<not> IsInt64 n then (out, Some ExceedsInt64)
              else
                (let out' = out\<lparr>res_Value := int_text n\<rparr> in
                 if calc_Expected c = '''' then (out', None)
                 else case decimal (calc_Expected c) of
                   Inl e \<Rightarrow> (out', Some e)
                 | Inr expected \<Rightarrow>
                     (let same = (expected = of_int n) in
                      (out'\<lparr>res_ExpectedMatches := Some same\<rparr>, if same then None else Some ExpectedDiffers)))))"

text \<open>The product of two unsigned 64-bit measurements.\<close>

definition checkedProduct :: "int \<Rightarrow> int \<Rightarrow> calc_error + int" where
  "checkedProduct a b = (if \<not> IsInt64 (a * b) then Inl ExceedsInt64 else Inr (a * b))"

lemma calculate_examples:
  "Calculate \<lparr>calc_Operation = ''add'', calc_Left = \<lparr>q_Value = ''1.5'', q_Unit = ''GiB''\<rparr>,
     calc_Right = \<lparr>q_Value = ''512'', q_Unit = ''MiB''\<rparr>, calc_OutputUnit = ''MiB'', calc_Rounding = ''exact'',
     calc_Expected = ''2048''\<rparr> =
   (\<lparr>res_Exact = ''2048'', res_Value = ''2048'', res_Unit = ''MiB'', res_Rounding = ''exact'',
     res_ExpectedMatches = Some True\<rparr>, None)"
  "fst (Calculate \<lparr>calc_Operation = ''divide'', calc_Left = \<lparr>q_Value = ''-7'', q_Unit = ''s''\<rparr>,
     calc_Right = \<lparr>q_Value = ''2'', q_Unit = ''s''\<rparr>, calc_OutputUnit = ''count'', calc_Rounding = ''nearest_even'',
     calc_Expected = ''''\<rparr>) =
   \<lparr>res_Exact = ''-7/2'', res_Value = ''-4'', res_Unit = ''count'', res_Rounding = ''nearest_even'',
     res_ExpectedMatches = None\<rparr>"
  "snd (Calculate \<lparr>calc_Operation = ''add'', calc_Left = \<lparr>q_Value = ''1'', q_Unit = ''GiB''\<rparr>,
     calc_Right = \<lparr>q_Value = ''1'', q_Unit = ''s''\<rparr>, calc_OutputUnit = ''MiB'', calc_Rounding = ''exact'',
     calc_Expected = ''''\<rparr>) = Some DimensionsDiffer"
  by code_simp+

section \<open>Rounding is what its name says\<close>

lemma sdiv_parts:
  fixes n d :: int
  assumes "0 < d" "q = n sdiv d" "r = n - q * d"
  shows "n = q * d + r" "\<bar>r\<bar> < d" "r = sgn n * \<bar>r\<bar>"
proof -
  have quot: "q = sgn n * (\<bar>n\<bar> div d)" using assms by (simp add: signed_divide_int_def)
  have n: "n = sgn n * \<bar>n\<bar>" by (simp add: sgn_mult_abs)
  have parts: "\<bar>n\<bar> = \<bar>n\<bar> div d * d + \<bar>n\<bar> mod d" by simp
  have r: "r = sgn n * (\<bar>n\<bar> mod d)"
    using n parts unfolding assms(3) quot by (metis add_diff_cancel_left' distrib_left mult.assoc)
  have bounds: "0 \<le> \<bar>n\<bar> mod d" "\<bar>n\<bar> mod d < d" using assms(1) by simp_all
  show "n = q * d + r" by (simp add: assms(3))
  show "\<bar>r\<bar> < d" "r = sgn n * \<bar>r\<bar>" using bounds unfolding r by (cases "n = 0"; simp add: abs_mult)+
qed

text \<open>A rational as its quotient and remainder.\<close>

lemma rational_parts:
  fixes x :: rat
  assumes "quotient_of x = (n, d)" "q = n sdiv d" "r = n - q * d"
  shows "x = of_int q + of_int r / of_int d" "0 < d" "\<bar>r\<bar> < d" "r = sgn n * \<bar>r\<bar>"
proof -
  show d: "0 < d" using assms(1) by (rule quotient_of_denom_pos)
  note parts = sdiv_parts [OF d assms(2,3)]
  have "x = of_int n / of_int d" using assms(1) by (rule quotient_of_div)
  also have "\<dots> = of_int (q * d + r) / of_int d" using parts(1) by simp
  also have "\<dots> = of_int q + of_int r / of_int d" using d by (simp add: add_divide_distrib)
  finally show "x = of_int q + of_int r / of_int d" .
  show "\<bar>r\<bar> < d" "r = sgn n * \<bar>r\<bar>" using parts by blast+
qed

lemma fraction_bounds:
  fixes r d :: int
  assumes "0 < d" "\<bar>r\<bar> < d"
  shows "(of_int r / of_int d :: rat) < 1" "-1 < (of_int r / of_int d :: rat)"
    "0 < (of_int r / of_int d :: rat) \<longleftrightarrow> 0 < r" "(of_int r / of_int d :: rat) < 0 \<longleftrightarrow> r < 0"
  using assms by (auto simp: field_simps zero_less_divide_iff divide_less_0_iff)

lemma round_floor: "roundRational x ''floor'' = Inr \<lfloor>x\<rfloor>"
proof -
  obtain n d where nd: "quotient_of x = (n, d)" by (cases "quotient_of x")
  define q where "q = n sdiv d"
  define r where "r = n - q * d"
  note parts = rational_parts [OF nd q_def r_def]
  note f = fraction_bounds [OF parts(2,3)]
  have "\<lfloor>x\<rfloor> = (if r < 0 then q - 1 else q)"
    using f by (intro floor_unique) (auto simp: parts(1) not_less intro: less_imp_le)
  then show ?thesis unfolding q_def r_def by (simp add: roundRational_def nd Let_def)
qed

lemma round_ceil: "roundRational x ''ceil'' = Inr \<lceil>x\<rceil>"
proof -
  obtain n d where nd: "quotient_of x = (n, d)" by (cases "quotient_of x")
  define q where "q = n sdiv d"
  define r where "r = n - q * d"
  note parts = rational_parts [OF nd q_def r_def]
  note f = fraction_bounds [OF parts(2,3)]
  have "\<lceil>x\<rceil> = (if 0 < r then q + 1 else q)"
    using f by (intro ceiling_unique) (auto simp: parts(1) not_less intro: less_imp_le)
  then show ?thesis unfolding q_def r_def by (simp add: roundRational_def nd Let_def)
qed

lemma round_exact:
  "roundRational x ''exact'' = (if of_int \<lfloor>x\<rfloor> = x then Inr \<lfloor>x\<rfloor> else Inl FractionNeedsRounding)"
proof -
  obtain n d where nd: "quotient_of x = (n, d)" by (cases "quotient_of x")
  define q where "q = n sdiv d"
  define r where "r = n - q * d"
  note parts = rational_parts [OF nd q_def r_def]
  note f = fraction_bounds [OF parts(2,3)]
  have fl: "\<lfloor>x\<rfloor> = (if r < 0 then q - 1 else q)"
    using f by (intro floor_unique) (auto simp: parts(1) not_less intro: less_imp_le)
  have "of_int \<lfloor>x\<rfloor> = x \<longleftrightarrow> r = 0"
    using f unfolding fl by (auto simp: parts(1))
  then show ?thesis using fl unfolding q_def r_def by (simp add: roundRational_def nd Let_def)
qed

lemma round_nearest_even:
  "\<exists>n. roundRational x ''nearest_even'' = Inr n
    \<and> (\<bar>x - of_int n\<bar> < 1 / 2 \<or> \<bar>x - of_int n\<bar> = 1 / 2 \<and> even n)"
proof -
  obtain n d where nd: "quotient_of x = (n, d)" by (cases "quotient_of x")
  define q where "q = n sdiv d"
  define r where "r = n - q * d"
  note parts = rational_parts [OF nd q_def r_def]
  define m where "m = (if d < 2 * \<bar>r\<bar> \<or> 2 * \<bar>r\<bar> = d \<and> odd q then q + sgn n else q)"
  have m: "roundRational x ''nearest_even'' = Inr m"
    unfolding m_def q_def r_def by (simp add: roundRational_def nd Let_def)
  define y where "y = \<bar>of_int r / of_int d :: rat\<bar>"
  have y: "y = of_int \<bar>r\<bar> / of_int d" using parts(2) by (simp add: y_def abs_divide)
  define a where "a = (of_int \<bar>r\<bar> :: rat)"
  define b where "b = (of_int d :: rat)"
  have ab: "y = a / b" "0 < b" using parts(2) by (simp_all add: y a_def b_def)
  have "of_int (2 * \<bar>r\<bar>) = 2 * a" by (simp add: a_def)
  then have twice: "2 * a = of_int (2 * \<bar>r\<bar>)" ..
  have less: "2 * a < b \<longleftrightarrow> 2 * \<bar>r\<bar> < d" unfolding twice b_def by (rule of_int_less_iff)
  have eq: "2 * a = b \<longleftrightarrow> 2 * \<bar>r\<bar> = d" unfolding twice b_def by (rule of_int_eq_iff)
  have less1: "a < b \<longleftrightarrow> \<bar>r\<bar> < d" unfolding a_def b_def by (rule of_int_less_iff)
  have "y < 1 / 2 \<longleftrightarrow> 2 * a < b" "y = 1 / 2 \<longleftrightarrow> 2 * a = b" "y < 1 \<longleftrightarrow> a < b"
    using ab by (simp_all add: pos_divide_less_eq divide_eq_eq mult.commute)
  with less eq less1 parts(3) have y_half: "y < 1 / 2 \<longleftrightarrow> 2 * \<bar>r\<bar> < d" "y = 1 / 2 \<longleftrightarrow> 2 * \<bar>r\<bar> = d" "y < 1" by simp_all
  have up: "\<bar>x - of_int (q + sgn n)\<bar> = 1 - y" if "r \<noteq> 0"
  proof -
    have "n \<noteq> 0" using that parts(4) by auto
    then have "sgn n = 1 \<or> sgn n = - 1" by (auto simp: sgn_if)
    moreover have "of_int (sgn n * \<bar>r\<bar>) / of_int d = of_int (sgn n) * y" unfolding y by simp
    then have "x = of_int q + of_int (sgn n) * y" using parts(1) parts(4) [symmetric] by simp
    ultimately show ?thesis using y_half(3) by auto
  qed
  have down: "\<bar>x - of_int q\<bar> = y" by (simp add: parts(1) y_def)
  have "\<bar>x - of_int m\<bar> < 1 / 2 \<or> \<bar>x - of_int m\<bar> = 1 / 2 \<and> even m"
  proof (cases "d < 2 * \<bar>r\<bar> \<or> 2 * \<bar>r\<bar> = d \<and> odd q")
    case True
    then have "r \<noteq> 0" using parts(2) by auto
    then have "n \<noteq> 0" using parts(4) by auto
    then have "odd (sgn n)" by (auto simp: sgn_if)
    have "\<bar>x - of_int m\<bar> = 1 - y" using True up [OF \<open>r \<noteq> 0\<close>] by (simp only: m_def if_True)
    then show ?thesis using True y_half \<open>odd (sgn n)\<close> by (auto simp: m_def)
  next
    case False
    then have "\<bar>x - of_int m\<bar> = y" using down by (simp only: m_def if_False)
    then show ?thesis using False y_half by (auto simp: m_def)
  qed
  with m show ?thesis by blast
qed

text \<open>
  C17: each rounding policy is the mathematical one, on negative numbers too: the floor and the ceiling, the
  number itself when it is whole and an error otherwise, and the nearest integer with ties to even.
\<close>

theorem roundRational_modes:
  "roundRational x ''floor'' = Inr \<lfloor>x\<rfloor> \<and> roundRational x ''ceil'' = Inr \<lceil>x\<rceil>
   \<and> roundRational x ''exact'' = (if of_int \<lfloor>x\<rfloor> = x then Inr \<lfloor>x\<rfloor> else Inl FractionNeedsRounding)
   \<and> (\<exists>n. roundRational x ''nearest_even'' = Inr n
        \<and> (\<bar>x - of_int n\<bar> < 1 / 2 \<or> \<bar>x - of_int n\<bar> = 1 / 2 \<and> even n))"
  using round_floor round_ceil round_exact round_nearest_even by blast

section \<open>Decimal numbers\<close>

text \<open>The grammar: an optional minus sign, digits, and optionally a point and more digits.\<close>

definition decimal_text :: "bool \<Rightarrow> string \<Rightarrow> string option \<Rightarrow> string" where
  "decimal_text neg whole fraction =
     (if neg then ''-'' else '''') @ whole @ (case fraction of None \<Rightarrow> '''' | Some f \<Rightarrow> CHR ''.'' # f)"

definition decimal_value_of :: "bool \<Rightarrow> string \<Rightarrow> string option \<Rightarrow> rat" where
  "decimal_value_of neg whole fraction =
     (let f = (case fraction of None \<Rightarrow> '''' | Some f \<Rightarrow> f); n = digits_value (whole @ f)
      in of_int (if neg then - n else n) / 10 ^ length f)"

definition digits_text :: "string \<Rightarrow> bool" where
  "digits_text s \<longleftrightarrow> s \<noteq> '''' \<and> list_all is_digit s"

lemma digit_no_sign: "is_digit c \<Longrightarrow> c \<noteq> CHR ''-'' \<and> c \<noteq> CHR ''.''"
  by (auto simp: is_digit_def)

lemma sign_no_digit [simp]: "\<not> is_digit (CHR ''-'')" "\<not> is_digit (CHR ''.'')"
  by (simp_all add: is_digit_def)

lemma no_sign_in_digits: "list_all is_digit s \<Longrightarrow> CHR ''-'' \<notin> set s" "list_all is_digit s \<Longrightarrow> CHR ''.'' \<notin> set s"
  by (induction s) auto

lemma decimal_charset: "List.member ''-0123456789.'' c \<longleftrightarrow> c = CHR ''-'' \<or> c = CHR ''.'' \<or> is_digit c"
proof
  assume "List.member ''-0123456789.'' c"
  then show "c = CHR ''-'' \<or> c = CHR ''.'' \<or> is_digit c" by (auto simp: is_digit_def)
next
  assume "c = CHR ''-'' \<or> c = CHR ''.'' \<or> is_digit c"
  moreover have "List.member ''-0123456789.'' c" if "is_digit c"
  proof -
    have "(of_char c :: nat) \<in> {48..57}" using that by (simp add: is_digit_def)
    then have "(of_char c :: nat) \<in> set [48..<58]" unfolding set_upt by simp
    then have "char_of (of_char c :: nat) \<in> set (map char_of [48..<58::nat])" unfolding set_map by (rule imageI)
    moreover have "map char_of [48..<58::nat] = ''0123456789''" by code_simp
    ultimately have "c \<in> set ''0123456789''" by (simp only: char_of_char)
    then show ?thesis by simp (elim disjE; simp)
  qed
  ultimately show "List.member ''-0123456789.'' c" by (elim disjE) simp_all
qed

lemma Trim_empty: "Trim s cs = '''' \<longleftrightarrow> list_all (List.member cs) s"
proof -
  have "Trim s cs = '''' \<longleftrightarrow> (\<forall>c \<in> set (dropWhile (List.member cs) s). List.member cs c)"
    by (simp add: Trim_def TrimRight_def TrimLeft_def dropWhile_eq_Nil_conv)
  also have "\<dots> \<longleftrightarrow> list_all (List.member cs) s"
    by (induction s) auto
  finally show ?thesis .
qed

lemma split_point_whole: "list_all is_digit whole \<Longrightarrow> split_point (whole @ (case fraction of None \<Rightarrow> '''' | Some f \<Rightarrow> CHR ''.'' # f)) = (whole, fraction)"
proof -
  assume "list_all is_digit whole"
  then have no_point: "\<forall>c \<in> set whole. c \<noteq> CHR ''.''" using digit_no_sign by (auto simp: list_all_iff)
  then have gone: "dropWhile (\<lambda>c. c \<noteq> CHR ''.'') whole = []" by (simp add: dropWhile_eq_Nil_conv)
  from no_point show ?thesis
    by (cases fraction) (simp_all add: gone split_point_def dropWhile_append takeWhile_append)
qed

lemma count_char_simps [simp]:
  "count_char c (s @ t) = count_char c s + count_char c t" "count_char c [] = 0"
  "count_char c (d # s) = (if d = c then 1 else 0) + count_char c s"
  by (auto simp: count_char_def)

lemma count_char_digits:
  "list_all is_digit s \<Longrightarrow> c = CHR ''-'' \<or> c = CHR ''.'' \<Longrightarrow> count_char c s = 0"
  using digit_no_sign by (induction s) auto

lemma count_char_0: "count_char c s = 0 \<longleftrightarrow> c \<notin> set s"
  by (induction s) auto

lemma decimal_complete:
  assumes "digits_text whole" "case fraction of None \<Rightarrow> True | Some f \<Rightarrow> digits_text f"
    "length (decimal_text neg whole fraction) \<le> 64"
  shows "decimal (decimal_text neg whole fraction) = Inr (decimal_value_of neg whole fraction)"
proof -
  define tail where "tail = (case fraction of None \<Rightarrow> '''' | Some f \<Rightarrow> CHR ''.'' # f)"
  define body where "body = whole @ tail"
  define v where "v = decimal_text neg whole fraction"
  have v: "v = (if neg then ''-'' else '''') @ body" by (simp add: v_def decimal_text_def tail_def body_def)
  have whole: "whole \<noteq> []" "list_all is_digit whole" using assms(1) by (auto simp: digits_text_def)
  have tail: "tail = [] \<or> (\<exists>f. tail = CHR ''.'' # f \<and> digits_text f)"
    using assms(2) by (auto simp: tail_def split: option.splits)
  have no_minus: "CHR ''-'' \<notin> set body"
    using whole tail no_sign_in_digits(1) by (auto simp: body_def digits_text_def)
  have charset: "list_all (List.member ''-0123456789.'') v"
    unfolding list_all_iff decimal_charset using whole tail
    by (auto simp: v body_def digits_text_def list_all_iff)
  have points: "count_char (CHR ''.'') v \<le> 1"
  proof -
    have "count_char (CHR ''.'') whole = 0" by (rule count_char_digits [OF whole(2)]) simp
    moreover have "count_char (CHR ''.'') f = 0" if "digits_text f" for f
      using that count_char_digits [of f] by (simp add: digits_text_def)
    ultimately show ?thesis using tail by (auto simp: v body_def)
  qed
  have minus: "count_char (CHR ''-'') v \<le> 1" "\<not> ContainsByte (tl v) (CHR ''-'')"
    using no_minus count_char_0 [of "CHR ''-''" body] by (cases body; auto simp: v ContainsByte_def)+
  have ends: "body \<noteq> ''''" "\<not> HasPrefix body ''.''" "\<not> HasPrefix body ''-''" "\<not> HasSuffix body ''.''"
  proof -
    obtain c w where cw: "whole = c # w" "is_digit c" using whole by (cases whole) auto
    then show "body \<noteq> ''''" "\<not> HasPrefix body ''.''" "\<not> HasPrefix body ''-''"
      using cw(2) by (auto simp: body_def cw(1) HasPrefix_def)
    have "is_digit (last body)"
      using whole tail by (auto simp: body_def digits_text_def list_all_iff)
    then show "\<not> HasSuffix body ''.''" by (auto simp: HasSuffix_def suffix_def)
  qed
  have trimmed: "TrimPrefix v ''-'' = body" "HasPrefix v ''-'' = neg"
    using ends(3) by (auto simp: v TrimPrefix_def HasPrefix_def)
  have split: "split_point body = (whole, fraction)"
    using split_point_whole [OF whole(2), of fraction] by (simp add: body_def tail_def)
  have "decimal v = Inr (decimal_value_of neg whole fraction)"
  proof -
    have "v \<noteq> ''''" "\<not> 64 < length v" using ends(1) assms(3) by (auto simp: v simp flip: v_def)
    then show ?thesis
      using charset points minus ends(1,2,4)
      by (cases fraction) (simp_all add: decimal_def trimmed split Let_def Trim_empty decimal_value_of_def
          Fract_of_int_quotient)
  qed
  then show ?thesis by (simp add: v_def)
qed

lemma decimal_sound:
  assumes "decimal v = Inr x"
  shows "\<exists>neg whole fraction. v = decimal_text neg whole fraction \<and> length v \<le> 64 \<and> digits_text whole
    \<and> (case fraction of None \<Rightarrow> True | Some f \<Rightarrow> digits_text f) \<and> x = decimal_value_of neg whole fraction"
proof -
  define neg where "neg = HasPrefix v ''-''"
  define body where "body = TrimPrefix v ''-''"
  obtain whole fraction where split: "split_point body = (whole, fraction)" by (cases "split_point body")
  have checks: "v \<noteq> ''''" "length v \<le> 64" "list_all (List.member ''-0123456789.'') v"
    "count_char (CHR ''.'') v \<le> 1" "\<not> ContainsByte (tl v) (CHR ''-'')"
    "body \<noteq> ''''" "\<not> HasPrefix body ''.''" "\<not> HasSuffix body ''.''" "count_char (CHR ''-'') v \<le> 1"
    using assms by (auto simp: decimal_def Let_def Trim_empty body_def split: if_splits)
  have v: "v = (if neg then ''-'' else '''') @ body"
    by (auto simp: neg_def body_def TrimPrefix_def HasPrefix_def elim!: prefixE)
  have parts: "body = whole @ (case fraction of None \<Rightarrow> '''' | Some f \<Rightarrow> CHR ''.'' # f)" "CHR ''.'' \<notin> set whole"
    using split takeWhile_dropWhile_id [of "\<lambda>c. c \<noteq> CHR ''.''" body] set_takeWhileD
    by (fastforce simp: split_point_def dropWhile_eq_Nil_conv dropWhile_eq_Cons_conv split: list.splits)+
  have body: "c = CHR ''.'' \<or> is_digit c" if "c \<in> set body" for c
  proof -
    have "c = CHR ''-'' \<or> c = CHR ''.'' \<or> is_digit c"
    proof -
      have "List.member ''-0123456789.'' c" using checks(3) that unfolding list_all_iff v by simp
      then show ?thesis unfolding decimal_charset .
    qed
    moreover have "CHR ''-'' \<notin> set body"
    proof (cases neg)
      case True
      then show ?thesis using checks(5) by (simp add: v ContainsByte_def)
    next
      case False
      obtain d w where dw: "body = d # w" using checks(6) by (cases body) auto
      have vdw: "v = d # w" using v False dw by simp
      have "d \<noteq> CHR ''-''" using False unfolding neg_def vdw by (simp add: HasPrefix_def)
      then show ?thesis using checks(5) by (simp add: vdw dw ContainsByte_def)
    qed
    ultimately show ?thesis using that by auto
  qed
  have whole: "digits_text whole"
  proof -
    have "whole \<noteq> []" using parts(1) checks(6,7) by (auto simp: HasPrefix_def split: option.splits)
    moreover have "is_digit c" if "c \<in> set whole" for c
      using body [of c] parts that by auto
    ultimately show ?thesis by (simp add: digits_text_def list_all_iff)
  qed
  moreover have "digits_text f" if "fraction = Some f" for f
  proof -
    have "f \<noteq> []" using parts(1) that checks(8) by (auto simp: HasSuffix_def)
    moreover have "count_char (CHR ''.'') f = 0" using checks(4) parts(1) that by (auto simp: v split: if_splits)
    then have "is_digit c" if "c \<in> set f" for c
      using body [of c] parts(1) that \<open>fraction = Some f\<close> by (auto simp: count_char_0)
    ultimately show ?thesis by (simp add: digits_text_def list_all_iff)
  qed
  moreover have "x = decimal_value_of neg whole fraction"
    using assms checks split
    by (cases fraction; cases neg) (simp_all add: decimal_def Let_def Trim_empty decimal_value_of_def
        Fract_of_int_quotient flip: body_def neg_def)
  ultimately show ?thesis using v parts checks(2)
    by (intro exI [of _ neg] exI [of _ whole] exI [of _ fraction]) (auto simp: decimal_text_def split: option.split)
qed

text \<open>
  exactly the decimal numbers of at most 64 characters are accepted, an optional minus sign, digits and
  optionally a point with digits on both sides, and the value is exact.
\<close>

theorem decimal_iff:
  "decimal v = Inr x \<longleftrightarrow> (\<exists>neg whole fraction. v = decimal_text neg whole fraction \<and> length v \<le> 64
     \<and> digits_text whole \<and> (case fraction of None \<Rightarrow> True | Some f \<Rightarrow> digits_text f)
     \<and> x = decimal_value_of neg whole fraction)"
  using decimal_sound [of v x] decimal_complete by blast

section \<open>Calculations are exact and in range\<close>

lemma int_text_Atoi:
  assumes "IsInt64 n"
  shows "Atoi (int_text n) = Some n"
proof (cases "n < 0")
  case True
  obtain c r where cr: "intString_loop (nat (- n)) [] = c # r" "c \<noteq> CHR ''-''" "c \<noteq> CHR ''+''"
    using intString_loop_hd [of "nat (- n)"] True by auto
  have "atoi_digits (c # r) = Some (- n)"
    using intString_loop_value [of "nat (- n)"] True by (simp add: atoi_digits_def cr(1))
  then show ?thesis using assms True cr
    by (simp add: int_text_def intString_def Atoi_def atoi_signed_def int64_max_def IsInt64_def)
next
  case False
  show ?thesis
  proof (cases "n = 0")
    case True
    show ?thesis unfolding True by code_simp
  next
    case nonzero: False
    then show ?thesis using assms False Atoi_intString_loop [of "nat n"] intString_loop_Nil [of "nat n"]
      by (simp add: int_text_def intString_def int64_max_def IsInt64_def)
  qed
qed

lemma roundRational_near:
  assumes "roundRational x mode = Inr n"
  shows "\<bar>of_int n - x\<bar> < 1" "mode = ''exact'' \<Longrightarrow> of_int n = x"
proof -
  have "mode \<in> {''exact'', ''floor'', ''ceil'', ''nearest_even''}"
    using assms by (auto simp: roundRational_def Let_def split: prod.splits if_splits)
  moreover have "\<bar>of_int \<lfloor>x\<rfloor> - x\<bar> < 1" "\<bar>of_int \<lceil>x\<rceil> - x\<bar> < 1"
    using of_int_floor_le [of x] floor_correct [of x] ceiling_correct [of x] by linarith+
  moreover have "\<bar>of_int n - x\<bar> < 1" if "mode = ''nearest_even''"
  proof -
    have "\<bar>x - of_int n\<bar> < 1 / 2 \<or> \<bar>x - of_int n\<bar> = 1 / 2"
      using round_nearest_even [of x] assms that by auto
    then show ?thesis by linarith
  qed
  ultimately show "\<bar>of_int n - x\<bar> < 1" "mode = ''exact'' \<Longrightarrow> of_int n = x"
    using assms by (auto simp: round_floor round_ceil round_exact split: if_splits)
qed

text \<open>
  C23: a calculation that succeeds writes a signed 64-bit integer that reads back as the exact rational
  result rounded by less than one unit, unchanged when \<open>exact\<close> was asked for, and equal to the expected
  value when one was supplied.
\<close>

theorem Calculate_sound:
  assumes "Calculate c = (out, None)"
  shows "\<exists>x n. exact_result c = Inr x \<and> Atoi (res_Value out) = Some n \<and> IsInt64 n
    \<and> roundRational x (calc_Rounding c) = Inr n \<and> \<bar>of_int n - x\<bar> < 1
    \<and> (calc_Rounding c \<noteq> ''exact'' \<or> of_int n = x)
    \<and> (calc_Expected c = '''' \<or> decimal (calc_Expected c) = Inr (of_int n))"
proof -
  obtain x n where xn: "exact_result c = Inr x" "roundRational x (calc_Rounding c) = Inr n" "IsInt64 n"
    "res_Value out = int_text n" "calc_Expected c = '''' \<or> decimal (calc_Expected c) = Inr (of_int n)"
    using assms by (auto simp: Calculate_def Let_def split: sum.splits if_splits)
  then show ?thesis using roundRational_near [OF xn(2)] int_text_Atoi [OF xn(3)] by auto
qed

theorem Calculate_sound_witness:
  "\<exists>x n. exact_result \<lparr>calc_Operation = ''add'', calc_Left = \<lparr>q_Value = ''1.5'', q_Unit = ''GiB''\<rparr>,
     calc_Right = \<lparr>q_Value = ''512'', q_Unit = ''MiB''\<rparr>, calc_OutputUnit = ''MiB'', calc_Rounding = ''exact'',
     calc_Expected = ''2048''\<rparr> = Inr x \<and> Atoi ''2048'' = Some n \<and> of_int n = x"
  using Calculate_sound [OF calculate_examples(1)] by auto

text \<open>
  Dimensions are checked: a sum or difference has two operands of the same dimension and a result of
  that dimension, a product has a scalar operand, and nothing is divided by zero.
\<close>

lemma exact_result_dimensions:
  assumes "exact_result c = Inr x"
  obtains a ad b bd y dm num den where "quantityBase (calc_Left c) = Inr (a, ad)"
    "quantityBase (calc_Right c) = Inr (b, bd)" "unitDefinition (calc_OutputUnit c) = Inr (dm, num, den)"
    "x = y / Fract num den"
    "calc_Operation c = ''add'' \<and> ad = bd \<and> dm = ad \<and> y = a + b
     \<or> calc_Operation c = ''subtract'' \<and> ad = bd \<and> dm = ad \<and> y = a - b
     \<or> calc_Operation c = ''multiply'' \<and> (ad = ''scalar'' \<and> dm = bd \<or> bd = ''scalar'' \<and> dm = ad) \<and> y = a * b
     \<or> calc_Operation c = ''divide'' \<and> b \<noteq> 0 \<and> (ad = bd \<and> dm = ''scalar'' \<or> bd = ''scalar'' \<and> dm = ad) \<and> y = a / b"
proof -
  obtain a ad b bd y dm num den where parts: "quantityBase (calc_Left c) = Inr (a, ad)"
    "quantityBase (calc_Right c) = Inr (b, bd)" "combine (calc_Operation c) a ad b bd = Inr (y, dm)"
    "unitDefinition (calc_OutputUnit c) = Inr (dm, num, den)" "x = y / Fract num den"
    using assms by (auto simp: exact_result_def split: sum.splits if_splits)
  from that [OF parts(1,2,4,5)] parts(3) show ?thesis by (auto simp: combine_def split: if_splits)
qed

end
