(* ===== verification/Recovery_Journal.thy ===== *)
theory Recovery_Journal
  imports State_DB "HOL-Library.Product_Lexorder"
begin

text \<open>
  The recovery tables of the state database: the journal of recovery operations
  (\<open>state/store_recovery.go\<close>), the watchdog guards (\<open>state/store_guard.go\<close>) and the fleet batches
  (\<open>state/store_batch.go\<close>).  The journal and the batches are written by compare and swap on a
  revision; the locale \<open>revisioned\<close> states what that promises and is interpreted on both.
  \<open>valid\<close> stands for \<open>json.Valid\<close>.
\<close>

section \<open>Times as text\<close>

text \<open>
  A time is stored as RFC 3339 text with the trailing zeros of the fraction cut off, and the lists are
  ordered by that text: first the seconds, then what follows them.
\<close>

definition fraction_digits :: "time \<Rightarrow> string" where
  "fraction_digits t = map (\<lambda>i. char_of (48 + nat (t mod Second div 10 ^ i mod 10))) [8, 7, 6, 5, 4, 3, 2, 1, 0]"

definition text_order :: "time \<Rightarrow> int \<times> string" where
  "text_order t =
     (t div Second,
      let f = TrimRight (fraction_digits t) ''0'' in (if f = '''' then '''' else CHR ''.'' # f) @ ''Z'')"

definition newest_first :: "('r \<Rightarrow> time) \<Rightarrow> ('k \<times> 'r) list \<Rightarrow> 'r list" where
  "newest_first updated rows = take 100 (rev (sort_key (\<lambda>r. text_order (updated r)) (map snd rows)))"

section \<open>Journal\<close>

text \<open>An event is stored once for each operation and revision.\<close>

definition insert_event :: "recovery_event \<Rightarrow> state_db \<Rightarrow> db_error + state_db" where
  "insert_event e d =
     (if list_ex (\<lambda>o'. ev_ID o' = ev_ID e \<and> ev_Revision o' = ev_Revision e) (db_events d)
      then Inl (SQLError ''UNIQUE constraint failed: recovery_events'')
      else Inr (d\<lparr>db_events := db_events d @ [e]\<rparr>))"

definition same_operation :: "recovery_operation \<Rightarrow> recovery_operation \<Rightarrow> bool" where
  "same_operation op row \<longleftrightarrow> ro_Revision row = ro_Revision op \<and> ro_Target row = ro_Target op
     \<and> ro_Policy row = ro_Policy op \<and> ro_Digest row = ro_Digest op"

definition write_row :: "recovery_operation \<Rightarrow> time \<Rightarrow> state_db \<Rightarrow> db_error + state_db" where
  "write_row op now d =
     (if ro_Revision op = 0 then
        (if map_of (db_operations d) (ro_ID op) \<noteq> None
         then Inl (SQLError ''UNIQUE constraint failed: recovery_operations.id'')
         else Inr (d\<lparr>db_operations :=
                AList.update (ro_ID op) (op\<lparr>ro_Revision := 1, ro_UpdatedAt := now\<rparr>) (db_operations d)\<rparr>))
      else
        (let (n, table) = update_row (ro_ID op) (row_when (same_operation op)
               (\<lambda>row. row\<lparr>ro_Status := ro_Status op, ro_Manifest := ro_Manifest op,
                  ro_Revision := ro_Revision op + 1, ro_UpdatedAt := now, ro_Problem := ro_Problem op\<rparr>))
               (db_operations d)
         in if n \<noteq> 1 then Inl (StoreRefused ''recovery journal changed concurrently'')
            else Inr (d\<lparr>db_operations := table\<rparr>)))"

definition write_operation :: "recovery_operation \<Rightarrow> time \<Rightarrow> state_db \<Rightarrow> db_error + unit \<times> state_db" where
  "write_operation op now d =
     (case write_row op now d of
        Inl e \<Rightarrow> Inl e
      | Inr d' \<Rightarrow>
          (case insert_event \<lparr>ev_ID = ro_ID op, ev_Revision = ro_Revision op + 1, ev_Status = ro_Status op,
                  ev_At = now\<rparr> d' of
             Inl e \<Rightarrow> Inl e
           | Inr d'' \<Rightarrow> Inr ((), d'')))"

text \<open>The operation as the caller has it afterwards; after an error the caller's is as it was.\<close>

definition SaveRecoveryOperation :: "(string \<Rightarrow> bool) \<Rightarrow> recovery_operation \<Rightarrow> recovery_operation db" where
  "SaveRecoveryOperation valid op =
     when_available (
       if ro_ID op = '''' \<or> ro_Target op = '''' \<or> ro_Status op = '''' \<or> \<not> valid (ro_Manifest op)
       then fail_db (StoreRefused ''invalid recovery record'')
       else then_db clock_now (\<lambda>now.
         then_db (transaction (write_operation op now))
           (\<lambda>_. return_db (op\<lparr>ro_Revision := ro_Revision op + 1, ro_UpdatedAt := now\<rparr>))))"

definition GetRecoveryOperation :: "string \<Rightarrow> recovery_operation db" where
  "GetRecoveryOperation k =
     when_available (then_db (statement (\<lambda>d. (map_of (db_operations d) k, d)))
       (\<lambda>r. case r of None \<Rightarrow> fail_db NoRows | Some op \<Rightarrow> return_db op))"

definition ListRecoveryOperations :: "recovery_operation list db" where
  "ListRecoveryOperations =
     when_available (statement (\<lambda>d. (newest_first ro_UpdatedAt (db_operations d), d)))"

section \<open>Measurements\<close>

definition checks_of :: "string \<Rightarrow> state_db \<Rightarrow> recovery_check list" where
  "checks_of k d = map snd (filter (\<lambda>(j, c). j = k) (db_checks d))"

definition next_sequence :: "string \<Rightarrow> state_db \<Rightarrow> int" where
  "next_sequence k d = foldl max 0 (map rk_Sequence (checks_of k d)) + 1"

definition record_check ::
  "recovery_operation \<Rightarrow> string \<Rightarrow> string \<Rightarrow> time \<Rightarrow> state_db \<Rightarrow> db_error + recovery_check \<times> state_db" where
  "record_check op kind evidence now d =
     (let n = next_sequence (ro_ID op) d;
          c = \<lparr>rk_Sequence = n, rk_Revision = ro_Revision op, rk_Kind = kind, rk_ObservedAt = now,
               rk_Evidence = evidence\<rparr>
      in if 128 < n then Inl (StoreRefused ''operation measurement limit exceeded; prepare a new reviewed operation'')
         else (case map_of (db_operations d) (ro_ID op) of
             Some row \<Rightarrow>
               if ro_Revision row = ro_Revision op \<and> ro_Digest row = ro_Digest op
               then Inr (c, d\<lparr>db_checks := db_checks d @ [(ro_ID op, c)]\<rparr>)
               else Inl (StoreRefused ''recovery operation changed before measurement could be recorded'')
           | None \<Rightarrow> Inl (StoreRefused ''recovery operation changed before measurement could be recorded'')))"

definition RecordRecoveryCheck ::
  "(string \<Rightarrow> bool) \<Rightarrow> recovery_operation \<Rightarrow> string \<Rightarrow> string \<Rightarrow> recovery_check db" where
  "RecordRecoveryCheck valid op kind evidence st =
     (if \<not> st_available st \<or> ro_ID op = '''' \<or> 64 < length kind \<or> 65536 < length evidence \<or> \<not> valid evidence
      then fail_db (StoreRefused ''invalid recovery check'') st
      else then_db clock_now (\<lambda>now. transaction (record_check op kind evidence now)) st)"

definition RecoveryChecks :: "string \<Rightarrow> recovery_check list db" where
  "RecoveryChecks k =
     when_available (statement (\<lambda>d. (take 128 (sort_key rk_Sequence (checks_of k d)), d)))"

section \<open>Guards\<close>

definition RecoveryGuardArmed :: "string \<Rightarrow> bool db" where
  "RecoveryGuardArmed target =
     when_available (statement (\<lambda>d.
       (filter (\<lambda>((t, _), g). t = target \<and> gu_pending g \<noteq> None) (db_guards d) \<noteq> [], d)))"

text \<open>An upsert: the lease is replaced, the pending operation stays.\<close>

definition put_guard :: "string \<times> string \<Rightarrow> string \<Rightarrow> state_db \<Rightarrow> unit \<times> state_db" where
  "put_guard k lease d =
     ((), d\<lparr>db_guards := AList.update k
              (case map_of (db_guards d) k of
                 None \<Rightarrow> \<lparr>gu_lease = lease, gu_pending = None\<rparr>
               | Some g \<Rightarrow> g\<lparr>gu_lease := lease\<rparr>) (db_guards d)\<rparr>)"

definition PutRecoveryGuard :: "(string \<Rightarrow> bool) \<Rightarrow> string \<Rightarrow> string \<Rightarrow> string \<Rightarrow> unit db" where
  "PutRecoveryGuard valid target name lease st =
     (if \<not> st_available st \<or> target = '''' \<or> name = '''' \<or> 64 < length name \<or> 16384 < length lease \<or> \<not> valid lease
      then fail_db (StoreRefused ''invalid recovery guard lease'') st
      else statement (put_guard (target, name) lease) st)"

definition RecoveryGuard :: "string \<Rightarrow> string \<Rightarrow> (string \<times> string option) db" where
  "RecoveryGuard target name =
     when_available (then_db (statement (\<lambda>d. (map_of (db_guards d) (target, name), d)))
       (\<lambda>r. case r of None \<Rightarrow> fail_db NoRows | Some g \<Rightarrow> return_db (gu_lease g, gu_pending g)))"

definition update_guard ::
  "string \<times> string \<Rightarrow> (guard_row \<Rightarrow> guard_row option) \<Rightarrow> string \<Rightarrow> unit db" where
  "update_guard k f refusal =
     then_db (statement (\<lambda>d. let (n, table) = update_row k f (db_guards d) in (n, d\<lparr>db_guards := table\<rparr>)))
       (\<lambda>n. if n \<noteq> 1 then fail_db (StoreRefused refusal) else return_db ())"

definition ArmRecoveryGuard :: "(string \<Rightarrow> bool) \<Rightarrow> string \<Rightarrow> string \<Rightarrow> string \<Rightarrow> unit db" where
  "ArmRecoveryGuard valid target name pending st =
     (if \<not> st_available st \<or> 16384 < length pending \<or> \<not> valid pending
      then fail_db (StoreRefused ''invalid pending guard operation'') st
      else update_guard (target, name)
             (row_when (\<lambda>g. gu_pending g = None) (\<lambda>g. g\<lparr>gu_pending := Some pending\<rparr>))
             ''guard unavailable or already armed'' st)"

definition ClearRecoveryGuard :: "(string \<Rightarrow> bool) \<Rightarrow> string \<Rightarrow> string \<Rightarrow> string \<Rightarrow> unit db" where
  "ClearRecoveryGuard valid target name expected st =
     (if \<not> st_available st \<or> \<not> valid expected
      then fail_db (StoreRefused ''invalid pending guard receipt'') st
      else update_guard (target, name)
             (row_when (\<lambda>g. gu_pending g = Some expected) (\<lambda>g. g\<lparr>gu_pending := None\<rparr>))
             ''pending guard operation changed'' st)"

section \<open>Batches\<close>

text \<open>The first save claims the target operations of the batch; a claim is stored once.\<close>

fun insert_claims :: "string \<Rightarrow> (string \<times> string) list \<Rightarrow> state_db \<Rightarrow> db_error + state_db" where
  "insert_claims b [] d = Inr d"
| "insert_claims b (c # cs) d =
     (if map_of (db_batch_claims d) c \<noteq> None
      then Inl (StoreRefused ''target operation already belongs to a batch'')
      else insert_claims b cs (d\<lparr>db_batch_claims := AList.update c b (db_batch_claims d)\<rparr>))"

definition same_batch :: "recovery_batch \<Rightarrow> recovery_batch \<Rightarrow> bool" where
  "same_batch b row \<longleftrightarrow> rb_Revision row = rb_Revision b \<and> rb_Target row = rb_Target b
     \<and> rb_Policy row = rb_Policy b \<and> rb_Digest row = rb_Digest b \<and> rb_Manifest row = rb_Manifest b"

definition write_batch_row ::
  "recovery_batch \<Rightarrow> (string \<times> string) list \<Rightarrow> time \<Rightarrow> state_db \<Rightarrow> db_error + state_db" where
  "write_batch_row b claims now d =
     (if rb_Revision b = 0 then
        (if length claims < 1 \<or> 32 < length claims
         then Inl (StoreRefused ''batch requires bounded target claims'')
         else case insert_claims (rb_ID b) claims d of
             Inl e \<Rightarrow> Inl e
           | Inr d' \<Rightarrow>
               if map_of (db_batches d') (rb_ID b) \<noteq> None
               then Inl (SQLError ''UNIQUE constraint failed: recovery_batches.id'')
               else Inr (d'\<lparr>db_batches :=
                 AList.update (rb_ID b) (b\<lparr>rb_Revision := 1, rb_UpdatedAt := now\<rparr>) (db_batches d')\<rparr>))
      else if claims \<noteq> [] then Inl (StoreRefused ''cannot alter batch claims'')
      else
        (let (n, table) = update_row (rb_ID b) (row_when (same_batch b)
               (\<lambda>row. row\<lparr>rb_Progress := rb_Progress b, rb_Status := rb_Status b, rb_Problem := rb_Problem b,
                  rb_Revision := rb_Revision b + 1, rb_UpdatedAt := now\<rparr>)) (db_batches d)
         in if n \<noteq> 1 then Inl (StoreRefused ''batch changed concurrently or immutable plan changed'')
            else Inr (d\<lparr>db_batches := table\<rparr>)))"

definition write_batch ::
  "(string \<times> string) list \<Rightarrow> recovery_batch \<Rightarrow> time \<Rightarrow> state_db \<Rightarrow> db_error + unit \<times> state_db" where
  "write_batch claims b now d =
     (case write_batch_row b claims now d of
        Inl e \<Rightarrow> Inl e
      | Inr d' \<Rightarrow>
          if list_ex (\<lambda>(e, _). ev_ID e = rb_ID b \<and> ev_Revision e = rb_Revision b + 1) (db_batch_events d')
          then Inl (SQLError ''UNIQUE constraint failed: recovery_batch_events'')
          else Inr ((), d'\<lparr>db_batch_events := db_batch_events d' @
                 [(\<lparr>ev_ID = rb_ID b, ev_Revision = rb_Revision b + 1, ev_Status = rb_Status b, ev_At = now\<rparr>,
                   rb_Progress b)]\<rparr>))"

definition SaveRecoveryBatch ::
  "(string \<Rightarrow> bool) \<Rightarrow> recovery_batch \<Rightarrow> (string \<times> string) list \<Rightarrow> recovery_batch db" where
  "SaveRecoveryBatch valid b claims st =
     (if \<not> st_available st \<or> rb_ID b = '''' \<or> \<not> valid (rb_Manifest b) \<or> \<not> valid (rb_Progress b)
         \<or> 67108864 < length (rb_Manifest b) \<or> 65536 < length (rb_Progress b)
      then fail_db (StoreRefused ''invalid recovery batch'') st
      else then_db clock_now (\<lambda>now.
        then_db (transaction (write_batch claims b now))
          (\<lambda>_. return_db (b\<lparr>rb_Revision := rb_Revision b + 1, rb_UpdatedAt := now\<rparr>))) st)"

definition GetRecoveryBatch :: "string \<Rightarrow> recovery_batch db" where
  "GetRecoveryBatch k =
     when_available (then_db (statement (\<lambda>d. (map_of (db_batches d) k, d)))
       (\<lambda>r. case r of None \<Rightarrow> fail_db NoRows | Some b \<Rightarrow> return_db b))"

definition ListRecoveryBatches :: "recovery_batch list db" where
  "ListRecoveryBatches = when_available (statement (\<lambda>d. (newest_first rb_UpdatedAt (db_batches d), d)))"

section \<open>Compare and swap\<close>

text \<open>No row disappears and no revision goes back.\<close>

definition rows_advanced ::
  "('d \<Rightarrow> (string \<times> 'r) list) \<Rightarrow> ('r \<Rightarrow> int) \<Rightarrow> 'd \<Rightarrow> 'd \<Rightarrow> bool" where
  "rows_advanced rows revision d d' \<longleftrightarrow>
     (\<forall>k r. map_of (rows d) k = Some r \<longrightarrow> (\<exists>r'. map_of (rows d') k = Some r' \<and> revision r \<le> revision r'))"

lemma rows_advanced_refl [simp]: "rows_advanced rows revision d d"
  by (simp add: rows_advanced_def)

lemma rows_advanced_trans:
  "rows_advanced rows revision d d' \<Longrightarrow> rows_advanced rows revision d' d'' \<Longrightarrow> rows_advanced rows revision d d''"
  unfolding rows_advanced_def by (meson order_trans)

text \<open>
  A table written by compare and swap: a write of revision 0 creates the row, any other write replaces
  the row it was read from, and each write counts the revision up by one.
\<close>

locale revisioned =
  fixes rows :: "state_db \<Rightarrow> (string \<times> 'r) list"
    and key :: "'r \<Rightarrow> string"
    and revision :: "'r \<Rightarrow> int"
    and save :: "'r \<Rightarrow> time \<Rightarrow> state_db \<Rightarrow> db_error + unit \<times> state_db"
  assumes compares: "save r now d = Inr (u, d') \<Longrightarrow>
      (case map_of (rows d) (key r) of None \<Rightarrow> revision r = 0 | Some old \<Rightarrow> revision old = revision r \<and> revision r \<noteq> 0)"
    and swaps: "save r now d = Inr (u, d') \<Longrightarrow>
      \<exists>new. map_of (rows d') (key r) = Some new \<and> revision new = revision r + 1"
    and keeps_others: "save r now d = Inr (u, d') \<Longrightarrow> k \<noteq> key r \<Longrightarrow> map_of (rows d') k = map_of (rows d) k"
begin

lemma advances:
  assumes "save r now d = Inr (u, d')"
  shows "rows_advanced rows revision d d'"
  unfolding rows_advanced_def
proof (intro allI impI)
  fix k old
  assume old: "map_of (rows d) k = Some old"
  show "\<exists>new. map_of (rows d') k = Some new \<and> revision old \<le> revision new"
    using compares [OF assms] swaps [OF assms] keeps_others [OF assms, of k] old
    by (cases "k = key r") auto
qed

lemma stale:
  assumes "save r now d = Inr (u, d')" "rows_advanced rows revision d' d''"
    and "key r' = key r" "revision r' = revision r" "0 \<le> revision r"
  shows "\<exists>e. save r' now' d'' = Inl e"
proof (cases "save r' now' d''")
  case (Inr x)
  obtain v d3 where "x = (v, d3)" by (cases x)
  with Inr have written: "save r' now' d'' = Inr (v, d3)" by simp
  obtain new where "map_of (rows d') (key r) = Some new" "revision new = revision r + 1"
    using swaps [OF assms(1)] by blast
  then obtain cur where "map_of (rows d'') (key r) = Some cur" "revision r + 1 \<le> revision cur"
    using assms(2) unfolding rows_advanced_def by metis
  with compares [OF written] assms(3,4) show ?thesis by simp
qed simp

end

lemma update_row_once: "update_row k f table = (n, table') \<Longrightarrow> n = 1 \<Longrightarrow>
    \<exists>r r'. map_of table k = Some r \<and> f r = Some r' \<and> table' = AList.update k r' table"
  by (auto simp: update_row_def split: option.splits)

lemma insert_event_keeps: "insert_event e d = Inr d' \<Longrightarrow> db_operations d' = db_operations d"
  by (auto simp: insert_event_def split: if_splits)

lemma write_operation_row:
  assumes "write_operation op now d = Inr (u, d')"
  obtains d1 where "write_row op now d = Inr d1" "db_operations d' = db_operations d1"
    "db_events d' = db_events d1 @
       [\<lparr>ev_ID = ro_ID op, ev_Revision = ro_Revision op + 1, ev_Status = ro_Status op, ev_At = now\<rparr>]"
  using assms unfolding write_operation_def insert_event_def
  by (auto split: sum.splits if_splits)

lemma write_row_cases:
  assumes "write_row op now d = Inr d'"
  obtains
    (first) "ro_Revision op = 0" "map_of (db_operations d) (ro_ID op) = None"
      "d' = d\<lparr>db_operations := AList.update (ro_ID op) (op\<lparr>ro_Revision := 1, ro_UpdatedAt := now\<rparr>) (db_operations d)\<rparr>"
  | (later) row where "ro_Revision op \<noteq> 0" "map_of (db_operations d) (ro_ID op) = Some row" "same_operation op row"
      "d' = d\<lparr>db_operations := AList.update (ro_ID op)
          (row\<lparr>ro_Status := ro_Status op, ro_Manifest := ro_Manifest op,
             ro_Revision := ro_Revision op + 1, ro_UpdatedAt := now, ro_Problem := ro_Problem op\<rparr>) (db_operations d)\<rparr>"
proof (cases "ro_Revision op = 0")
  case True
  then show ?thesis using assms first by (auto simp: write_row_def split: if_splits)
next
  case False
  obtain n table where u: "update_row (ro_ID op) (row_when (same_operation op)
      (\<lambda>row. row\<lparr>ro_Status := ro_Status op, ro_Manifest := ro_Manifest op,
         ro_Revision := ro_Revision op + 1, ro_UpdatedAt := now, ro_Problem := ro_Problem op\<rparr>))
      (db_operations d) = (n, table)" by fastforce
  with assms False have "n = 1" "d' = d\<lparr>db_operations := table\<rparr>"
    by (auto simp: write_row_def split: if_splits)
  then show ?thesis using update_row_once [OF u] False later by auto
qed

interpretation journal: revisioned db_operations ro_ID ro_Revision write_operation
proof unfold_locales
  fix r now d u d'
  assume w: "write_operation r now d = Inr (u, d')"
  from w obtain d1 where d1: "write_row r now d = Inr d1" "db_operations d' = db_operations d1"
    by (rule write_operation_row)
  show "case map_of (db_operations d) (ro_ID r) of None \<Rightarrow> ro_Revision r = 0
      | Some old \<Rightarrow> ro_Revision old = ro_Revision r \<and> ro_Revision r \<noteq> 0"
    using d1(1) by (rule write_row_cases) (simp_all add: same_operation_def)
  show "\<exists>new. map_of (db_operations d') (ro_ID r) = Some new \<and> ro_Revision new = ro_Revision r + 1"
    using d1(1) by (rule write_row_cases) (simp_all add: d1(2) update_conv)
  show "map_of (db_operations d') k = map_of (db_operations d) k" if "k \<noteq> ro_ID r" for k
    using d1(1) by (rule write_row_cases) (simp_all add: d1(2) update_conv that)
qed

lemma insert_claims_batches: "insert_claims b cs d = Inr d' \<Longrightarrow> db_batches d' = db_batches d"
  by (induction b cs d rule: insert_claims.induct) (auto split: if_splits)

lemma write_batch_cases:
  assumes "write_batch claims b now d = Inr (u, d')"
  obtains
    (first) d1 where "rb_Revision b = 0" "map_of (db_batches d) (rb_ID b) = None" "insert_claims (rb_ID b) claims d = Inr d1"
      "claims \<noteq> []" "db_batch_claims d' = db_batch_claims d1"
      "db_batches d' = AList.update (rb_ID b) (b\<lparr>rb_Revision := 1, rb_UpdatedAt := now\<rparr>) (db_batches d)"
  | (later) row where "rb_Revision b \<noteq> 0" "claims = []" "map_of (db_batches d) (rb_ID b) = Some row" "same_batch b row"
      "db_batch_claims d' = db_batch_claims d"
      "db_batches d' = AList.update (rb_ID b)
          (row\<lparr>rb_Progress := rb_Progress b, rb_Status := rb_Status b, rb_Problem := rb_Problem b,
             rb_Revision := rb_Revision b + 1, rb_UpdatedAt := now\<rparr>) (db_batches d)"
proof -
  obtain d1 where d1: "write_batch_row b claims now d = Inr d1"
    "db_batches d' = db_batches d1" "db_batch_claims d' = db_batch_claims d1"
    using assms by (auto simp: write_batch_def split: sum.splits if_splits)
  show ?thesis
  proof (cases "rb_Revision b = 0")
    case True
    then obtain d2 where "insert_claims (rb_ID b) claims d = Inr d2" "claims \<noteq> []"
      "map_of (db_batches d2) (rb_ID b) = None"
      "d1 = d2\<lparr>db_batches := AList.update (rb_ID b) (b\<lparr>rb_Revision := 1, rb_UpdatedAt := now\<rparr>) (db_batches d2)\<rparr>"
      using d1(1) by (auto simp: write_batch_row_def split: sum.splits if_splits)
    then show ?thesis using True first d1(2,3) by (auto simp: insert_claims_batches)
  next
    case False
    obtain n table where u: "update_row (rb_ID b) (row_when (same_batch b)
        (\<lambda>row. row\<lparr>rb_Progress := rb_Progress b, rb_Status := rb_Status b, rb_Problem := rb_Problem b,
           rb_Revision := rb_Revision b + 1, rb_UpdatedAt := now\<rparr>)) (db_batches d) = (n, table)" by fastforce
    with d1(1) False have "n = 1" "d1 = d\<lparr>db_batches := table\<rparr>" "claims = []"
      by (auto simp: write_batch_row_def split: if_splits)
    then show ?thesis using update_row_once [OF u] False later d1(2,3) by auto
  qed
qed

interpretation batches: revisioned db_batches rb_ID rb_Revision "write_batch claims" for claims
proof unfold_locales
  fix r now d u d'
  assume w: "write_batch claims r now d = Inr (u, d')"
  show "case map_of (db_batches d) (rb_ID r) of None \<Rightarrow> rb_Revision r = 0
      | Some old \<Rightarrow> rb_Revision old = rb_Revision r \<and> rb_Revision r \<noteq> 0"
    using w by (rule write_batch_cases) (simp_all add: same_batch_def)
  show "\<exists>new. map_of (db_batches d') (rb_ID r) = Some new \<and> rb_Revision new = rb_Revision r + 1"
    using w by (rule write_batch_cases) (simp_all add: update_conv)
  show "map_of (db_batches d') k = map_of (db_batches d) k" if "k \<noteq> rb_ID r" for k
    using w by (rule write_batch_cases) (simp_all add: update_conv that)
qed

section \<open>Transactions in a store\<close>

lemma transaction_Inr:
  assumes "transaction f st = (Inr x, st')"
  shows "f (st_others st (st_count st) (st_db st)) = Inr (x, st_db st')" "st_others st' = st_others st"
proof -
  let ?d = "st_others st (st_count st) (st_db st)"
  show "f ?d = Inr (x, st_db st')"
    using assms by (cases "f ?d"; cases "st_answer st (st_count st)")
      (auto simp: transaction_def db_defs Let_def)
  show "st_others st' = st_others st"
    using assms by (cases "f ?d"; cases "st_answer st (st_count st)")
      (auto simp: transaction_def db_defs Let_def)
qed

lemma transaction_Inl:
  assumes "transaction f st = (Inl e, st')"
  shows "st_db st' = st_others st (st_count st) (st_db st)" "st_others st' = st_others st"
  using assms by (cases "f (st_others st (st_count st) (st_db st))"; cases "st_answer st (st_count st)";
      auto simp: transaction_def db_defs Let_def)+

lemma transaction_quiet:
  assumes "quiet st"
  shows "transaction f st =
    (case f (st_db st) of
       Inl e \<Rightarrow> (Inl e, st\<lparr>st_count := st_count st + 1\<rparr>)
     | Inr (x, d') \<Rightarrow> (Inr x, st\<lparr>st_count := st_count st + 1, st_db := d'\<rparr>))"
  using assms by (cases "f (st_db st)") (auto simp: transaction_def statement_quiet then_db_def fail_db_def return_db_def)

lemma SaveRecoveryOperation_Inr:
  assumes "SaveRecoveryOperation valid op st = (Inr op', st')"
  obtains now where "write_operation op now (st_others st (st_count st) (st_db st)) = Inr ((), st_db st')"
    "st_others st' = st_others st" "op' = op\<lparr>ro_Revision := ro_Revision op + 1, ro_UpdatedAt := now\<rparr>"
    "valid (ro_Manifest op)" "ro_ID op \<noteq> ''''" "ro_Target op \<noteq> ''''" "ro_Status op \<noteq> ''''"
proof -
  let ?now = "st_clock st (st_ticks st)"
  let ?st = "st\<lparr>st_ticks := st_ticks st + 1\<rparr>"
  have ok: "st_available st" "valid (ro_Manifest op)" "ro_ID op \<noteq> ''''" "ro_Target op \<noteq> ''''" "ro_Status op \<noteq> ''''"
    using assms by (auto simp: SaveRecoveryOperation_def db_defs split: if_splits)
  obtain r st1 where t: "transaction (write_operation op ?now) ?st = (r, st1)" by fastforce
  with assms ok have "r = Inr ()" "st1 = st'" "op' = op\<lparr>ro_Revision := ro_Revision op + 1, ro_UpdatedAt := ?now\<rparr>"
    by (auto simp: SaveRecoveryOperation_def db_defs split: sum.splits)
  with t transaction_Inr [of "write_operation op ?now" ?st "()" st'] ok show ?thesis
    by (intro that [of ?now]) auto
qed

text \<open>
  C36: A journal write is a compare and swap.  After an operation was saved at some revision, every other
  save that was read at the same revision is refused, whatever happened to the journal in between,
  whatever other processes do to it through saves of their own, and however the database answers.
\<close>

theorem stale_save_refused:
  assumes "SaveRecoveryOperation valid op st = (Inr op', st')" "0 \<le> ro_Revision op"
    and "rows_advanced db_operations ro_Revision (st_db st') (st_db st'')"
    and "\<And>n d. rows_advanced db_operations ro_Revision d (st_others st'' n d)"
    and "ro_ID stale = ro_ID op" "ro_Revision stale = ro_Revision op"
  shows "\<exists>e. fst (SaveRecoveryOperation valid stale st'') = Inl e"
proof (cases "fst (SaveRecoveryOperation valid stale st'')")
  case (Inr op2)
  then obtain st3 where "SaveRecoveryOperation valid stale st'' = (Inr op2, st3)" by (metis prod.collapse)
  then obtain now2 where w2: "write_operation stale now2 (st_others st'' (st_count st'') (st_db st'')) = Inr ((), st_db st3)"
    by (rule SaveRecoveryOperation_Inr)
  obtain now where w: "write_operation op now (st_others st (st_count st) (st_db st)) = Inr ((), st_db st')"
    using assms(1) by (rule SaveRecoveryOperation_Inr)
  have "rows_advanced db_operations ro_Revision (st_db st') (st_others st'' (st_count st'') (st_db st''))"
    using assms(3,4) by (rule rows_advanced_trans)
  from journal.stale [OF w this assms(5,6,2), of now2] w2 show ?thesis by simp
qed simp

section \<open>The journal is a history\<close>

definition events_of :: "string \<Rightarrow> state_db \<Rightarrow> recovery_event list" where
  "events_of k d = filter (\<lambda>e. ev_ID e = k) (db_events d)"

text \<open>Each operation has one event per revision, from the first to the last, which has its status.\<close>

definition journal_ok :: "state_db \<Rightarrow> bool" where
  "journal_ok d \<longleftrightarrow> (\<forall>k. case map_of (db_operations d) k of
       None \<Rightarrow> events_of k d = []
     | Some op \<Rightarrow> ro_ID op = k \<and> map ev_Revision (events_of k d) = [1..ro_Revision op] \<and> 1 \<le> ro_Revision op
         \<and> ev_Status (last (events_of k d)) = ro_Status op)"

lemma journal_ok_row:
  "journal_ok d \<Longrightarrow> map_of (db_operations d) k = Some op \<Longrightarrow>
     ro_ID op = k \<and> map ev_Revision (events_of k d) = [1..ro_Revision op] \<and> 1 \<le> ro_Revision op
     \<and> ev_Status (last (events_of k d)) = ro_Status op"
  unfolding journal_ok_def by (drule spec [of _ k]) simp

lemma journal_ok_none: "journal_ok d \<Longrightarrow> map_of (db_operations d) k = None \<Longrightarrow> events_of k d = []"
  unfolding journal_ok_def by (drule spec [of _ k]) simp

text \<open>What a successful write does, and that in a well formed journal only the row can refuse one.\<close>

lemma write_row_revision:
  assumes "write_row op now d = Inr d1" "journal_ok d"
  shows "map_of (db_operations d1) (ro_ID op) = Some (op\<lparr>ro_Revision := ro_Revision op + 1, ro_UpdatedAt := now\<rparr>)"
    and "map ev_Revision (events_of (ro_ID op) d) = [1..ro_Revision op]" "0 \<le> ro_Revision op"
    and "db_events d1 = db_events d"
    and "k \<noteq> ro_ID op \<Longrightarrow> map_of (db_operations d1) k = map_of (db_operations d) k"
proof -
  have "map_of (db_operations d1) (ro_ID op) = Some (op\<lparr>ro_Revision := ro_Revision op + 1, ro_UpdatedAt := now\<rparr>)
    \<and> map ev_Revision (events_of (ro_ID op) d) = [1..ro_Revision op] \<and> 0 \<le> ro_Revision op
    \<and> db_events d1 = db_events d \<and> (k \<noteq> ro_ID op \<longrightarrow> map_of (db_operations d1) k = map_of (db_operations d) k)" for k
    using assms(1)
  proof (rule write_row_cases)
    fix row
    assume later: "map_of (db_operations d) (ro_ID op) = Some row" "same_operation op row"
      "d1 = d\<lparr>db_operations := AList.update (ro_ID op)
          (row\<lparr>ro_Status := ro_Status op, ro_Manifest := ro_Manifest op,
             ro_Revision := ro_Revision op + 1, ro_UpdatedAt := now, ro_Problem := ro_Problem op\<rparr>) (db_operations d)\<rparr>"
    show ?thesis
      using journal_ok_row [OF assms(2) later(1)] later(2)
      by (auto simp: later(3) update_conv same_operation_def)
  qed (use journal_ok_none [OF assms(2)] in \<open>simp add: update_conv\<close>)
  then show "map_of (db_operations d1) (ro_ID op) = Some (op\<lparr>ro_Revision := ro_Revision op + 1, ro_UpdatedAt := now\<rparr>)"
    "map ev_Revision (events_of (ro_ID op) d) = [1..ro_Revision op]" "0 \<le> ro_Revision op"
    "db_events d1 = db_events d" "k \<noteq> ro_ID op \<Longrightarrow> map_of (db_operations d1) k = map_of (db_operations d) k"
    by blast+
qed

lemma write_operation_refused:
  assumes "write_operation op now d = Inl e" "journal_ok d"
  shows "write_row op now d = Inl e"
proof (cases "write_row op now d")
  case (Inr d1)
  have "map ev_Revision (events_of (ro_ID op) d) = [1..ro_Revision op]" "db_events d1 = db_events d"
    using write_row_revision [OF Inr assms(2)] by simp_all
  then have "ro_Revision op + 1 \<notin> set (map ev_Revision (events_of (ro_ID op) d1))"
    by (simp add: events_of_def)
  then have "\<not> list_ex (\<lambda>e. ev_ID e = ro_ID op \<and> ev_Revision e = ro_Revision op + 1) (db_events d1)"
    by (force simp: events_of_def list_ex_iff)
  with Inr assms(1) show ?thesis by (simp add: write_operation_def insert_event_def)
qed (use assms(1) in \<open>simp add: write_operation_def\<close>)

lemma write_operation_journal_ok:
  assumes "write_operation op now d = Inr (u, d')" "journal_ok d"
  shows "journal_ok d'"
    "map_of (db_operations d') (ro_ID op) = Some (op\<lparr>ro_Revision := ro_Revision op + 1, ro_UpdatedAt := now\<rparr>)"
    "map ev_Status (events_of (ro_ID op) d') = map ev_Status (events_of (ro_ID op) d) @ [ro_Status op]"
proof -
  obtain d1 where d1: "write_row op now d = Inr d1" "db_operations d' = db_operations d1"
    "db_events d' = db_events d1 @
       [\<lparr>ev_ID = ro_ID op, ev_Revision = ro_Revision op + 1, ev_Status = ro_Status op, ev_At = now\<rparr>]"
    using assms(1) by (rule write_operation_row)
  note row = write_row_revision [OF d1(1) assms(2)]
  have events: "events_of k d' = events_of k d @ (if k = ro_ID op
      then [\<lparr>ev_ID = ro_ID op, ev_Revision = ro_Revision op + 1, ev_Status = ro_Status op, ev_At = now\<rparr>] else [])" for k
    by (simp add: events_of_def d1(3) row(4))
  show "map_of (db_operations d') (ro_ID op) = Some (op\<lparr>ro_Revision := ro_Revision op + 1, ro_UpdatedAt := now\<rparr>)"
    by (simp add: d1(2) row(1))
  show "map ev_Status (events_of (ro_ID op) d') = map ev_Status (events_of (ro_ID op) d) @ [ro_Status op]"
    by (simp add: events)
  show "journal_ok d'"
    unfolding journal_ok_def
  proof
    fix k
    show "case map_of (db_operations d') k of None \<Rightarrow> events_of k d' = []
      | Some op \<Rightarrow> ro_ID op = k \<and> map ev_Revision (events_of k d') = [1..ro_Revision op] \<and> 1 \<le> ro_Revision op
          \<and> ev_Status (last (events_of k d')) = ro_Status op"
    proof (cases "k = ro_ID op")
      case True
      have "[1..ro_Revision op] @ [ro_Revision op + 1] = [1..ro_Revision op + 1]"
        using row(3) upto_rec2 [of 1 "ro_Revision op + 1"] by simp
      then show ?thesis using row(1-3) by (simp add: True d1(2) events)
    next
      case False
      then have "map_of (db_operations d') k = map_of (db_operations d) k" "events_of k d' = events_of k d"
        by (simp_all add: d1(2) row(5) events)
      with assms(2) [unfolded journal_ok_def, rule_format, of k] show ?thesis by (simp split: option.splits)
    qed
  qed
qed

lemma SaveRecoveryOperation_Inl_db:
  assumes "SaveRecoveryOperation valid op st = (Inl e, st')"
  shows "st_db st' = st_db st \<or> st_db st' = st_others st (st_count st) (st_db st)"
proof -
  let ?now = "st_clock st (st_ticks st)"
  let ?st = "st\<lparr>st_ticks := st_ticks st + 1\<rparr>"
  obtain r st1 where t: "transaction (write_operation op ?now) ?st = (r, st1)" by fastforce
  show ?thesis
  proof (cases "st_available st \<and> ro_ID op \<noteq> '''' \<and> ro_Target op \<noteq> '''' \<and> ro_Status op \<noteq> '''' \<and> valid (ro_Manifest op)")
    case True
    then have "SaveRecoveryOperation valid op st =
        (case (r, st1) of (Inl e, st') \<Rightarrow> (Inl e, st')
         | (Inr _, st') \<Rightarrow> (Inr (op\<lparr>ro_Revision := ro_Revision op + 1, ro_UpdatedAt := ?now\<rparr>), st'))"
      by (simp add: SaveRecoveryOperation_def when_available_def then_db_def clock_now_def return_db_def t [simplified] split: sum.splits)
    with assms have "r = Inl e" "st1 = st'" by (auto split: sum.splits)
    with t transaction_Inl [of "write_operation op ?now" ?st e st'] show ?thesis by simp
  next
    case False
    with assms have "st' = st"
      by (auto simp: SaveRecoveryOperation_def when_available_def fail_db_def split: if_splits)
    then show ?thesis by simp
  qed
qed

text \<open>
  The journal is a complete history.  However the database answers, a save keeps the invariant that every
  operation has exactly one event per revision, ending in its status, as long as the other users of the
  database keep it; and when it succeeds, the stored row is exactly the operation the caller
  holds afterwards and its status is the one entry added to the operation's history.
\<close>

theorem save_extends_history:
  assumes "journal_ok (st_db st)" "\<And>n d. journal_ok d \<Longrightarrow> journal_ok (st_others st n d)"
    and "SaveRecoveryOperation valid op st = (r, st')"
  shows "journal_ok (st_db st') \<and> (\<forall>op'. r = Inr op' \<longrightarrow>
      map_of (db_operations (st_db st')) (ro_ID op) = Some op'
      \<and> map ev_Status (events_of (ro_ID op) (st_db st')) =
          map ev_Status (events_of (ro_ID op) (st_others st (st_count st) (st_db st))) @ [ro_Status op])"
proof (cases r)
  case (Inl e)
  then show ?thesis using SaveRecoveryOperation_Inl_db [of valid op st e st'] assms by auto
next
  case (Inr op')
  with assms(3) have "SaveRecoveryOperation valid op st = (Inr op', st')" by simp
  then obtain now where w: "write_operation op now (st_others st (st_count st) (st_db st)) = Inr ((), st_db st')"
    and op': "op' = op\<lparr>ro_Revision := ro_Revision op + 1, ro_UpdatedAt := now\<rparr>"
    by (rule SaveRecoveryOperation_Inr)
  show ?thesis
    using write_operation_journal_ok [OF w assms(2) [OF assms(1)]] by (simp add: Inr op')
qed

definition example_op :: recovery_operation where
  "example_op = \<lparr>ro_ID = ''op1'', ro_Target = ''host'', ro_Policy = ''p'', ro_Status = ''preparing'',
     ro_Digest = ''d'', ro_Manifest = ''{}'', ro_Revision = 0, ro_UpdatedAt = 0, ro_Problem = ''''\<rparr>"

text \<open>The journal after its first save.\<close>

definition saved_once :: "store \<Rightarrow> store" where
  "saved_once st = snd (SaveRecoveryOperation (\<lambda>_. True) example_op st)"

lemma example_saved:
  "SaveRecoveryOperation (\<lambda>_. True) example_op (quiet_store (\<lambda>_. 5) empty_db) =
     (Inr (example_op\<lparr>ro_Revision := 1, ro_UpdatedAt := 5\<rparr>), saved_once (quiet_store (\<lambda>_. 5) empty_db))"
proof -
  have "fst (SaveRecoveryOperation (\<lambda>_. True) example_op (quiet_store (\<lambda>_. 5) empty_db)) =
      Inr (example_op\<lparr>ro_Revision := 1, ro_UpdatedAt := 5\<rparr>)" by code_simp
  then show ?thesis by (simp add: saved_once_def prod_eq_iff)
qed

theorem save_extends_history_witness:
  "map ev_Status (events_of ''op1'' (st_db (saved_once (quiet_store (\<lambda>_. 5) empty_db)))) = [''preparing'']"
  using save_extends_history [OF _ _ example_saved]
  by (simp add: quiet_store_def empty_db_def journal_ok_def events_of_def example_op_def)

theorem stale_save_refused_witness:
  "\<exists>e. fst (SaveRecoveryOperation (\<lambda>_. True) (example_op\<lparr>ro_Status := ''ready''\<rparr>)
     (saved_once (quiet_store (\<lambda>_. 5) empty_db))) = Inl e"
proof -
  have "st_others (saved_once (quiet_store (\<lambda>_. 5) empty_db)) = (\<lambda>_ d. d)"
    using example_saved by (rule SaveRecoveryOperation_Inr) (simp add: quiet_store_def)
  then show ?thesis
    by (intro stale_save_refused [OF example_saved]) (simp_all add: example_op_def)
qed

section \<open>A guard stays armed until it is cleared\<close>

text \<open>The calls that change the guards.\<close>

datatype guard_call =
    PutLease string string string
  | Arm string string string
  | Clear string string string

fun run_guard_call :: "(string \<Rightarrow> bool) \<Rightarrow> guard_call \<Rightarrow> unit db" where
  "run_guard_call valid (PutLease target name lease) = PutRecoveryGuard valid target name lease"
| "run_guard_call valid (Arm target name pending) = ArmRecoveryGuard valid target name pending"
| "run_guard_call valid (Clear target name expected) = ClearRecoveryGuard valid target name expected"

fun guard_calls :: "(string \<Rightarrow> bool) \<Rightarrow> guard_call list \<Rightarrow> store \<Rightarrow> store" where
  "guard_calls valid [] st = st"
| "guard_calls valid (c # cs) st = guard_calls valid cs (snd (run_guard_call valid c st))"

definition armed_with :: "string \<times> string \<Rightarrow> string \<Rightarrow> state_db \<Rightarrow> bool" where
  "armed_with k p d \<longleftrightarrow> (\<exists>g. map_of (db_guards d) k = Some g \<and> gu_pending g = Some p)"

lemma armed_with_put_guard: "armed_with k p d \<Longrightarrow> armed_with k p (snd (put_guard j lease d))"
  by (auto simp: armed_with_def put_guard_def update_conv split: option.split)

lemma armed_with_update_row:
  assumes "armed_with k p d" "\<And>g g'. j = k \<Longrightarrow> f g = Some g' \<Longrightarrow> gu_pending g = Some p \<Longrightarrow> gu_pending g' = Some p"
  shows "armed_with k p (d\<lparr>db_guards := snd (update_row j f (db_guards d))\<rparr>)"
  using assms by (auto simp: armed_with_def update_row_map_of split: option.split)

lemma statement_keeps:
  assumes "P (st_db st)" "\<And>n d. P d \<Longrightarrow> P (st_others st n d)" "\<And>d. P d \<Longrightarrow> P (snd (f d))"
  shows "P (st_db (snd (statement f st)))" "st_others (snd (statement f st)) = st_others st"
  using assms by (auto simp: statement_def Let_def split: exec_answer.split prod.split) (metis snd_conv)

lemma update_guard_db:
  "st_db (snd (update_guard k f refusal st)) =
     st_db (snd (statement (\<lambda>d. let (n, table) = update_row k f (db_guards d) in (n, d\<lparr>db_guards := table\<rparr>)) st))"
  "st_others (snd (update_guard k f refusal st)) =
     st_others (snd (statement (\<lambda>d. let (n, table) = update_row k f (db_guards d) in (n, d\<lparr>db_guards := table\<rparr>)) st))"
  by (simp_all add: update_guard_def then_db_def fail_db_def return_db_def split: prod.split sum.split)

lemma guard_call_keeps_armed:
  assumes "armed_with k p (st_db st)" "\<And>n d. armed_with k p d \<Longrightarrow> armed_with k p (st_others st n d)"
    and "c \<noteq> Clear (fst k) (snd k) p"
  shows "armed_with k p (st_db (snd (run_guard_call valid c st)))
    \<and> st_others (snd (run_guard_call valid c st)) = st_others st"
proof (cases c)
  case (PutLease t n l)
  show ?thesis
    using statement_keeps [of "armed_with k p" st "put_guard (t, n) l", OF assms(1,2) armed_with_put_guard] assms(1)
    by (simp add: PutLease PutRecoveryGuard_def fail_db_def)
next
  case (Arm t n q)
  let ?f = "row_when (\<lambda>g. gu_pending g = None) (\<lambda>g. g\<lparr>gu_pending := Some q\<rparr>)"
  have "armed_with k p d \<Longrightarrow>
    armed_with k p (snd (let (m, table) = update_row (t, n) ?f (db_guards d) in (m, d\<lparr>db_guards := table\<rparr>)))" for d
    using armed_with_update_row [of k p d "(t, n)" ?f] by (auto simp: split_beta)
  from statement_keeps [of "armed_with k p" st, OF assms(1,2) this] show ?thesis
    using assms(1) by (simp add: Arm ArmRecoveryGuard_def fail_db_def update_guard_db)
next
  case (Clear t n q)
  let ?f = "row_when (\<lambda>g. gu_pending g = Some q) (\<lambda>g. g\<lparr>gu_pending := None\<rparr>)"
  have other: "(t, n) = k \<Longrightarrow> q \<noteq> p" using assms(3) Clear by auto
  have "armed_with k p d \<Longrightarrow>
    armed_with k p (snd (let (m, table) = update_row (t, n) ?f (db_guards d) in (m, d\<lparr>db_guards := table\<rparr>)))" for d
    using armed_with_update_row [of k p d "(t, n)" ?f] by (simp add: split_beta) (use other in blast)
  from statement_keeps [of "armed_with k p" st, OF assms(1,2) this] show ?thesis
    using assms(1) by (simp add: Clear ClearRecoveryGuard_def fail_db_def update_guard_db)
qed

lemma guard_calls_keep_armed:
  assumes "armed_with k p (st_db st)" "\<And>n d. armed_with k p d \<Longrightarrow> armed_with k p (st_others st n d)"
    and "Clear (fst k) (snd k) p \<notin> set calls"
  shows "armed_with k p (st_db (guard_calls valid calls st)) \<and> st_others (guard_calls valid calls st) = st_others st"
  using assms
proof (induction calls arbitrary: st)
  case (Cons c calls)
  have "c \<noteq> Clear (fst k) (snd k) p" using Cons.prems(3) by auto
  from guard_call_keeps_armed [OF Cons.prems(1,2) this, of valid]
  show ?case using Cons.IH [of "snd (run_guard_call valid c st)"] Cons.prems(2,3) by simp
qed simp

text \<open>
  C35: A watchdog guard that is armed stays armed with the same pending operation through every
  sequence of heartbeats, further attempts to arm it and attempts to clear it with another receipt,
  whatever the database answers: the only call that disarms it is the clear with its exact receipt.
  Until then the recovery engine is told that the target has an armed guard.
\<close>

theorem armed_until_cleared:
  assumes "armed_with (target, name) p (st_db st)"
    and "\<And>n d. armed_with (target, name) p d \<Longrightarrow> armed_with (target, name) p (st_others st n d)"
    and "Clear target name p \<notin> set calls"
  shows "armed_with (target, name) p (st_db (guard_calls valid calls st))
    \<and> fst (RecoveryGuardArmed target (guard_calls valid calls st)) \<noteq> Inr False"
proof
  let ?st = "guard_calls valid calls st"
  have keeps: "armed_with (target, name) p (st_db ?st)" "st_others ?st = st_others st"
    using guard_calls_keep_armed [of "(target, name)" p st calls valid] assms by simp_all
  then show "armed_with (target, name) p (st_db ?st)" by simp
  let ?d = "st_others ?st (st_count ?st) (st_db ?st)"
  have "armed_with (target, name) p ?d" using keeps assms(2) by simp
  then obtain g where "((target, name), g) \<in> set (db_guards ?d)" "gu_pending g = Some p"
    by (auto simp: armed_with_def dest: map_of_SomeD)
  then have "filter (\<lambda>((t, _), g). t = target \<and> gu_pending g \<noteq> None) (db_guards ?d) \<noteq> []"
    by (auto simp: filter_empty_conv)
  then show "fst (RecoveryGuardArmed target ?st) \<noteq> Inr False"
    by (simp add: RecoveryGuardArmed_def when_available_def statement_def Let_def split: exec_answer.split)
qed

definition example_guards :: store where
  "example_guards = guard_calls (\<lambda>_. True)
     [PutLease ''h'' ''ssh'' ''l2'', Arm ''h'' ''ssh'' ''r2'', Clear ''h'' ''ssh'' ''r2'']
     (quiet_store (\<lambda>_. 0) (empty_db\<lparr>db_guards := [((''h'', ''ssh''), \<lparr>gu_lease = ''l1'', gu_pending = Some ''r1''\<rparr>)]\<rparr>))"

theorem armed_until_cleared_witness:
  "armed_with (''h'', ''ssh'') ''r1'' (st_db example_guards)
    \<and> fst (RecoveryGuardArmed ''h'' example_guards) \<noteq> Inr False"
  unfolding example_guards_def
  by (rule armed_until_cleared) (simp_all add: armed_with_def quiet_store_def)

section \<open>An operation belongs to one batch\<close>

lemma insert_claims_free: "insert_claims b cs d = Inr d' \<Longrightarrow> c \<in> set cs \<Longrightarrow> map_of (db_batch_claims d) c = None"
  by (induction b cs d rule: insert_claims.induct) (auto simp: update_conv split: if_splits)

lemma insert_claims_taken: "insert_claims b cs d = Inr d' \<Longrightarrow> map_of (db_batch_claims d') c =
    (if c \<in> set cs then Some b else map_of (db_batch_claims d) c)"
  by (induction b cs d rule: insert_claims.induct) (auto simp: update_conv split: if_splits)

lemma SaveRecoveryBatch_Inr:
  assumes "SaveRecoveryBatch valid b claims st = (Inr b', st')"
  obtains now where "write_batch claims b now (st_others st (st_count st) (st_db st)) = Inr ((), st_db st')"
proof -
  let ?now = "st_clock st (st_ticks st)"
  let ?st = "st\<lparr>st_ticks := st_ticks st + 1\<rparr>"
  obtain r st1 where t: "transaction (write_batch claims b ?now) ?st = (r, st1)" by fastforce
  have "SaveRecoveryBatch valid b claims st =
      (case (r, st1) of (Inl e, st') \<Rightarrow> (Inl e, st')
       | (Inr _, st') \<Rightarrow> (Inr (b\<lparr>rb_Revision := rb_Revision b + 1, rb_UpdatedAt := ?now\<rparr>), st'))"
    using assms by (auto simp: SaveRecoveryBatch_def then_db_def clock_now_def return_db_def fail_db_def t [simplified]
        split: sum.splits if_splits)
  with assms have "r = Inr ()" "st1 = st'" by (auto split: sum.splits)
  with t transaction_Inr [of "write_batch claims b ?now" ?st "()" st'] show ?thesis by (intro that) simp
qed

text \<open>
  A target operation belongs to at most one fleet batch, so that wrapping it in another batch cannot
  start its repair budget afresh: once a new batch was saved with a claim, saving any other new batch that
  claims the same operation fails, as long as claims stay in the table.
\<close>

theorem claimed_by_one_batch:
  assumes "SaveRecoveryBatch valid b claims st = (Inr b', st')" "rb_Revision b = 0" "c \<in> set claims"
    and "map_of (db_batch_claims (st_db st')) c \<noteq> None \<Longrightarrow> map_of (db_batch_claims (st_db st'')) c \<noteq> None"
    and "\<And>n d. map_of (db_batch_claims d) c \<noteq> None \<Longrightarrow> map_of (db_batch_claims (st_others st'' n d)) c \<noteq> None"
    and "rb_Revision other = 0" "c \<in> set claims'"
  shows "\<exists>e. fst (SaveRecoveryBatch valid other claims' st'') = Inl e"
proof (cases "fst (SaveRecoveryBatch valid other claims' st'')")
  case (Inr b2)
  then obtain st3 where "SaveRecoveryBatch valid other claims' st'' = (Inr b2, st3)" by (metis prod.collapse)
  then obtain now2 where
    "write_batch claims' other now2 (st_others st'' (st_count st'') (st_db st'')) = Inr ((), st_db st3)"
    by (rule SaveRecoveryBatch_Inr)
  then have free: "map_of (db_batch_claims (st_others st'' (st_count st'') (st_db st''))) c = None"
    by (rule write_batch_cases) (use assms(6,7) insert_claims_free in auto)
  obtain now where "write_batch claims b now (st_others st (st_count st) (st_db st)) = Inr ((), st_db st')"
    using assms(1) by (rule SaveRecoveryBatch_Inr)
  then have "map_of (db_batch_claims (st_db st')) c = Some (rb_ID b)"
    by (rule write_batch_cases) (use assms(2,3) insert_claims_taken in auto)
  then have "map_of (db_batch_claims (st_db st'')) c \<noteq> None" using assms(4) by simp
  with assms(5) free show ?thesis by blast
qed simp

definition example_batch :: recovery_batch where
  "example_batch = \<lparr>rb_ID = ''b1'', rb_Target = ''c'', rb_Policy = ''p'', rb_Digest = ''d'', rb_Manifest = ''{}'',
     rb_Progress = ''{}'', rb_Status = ''ready'', rb_Problem = '''', rb_Revision = 0, rb_UpdatedAt = 0\<rparr>"

theorem claimed_by_one_batch_witness:
  "\<exists>e. fst (SaveRecoveryBatch (\<lambda>_. True) (example_batch\<lparr>rb_ID := ''b2''\<rparr>) [(''h2'', ''op2''), (''h1'', ''op1'')]
     (snd (SaveRecoveryBatch (\<lambda>_. True) example_batch [(''h1'', ''op1'')] (quiet_store (\<lambda>_. 5) empty_db)))) = Inl e"
proof -
  let ?save = "SaveRecoveryBatch (\<lambda>_. True) example_batch [(''h1'', ''op1'')] (quiet_store (\<lambda>_. 5) empty_db)"
  have first: "fst ?save = Inr (example_batch\<lparr>rb_Revision := 1, rb_UpdatedAt := 5\<rparr>)" by code_simp
  then have saved: "?save = (Inr (example_batch\<lparr>rb_Revision := 1, rb_UpdatedAt := 5\<rparr>), snd ?save)"
    by (metis prod.collapse)
  have others: "st_others (snd ?save) = (\<lambda>_ d. d)"
    by (simp add: SaveRecoveryBatch_def db_defs transaction_def Let_def quiet_store_def split: sum.split prod.split)
  show ?thesis
    by (rule claimed_by_one_batch [OF saved, of "(''h1'', ''op1'')"]) (simp_all add: others, simp_all add: example_batch_def)
qed

end
