(* ===== verification/Recovery_Files.thy ===== *)
theory Recovery_Files
  imports State_DB Go_Paths Cron
begin

text \<open>
  The file operations of the recovery engine (\<open>recovery/files_unix.go\<close>, \<open>recovery/metadata_linux.go\<close>)
  on a model of a Unix file system.  Files and directories are nodes; a node is addressed by its place in
  the list of nodes, which stands for an open descriptor too, and carries the device and inode numbers the
  code compares.  A directory entry maps a directory and a name to a node.

  The machine runs system calls.  Before a call, other processes may have changed the files in any way, and
  a call may fail without effect (a failing write may leave a part of the data); both are arguments of the
  model, counted by the calls.  A crash is the case in which every call from some point on fails.
  Permission checks and the umask are left to the failing calls.
\<close>

section \<open>Errors\<close>

datatype recovery_error =
    NotExist
  | NotSupported
  | SysErr string
  | Problem string
  | Wrapped string recovery_error
  | Joined "recovery_error list"
  | StoreErr db_error
  | Cancelled

text \<open>\<open>errors.Join\<close> of an error and another that may be nil.\<close>

definition join_errors :: "recovery_error \<Rightarrow> recovery_error option \<Rightarrow> recovery_error" where
  "join_errors e e' = Joined (e # (case e' of None \<Rightarrow> [] | Some f \<Rightarrow> [f]))"

section \<open>Files\<close>

datatype node_kind = Regular string | Directory | Symlink | Special

text \<open>\<open>nd_setid\<close> stands for the set-uid, set-gid and sticky bits, \<open>nd_extended\<close> says
  whether there are extended attributes, where the file system supports them.\<close>

record node =
  nd_kind :: node_kind
  nd_device :: nat
  nd_inode :: nat
  nd_mode :: nat
  nd_setid :: bool
  nd_uid :: nat
  nd_gid :: nat
  nd_extended :: "bool option"
  nd_modified :: int

text \<open>The inode number and the modification time a new node gets depend on its place.\<close>

record file_system =
  fs_table :: "((nat \<times> string) \<times> nat) list"
  fs_nodes :: "node list"
  fs_euid :: nat
  fs_egid :: nat
  fs_inode :: "nat \<Rightarrow> nat"
  fs_mtime :: "nat \<Rightarrow> int"

definition lookup :: "file_system \<Rightarrow> nat \<Rightarrow> string \<Rightarrow> nat option" where
  "lookup fs d n = map_of (fs_table fs) (d, n)"

definition node_at :: "file_system \<Rightarrow> nat \<Rightarrow> node option" where
  "node_at fs k = (if k < length (fs_nodes fs) then Some (fs_nodes fs ! k) else None)"

definition is_dir :: "file_system \<Rightarrow> nat \<Rightarrow> bool" where
  "is_dir fs k \<longleftrightarrow> (case node_at fs k of None \<Rightarrow> False | Some nd \<Rightarrow> nd_kind nd = Directory)"

text \<open>The number of hard links.\<close>

definition links :: "file_system \<Rightarrow> nat \<Rightarrow> nat" where
  "links fs k = length (filter (\<lambda>p. map_of (fs_table fs) p = Some k) (remdups (map fst (fs_table fs))))"

definition set_node :: "nat \<Rightarrow> (node \<Rightarrow> node) \<Rightarrow> file_system \<Rightarrow> file_system" where
  "set_node k f fs = fs\<lparr>fs_nodes := (fs_nodes fs)[k := f (fs_nodes fs ! k)]\<rparr>"

definition set_entry :: "nat \<Rightarrow> string \<Rightarrow> nat \<Rightarrow> file_system \<Rightarrow> file_system" where
  "set_entry d n k fs = fs\<lparr>fs_table := AList.update (d, n) k (fs_table fs)\<rparr>"

definition delete_entry :: "nat \<Rightarrow> string \<Rightarrow> file_system \<Rightarrow> file_system" where
  "delete_entry d n fs = fs\<lparr>fs_table := AList.delete (d, n) (fs_table fs)\<rparr>"

definition add_node :: "node \<Rightarrow> file_system \<Rightarrow> file_system" where
  "add_node nd fs = fs\<lparr>fs_nodes := fs_nodes fs @ [nd]\<rparr>"

definition fresh_node :: "nat \<Rightarrow> node_kind \<Rightarrow> nat \<Rightarrow> file_system \<Rightarrow> node" where
  "fresh_node d kind mode fs =
     \<lparr>nd_kind = kind, nd_device = nd_device (fs_nodes fs ! d), nd_inode = fs_inode fs (length (fs_nodes fs)),
      nd_mode = mode, nd_setid = False, nd_uid = fs_euid fs, nd_gid = fs_egid fs, nd_extended = Some False,
      nd_modified = fs_mtime fs (length (fs_nodes fs))\<rparr>"

section \<open>The machine\<close>

datatype sys_answer = SysOk | SysError string

record http_response =
  hr_status :: int
  hr_body :: string
  hr_worker :: string

text \<open>What the machine answers about its processes and the network, at each call.\<close>

record surroundings =
  sr_cancelled :: "nat \<Rightarrow> bool"
  sr_partial :: "nat \<Rightarrow> nat"
  sr_random :: "nat \<Rightarrow> string"
  sr_statfs :: "nat \<Rightarrow> nat \<Rightarrow> nat \<times> int"
  sr_read :: "nat \<Rightarrow> string \<Rightarrow> string option"
  sr_readlink :: "nat \<Rightarrow> string \<Rightarrow> string option"
  sr_affinity :: "nat \<Rightarrow> int \<Rightarrow> int"
  sr_nofile :: "nat \<Rightarrow> int \<Rightarrow> nat"
  sr_command :: "nat \<Rightarrow> string list \<Rightarrow> bool"
  sr_http :: "nat \<Rightarrow> string \<Rightarrow> http_response option"

record machine =
  mc_store :: store
  mc_files :: file_system
  mc_answer :: "nat \<Rightarrow> sys_answer"
  mc_others :: "nat \<Rightarrow> file_system \<Rightarrow> file_system"
  mc_count :: nat
  mc_env :: surroundings
  mc_signals :: "(int \<times> nat) list"

type_synonym 'a sys = "(machine, recovery_error, 'a) state_op"

text \<open>A call with an effect on the files, and one that may have a partial effect when it fails.\<close>

definition syscall_partial ::
  "(nat \<Rightarrow> file_system \<Rightarrow> file_system) \<Rightarrow> (file_system \<Rightarrow> (recovery_error + 'a) \<times> file_system) \<Rightarrow> 'a sys" where
  "syscall_partial g f m =
     (let n = mc_count m;
          fs = mc_others m n (mc_files m);
          m' = m\<lparr>mc_count := n + 1\<rparr>
      in case mc_answer m n of
           SysError e \<Rightarrow> (Inl (SysErr e), m'\<lparr>mc_files := g (sr_partial (mc_env m) n) fs\<rparr>)
         | SysOk \<Rightarrow> (let (r, fs') = f fs in (r, m'\<lparr>mc_files := fs'\<rparr>)))"

definition syscall :: "(file_system \<Rightarrow> (recovery_error + 'a) \<times> file_system) \<Rightarrow> 'a sys" where
  "syscall f = syscall_partial (\<lambda>_ fs. fs) f"

text \<open>An answer about the surroundings; the call may fail as well.\<close>

definition ask :: "(surroundings \<Rightarrow> nat \<Rightarrow> 'a) \<Rightarrow> 'a sys" where
  "ask q m =
     (let n = mc_count m; m' = m\<lparr>mc_count := n + 1\<rparr>
      in case mc_answer m n of SysError e \<Rightarrow> (Inl (SysErr e), m') | SysOk \<Rightarrow> (Inr (q (mc_env m) n), m'))"

definition on_store :: "'a db \<Rightarrow> 'a sys" where
  "on_store f m = (let (r, st) = f (mc_store m); m' = m\<lparr>mc_store := st\<rparr>
                   in (case r of Inl e \<Rightarrow> (Inl (StoreErr e), m') | Inr x \<Rightarrow> (Inr x, m')))"

text \<open>\<open>ctx.Err()\<close>.\<close>

definition ctx_Err :: "unit sys" where
  "ctx_Err m =
     (let n = mc_count m; m' = m\<lparr>mc_count := n + 1\<rparr>
      in if sr_cancelled (mc_env m) n then (Inl Cancelled, m') else (Inr (), m'))"

text \<open>Go on after an error, and run an operation whose error is dropped.\<close>

definition on_error :: "('s, 'e, 'a) state_op \<Rightarrow> ('e \<Rightarrow> ('s, 'f, 'a) state_op) \<Rightarrow> ('s, 'f, 'a) state_op" where
  "on_error f h st = (case f st of (Inl e, st') \<Rightarrow> h e st' | (Inr x, st') \<Rightarrow> (Inr x, st'))"

definition attempt :: "('s, 'e, 'a) state_op \<Rightarrow> ('s, 'f, 'e + 'a) state_op" where
  "attempt f st = (case f st of (r, st') \<Rightarrow> (Inr r, st'))"

definition refuse_when :: "bool \<Rightarrow> string \<Rightarrow> unit sys" where
  "refuse_when b text = (if b then fail_db (Problem text) else return_db ())"

section \<open>System calls\<close>

definition openat_dir :: "nat \<Rightarrow> string \<Rightarrow> nat sys" where
  "openat_dir d n = syscall (\<lambda>fs.
     (case lookup fs d n of
        None \<Rightarrow> Inl NotExist
      | Some k \<Rightarrow> if is_dir fs k then Inr k else Inl (SysErr ''not a directory''), fs))"

definition openat_file :: "nat \<Rightarrow> string \<Rightarrow> nat sys" where
  "openat_file d n = syscall (\<lambda>fs.
     (case lookup fs d n of
        None \<Rightarrow> Inl NotExist
      | Some k \<Rightarrow>
          (case node_at fs k of
             None \<Rightarrow> Inl NotExist
           | Some nd \<Rightarrow> if nd_kind nd = Symlink then Inl (SysErr ''too many levels of symbolic links'') else Inr k), fs))"

definition fstat :: "nat \<Rightarrow> (node \<times> nat) sys" where
  "fstat k = syscall (\<lambda>fs. (case node_at fs k of None \<Rightarrow> Inl (SysErr ''bad descriptor'') | Some nd \<Rightarrow> Inr (nd, links fs k), fs))"

definition content_of :: "node \<Rightarrow> string" where
  "content_of nd = (case nd_kind nd of Regular b \<Rightarrow> b | _ \<Rightarrow> '''')"

definition read_upto :: "nat \<Rightarrow> nat \<Rightarrow> string sys" where
  "read_upto k n = syscall (\<lambda>fs.
     (case node_at fs k of None \<Rightarrow> Inl (SysErr ''bad descriptor'') | Some nd \<Rightarrow> Inr (take n (content_of nd)), fs))"

definition create_exclusive :: "nat \<Rightarrow> string \<Rightarrow> nat sys" where
  "create_exclusive d n = syscall (\<lambda>fs.
     if \<not> is_dir fs d then (Inl NotExist, fs)
     else if lookup fs d n \<noteq> None then (Inl (SysErr ''file exists''), fs)
     else (Inr (length (fs_nodes fs)),
           set_entry d n (length (fs_nodes fs)) (add_node (fresh_node d (Regular '''') 384 fs) fs)))"

definition put_content :: "nat \<Rightarrow> string \<Rightarrow> file_system \<Rightarrow> file_system" where
  "put_content k b fs = set_node k (\<lambda>nd. nd\<lparr>nd_kind := Regular b, nd_modified := fs_mtime fs k\<rparr>) fs"

definition write_all :: "nat \<Rightarrow> string \<Rightarrow> unit sys" where
  "write_all k b = syscall_partial (\<lambda>n. put_content k (take n b)) (\<lambda>fs. (Inr (), put_content k b fs))"

definition change_node :: "nat \<Rightarrow> (node \<Rightarrow> node) \<Rightarrow> unit sys" where
  "change_node k f = syscall (\<lambda>fs. (Inr (), set_node k f fs))"

text \<open>\<open>fsync\<close>, \<open>close\<close> and \<open>flock\<close> change nothing the model holds.\<close>

definition no_effect :: "unit sys" where
  "no_effect = syscall (\<lambda>fs. (Inr (), fs))"

definition unlinkat :: "nat \<Rightarrow> string \<Rightarrow> unit sys" where
  "unlinkat d n = syscall (\<lambda>fs.
     (case lookup fs d n of
        None \<Rightarrow> (Inl NotExist, fs)
      | Some k \<Rightarrow> if is_dir fs k then (Inl (SysErr ''is a directory''), fs) else (Inr (), delete_entry d n fs)))"

text \<open>A file replaces a file; a directory is only moved to a free name here.\<close>

definition renameat :: "nat \<Rightarrow> string \<Rightarrow> nat \<Rightarrow> string \<Rightarrow> unit sys" where
  "renameat d old d' new = syscall (\<lambda>fs.
     (case lookup fs d old of
        None \<Rightarrow> (Inl NotExist, fs)
      | Some k \<Rightarrow>
          if \<not> is_dir fs d' then (Inl NotExist, fs)
          else (case lookup fs d' new of
              None \<Rightarrow> (Inr (), set_entry d' new k (delete_entry d old fs))
            | Some j \<Rightarrow>
                if j = k then (Inr (), fs)
                else if is_dir fs j \<or> is_dir fs k then (Inl (SysErr ''file exists''), fs)
                else (Inr (), set_entry d' new k (delete_entry d old fs)))))"

definition mkdirat :: "nat \<Rightarrow> string \<Rightarrow> unit sys" where
  "mkdirat d n = syscall (\<lambda>fs.
     if \<not> is_dir fs d then (Inl NotExist, fs)
     else if lookup fs d n \<noteq> None then (Inl (SysErr ''file exists''), fs)
     else (Inr (), set_entry d n (length (fs_nodes fs)) (add_node (fresh_node d Directory 448 fs) fs)))"

section \<open>Reading and writing files\<close>

text \<open>A fingerprint has the content's hash and the metadata that can be restored; \<open>hash\<close> is SHA-256.\<close>

record fingerprint =
  fp_Exists :: bool
  fp_SHA256 :: string
  fp_Bytes :: int
  fp_Mode :: nat
  fp_UID :: nat
  fp_GID :: nat
  fp_Device :: nat
  fp_Inode :: nat
  fp_ModifiedNS :: int

definition no_file :: fingerprint where
  "no_file = \<lparr>fp_Exists = False, fp_SHA256 = '''', fp_Bytes = 0, fp_Mode = 0, fp_UID = 0, fp_GID = 0,
     fp_Device = 0, fp_Inode = 0, fp_ModifiedNS = 0\<rparr>"

definition fingerprint_of :: "(string \<Rightarrow> string) \<Rightarrow> node \<Rightarrow> string \<Rightarrow> fingerprint" where
  "fingerprint_of hash nd b =
     \<lparr>fp_Exists = True, fp_SHA256 = hash b, fp_Bytes = int (length b), fp_Mode = nd_mode nd, fp_UID = nd_uid nd,
      fp_GID = nd_gid nd, fp_Device = nd_device nd, fp_Inode = nd_inode nd, fp_ModifiedNS = nd_modified nd\<rparr>"

fun open_parts :: "nat \<Rightarrow> string list \<Rightarrow> nat sys" where
  "open_parts d [] = return_db d"
| "open_parts d (p # ps) =
     (if p = '''' then open_parts d ps
      else then_db (on_error (openat_dir d p)
               (\<lambda>e. fail_db (Wrapped ''open directory without symlinks'' e)))
             (\<lambda>k. open_parts k ps))"

definition openDirectory :: "string \<Rightarrow> nat sys" where
  "openDirectory path =
     (if \<not> IsAbs path \<or> Clean path \<noteq> path then fail_db (Problem ''expected clean absolute directory'')
      else then_db (syscall (\<lambda>fs. (Inr 0, fs))) (\<lambda>root.
        open_parts root (SplitByte CHR ''/'' (TrimPrefix path ''/''))))"

definition parentFor :: "string \<Rightarrow> nat sys" where
  "parentFor path = openDirectory (Dir path)"

definition dirIdentity :: "nat \<Rightarrow> (nat \<times> nat) sys" where
  "dirIdentity d = then_db (fstat d) (\<lambda>(nd, _). return_db (nd_device nd, nd_inode nd))"

definition flistxattr :: "nat \<Rightarrow> bool sys" where
  "flistxattr k = syscall (\<lambda>fs.
     (case node_at fs k of
        None \<Rightarrow> Inl (SysErr ''bad descriptor'')
      | Some nd \<Rightarrow> (case nd_extended nd of None \<Rightarrow> Inl NotSupported | Some x \<Rightarrow> Inr x), fs))"

definition checkExtendedMetadata :: "nat \<Rightarrow> unit sys" where
  "checkExtendedMetadata k =
     then_db (attempt (flistxattr k)) (\<lambda>r.
       case r of
         Inl e \<Rightarrow> if e = NotSupported then return_db () else fail_db e
       | Inr extended \<Rightarrow>
           refuse_when extended ''extended attributes/ACLs require a metadata-capable recovery backend'')"

definition is_regular :: "node \<Rightarrow> bool" where
  "is_regular nd \<longleftrightarrow> (case nd_kind nd of Regular _ \<Rightarrow> True | _ \<Rightarrow> False)"

text \<open>An open regular file: its fingerprint and its content.\<close>

definition read_open :: "(string \<Rightarrow> string) \<Rightarrow> nat \<Rightarrow> int \<Rightarrow> (fingerprint \<times> string) sys" where
  "read_open hash k limit =
     then_db (fstat k) (\<lambda>(nd, l).
     then_db (refuse_when (\<not> is_regular nd \<or> nd_setid nd \<or> l \<noteq> 1)
               ''only regular files with one link and no special mode bits are supported'') (\<lambda>_.
     then_db (checkExtendedMetadata k) (\<lambda>_.
     then_db (refuse_when (limit < int (length (content_of nd))) ''file exceeds byte limit'') (\<lambda>_.
     then_db (read_upto k (nat (limit + 1))) (\<lambda>b.
     then_db (refuse_when (limit < int (length b)) ''file grew beyond limit'') (\<lambda>_.
     then_db (fstat k) (\<lambda>(nd', _).
     then_db (refuse_when (length (content_of nd) \<noteq> length (content_of nd') \<or> nd_modified nd \<noteq> nd_modified nd')
               ''file changed while reading'') (\<lambda>_.
     return_db (fingerprint_of hash nd b, b)))))))))"

definition readRegular :: "(string \<Rightarrow> string) \<Rightarrow> nat \<Rightarrow> string \<Rightarrow> int \<Rightarrow> (fingerprint \<times> string) sys" where
  "readRegular hash d n limit =
     then_db (attempt (openat_file d n)) (\<lambda>r.
       case r of
         Inl e \<Rightarrow> if e = NotExist then return_db (no_file, '''') else fail_db e
       | Inr k \<Rightarrow> read_open hash k limit)"

text \<open>The lock file is created if it is not there; the lock is tried without waiting.\<close>

definition lockDirectory :: "nat \<Rightarrow> unit sys" where
  "lockDirectory d =
     then_db (syscall (\<lambda>fs.
       case lookup fs d ''executor.lock'' of
         None \<Rightarrow> (Inr (), set_entry d ''executor.lock'' (length (fs_nodes fs))
                            (add_node (fresh_node d (Regular '''') 384 fs) fs))
       | Some k \<Rightarrow>
           (if (case node_at fs k of None \<Rightarrow> True | Some nd \<Rightarrow> nd_kind nd = Symlink \<or> nd_kind nd = Directory)
            then Inl (SysErr ''open executor.lock'') else Inr (), fs)))
       (\<lambda>_. on_error no_effect (\<lambda>e. fail_db (Wrapped ''another recovery operation is active'' e)))"

text \<open>\<open>unix.NsecToTimeval\<close> keeps microseconds.\<close>

definition to_timeval :: "int \<Rightarrow> int" where
  "to_timeval t = t div 1000 * 1000"

definition set_metadata :: "nat \<Rightarrow> fingerprint \<Rightarrow> unit sys" where
  "set_metadata k fp =
     then_db (fstat k) (\<lambda>(nd, _).
     then_db (if nd_uid nd \<noteq> fp_UID fp \<or> nd_gid nd \<noteq> fp_GID fp
              then change_node k (\<lambda>nd. nd\<lparr>nd_uid := fp_UID fp, nd_gid := fp_GID fp\<rparr>) else return_db ()) (\<lambda>_.
     then_db (change_node k (\<lambda>nd. nd\<lparr>nd_mode := fp_Mode fp\<rparr>)) (\<lambda>_.
     if fp_ModifiedNS fp \<noteq> 0
     then change_node k (\<lambda>nd. nd\<lparr>nd_modified := to_timeval (fp_ModifiedNS fp)\<rparr>) else return_db ())))"

definition fill_file :: "nat \<Rightarrow> string \<Rightarrow> fingerprint \<Rightarrow> unit sys" where
  "fill_file k b fp =
     then_db (write_all k b) (\<lambda>_.
     then_db (if fp_Exists fp then set_metadata k fp else return_db ()) (\<lambda>_.
     then_db no_effect (\<lambda>_. no_effect)))"

text \<open>A file that could not be written completely is removed again, as far as that succeeds.\<close>

definition writeAt :: "nat \<Rightarrow> string \<Rightarrow> string \<Rightarrow> fingerprint \<Rightarrow> unit sys" where
  "writeAt d n b fp =
     then_db (create_exclusive d n) (\<lambda>k.
     then_db (on_error (fill_file k b fp) (\<lambda>e. then_db (attempt (unlinkat d n)) (\<lambda>_. fail_db e))) (\<lambda>_.
     no_effect))"

definition renameAt :: "nat \<Rightarrow> string \<Rightarrow> string \<Rightarrow> unit sys" where
  "renameAt d old new = then_db (renameat d old d new) (\<lambda>_. no_effect)"

definition moveAt :: "nat \<Rightarrow> string \<Rightarrow> nat \<Rightarrow> string \<Rightarrow> unit sys" where
  "moveAt d old d' n =
     then_db (renameat d old d' n) (\<lambda>_. then_db no_effect (\<lambda>_. no_effect))"

definition removeAt :: "nat \<Rightarrow> string \<Rightarrow> unit sys" where
  "removeAt d n = then_db (unlinkat d n) (\<lambda>_. no_effect)"

definition Geteuid :: "nat sys" where
  "Geteuid m = (Inr (fs_euid (mc_files m)), m)"

definition check_private :: "nat \<Rightarrow> string \<Rightarrow> unit sys" where
  "check_private k text =
     then_db (fstat k) (\<lambda>(nd, _).
     then_db Geteuid (\<lambda>euid.
     refuse_when (nd_mode nd \<noteq> 448 \<or> nd_uid nd \<noteq> euid) text))"

definition childPrivateDirectory :: "nat \<Rightarrow> string \<Rightarrow> bool \<Rightarrow> nat sys" where
  "childPrivateDirectory d n create =
     then_db (refuse_when (Base n \<noteq> n) ''invalid private directory name'') (\<lambda>_.
     then_db (if create
              then on_error (mkdirat d n) (\<lambda>e. if e = SysErr ''file exists'' then return_db () else fail_db e)
              else return_db ()) (\<lambda>_.
     then_db (openat_dir d n) (\<lambda>k.
     then_db (check_private k ''quarantine directory is not private'') (\<lambda>_.
     then_db (if create then no_effect else return_db ()) (\<lambda>_.
     return_db k)))))"

text \<open>\<open>os.MkdirAll\<close>.  A symbolic link on the way is left to the opening that follows, which refuses it.\<close>

fun mkdir_parts :: "nat \<Rightarrow> string list \<Rightarrow> unit sys" where
  "mkdir_parts d [] = return_db ()"
| "mkdir_parts d (p # ps) =
     (if p = '''' then mkdir_parts d ps
      else then_db (attempt (openat_dir d p)) (\<lambda>r.
        case r of
          Inr k \<Rightarrow> mkdir_parts k ps
        | Inl e \<Rightarrow>
            if e = NotExist
            then then_db (mkdirat d p) (\<lambda>_. then_db (openat_dir d p) (\<lambda>k. mkdir_parts k ps))
            else return_db ()))"

definition privateDirectory :: "string \<Rightarrow> nat sys" where
  "privateDirectory path =
     then_db (mkdir_parts 0 (SplitByte CHR ''/'' (TrimPrefix path ''/''))) (\<lambda>_.
     then_db (openDirectory path) (\<lambda>k.
     then_db (check_private k ''recovery directory must be owned by executor and mode 0700'') (\<lambda>_.
     return_db k)))"

end
