(* ===== verification/Recovery_Rules.thy ===== *)
theory Recovery_Rules
  imports Recovery_Files
begin

text \<open>
  Weakest preconditions for the machine of \<open>Recovery_Files\<close>.  \<open>wp b f Q E s fs\<close> says: run on store \<open>s\<close>
  and files \<open>fs\<close> by a machine whose files no other process changes, \<open>f\<close> ends with a value for which \<open>Q\<close> holds
  or with an error for which \<open>E\<close> holds.  When \<open>b\<close> is false every call may fail; when it is true none does and
  the context is not cancelled.  So one rule serves both the crash safety and the success of an operation.
\<close>

definition settled :: "bool \<Rightarrow> machine \<Rightarrow> bool" where
  "settled b m \<longleftrightarrow> mc_others m = (\<lambda>_ fs. fs)
     \<and> (b \<longrightarrow> mc_answer m = (\<lambda>_. SysOk) \<and> (\<forall>n. \<not> sr_cancelled (mc_env m) n))"

definition wp ::
  "bool \<Rightarrow> (machine, 'e, 'a) state_op \<Rightarrow> ('a \<Rightarrow> store \<Rightarrow> file_system \<Rightarrow> bool)
   \<Rightarrow> ('e \<Rightarrow> store \<Rightarrow> file_system \<Rightarrow> bool) \<Rightarrow> store \<Rightarrow> file_system \<Rightarrow> bool" where
  "wp b f Q E s fs \<longleftrightarrow>
     (\<forall>m. settled b m \<and> mc_store m = s \<and> mc_files m = fs \<longrightarrow>
        (case f m of (r, m') \<Rightarrow> settled b m' \<and>
           (case r of Inr x \<Rightarrow> Q x (mc_store m') (mc_files m') | Inl e \<Rightarrow> E e (mc_store m') (mc_files m'))))"

named_theorems wp_rules \<open>weakest precondition rules\<close>

lemma wp_run:
  assumes "wp b f Q E (mc_store m) (mc_files m)" "settled b m"
  shows "case f m of (r, m') \<Rightarrow> settled b m' \<and>
    (case r of Inr x \<Rightarrow> Q x (mc_store m') (mc_files m') | Inl e \<Rightarrow> E e (mc_store m') (mc_files m'))"
  using assms(1) [unfolded wp_def, rule_format, of m] assms(2) by simp

lemma wp_mono:
  assumes "wp b f Q E s fs" "\<And>x s fs. Q x s fs \<Longrightarrow> Q' x s fs" "\<And>e s fs. E e s fs \<Longrightarrow> E' e s fs"
  shows "wp b f Q' E' s fs"
  unfolding wp_def
proof (intro allI impI)
  fix m
  assume "settled b m \<and> mc_store m = s \<and> mc_files m = fs"
  then have m: "settled b m" "mc_store m = s" "mc_files m = fs" by simp_all
  obtain r m' where f: "f m = (r, m')" by fastforce
  have run: "settled b m'"
    "case r of Inr x \<Rightarrow> (Q) x (mc_store m') (mc_files m') | Inl e \<Rightarrow> (E) e (mc_store m') (mc_files m')"
    using wp_run [OF _ m(1), OF assms(1) [folded m(2,3)]] by (simp_all add: f)
  show
    "case f m of (r, m') \<Rightarrow> settled b m' \<and>
      (case r of Inr x \<Rightarrow> Q' x (mc_store m') (mc_files m') | Inl e \<Rightarrow> E' e (mc_store m') (mc_files m'))"
    using run by (cases r) (simp_all add: f assms(2,3))
qed

lemma wp_return [wp_rules]: "Q x s fs \<Longrightarrow> wp b (return_db x) Q E s fs"
  by (simp add: wp_def return_db_def)

lemma wp_fail [wp_rules]: "E e s fs \<Longrightarrow> wp b (fail_db e) Q E s fs"
  by (simp add: wp_def fail_db_def)

lemma wp_then [wp_rules]:
  assumes "wp b f (\<lambda>x. wp b (g x) Q E) E s fs"
  shows "wp b (then_db f g) Q E s fs"
  unfolding wp_def
proof (intro allI impI)
  fix m
  assume "settled b m \<and> mc_store m = s \<and> mc_files m = fs"
  then have m: "settled b m" "mc_store m = s" "mc_files m = fs" by simp_all
  obtain r m' where f: "f m = (r, m')" by fastforce
  have run: "settled b m'"
    "case r of Inr x \<Rightarrow> wp b (g x) Q E (mc_store m') (mc_files m') | Inl e \<Rightarrow> E e (mc_store m') (mc_files m')"
    using wp_run [OF _ m(1), OF assms [folded m(2,3)]] by (simp_all add: f)
  show "case then_db f g m of (r, m') \<Rightarrow> settled b m' \<and>
      (case r of Inr x \<Rightarrow> Q x (mc_store m') (mc_files m') | Inl e \<Rightarrow> E e (mc_store m') (mc_files m'))"
  proof (cases r)
    case (Inr x)
    with run wp_run [of b "g x" Q E m'] show ?thesis by (simp add: then_db_def f)
  next
    case (Inl e)
    with run show ?thesis by (simp add: then_db_def f)
  qed
qed

lemma wp_on_error [wp_rules]:
  assumes "wp b f Q (\<lambda>e. wp b (h e) Q E) s fs"
  shows "wp b (on_error f h) Q E s fs"
  unfolding wp_def
proof (intro allI impI)
  fix m
  assume "settled b m \<and> mc_store m = s \<and> mc_files m = fs"
  then have m: "settled b m" "mc_store m = s" "mc_files m = fs" by simp_all
  obtain r m' where f: "f m = (r, m')" by fastforce
  have run: "settled b m'"
    "case r of Inr x \<Rightarrow> Q x (mc_store m') (mc_files m') | Inl e \<Rightarrow> wp b (h e) Q E (mc_store m') (mc_files m')"
    using wp_run [OF _ m(1), OF assms [folded m(2,3)]] by (simp_all add: f)
  show "case on_error f h m of (r, m') \<Rightarrow> settled b m' \<and>
      (case r of Inr x \<Rightarrow> Q x (mc_store m') (mc_files m') | Inl e \<Rightarrow> E e (mc_store m') (mc_files m'))"
  proof (cases r)
    case (Inl e)
    with run wp_run [of b "h e" Q E m'] show ?thesis by (simp add: on_error_def f)
  next
    case (Inr x)
    with run show ?thesis by (simp add: on_error_def f)
  qed
qed

lemma wp_attempt [wp_rules]:
  assumes "wp b f (\<lambda>x. Q (Inr x)) (\<lambda>e. Q (Inl e)) s fs"
  shows "wp b (attempt f) Q E s fs"
  unfolding wp_def
proof (intro allI impI)
  fix m
  assume "settled b m \<and> mc_store m = s \<and> mc_files m = fs"
  then have m: "settled b m" "mc_store m = s" "mc_files m = fs" by simp_all
  obtain r m' where f: "f m = (r, m')" by fastforce
  have run: "settled b m'"
    "case r of Inr x \<Rightarrow> (\<lambda>x. Q (Inr x)) x (mc_store m') (mc_files m') | Inl e \<Rightarrow> (\<lambda>e. Q (Inl e)) e (mc_store m') (mc_files m')"
    using wp_run [OF _ m(1), OF assms(1) [folded m(2,3)]] by (simp_all add: f)
  show
    "case attempt f m of (r, m') \<Rightarrow> settled b m' \<and>
      (case r of Inr x \<Rightarrow> Q x (mc_store m') (mc_files m') | Inl e \<Rightarrow> E e (mc_store m') (mc_files m'))"
    using run by (cases r) (simp_all add: f attempt_def)
qed

lemma wp_lift_errors [wp_rules]:
  assumes "wp b f Q (\<lambda>e. E (h e)) s fs"
  shows "wp b (lift_errors h f) Q E s fs"
  unfolding wp_def
proof (intro allI impI)
  fix m
  assume "settled b m \<and> mc_store m = s \<and> mc_files m = fs"
  then have m: "settled b m" "mc_store m = s" "mc_files m = fs" by simp_all
  obtain r m' where f: "f m = (r, m')" by fastforce
  have run: "settled b m'"
    "case r of Inr x \<Rightarrow> (Q) x (mc_store m') (mc_files m') | Inl e \<Rightarrow> (\<lambda>e. E (h e)) e (mc_store m') (mc_files m')"
    using wp_run [OF _ m(1), OF assms(1) [folded m(2,3)]] by (simp_all add: f)
  show
    "case lift_errors h f m of (r, m') \<Rightarrow> settled b m' \<and>
      (case r of Inr x \<Rightarrow> Q x (mc_store m') (mc_files m') | Inl e \<Rightarrow> E e (mc_store m') (mc_files m'))"
    using run by (cases r) (simp_all add: f lift_errors_def)
qed

lemma wp_refuse_when [wp_rules]:
  "(c \<Longrightarrow> E (Problem t) s fs) \<Longrightarrow> (\<not> c \<Longrightarrow> Q () s fs) \<Longrightarrow> wp b (refuse_when c t) Q E s fs"
  by (simp add: refuse_when_def wp_return wp_fail)

lemma wp_if [wp_rules]:
  "(c \<Longrightarrow> wp b f Q E s fs) \<Longrightarrow> (\<not> c \<Longrightarrow> wp b g Q E s fs) \<Longrightarrow> wp b (if c then f else g) Q E s fs"
  by simp

lemma wp_syscall_partial:
  assumes "\<And>e n. \<not> b \<Longrightarrow> E (SysErr e) s (g n fs)"
    and "case f fs of (r, fs') \<Rightarrow> (case r of Inr x \<Rightarrow> Q x s fs' | Inl e \<Rightarrow> E e s fs')"
  shows "wp b (syscall_partial g f) Q E s fs"
  using assms unfolding wp_def syscall_partial_def settled_def
  by (auto simp: Let_def split: prod.splits sum.splits sys_answer.splits)

lemma wp_syscall [wp_rules]:
  assumes "\<And>e. \<not> b \<Longrightarrow> E (SysErr e) s fs"
    and "case f fs of (r, fs') \<Rightarrow> (case r of Inr x \<Rightarrow> Q x s fs' | Inl e \<Rightarrow> E e s fs')"
  shows "wp b (syscall f) Q E s fs"
  unfolding syscall_def using assms by (rule wp_syscall_partial)

lemma wp_ask [wp_rules]:
  assumes "\<And>e. \<not> b \<Longrightarrow> E (SysErr e) s fs" "\<And>x. Q x s fs"
  shows "wp b (ask q) Q E s fs"
  using assms unfolding wp_def ask_def settled_def
  by (auto simp: Let_def split: sys_answer.splits)

lemma wp_ctx_Err [wp_rules]:
  assumes "\<not> b \<Longrightarrow> E Cancelled s fs" "Q () s fs"
  shows "wp b ctx_Err Q E s fs"
  using assms unfolding wp_def ctx_Err_def settled_def by (auto simp: Let_def)

lemma wp_Geteuid [wp_rules]: "Q (fs_euid fs) s fs \<Longrightarrow> wp b Geteuid Q E s fs"
  by (simp add: wp_def Geteuid_def)

lemma wp_on_store:
  assumes "case f s of (r, s') \<Rightarrow> (case r of Inr x \<Rightarrow> Q x s' fs | Inl e \<Rightarrow> E (StoreErr e) s' fs)"
  shows "wp b (on_store f) Q E s fs"
  using assms unfolding wp_def on_store_def settled_def
  by (auto simp: Let_def split: prod.splits sum.splits)

section \<open>Reading\<close>

text \<open>What the reading operations answer when no call fails.\<close>

fun walk :: "file_system \<Rightarrow> nat \<Rightarrow> string list \<Rightarrow> recovery_error + nat" where
  "walk fs d [] = Inr d"
| "walk fs d (p # ps) =
     (if p = '''' then walk fs d ps
      else (case lookup fs d p of
          None \<Rightarrow> Inl (Wrapped ''open directory without symlinks'' NotExist)
        | Some k \<Rightarrow> if is_dir fs k then walk fs k ps
                    else Inl (Wrapped ''open directory without symlinks'' (SysErr ''not a directory''))))"

definition dir_at :: "file_system \<Rightarrow> string \<Rightarrow> recovery_error + nat" where
  "dir_at fs path =
     (if \<not> IsAbs path \<or> Clean path \<noteq> path then Inl (Problem ''expected clean absolute directory'')
      else walk fs 0 (SplitByte CHR ''/'' (TrimPrefix path ''/'')))"

definition read_node :: "(string \<Rightarrow> string) \<Rightarrow> node \<Rightarrow> nat \<Rightarrow> int \<Rightarrow> recovery_error + fingerprint \<times> string" where
  "read_node hash nd l limit =
     (if \<not> is_regular nd \<or> nd_setid nd \<or> l \<noteq> 1
      then Inl (Problem ''only regular files with one link and no special mode bits are supported'')
      else if nd_extended nd = Some True
      then Inl (Problem ''extended attributes/ACLs require a metadata-capable recovery backend'')
      else if limit < int (length (content_of nd)) then Inl (Problem ''file exceeds byte limit'')
      else Inr (fingerprint_of hash nd (content_of nd), content_of nd))"

definition read_at ::
  "(string \<Rightarrow> string) \<Rightarrow> file_system \<Rightarrow> nat \<Rightarrow> string \<Rightarrow> int \<Rightarrow> recovery_error + fingerprint \<times> string" where
  "read_at hash fs d n limit =
     (case lookup fs d n of
        None \<Rightarrow> Inr (no_file, '''')
      | Some k \<Rightarrow>
          (case node_at fs k of
             None \<Rightarrow> Inr (no_file, '''')
           | Some nd \<Rightarrow> if nd_kind nd = Symlink then Inl (SysErr ''too many levels of symbolic links'')
                        else read_node hash nd (links fs k) limit))"

lemma wp_open_parts:
  assumes "\<And>e. \<not> b \<Longrightarrow> E e s fs" "case walk fs d ps of Inr k \<Rightarrow> Q k s fs | Inl e \<Rightarrow> E e s fs"
  shows "wp b (open_parts d ps) Q E s fs"
  using assms(2)
proof (induction ps arbitrary: d)
  case (Cons p ps)
  show ?case
    using Cons.IH Cons.prems assms(1)
    by (auto simp: openat_dir_def intro!: wp_rules split: option.splits if_splits)
qed (simp add: wp_return)

lemma wp_openDirectory [wp_rules]:
  assumes "\<And>e. \<not> b \<Longrightarrow> E e s fs" "case dir_at fs path of Inr k \<Rightarrow> Q k s fs | Inl e \<Rightarrow> E e s fs"
  shows "wp b (openDirectory path) Q E s fs"
proof (cases "\<not> IsAbs path \<or> Clean path \<noteq> path")
  case True
  then show ?thesis using assms(2) by (simp add: openDirectory_def dir_at_def wp_fail)
next
  case False
  with assms(2) have "case walk fs 0 (SplitByte CHR ''/'' (TrimPrefix path ''/'')) of
      Inr k \<Rightarrow> Q k s fs | Inl e \<Rightarrow> E e s fs" by (simp add: dir_at_def)
  then show ?thesis
    using False assms(1) unfolding openDirectory_def
    by (auto intro!: wp_rules wp_open_parts)
qed

lemma wp_fstat [wp_rules]:
  assumes "\<And>e. \<not> b \<Longrightarrow> E (SysErr e) s fs"
    and "case node_at fs k of None \<Rightarrow> E (SysErr ''bad descriptor'') s fs | Some nd \<Rightarrow> Q (nd, links fs k) s fs"
  shows "wp b (fstat k) Q E s fs"
  using assms unfolding fstat_def by (auto intro!: wp_rules split: option.splits)

lemma wp_no_effect [wp_rules]:
  assumes "\<And>e. \<not> b \<Longrightarrow> E (SysErr e) s fs" "Q () s fs"
  shows "wp b no_effect Q E s fs"
  using assms unfolding no_effect_def by (auto intro!: wp_rules)

lemma wp_dirIdentity [wp_rules]:
  assumes "\<And>e. \<not> b \<Longrightarrow> E (SysErr e) s fs"
    and "case node_at fs k of None \<Rightarrow> E (SysErr ''bad descriptor'') s fs
         | Some nd \<Rightarrow> Q (nd_device nd, nd_inode nd) s fs"
  shows "wp b (dirIdentity k) Q E s fs"
  using assms unfolding dirIdentity_def by (auto intro!: wp_rules split: option.splits)

lemma wp_read_open:
  assumes "\<And>e. \<not> b \<Longrightarrow> E e s fs" "node_at fs k = Some nd"
    and "case read_node hash nd (links fs k) limit of Inr x \<Rightarrow> Q x s fs | Inl e \<Rightarrow> E e s fs"
  shows "wp b (read_open hash k limit) Q E s fs"
  using assms unfolding read_open_def read_node_def checkExtendedMetadata_def read_upto_def flistxattr_def
  by (auto intro!: wp_rules split: if_splits option.splits)

lemma wp_readRegular [wp_rules]:
  assumes "\<And>e. \<not> b \<Longrightarrow> E e s fs"
    and "case read_at hash fs d n limit of Inr x \<Rightarrow> Q x s fs | Inl e \<Rightarrow> E e s fs"
  shows "wp b (readRegular hash d n limit) Q E s fs"
  using assms unfolding readRegular_def openat_file_def read_at_def
  by (auto intro!: wp_rules wp_read_open split: option.splits if_splits)

end
