(* ===== verification/Recovery_Frames.thy ===== *)
theory Recovery_Frames
  imports Recovery_Rules
begin

text \<open>
  What the operations that change files leave alone.  \<open>untouched X fs fs'\<close> says that only the directory
  entries in \<open>X\<close> changed and that everything the other entries show, the number of links included, is
  as it was; directories keep their entries for directories.
\<close>

section \<open>Links\<close>

definition well_formed_files :: "file_system \<Rightarrow> bool" where
  "well_formed_files fs \<longleftrightarrow>
     (\<forall>d n k. lookup fs d n = Some k \<longrightarrow> is_dir fs d \<and> k < length (fs_nodes fs))"

lemma links_card: "links fs k = card {p. map_of (fs_table fs) p = Some k}"
proof -
  let ?ps = "filter (\<lambda>p. map_of (fs_table fs) p = Some k) (remdups (map fst (fs_table fs)))"
  have "set ?ps = {p. map_of (fs_table fs) p = Some k}"
    by (auto dest: map_of_SomeD intro: rev_image_eqI)
  then show ?thesis
    unfolding links_def by (metis distinct_card distinct_filter distinct_remdups)
qed

lemma links_finite: "finite {p. map_of t p = Some k}"
  by (rule finite_subset [of _ "set (map fst t)"]) (auto dest!: map_of_SomeD intro: rev_image_eqI)

lemma single_link:
  assumes "links fs k = 1" "lookup fs d n = Some k" "lookup fs d' n' = Some k"
  shows "d' = d \<and> n' = n"
proof -
  from assms(1) obtain p where p: "{p. map_of (fs_table fs) p = Some k} = {p}"
    by (auto simp: links_card card_1_singleton_iff)
  have "(d, n) \<in> {p. map_of (fs_table fs) p = Some k}" "(d', n') \<in> {p. map_of (fs_table fs) p = Some k}"
    using assms(2,3) by (simp_all add: lookup_def)
  then show ?thesis unfolding p by blast
qed

lemma lookup_simps [simp]:
  "lookup (set_entry d n k fs) d' n' = (if d' = d \<and> n' = n then Some k else lookup fs d' n')"
  "lookup (delete_entry d n fs) d' n' = (if d' = d \<and> n' = n then None else lookup fs d' n')"
  "lookup (set_node k f fs) d' n' = lookup fs d' n'"
  "lookup (add_node nd fs) d' n' = lookup fs d' n'"
  by (auto simp: lookup_def set_entry_def delete_entry_def set_node_def add_node_def update_conv delete_conv)

lemma node_at_simps [simp]:
  "node_at (set_entry d n k fs) j = node_at fs j"
  "node_at (delete_entry d n fs) j = node_at fs j"
  "node_at (set_node k f fs) j = (if j = k then map_option f (node_at fs j) else node_at fs j)"
  "node_at (add_node nd fs) j = (if j = length (fs_nodes fs) then Some nd else node_at fs j)"
  by (auto simp: node_at_def set_entry_def delete_entry_def set_node_def add_node_def nth_append)

lemma is_dir_simps [simp]:
  "is_dir (set_entry d n k fs) j = is_dir fs j"
  "is_dir (delete_entry d n fs) j = is_dir fs j"
  by (simp_all add: is_dir_def)

lemma length_simps [simp]:
  "length (fs_nodes (set_entry d n k fs)) = length (fs_nodes fs)"
  "length (fs_nodes (delete_entry d n fs)) = length (fs_nodes fs)"
  "length (fs_nodes (set_node k f fs)) = length (fs_nodes fs)"
  "length (fs_nodes (add_node nd fs)) = Suc (length (fs_nodes fs))"
  by (simp_all add: set_entry_def delete_entry_def set_node_def add_node_def)

lemma table_simps [simp]:
  "map_of (fs_table (set_entry d n k fs)) = (map_of (fs_table fs))((d, n) \<mapsto> k)"
  "map_of (fs_table (delete_entry d n fs)) = (map_of (fs_table fs))((d, n) := None)"
  "fs_table (set_node k f fs) = fs_table fs"
  "fs_table (add_node nd fs) = fs_table fs"
  by (auto simp: set_entry_def delete_entry_def set_node_def add_node_def update_conv' delete_conv')

lemma euid_simps [simp]:
  "fs_euid (set_entry d n k fs) = fs_euid fs" "fs_euid (delete_entry d n fs) = fs_euid fs"
  "fs_euid (set_node k f fs) = fs_euid fs" "fs_euid (add_node nd fs) = fs_euid fs"
  by (simp_all add: set_entry_def delete_entry_def set_node_def add_node_def)

lemma links_other [simp]:
  "links (set_node j f fs) k = links fs k" "links (add_node nd fs) k = links fs k"
  "lookup fs d n \<noteq> Some k \<Longrightarrow> links (delete_entry d n fs) k = links fs k"
  "lookup fs d n \<noteq> Some k \<Longrightarrow> k \<noteq> j \<Longrightarrow> links (set_entry d n j fs) k = links fs k"
proof -
  show "links (set_node j f fs) k = links fs k" "links (add_node nd fs) k = links fs k"
    by (simp_all add: links_card)
  show "links (delete_entry d n fs) k = links fs k" if "lookup fs d n \<noteq> Some k"
    unfolding links_card by (rule arg_cong [of _ _ card]) (use that in \<open>auto simp: lookup_def\<close>)
  show "links (set_entry d n j fs) k = links fs k" if "lookup fs d n \<noteq> Some k" "k \<noteq> j"
    unfolding links_card by (rule arg_cong [of _ _ card]) (use that in \<open>auto simp: lookup_def\<close>)
qed

lemma links_one:
  assumes "lookup fs d n = Some k" "\<And>d' n'. lookup fs d' n' = Some k \<Longrightarrow> d' = d \<and> n' = n"
  shows "links fs k = 1"
proof -
  have "p \<in> {p. map_of (fs_table fs) p = Some k} \<longleftrightarrow> p \<in> {(d, n)}" for p
    using assms(1) assms(2) [of "fst p" "snd p"] by (cases p) (auto simp: lookup_def)
  then have "{p. map_of (fs_table fs) p = Some k} = {(d, n)}" by (rule set_eqI)
  then show ?thesis by (simp add: links_card)
qed

section \<open>Frames\<close>

definition untouched :: "(nat \<times> string) set \<Rightarrow> file_system \<Rightarrow> file_system \<Rightarrow> bool" where
  "untouched X fs fs' \<longleftrightarrow>
     fs_euid fs' = fs_euid fs
     \<and> (\<forall>d n. (d, n) \<notin> X \<and> d < length (fs_nodes fs) \<longrightarrow> lookup fs' d n = lookup fs d n)
     \<and> (\<forall>k. is_dir fs k \<longrightarrow> node_at fs' k = node_at fs k)
     \<and> (\<forall>d n k. lookup fs d n = Some k \<and> is_dir fs k \<longrightarrow> lookup fs' d n = Some k)
     \<and> (\<forall>d n k. (d, n) \<notin> X \<and> lookup fs d n = Some k \<longrightarrow> node_at fs' k = node_at fs k \<and> links fs' k = links fs k)
     \<and> length (fs_nodes fs) \<le> length (fs_nodes fs')"

lemma untouched_refl [simp]: "untouched X fs fs"
  by (simp add: untouched_def)

lemma untouched_mono: "untouched X fs fs' \<Longrightarrow> X \<subseteq> Y \<Longrightarrow> untouched Y fs fs'"
  unfolding untouched_def by blast

lemma is_dir_bound: "is_dir fs k \<Longrightarrow> k < length (fs_nodes fs)"
  by (auto simp: is_dir_def node_at_def split: option.splits if_splits)

lemma untouched_is_dir: "untouched X fs fs' \<Longrightarrow> is_dir fs k \<Longrightarrow> is_dir fs' k"
  by (simp add: untouched_def is_dir_def)

lemma untouchedD:
  assumes "untouched X fs fs'"
  shows "fs_euid fs' = fs_euid fs" "length (fs_nodes fs) \<le> length (fs_nodes fs')"
    and "(d, n) \<notin> X \<Longrightarrow> d < length (fs_nodes fs) \<Longrightarrow> lookup fs' d n = lookup fs d n"
    and "is_dir fs k \<Longrightarrow> node_at fs' k = node_at fs k"
    and "lookup fs d n = Some k \<Longrightarrow> is_dir fs k \<Longrightarrow> lookup fs' d n = Some k"
    and "(d, n) \<notin> X \<Longrightarrow> lookup fs d n = Some k \<Longrightarrow> node_at fs' k = node_at fs k"
    and "(d, n) \<notin> X \<Longrightarrow> lookup fs d n = Some k \<Longrightarrow> links fs' k = links fs k"
  using assms unfolding untouched_def by blast+

lemma untouched_trans:
  assumes "untouched X fs fs'" "untouched Y fs' fs''" "well_formed_files fs"
  shows "untouched (X \<union> Y) fs fs''"
  unfolding untouched_def
proof (intro conjI allI impI)
  note one = untouchedD [OF assms(1)] and two = untouchedD [OF assms(2)]
  show "fs_euid fs'' = fs_euid fs" "length (fs_nodes fs) \<le> length (fs_nodes fs'')"
    using one(1,2) two(1,2) by simp_all
  fix d n
  show "lookup fs'' d n = lookup fs d n" if "(d, n) \<notin> X \<union> Y \<and> d < length (fs_nodes fs)"
    using that one(2) one(3) [of d n] two(3) [of d n] by simp
  fix k
  show "node_at fs'' k = node_at fs k" if "is_dir fs k"
    using that one(4) [of k] two(4) [of k] untouched_is_dir [OF assms(1)] by simp
  show "lookup fs'' d n = Some k" if "lookup fs d n = Some k \<and> is_dir fs k"
    using that one(5) [of d n k] two(5) [of d n k] untouched_is_dir [OF assms(1)] by simp
  assume k: "(d, n) \<notin> X \<union> Y \<and> lookup fs d n = Some k"
  then have "d < length (fs_nodes fs)"
    using assms(3) is_dir_bound unfolding well_formed_files_def by blast
  with k one(3) [of d n] have "lookup fs' d n = Some k" by simp
  with k show "node_at fs'' k = node_at fs k" "links fs'' k = links fs k"
    using one(6,7) [of d n k] two(6,7) [of d n k] by simp_all
qed

lemma untouched_lookup:
  "untouched X fs fs' \<Longrightarrow> (d, n) \<notin> X \<Longrightarrow> is_dir fs d \<Longrightarrow> lookup fs' d n = lookup fs d n"
  unfolding untouched_def using is_dir_bound by blast

lemma untouched_walk: "untouched X fs fs' \<Longrightarrow> walk fs d ps = Inr k \<Longrightarrow> walk fs' d ps = Inr k"
proof (induction ps arbitrary: d)
  case (Cons p ps)
  show ?case
  proof (cases "p = ''''")
    case False
    with Cons.prems obtain j where j: "lookup fs d p = Some j" "is_dir fs j" "walk fs j ps = Inr k"
      by (auto split: option.splits if_splits)
    then have "lookup fs' d p = Some j" "is_dir fs' j"
      using Cons.prems(1) untouched_is_dir unfolding untouched_def by blast+
    then show ?thesis using False Cons.IH [OF Cons.prems(1) j(3)] by simp
  qed (use Cons in simp)
qed simp

lemma untouched_dir_at: "untouched X fs fs' \<Longrightarrow> dir_at fs path = Inr k \<Longrightarrow> dir_at fs' path = Inr k"
  using untouched_walk by (auto simp: dir_at_def split: if_splits)

lemma untouched_read_at:
  assumes "untouched X fs fs'" "(d, n) \<notin> X" "is_dir fs d"
  shows "read_at hash fs' d n limit = read_at hash fs d n limit"
proof (cases "lookup fs d n")
  case None
  then show ?thesis using untouched_lookup [OF assms] by (simp add: read_at_def)
next
  case (Some k)
  then have "node_at fs' k = node_at fs k" "links fs' k = links fs k"
    using assms(1,2) unfolding untouched_def by blast+
  then show ?thesis using untouched_lookup [OF assms] Some by (simp add: read_at_def split: option.split)
qed

lemma walk_dir: "walk fs d ps = Inr k \<Longrightarrow> is_dir fs d \<Longrightarrow> is_dir fs k"
  by (induction ps arbitrary: d) (auto split: option.splits if_splits)

section \<open>The effects of the changing calls\<close>

definition with_file :: "nat \<Rightarrow> string \<Rightarrow> node \<Rightarrow> file_system \<Rightarrow> file_system" where
  "with_file d n nd fs = set_entry d n (length (fs_nodes fs)) (add_node nd fs)"

lemma set_node_with_file [simp]:
  "set_node (length (fs_nodes fs)) f (with_file d n nd fs) = with_file d n (f nd) fs"
  by (simp add: with_file_def set_entry_def add_node_def set_node_def)

lemma with_file_simps [simp]:
  "lookup (with_file d n nd fs) d' n' = (if d' = d \<and> n' = n then Some (length (fs_nodes fs)) else lookup fs d' n')"
  "node_at (with_file d n nd fs) j = (if j = length (fs_nodes fs) then Some nd else node_at fs j)"
  "fs_euid (with_file d n nd fs) = fs_euid fs"
  "length (fs_nodes (with_file d n nd fs)) = Suc (length (fs_nodes fs))"
  by (simp_all add: with_file_def)

lemma well_formed_bound: "well_formed_files fs \<Longrightarrow> lookup fs d n = Some k \<Longrightarrow> k < length (fs_nodes fs)"
  by (auto simp: well_formed_files_def)

lemma node_at_None [simp]: "node_at fs (length (fs_nodes fs)) = None"
  by (simp add: node_at_def)

lemma is_dir_with_file: "is_dir fs k \<Longrightarrow> is_dir (with_file d n nd fs) k"
  by (auto simp: is_dir_def)

lemma links_with_file [simp]:
  assumes "well_formed_files fs"
  shows "links (with_file d n nd fs) (length (fs_nodes fs)) = 1"
  by (rule links_one [of _ d n]) (use well_formed_bound [OF assms] in \<open>auto split: if_splits\<close>)

lemma untouched_with_file:
  assumes "well_formed_files fs" "lookup fs d n = None"
  shows "untouched {(d, n)} fs (with_file d n nd fs)"
proof -
  have "k \<noteq> length (fs_nodes fs)" if "lookup fs d' n' = Some k" for d' n' k
    using well_formed_bound [OF assms(1) that] by simp
  moreover have "k \<noteq> length (fs_nodes fs)" if "is_dir fs k" for k
    using is_dir_bound [OF that] by simp
  moreover have "links (with_file d n nd fs) k = links fs k" if "k \<noteq> length (fs_nodes fs)" for k
    using that assms(2) by (simp add: with_file_def)
  ultimately show ?thesis
    using assms(2) unfolding untouched_def by auto
qed

lemma well_formed_with_file:
  assumes "well_formed_files fs" "is_dir fs d"
  shows "well_formed_files (with_file d n nd fs)"
  using assms is_dir_with_file less_SucI
  unfolding well_formed_files_def by (fastforce split: if_splits)

lemma untouched_delete_entry:
  assumes "lookup fs d n = Some k" "\<not> is_dir fs k" "links fs k = 1"
  shows "untouched {(d, n)} fs (delete_entry d n fs)"
proof -
  have other: "j \<noteq> k" if "lookup fs d' n' = Some j" "(d', n') \<noteq> (d, n)" for d' n' j
    using single_link [OF assms(3,1), of d' n'] that by auto
  then have "links (delete_entry d n fs) j = links fs j" if "lookup fs d' n' = Some j" "(d', n') \<noteq> (d, n)" for d' n' j
    using that assms(1) by (metis links_other(3) option.inject)
  then show ?thesis
    using assms unfolding untouched_def by (auto simp: is_dir_def)
qed

lemma well_formed_delete_entry: "well_formed_files fs \<Longrightarrow> well_formed_files (delete_entry d n fs)"
  by (auto simp: well_formed_files_def split: if_splits)

text \<open>A file moved to a name that is free or shows another file with one link.\<close>

definition moved :: "nat \<Rightarrow> string \<Rightarrow> nat \<Rightarrow> string \<Rightarrow> nat \<Rightarrow> file_system \<Rightarrow> file_system" where
  "moved d old d' new k fs = set_entry d' new k (delete_entry d old fs)"

lemma moved_simps [simp]:
  "lookup (moved d old d' new k fs) e n =
     (if e = d' \<and> n = new then Some k else if e = d \<and> n = old then None else lookup fs e n)"
  "node_at (moved d old d' new k fs) j = node_at fs j"
  "fs_euid (moved d old d' new k fs) = fs_euid fs"
  "is_dir (moved d old d' new k fs) j = is_dir fs j"
  "length (fs_nodes (moved d old d' new k fs)) = length (fs_nodes fs)"
  by (simp_all add: moved_def)

lemma links_moved:
  assumes "lookup fs d old = Some k" "links fs k = 1"
  shows "links (moved d old d' new k fs) k = 1"
  by (rule links_one [of _ d' new]) (use single_link [OF assms(2,1)] in \<open>auto split: if_splits\<close>)

lemma untouched_moved:
  assumes "lookup fs d old = Some k" "links fs k = 1" "\<not> is_dir fs k"
    and "case lookup fs d' new of None \<Rightarrow> True | Some j \<Rightarrow> links fs j = 1 \<and> \<not> is_dir fs j"
  shows "untouched {(d, old), (d', new)} fs (moved d old d' new k fs)"
proof -
  have other: "j \<noteq> k \<and> lookup fs d' new \<noteq> Some j"
    if "lookup fs e n = Some j" "(e, n) \<notin> {(d, old), (d', new)}" for e n j
    using single_link [OF assms(2,1), of e n] single_link [of fs j d' new e n] assms(4) that by auto
  have "links (moved d old d' new k fs) j = links fs j"
    if "lookup fs e n = Some j" "(e, n) \<notin> {(d, old), (d', new)}" for e n j
    using other [OF that] assms(1) by (auto simp: moved_def)
  then show ?thesis
    using assms unfolding untouched_def by (auto split: option.splits)
qed

lemma well_formed_moved:
  assumes "well_formed_files fs" "lookup fs d old = Some k" "is_dir fs d'"
  shows "well_formed_files (moved d old d' new k fs)"
  using assms by (auto simp: well_formed_files_def split: if_splits)

section \<open>Rules for the changing operations\<close>

text \<open>A file written with a fingerprint has its content and metadata; without one it is private.\<close>

definition written :: "file_system \<Rightarrow> node \<Rightarrow> string \<Rightarrow> fingerprint \<Rightarrow> bool" where
  "written fs nd b fp \<longleftrightarrow> nd_kind nd = Regular b \<and> \<not> nd_setid nd \<and> nd_extended nd = Some False
     \<and> (if fp_Exists fp then nd_mode nd = fp_Mode fp \<and> nd_uid nd = fp_UID fp \<and> nd_gid nd = fp_GID fp
        else nd_mode nd = 384 \<and> nd_uid nd = fs_euid fs)"

text \<open>What a failing write may leave behind.\<close>

definition partly_written :: "nat \<Rightarrow> string \<Rightarrow> file_system \<Rightarrow> file_system \<Rightarrow> bool" where
  "partly_written d n fs fs' \<longleftrightarrow> fs' = fs
     \<or> is_dir fs d \<and> lookup fs d n = None \<and> (\<exists>nd. is_regular nd
         \<and> (fs' = with_file d n nd fs \<or> fs' = delete_entry d n (with_file d n nd fs)))"

lemma wp_change_node [wp_rules]:
  assumes "\<And>e. \<not> b \<Longrightarrow> E (SysErr e) s fs" "Q () s (set_node k f fs)"
  shows "wp b (change_node k f) Q E s fs"
  using assms unfolding change_node_def by (auto intro!: wp_rules)

lemma fresh_node_written:
  "written fs ((fresh_node d (Regular '''') 384 fs)\<lparr>nd_kind := Regular b, nd_modified := t\<rparr>) b no_file"
  by (simp add: written_def fresh_node_def no_file_def)

lemma wp_set_metadata:
  assumes "is_regular nd" "nd_kind nd = Regular b'" "\<not> nd_setid nd" "nd_extended nd = Some False" "fp_Exists fp"
    and "\<And>e nd'. \<not> b \<Longrightarrow> is_regular nd' \<Longrightarrow> E e s (with_file d n nd' fs)"
    and "\<And>nd'. written fs nd' b' fp \<Longrightarrow> Q () s (with_file d n nd' fs)"
  shows "wp b (set_metadata (length (fs_nodes fs)) fp) Q E s (with_file d n nd fs)"
  using assms unfolding set_metadata_def
  by (auto intro!: wp_rules simp: written_def is_regular_def)

lemma put_content_with_file [simp]:
  "put_content (length (fs_nodes fs)) b (with_file d n nd fs) =
     with_file d n (nd\<lparr>nd_kind := Regular b, nd_modified := fs_mtime (with_file d n nd fs) (length (fs_nodes fs))\<rparr>) fs"
  by (simp add: put_content_def)

lemma wp_fill_file:
  assumes "nd = fresh_node d (Regular '''') 384 fs"
    and "\<And>e nd'. \<not> b \<Longrightarrow> is_regular nd' \<Longrightarrow> E e s (with_file d n nd' fs)"
    and "\<And>nd'. written fs nd' c fp \<Longrightarrow> Q () s (with_file d n nd' fs)"
  shows "wp b (fill_file (length (fs_nodes fs)) c fp) Q E s (with_file d n nd fs)"
  unfolding fill_file_def
proof (intro wp_then, unfold write_all_def, rule wp_syscall_partial)
  show "E (SysErr e) s (put_content (length (fs_nodes fs)) (take m c) (with_file d n nd fs))" if "\<not> b" for e m
    using that assms(2) by (simp add: is_regular_def)
  let ?nd = "nd\<lparr>nd_kind := Regular c, nd_modified := fs_mtime (with_file d n nd fs) (length (fs_nodes fs))\<rparr>"
  have finish: "wp b no_effect (\<lambda>_. wp b no_effect Q E) E s (with_file d n nd' fs)" if "written fs nd' c fp" for nd'
  proof -
    have "is_regular nd'" using that by (simp add: written_def is_regular_def)
    then show ?thesis using that assms(2,3) by (auto intro!: wp_rules)
  qed
  have "wp b (if fp_Exists fp then set_metadata (length (fs_nodes fs)) fp else return_db ())
     (\<lambda>_. wp b no_effect (\<lambda>_. wp b no_effect Q E) E) E s (with_file d n ?nd fs)"
  proof (cases "fp_Exists fp")
    case True
    have "wp b (set_metadata (length (fs_nodes fs)) fp)
        (\<lambda>_. wp b no_effect (\<lambda>_. wp b no_effect Q E) E) E s (with_file d n ?nd fs)"
    proof (rule wp_set_metadata [where b' = c])
      fix nd'
      assume "written fs nd' c fp"
      then show "wp b no_effect (\<lambda>_. wp b no_effect Q E) E s (with_file d n nd' fs)" by (rule finish)
    qed (simp_all add: True assms(1,2) fresh_node_def is_regular_def)
    with True show ?thesis by simp
  next
    case False
    then have "written fs ?nd c fp" by (simp add: assms(1) written_def fresh_node_def)
    with False finish show ?thesis by (simp add: wp_return)
  qed
  then have "wp b (then_db (if fp_Exists fp then set_metadata (length (fs_nodes fs)) fp else return_db ())
      (\<lambda>_. then_db no_effect (\<lambda>_. no_effect))) Q E s (with_file d n ?nd fs)"
    by (intro wp_then) (rule wp_mono, assumption, rule wp_then, assumption)
  then show "case (Inr (), put_content (length (fs_nodes fs)) c (with_file d n nd fs)) of
      (r, fs') \<Rightarrow> (case r of Inl e \<Rightarrow> E e s fs' | Inr x \<Rightarrow>
        wp b (then_db (if fp_Exists fp then set_metadata (length (fs_nodes fs)) fp else return_db ())
          (\<lambda>_. then_db no_effect (\<lambda>_. no_effect))) Q E s fs')"
    by simp
qed

lemma wp_writeAt:
  assumes "\<And>e fs'. \<not> b \<Longrightarrow> partly_written d n fs fs' \<Longrightarrow> E e s fs'"
    and "\<And>nd. is_dir fs d \<Longrightarrow> lookup fs d n = None \<Longrightarrow> written fs nd c fp \<Longrightarrow> Q () s (with_file d n nd fs)"
    and "b \<Longrightarrow> is_dir fs d \<and> lookup fs d n = None"
  shows "wp b (writeAt d n c fp) Q E s fs"
proof (cases "is_dir fs d \<and> lookup fs d n = None")
  case True
  let ?nd = "fresh_node d (Regular '''') 384 fs"
  have left: "E e s (with_file d n nd' fs)" "E e s (delete_entry d n (with_file d n nd' fs))"
    if "\<not> b" "is_regular nd'" for e nd'
    using that True by (auto intro!: assms(1) simp: partly_written_def)
  have "wp b (on_error (fill_file (length (fs_nodes fs)) c fp)
      (\<lambda>e. then_db (attempt (unlinkat d n)) (\<lambda>_. fail_db e))) (\<lambda>_. wp b no_effect Q E) E s (with_file d n ?nd fs)"
  proof (intro wp_on_error wp_fill_file)
    fix e nd'
    assume "\<not> b" "is_regular nd'"
    then show "wp b (then_db (attempt (unlinkat d n)) (\<lambda>_. fail_db e)) (\<lambda>_. wp b no_effect Q E) E s
        (with_file d n nd' fs)"
      using left unfolding unlinkat_def by (auto intro!: wp_rules split: if_splits)
  next
    fix nd'
    assume "written fs nd' c fp"
    then show "wp b no_effect Q E s (with_file d n nd' fs)"
      using left True assms(2) by (auto intro!: wp_rules simp: written_def is_regular_def)
  qed simp
  then show ?thesis
    using True assms(1) unfolding writeAt_def create_exclusive_def
    by (auto intro!: wp_rules simp: with_file_def partly_written_def)
next
  case False
  with assms(3) have "\<not> b" by blast
  then have "E e s fs" for e using assms(1) by (simp add: partly_written_def)
  with False show ?thesis
    unfolding writeAt_def create_exclusive_def by (auto intro!: wp_rules split: if_splits)
qed

lemma untouched_partly_written:
  assumes "partly_written d n fs fs'" "well_formed_files fs"
  shows "untouched {(d, n)} fs fs'" "well_formed_files fs'"
    "is_dir fs d \<Longrightarrow> lookup fs d n \<noteq> None \<Longrightarrow> fs' = fs"
proof -
  have "(untouched {(d, n)} fs fs' \<and> well_formed_files fs') \<and> (lookup fs d n \<noteq> None \<longrightarrow> fs' = fs)"
    using assms(1) unfolding partly_written_def
  proof (elim disjE conjE exE)
    fix nd
    assume fresh: "is_dir fs d" "lookup fs d n = None" "is_regular nd"
    let ?fs = "with_file d n nd fs"
    have wf: "untouched {(d, n)} fs ?fs" "well_formed_files ?fs"
      using untouched_with_file well_formed_with_file assms(2) fresh(1,2) by simp_all
    show "(untouched {(d, n)} fs fs' \<and> well_formed_files fs') \<and> (lookup fs d n \<noteq> None \<longrightarrow> fs' = fs)"
      if "fs' = ?fs" using that wf fresh(2) by simp
    have "\<not> is_dir ?fs (length (fs_nodes fs))"
      using fresh(3) by (auto simp: is_dir_def is_regular_def split: node_kind.splits)
    then have "untouched {(d, n)} ?fs (delete_entry d n ?fs)"
      by (intro untouched_delete_entry [OF _ _ links_with_file [OF assms(2)]]) simp_all
    from untouched_trans [OF wf(1) this assms(2)] well_formed_delete_entry [OF wf(2)]
    show "(untouched {(d, n)} fs fs' \<and> well_formed_files fs') \<and> (lookup fs d n \<noteq> None \<longrightarrow> fs' = fs)"
      if "fs' = delete_entry d n ?fs" using that fresh(2) by simp
  qed (simp_all add: assms(2))
  then show "untouched {(d, n)} fs fs'" "well_formed_files fs'"
    "is_dir fs d \<Longrightarrow> lookup fs d n \<noteq> None \<Longrightarrow> fs' = fs" by blast+
qed

end
