(* ===== verification/Recovery_Types.thy ===== *)
theory Recovery_Types
  imports Recovery_Files Quantity
begin

text \<open>
  The data of the recovery engine (\<open>recovery/types.go\<close>, the types of \<open>recovery/service.go\<close> and
  \<open>recovery/service_resources.go\<close>), its limits, and the computation of the capacity a change needs
  (\<open>recovery/capacity_unix.go\<close>).
\<close>

section \<open>Statuses\<close>

definition Preparing :: string where "Preparing = ''preparing''"
definition Ready :: string where "Ready = ''ready''"
definition Applying :: string where "Applying = ''applying''"
definition Verifying :: string where "Verifying = ''verifying''"
definition Committed :: string where "Committed = ''committed''"
definition Unknown :: string where "Unknown = ''outcome_unknown''"
definition RollingBack :: string where "RollingBack = ''rolling_back''"
definition Recovered :: string where "Recovered = ''recovered''"
definition RecoveryFailed :: string where "RecoveryFailed = ''recovery_failed''"
definition PreparationFailed :: string where "PreparationFailed = ''preparation_failed''"
definition Validating :: string where "Validating = ''validating''"
definition ValidationFailed :: string where "ValidationFailed = ''validation_failed''"

lemmas status_defs = Preparing_def Ready_def Applying_def Verifying_def Committed_def Unknown_def RollingBack_def
  Recovered_def RecoveryFailed_def PreparationFailed_def Validating_def ValidationFailed_def

section \<open>Limits\<close>

record limits =
  lm_MaxRepairAttempts :: int
  lm_MaxFiles :: int
  lm_MaxBytes :: int
  lm_MaxFileBytes :: int
  lm_MaxAgeSeconds :: int
  lm_MinFreeBytes :: int

definition DefaultLimits :: limits where
  "DefaultLimits = \<lparr>lm_MaxRepairAttempts = 2, lm_MaxFiles = 100, lm_MaxBytes = 33554432,
     lm_MaxFileBytes = 8388608, lm_MaxAgeSeconds = 900, lm_MinFreeBytes = 16777216\<rparr>"

definition limits_validate :: "limits \<Rightarrow> string option" where
  "limits_validate l =
     (if lm_MaxRepairAttempts l < 0 \<or> 3 < lm_MaxRepairAttempts l
      then Some ''model repair attempt limit must be 1..3 (zero uses 2)''
      else if lm_MaxFiles l < 1 \<or> 10000 < lm_MaxFiles l \<or> lm_MaxBytes l < 1 \<or> 1073741824 < lm_MaxBytes l
        \<or> lm_MaxFileBytes l < 1 \<or> lm_MaxBytes l < lm_MaxFileBytes l \<or> lm_MaxAgeSeconds l < 1
        \<or> 86400 < lm_MaxAgeSeconds l \<or> lm_MinFreeBytes l < 0 \<or> 1099511627776 < lm_MinFreeBytes l
      then Some ''invalid recovery limits (maximum 10000 files, 1 GiB, 24 hours)''
      else None)"

lemma DefaultLimits_valid: "limits_validate DefaultLimits = None"
  by (simp add: limits_validate_def DefaultLimits_def)

section \<open>Requests and plans\<close>

record change =
  ch_Action :: string
  ch_Path :: string
  ch_Content :: string
  ch_ExpectedSHA256 :: string
  ch_Mode :: nat

record request =
  rq_Changes :: "change list"
  rq_Service :: string
  rq_SSHService :: string

record file_entry =
  en_Action :: string
  en_Path :: string
  en_Root :: string
  en_ParentDevice :: nat
  en_ParentInode :: nat
  en_Before :: fingerprint
  en_After :: fingerprint
  en_Backup :: string
  en_Candidate :: string
  en_Quarantine :: string

record nginx_limits =
  nl_MaxWorkers :: int
  nl_MaxConnectionsPerWorker :: int
  nl_MaxTotalConnections :: int
  nl_MaxResidentWorkers :: int
  nl_DescriptorReserve :: int

record nginx_resources =
  nr_Workers :: int
  nr_ConnectionsPerWorker :: int

record nginx_service =
  ns_ResourceLimits :: nginx_limits
  ns_Name :: string
  ns_Binary :: string
  ns_ConfigPath :: string
  ns_Prefix :: string
  ns_PIDFile :: string
  ns_HealthURL :: string
  ns_HealthStatus :: int
  ns_HealthSHA256 :: string
  ns_TimeoutSeconds :: int

record service_process =
  pr_PID :: int
  pr_Start :: string
  pr_Boot :: string

record service_directory =
  sd_Path :: string
  sd_Device :: nat
  sd_Inode :: nat

record service_plan =
  sp_Resources :: nginx_resources
  sp_Adapter :: string
  sp_Config :: nginx_service
  sp_Binary :: fingerprint
  sp_Master :: service_process
  sp_Directories :: "service_directory list"

text \<open>The plans of the SSH and the snapshot adapters are kept as their JSON text: the engine modelled here
  only asks whether there is one.\<close>

record manifest =
  mf_Version :: int
  mf_CreatedAt :: time
  mf_Limits :: limits
  mf_Entries :: "file_entry list"
  mf_Service :: "service_plan option"
  mf_Snapshot :: "string option"
  mf_SSH :: "string option"

record operation =
  op_Record :: recovery_operation
  op_Plan :: manifest
  op_Checks :: "recovery_check list"

abbreviation op_ID :: "operation \<Rightarrow> string" where "op_ID op \<equiv> ro_ID (op_Record op)"
abbreviation op_Status :: "operation \<Rightarrow> string" where "op_Status op \<equiv> ro_Status (op_Record op)"
abbreviation op_Digest :: "operation \<Rightarrow> string" where "op_Digest op \<equiv> ro_Digest (op_Record op)"
abbreviation op_Policy :: "operation \<Rightarrow> string" where "op_Policy op \<equiv> ro_Policy (op_Record op)"
abbreviation op_Target :: "operation \<Rightarrow> string" where "op_Target op \<equiv> ro_Target (op_Record op)"

section \<open>Encodings\<close>

record filesystem_capacity =
  fc_Path :: string
  fc_Device :: nat
  fc_AvailableBytes :: int
  fc_RequiredBytes :: int
  fc_ReserveBytes :: int
  fc_BlockBytes :: int

record capacity_evidence =
  ce_Passed :: bool
  ce_Filesystems :: "filesystem_capacity list"

record resource_evidence =
  re_Passed :: bool
  re_Configured :: nginx_resources
  re_Limits :: nginx_limits
  re_AffinityCPUs :: int
  re_MasterDescriptorLimit :: nat
  re_ExistingWorkers :: int
  re_PeakWorkers :: int

record url =
  ur_Scheme :: string
  ur_Host :: string
  ur_Hostname :: string
  ur_Port :: string
  ur_User :: bool
  ur_RawQuery :: string
  ur_Fragment :: string
  ur_RawPath :: string
  ur_Path :: string

text \<open>Hashing, JSON and \<open>url.Parse\<close>.  \<open>cd_review\<close> encodes what a digest binds: target, policy and plan.\<close>

record codec =
  cd_hash :: "string \<Rightarrow> string"
  cd_valid :: "string \<Rightarrow> bool"
  cd_encode :: "manifest \<Rightarrow> string"
  cd_decode :: "string \<Rightarrow> manifest option"
  cd_review :: "string \<Rightarrow> string \<Rightarrow> manifest \<Rightarrow> string"
  cd_capacity :: "capacity_evidence \<Rightarrow> string"
  cd_resources :: "resource_evidence \<Rightarrow> string"
  cd_attempt :: "int \<Rightarrow> int \<Rightarrow> string"
  cd_url :: "string \<Rightarrow> url option"

definition planDigest :: "codec \<Rightarrow> string \<Rightarrow> string \<Rightarrow> manifest \<Rightarrow> string" where
  "planDigest c target policy m = cd_hash c (cd_review c target policy m)"

definition encodePlan :: "codec \<Rightarrow> operation \<Rightarrow> operation" where
  "encodePlan c op = op\<lparr>op_Record := (op_Record op)\<lparr>ro_Manifest := cd_encode c (op_Plan op)\<rparr>\<rparr>"

section \<open>Capacity\<close>

definition max_int64 :: int where
  "max_int64 = 9223372036854775807"

definition allocated_bytes :: "int \<Rightarrow> int \<Rightarrow> recovery_error + int" where
  "allocated_bytes n block =
     (let blocks = n div block + (if n mod block \<noteq> 0 then 1 else 0)
      in case checkedProduct blocks block of
           Inl _ \<Rightarrow> Inl (Joined [Problem ''staging capacity overflow''])
         | Inr n \<Rightarrow> Inr n)"

definition stagingCapacity :: "int \<Rightarrow> int \<Rightarrow> int \<Rightarrow> recovery_error + int" where
  "stagingCapacity before after block =
     (if before < 0 \<or> after < 0 \<or> block < 512 \<or> 1048576 < block then Inl (Problem ''invalid capacity operands'')
      else case allocated_bytes before block of
        Inl e \<Rightarrow> Inl e
      | Inr a \<Rightarrow>
          (case allocated_bytes after block of
             Inl e \<Rightarrow> Inl e
           | Inr b \<Rightarrow>
               if max_int64 - a < b then Inl (Joined [Problem ''staging capacity overflow''])
               else if max_int64 - 8 * block < a + b then Inl (Problem ''staging overhead overflow'')
               else Inr (a + b + 8 * block)))"

definition capacity_passed :: "filesystem_capacity \<Rightarrow> bool" where
  "capacity_passed c \<longleftrightarrow>
     \<not> (fc_AvailableBytes c < fc_ReserveBytes c \<or> fc_AvailableBytes c - fc_ReserveBytes c < fc_RequiredBytes c)"

text \<open>One entry added to the group of its file system.\<close>

definition add_capacity ::
  "limits \<Rightarrow> limits \<Rightarrow> file_entry \<Rightarrow> int \<Rightarrow> int \<Rightarrow> int \<Rightarrow> (nat \<times> filesystem_capacity) list
   \<Rightarrow> recovery_error + (nat \<times> filesystem_capacity) list" where
  "add_capacity now planned en block available cost groups =
     (let c0 = (case map_of groups (en_ParentDevice en) of
            None \<Rightarrow> Inr \<lparr>fc_Path = en_Root en, fc_Device = en_ParentDevice en, fc_AvailableBytes = available,
              fc_RequiredBytes = 0, fc_ReserveBytes = max (lm_MinFreeBytes now) (lm_MinFreeBytes planned),
              fc_BlockBytes = block\<rparr>
          | Some c \<Rightarrow>
              if fc_BlockBytes c \<noteq> block then Inl (Problem ''filesystem block geometry changed'')
              else Inr (c\<lparr>fc_AvailableBytes := min (fc_AvailableBytes c) available\<rparr>))
      in case c0 of
           Inl e \<Rightarrow> Inl e
         | Inr c \<Rightarrow>
             if max_int64 - fc_RequiredBytes c < cost then Inl (Problem ''capacity addition overflow'')
             else Inr (AList.update (en_ParentDevice en)
                    (c\<lparr>fc_RequiredBytes := fc_RequiredBytes c + cost\<rparr>) groups))"

definition capacity_result :: "(nat \<times> filesystem_capacity) list \<Rightarrow> capacity_evidence" where
  "capacity_result groups =
     \<lparr>ce_Passed = list_all (\<lambda>(_, c). capacity_passed c) groups,
      ce_Filesystems = sort_key fc_Device (map snd groups)\<rparr>"

lemma whole_blocks:
  assumes "0 < (block :: int)"
  shows "\<lceil>real_of_int n / real_of_int block\<rceil> = n div block + (if n mod block \<noteq> 0 then 1 else 0)"
proof -
  have "\<lceil>real_of_int n / real_of_int block\<rceil> = - (- n div block)"
    by (simp add: ceiling_divide_eq_div)
  then show ?thesis using assms by (simp add: zdiv_zminus1_eq_if)
qed

lemma allocated_bytes_iff:
  assumes "0 \<le> n" "0 < block"
  shows "allocated_bytes n block =
    (if \<lceil>real_of_int n / real_of_int block\<rceil> * block \<le> max_int64
     then Inr (\<lceil>real_of_int n / real_of_int block\<rceil> * block) else Inl (Joined [Problem ''staging capacity overflow'']))"
proof -
  have "0 \<le> (n div block + (if n mod block \<noteq> 0 then 1 else 0)) * block"
    using assms by (simp add: pos_imp_zdiv_nonneg_iff)
  then show ?thesis
    using whole_blocks [OF assms(2), of n] assms
    by (simp add: allocated_bytes_def checkedProduct_def IsInt64_def max_int64_def)
qed

lemma whole_blocks_bounds:
  assumes "0 < (block :: int)"
  shows "n \<le> \<lceil>real_of_int n / real_of_int block\<rceil> * block" "\<lceil>real_of_int n / real_of_int block\<rceil> * block < n + block"
proof -
  obtain q r where qr: "n div block = q" "n mod block = r" "n = q * block + r"
    by (metis div_mult_mod_eq)
  moreover have "0 \<le> r" "r < block" using assms qr(2) by auto
  ultimately show "n \<le> \<lceil>real_of_int n / real_of_int block\<rceil> * block"
    "\<lceil>real_of_int n / real_of_int block\<rceil> * block < n + block"
    unfolding whole_blocks [OF assms] by (auto simp: algebra_simps)
qed

text \<open>
  The space reserved for a change is enough.  For file sizes and a block size in range the result is
  the two files rounded up to whole blocks plus eight blocks, at least their bytes and less than ten blocks
  more, and it is refused exactly when that number does not fit into 64 bits.
\<close>

theorem stagingCapacity_exact:
  assumes "0 \<le> before" "0 \<le> after" "512 \<le> block" "block \<le> 1048576"
  shows "case stagingCapacity before after block of
      Inr n \<Rightarrow> n = (\<lceil>real_of_int before / real_of_int block\<rceil> + \<lceil>real_of_int after / real_of_int block\<rceil> + 8) * block
        \<and> before + after + 8 * block \<le> n \<and> n < before + after + 10 * block \<and> n \<le> max_int64
    | Inl _ \<Rightarrow> max_int64 < (\<lceil>real_of_int before / real_of_int block\<rceil> + \<lceil>real_of_int after / real_of_int block\<rceil> + 8) * block"
proof -
  have pos: "0 < block" using assms(3) by simp
  let ?b = "\<lceil>real_of_int before / real_of_int block\<rceil> * block"
  let ?a = "\<lceil>real_of_int after / real_of_int block\<rceil> * block"
  have bounds: "before \<le> ?b" "?b < before + block" "after \<le> ?a" "?a < after + block"
    using whole_blocks_bounds [OF pos] by blast+
  have total: "(\<lceil>real_of_int before / real_of_int block\<rceil> + \<lceil>real_of_int after / real_of_int block\<rceil> + 8) * block
      = ?b + ?a + 8 * block" by (simp add: algebra_simps)
  have guard: "\<not> (before < 0 \<or> after < 0 \<or> block < 512 \<or> 1048576 < block)" using assms by simp
  show ?thesis
    unfolding total using bounds assms
    by (simp add: stagingCapacity_def guard allocated_bytes_iff [OF _ pos] split: if_splits)
qed

theorem stagingCapacity_exact_witness:
  "stagingCapacity 4097 0 4096 = Inr 40960 \<and> (case stagingCapacity 4097 0 4096 of
      Inr n \<Rightarrow> n = (\<lceil>real_of_int 4097 / real_of_int 4096\<rceil> + \<lceil>real_of_int 0 / real_of_int 4096\<rceil> + 8) * 4096
        \<and> 4097 + 0 + 8 * 4096 \<le> n \<and> n < 4097 + 0 + 10 * 4096 \<and> n \<le> max_int64
    | Inl _ \<Rightarrow> max_int64 < (\<lceil>real_of_int 4097 / real_of_int 4096\<rceil> + \<lceil>real_of_int 0 / real_of_int 4096\<rceil> + 8) * 4096)"
proof (rule conjI)
  show "stagingCapacity 4097 0 4096 = Inr 40960"
    by (simp add: stagingCapacity_def allocated_bytes_def checkedProduct_def IsInt64_def max_int64_def)
qed (rule stagingCapacity_exact, simp_all)

end
