(* ===== verification/Recovery_Entries.thy ===== *)
theory Recovery_Entries
  imports Recovery_Types Recovery_Journal
begin

text \<open>
  The parts of the recovery engine (\<open>recovery/engine.go\<close>) every operation shares: the paths it may change,
  the journal writes, the inspection of a stored plan, and applying and restoring one entry.
  The engine's methods are functions of the engine and of the machine it runs on.
\<close>

section \<open>The engine\<close>

record ssh_service =
  ss_Name :: string
  ss_Binary :: string
  ss_SessionBinary :: string
  ss_ConfigPath :: string
  ss_PIDFile :: string
  ss_HostKeyPath :: string
  ss_AuthorizedKeysPath :: string
  ss_TimeoutSeconds :: int
  ss_ConfirmationSeconds :: int

text \<open>\<open>eg_fault\<close> is the injected interruption of tests; in production it is \<open>None\<close>.\<close>

record engine =
  eg_assets :: string
  eg_executable :: string
  eg_roots :: "string list"
  eg_limits :: limits
  eg_policy :: string
  eg_target :: string
  eg_fault :: "(string \<Rightarrow> int \<Rightarrow> recovery_error option) option"
  eg_services :: "nginx_service list"
  eg_sshServices :: "ssh_service list"
  eg_fleetBinaries :: "string list"
  eg_codec :: codec

definition checkpoint :: "engine \<Rightarrow> string \<Rightarrow> int \<Rightarrow> unit sys" where
  "checkpoint eg stage i =
     (case eg_fault eg of
        None \<Rightarrow> return_db ()
      | Some fault \<Rightarrow> (case fault stage i of None \<Rightarrow> return_db () | Some e \<Rightarrow> fail_db e))"

definition noArmedSSH :: "engine \<Rightarrow> unit sys" where
  "noArmedSSH eg =
     then_db (on_store (RecoveryGuardArmed (eg_target eg))) (\<lambda>armed.
       refuse_when armed ''an SSH rollback is armed; resolve it before starting another recovery mutation'')"

text \<open>The lock of the asset directory; leaving an operation releases it.\<close>

definition locked :: "engine \<Rightarrow> unit sys" where
  "locked eg = then_db (privateDirectory (eg_assets eg)) lockDirectory"

section \<open>Paths\<close>

definition is_within :: "string \<Rightarrow> string \<Rightarrow> bool" where
  "is_within path base \<longleftrightarrow> path = base \<or> HasPrefix path (base @ ''/'')"

definition protected_parts :: "string list" where
  "protected_parts = [''.git'', ''.ssh'', ''.gnupg'', ''.aws'', ''.azure'', ''.codex'', ''.cvkeharness'', ''.kube'', ''.docker'']"

definition protected_part :: "string \<Rightarrow> bool" where
  "protected_part p \<longleftrightarrow> List.member protected_parts p \<or> HasPrefix p ''.cvkeharness-''"

definition identity_files :: "string list" where
  "identity_files = [''/etc/passwd'', ''/etc/shadow'', ''/etc/group'', ''/etc/gshadow'', ''/etc/sudoers'']"

text \<open>The root the path is under, or the reason it may not be changed.\<close>

definition checkPath :: "engine \<Rightarrow> string \<Rightarrow> recovery_error + string" where
  "checkPath eg path =
     (if \<not> IsAbs path \<or> Clean path \<noteq> path \<or> ContainsAny path [NUL, LF, CR]
      then Inl (Problem ''path must be clean, absolute and contain no control separators'')
      else if path = eg_executable eg then Inl (Problem ''running recovery executable is protected'')
      else if list_ex (is_within path) [Dir (eg_assets eg), ''/proc'', ''/sys'', ''/dev'', ''/boot'']
      then Inl (Problem ''path is protected'')
      else if list_ex protected_part (SplitByte CHR ''/'' path)
      then Inl (Problem ''credential/repository/recovery path is protected'')
      else if list_ex (is_within path) identity_files then Inl (Problem ''identity configuration is protected'')
      else case find (\<lambda>base. path \<noteq> base \<and> is_within path base) (eg_roots eg) of
          Some base \<Rightarrow> Inr base
        | None \<Rightarrow> Inl (Problem ''path is outside operator-configured recovery roots''))"

definition check_path :: "engine \<Rightarrow> string \<Rightarrow> string sys" where
  "check_path eg path = (case checkPath eg path of Inl e \<Rightarrow> fail_db e | Inr base \<Rightarrow> return_db base)"

definition checkServiceScope :: "engine \<Rightarrow> string \<Rightarrow> string \<Rightarrow> recovery_error option" where
  "checkServiceScope eg path selected =
     (if List.member (eg_fleetBinaries eg) path then Some (Problem ''fleet transport executable is protected'')
      else if list_ex (\<lambda>s. List.member [ss_Binary s, ss_SessionBinary s, ss_PIDFile s, ss_HostKeyPath s,
                ss_AuthorizedKeysPath s] path) (eg_sshServices eg)
      then Some (Problem ''managed SSH executable, identity and authentication assets are protected'')
      else if list_ex (\<lambda>s. path = ss_ConfigPath s \<and> selected \<noteq> ''ssh:'' @ ss_Name s) (eg_sshServices eg)
      then Some (Problem ''managed SSH config requires its guarded transaction'')
      else if list_ex (\<lambda>s. path = ns_Binary s \<or> path = ns_PIDFile s) (eg_services eg)
      then Some (Problem ''service executable and PID file are protected'')
      else if list_ex (\<lambda>s. path = ns_ConfigPath s \<and> selected \<noteq> ns_Name s) (eg_services eg)
      then Some (Problem ''configured service file requires its typed service transaction'')
      else None)"

definition check_service_scope :: "engine \<Rightarrow> string \<Rightarrow> string \<Rightarrow> unit sys" where
  "check_service_scope eg path selected =
     (case checkServiceScope eg path selected of Some e \<Rightarrow> fail_db e | None \<Rightarrow> return_db ())"

section \<open>Journal\<close>

definition with_record :: "recovery_operation \<Rightarrow> operation \<Rightarrow> operation" where
  "with_record r op = op\<lparr>op_Record := r\<rparr>"

text \<open>The operation the caller holds afterwards; after a failed save it has the new status all the same.\<close>

definition with_status :: "codec \<Rightarrow> string \<Rightarrow> string \<Rightarrow> operation \<Rightarrow> operation" where
  "with_status c status problem op =
     encodePlan c (op\<lparr>op_Record := (op_Record op)\<lparr>ro_Status := status, ro_Problem := problem\<rparr>\<rparr>)"

definition save :: "engine \<Rightarrow> operation \<Rightarrow> string \<Rightarrow> string \<Rightarrow> operation sys" where
  "save eg op status problem =
     (let op' = with_status (eg_codec eg) status problem op
      in then_db (on_store (SaveRecoveryOperation (cd_valid (eg_codec eg)) (op_Record op')))
           (\<lambda>r. return_db (with_record r op')))"

definition hex_id :: "string \<Rightarrow> bool" where
  "hex_id s \<longleftrightarrow> length s = 32 \<and> Trim s ''0123456789abcdef'' = ''''"

definition Inspect :: "engine \<Rightarrow> string \<Rightarrow> operation sys" where
  "Inspect eg k =
     then_db (on_store (GetRecoveryOperation k)) (\<lambda>r.
       case cd_decode (eg_codec eg) (ro_Manifest r) of
         None \<Rightarrow> fail_db (Problem ''decode manifest'')
       | Some plan \<Rightarrow>
           then_db (refuse_when (\<not> hex_id k \<or> mf_Version plan \<noteq> 1
                       \<or> planDigest (eg_codec eg) (ro_Target r) (ro_Policy r) plan \<noteq> ro_Digest r)
                     ''invalid or altered recovery manifest'') (\<lambda>_.
           then_db (refuse_when (ro_Target r \<noteq> eg_target eg) ''operation belongs to a different machine or principal'') (\<lambda>_.
           then_db (on_store (RecoveryChecks k)) (\<lambda>checks.
           return_db \<lparr>op_Record = r, op_Plan = plan, op_Checks = checks\<rparr>))))"

section \<open>Entries\<close>

definition matches :: "fingerprint \<Rightarrow> fingerprint \<Rightarrow> bool \<Rightarrow> bool" where
  "matches actual want identity =
     (if fp_Exists actual \<noteq> fp_Exists want then False
      else if \<not> fp_Exists want then True
      else if fp_SHA256 actual \<noteq> fp_SHA256 want \<or> fp_Bytes actual \<noteq> fp_Bytes want \<or> fp_Mode actual \<noteq> fp_Mode want
        \<or> fp_UID actual \<noteq> fp_UID want \<or> fp_GID actual \<noteq> fp_GID want then False
      else \<not> identity \<or> (fp_Device actual = fp_Device want \<and> fp_Inode actual = fp_Inode want
        \<and> fp_ModifiedNS actual = fp_ModifiedNS want))"

definition entryParent :: "file_entry \<Rightarrow> nat sys" where
  "entryParent en =
     then_db (parentFor (en_Path en)) (\<lambda>p.
     then_db (attempt (dirIdentity p)) (\<lambda>r.
     then_db (refuse_when (r \<noteq> Inr (en_ParentDevice en, en_ParentInode en)) ''parent identity changed'') (\<lambda>_.
     return_db p)))"

definition file_conflict :: recovery_error where
  "file_conflict = Problem ''file conflict''"

definition readMatching :: "engine \<Rightarrow> file_entry \<Rightarrow> fingerprint \<Rightarrow> bool \<Rightarrow> fingerprint sys" where
  "readMatching eg en want identity =
     then_db (entryParent en) (\<lambda>p.
     then_db (readRegular (cd_hash (eg_codec eg)) p (Base (en_Path en))
                (max (max (fp_Bytes (en_Before en)) (fp_Bytes (en_After en))) 1)) (\<lambda>(got, _).
     if \<not> matches got want identity then fail_db file_conflict else return_db got))"

definition artifact :: "engine \<Rightarrow> operation \<Rightarrow> string \<Rightarrow> string \<Rightarrow> string sys" where
  "artifact eg op name hash =
     then_db (refuse_when (Base name \<noteq> name) ''invalid artifact name'') (\<lambda>_.
     then_db (openDirectory (JoinPath (eg_assets eg) (op_ID op))) (\<lambda>d.
     then_db (readRegular (cd_hash (eg_codec eg)) d name (lm_MaxFileBytes (mf_Limits (op_Plan op)))) (\<lambda>(f, b).
     then_db Geteuid (\<lambda>euid.
     then_db (refuse_when (\<not> fp_Exists f \<or> fp_SHA256 f \<noteq> hash \<or> fp_Mode f \<noteq> 384 \<or> fp_UID f \<noteq> euid)
               ''recovery artifact missing, altered or not private'') (\<lambda>_.
     return_db b)))))"

definition verifyAssets :: "engine \<Rightarrow> operation \<Rightarrow> file_entry \<Rightarrow> unit sys" where
  "verifyAssets eg op en =
     then_db (if fp_Exists (en_Before en)
              then then_db (artifact eg op (en_Backup en) (fp_SHA256 (en_Before en))) (\<lambda>_. return_db ())
              else return_db ()) (\<lambda>_.
     if fp_Exists (en_After en)
     then then_db (artifact eg op (en_Candidate en) (fp_SHA256 (en_After en))) (\<lambda>_. return_db ())
     else return_db ())"

text \<open>\<open>fmt.Sprintf("%04d", i)\<close> and the names of the staging files.\<close>

definition four_digits :: "nat \<Rightarrow> string" where
  "four_digits i = (let s = int_text (int i) in replicate (4 - length s) CHR ''0'' @ s)"

definition staging_name :: "operation \<Rightarrow> nat \<Rightarrow> string \<Rightarrow> string" where
  "staging_name op i kind = ''.cvkeharness-'' @ op_ID op @ ''-'' @ four_digits i @ kind"

text \<open>The destination is read again after staging, immediately before it is replaced.\<close>

definition replace_staged :: "engine \<Rightarrow> file_entry \<Rightarrow> nat \<Rightarrow> string \<Rightarrow> unit sys" where
  "replace_staged eg en p tmp =
     then_db (on_error (readRegular (cd_hash (eg_codec eg)) p (Base (en_Path en)) (lm_MaxFileBytes (eg_limits eg)))
               (\<lambda>e. fail_db (Joined [Problem ''file changed while staging'', e]))) (\<lambda>(actual, _).
     then_db (if matches actual (en_Before en) True then return_db ()
              else fail_db (Joined [Problem ''file changed while staging''])) (\<lambda>_.
     renameAt p tmp (Base (en_Path en))))"

definition replace_file :: "engine \<Rightarrow> operation \<Rightarrow> file_entry \<Rightarrow> nat \<Rightarrow> nat \<Rightarrow> unit sys" where
  "replace_file eg op en i p =
     then_db (artifact eg op (en_Candidate en) (fp_SHA256 (en_After en))) (\<lambda>b.
     then_db (writeAt p (staging_name op i ''.pending'') b (en_After en)) (\<lambda>_.
     replace_staged eg en p (staging_name op i ''.pending'')))"

text \<open>A deleted file is moved to a directory of its own.\<close>

definition quarantine_file :: "engine \<Rightarrow> file_entry \<Rightarrow> nat \<Rightarrow> unit sys" where
  "quarantine_file eg en p =
     then_db (childPrivateDirectory p (en_Quarantine en) True) (\<lambda>qd.
     then_db (readRegular (cd_hash (eg_codec eg)) qd ''original'' (lm_MaxFileBytes (eg_limits eg))) (\<lambda>(q, _).
     then_db (refuse_when (fp_Exists q) ''quarantine destination already exists'') (\<lambda>_.
     moveAt p (Base (en_Path en)) qd ''original'')))"

definition applyEntry :: "engine \<Rightarrow> operation \<Rightarrow> file_entry \<Rightarrow> nat \<Rightarrow> unit sys" where
  "applyEntry eg op en i =
     then_db (entryParent en) (\<lambda>p.
     then_db (readRegular (cd_hash (eg_codec eg)) p (Base (en_Path en)) (lm_MaxFileBytes (eg_limits eg))) (\<lambda>(actual, _).
     then_db (refuse_when (\<not> matches actual (en_Before en) True) ''file changed after preparation'') (\<lambda>_.
     if en_Action en = ''delete'' then quarantine_file eg en p else replace_file eg op en i p)))"

text \<open>The original of a deleted file is moved back from the quarantine, if it is there.\<close>

definition restore_quarantined :: "engine \<Rightarrow> operation \<Rightarrow> file_entry \<Rightarrow> nat \<Rightarrow> bool sys" where
  "restore_quarantined eg op en p =
     then_db (attempt (childPrivateDirectory p (en_Quarantine en) False)) (\<lambda>r.
       case r of
         Inl e \<Rightarrow> if e = NotExist then return_db False else fail_db e
       | Inr qd \<Rightarrow>
           then_db (readRegular (cd_hash (eg_codec eg)) qd ''original'' (lm_MaxFileBytes (mf_Limits (op_Plan op)))) (\<lambda>(q, _).
           if \<not> fp_Exists q then return_db False
           else if \<not> matches q (en_Before en) True
           then fail_db (Problem ''quarantined file changed; refusing ambiguous restore'')
           else then_db (moveAt qd ''original'' p (Base (en_Path en))) (\<lambda>_. return_db True)))"

definition restore_staged :: "engine \<Rightarrow> operation \<Rightarrow> file_entry \<Rightarrow> nat \<Rightarrow> string \<Rightarrow> unit sys" where
  "restore_staged eg op en p tmp =
     then_db (on_error (readRegular (cd_hash (eg_codec eg)) p (Base (en_Path en)) (lm_MaxFileBytes (mf_Limits (op_Plan op))))
               (\<lambda>e. fail_db (Joined [Problem ''destination changed during restore'', e]))) (\<lambda>(actual, _).
     then_db (if matches actual (en_After en) False then return_db ()
              else fail_db (Joined [Problem ''destination changed during restore''])) (\<lambda>_.
     renameAt p tmp (Base (en_Path en))))"

definition restore_backup :: "engine \<Rightarrow> operation \<Rightarrow> file_entry \<Rightarrow> nat \<Rightarrow> nat \<Rightarrow> string \<Rightarrow> unit sys" where
  "restore_backup eg op en i p b =
     (let tmp = staging_name op i ''.restore'' in
     then_db (readRegular (cd_hash (eg_codec eg)) p tmp (lm_MaxFileBytes (mf_Limits (op_Plan op)))) (\<lambda>(staged, _).
     then_db (if fp_Exists staged
              then refuse_when (\<not> matches staged (en_Before en) False) ''restore staging conflict''
              else writeAt p tmp b (en_Before en)) (\<lambda>_.
     restore_staged eg op en p tmp)))"

text \<open>The original comes back from the quarantine or from its copy.\<close>

definition restore_original :: "engine \<Rightarrow> operation \<Rightarrow> file_entry \<Rightarrow> nat \<Rightarrow> nat \<Rightarrow> unit sys" where
  "restore_original eg op en i p =
     then_db (artifact eg op (en_Backup en) (fp_SHA256 (en_Before en))) (\<lambda>b.
     then_db (if en_Action en = ''delete'' then restore_quarantined eg op en p else return_db False) (\<lambda>moved_back.
     if moved_back then return_db () else restore_backup eg op en i p b))"

definition restoreEntry :: "engine \<Rightarrow> operation \<Rightarrow> file_entry \<Rightarrow> nat \<Rightarrow> unit sys" where
  "restoreEntry eg op en i =
     then_db (entryParent en) (\<lambda>p.
     then_db (readRegular (cd_hash (eg_codec eg)) p (Base (en_Path en)) (lm_MaxFileBytes (mf_Limits (op_Plan op)))) (\<lambda>(actual, _).
     if matches actual (en_Before en) False then return_db ()
     else if \<not> matches actual (en_After en) False then fail_db (Problem ''restore conflict'')
     else if \<not> fp_Exists (en_Before en) then removeAt p (Base (en_Path en))
     else restore_original eg op en i p))"

end
