(* ===== verification/Nginx_Config.thy ===== *)
theory Nginx_Config
  imports Recovery_Types
begin

text \<open>
  The small configuration grammar of the NGINX adapter (\<open>recovery/nginx_config.go\<close>): tokens, the block
  structure, the directives that are allowed, and the comparison of an original with a candidate.
  The lexer reads runes: a byte that is not part of a UTF-8 sequence becomes the replacement character, in
  the model as in the source, so words are valid UTF-8.  The source compares the JSON of two directive trees;
  the encoding of a tree of valid words is injective, so the model compares the trees.
\<close>

section \<open>Runes\<close>

text \<open>A rune, by its UTF-8 encoding.  \<open>runes\<close> is Go's conversion of a string to runes: the sequences the
  Unicode standard allows are decoded, any other byte is replaced.\<close>

type_synonym rune = string

definition byte_in :: "string \<Rightarrow> nat \<Rightarrow> nat \<Rightarrow> nat \<Rightarrow> bool" where
  "byte_in s i low high \<longleftrightarrow> i < length s \<and> low \<le> of_char (s ! i) \<and> of_char (s ! i) \<le> high"

definition continues :: "string \<Rightarrow> nat \<Rightarrow> bool" where
  "continues s i \<longleftrightarrow> byte_in s i 128 191"

text \<open>The length of the sequence at the start of \<open>s\<close>; 0 when there is none.\<close>

definition rune_length :: "string \<Rightarrow> nat" where
  "rune_length s =
     (let b = of_char (hd s) :: nat in
      if b < 128 then 1
      else if b < 194 \<or> 244 < b then 0
      else if b < 224 then (if continues s 1 then 2 else 0)
      else if b < 240 then
        (if byte_in s 1 (if b = 224 then 160 else 128) (if b = 237 then 159 else 191) \<and> continues s 2 then 3 else 0)
      else
        (if byte_in s 1 (if b = 240 then 144 else 128) (if b = 244 then 143 else 191) \<and> continues s 2 \<and> continues s 3
         then 4 else 0))"

definition replacement_rune :: rune where
  "replacement_rune = [CHR 0xEF, CHR 0xBF, CHR 0xBD]"

function (sequential) runes :: "string \<Rightarrow> rune list" where
  "runes [] = []"
| "runes (c # s) =
     (let n = rune_length (c # s) in
      if n = 0 then replacement_rune # runes s
      else take n (c # s) # runes (drop (n - 1) s))"
  by pat_completeness auto
termination
  by (relation "measure length") auto

text \<open>\<open>unicode.IsSpace\<close>.\<close>

definition unicode_space :: "rune \<Rightarrow> bool" where
  "unicode_space r \<longleftrightarrow>
     List.member ([[SPC], [TAB], [LF], [CHR 0x0B], [CHR 0x0C], [CR], [CHR 0xC2, CHR 0x85], [CHR 0xC2, CHR 0xA0],
       [CHR 0xE1, CHR 0x9A, CHR 0x80], [CHR 0xE2, CHR 0x80, CHR 0xA8], [CHR 0xE2, CHR 0x80, CHR 0xA9],
       [CHR 0xE2, CHR 0x80, CHR 0xAF], [CHR 0xE2, CHR 0x81, CHR 0x9F], [CHR 0xE3, CHR 0x80, CHR 0x80]]
       @ map (\<lambda>c. [CHR 0xE2, CHR 0x80, c])
           [CHR 0x80, CHR 0x81, CHR 0x82, CHR 0x83, CHR 0x84, CHR 0x85, CHR 0x86, CHR 0x87, CHR 0x88, CHR 0x89, CHR 0x8A]) r"

section \<open>Tokens\<close>

definition delimiters :: "rune list" where
  "delimiters = ['';'', ''{'', ''}'']"

definition ends_token :: "rune \<Rightarrow> bool" where
  "ends_token c \<longleftrightarrow> unicode_space c \<or> List.member (delimiters @ [''#'']) c"

text \<open>A word, quoted or not: what was read, whether it is complete, and the rest.\<close>

fun nginx_word :: "rune option \<Rightarrow> string \<Rightarrow> rune list \<Rightarrow> string + string \<times> bool \<times> rune list" where
  "nginx_word q acc [] = Inr (acc, q = None, [])"
| "nginx_word q acc (c # s) =
     (if c = [NUL] \<or> c = [BSLASH] then Inl ''escapes and NUL are unsupported''
      else case q of
        Some quote \<Rightarrow> if c = quote then Inr (acc, True, s) else nginx_word q (acc @ c) s
      | None \<Rightarrow>
          if ends_token c then Inr (acc, True, c # s)
          else if c = [SQUOTE] \<or> c = [DQUOTE] then Inl ''mixed quoting is unsupported''
          else nginx_word q (acc @ c) s)"

lemma nginx_word_length: "nginx_word q acc s = Inr (w, whole, rest) \<Longrightarrow> length rest \<le> length s"
  by (induction q acc s rule: nginx_word.induct) (auto split: if_splits option.splits)

lemma nginx_word_progress: "\<not> ends_token c \<Longrightarrow> nginx_word None acc (c # s) = Inr (w, whole, rest) \<Longrightarrow> length rest \<le> length s"
  by (auto split: if_splits dest: nginx_word_length)

definition nginx_word_at :: "rune \<Rightarrow> rune list \<Rightarrow> string + string \<times> bool \<times> rune list" where
  "nginx_word_at c s =
     (if c = [SQUOTE] \<or> c = [DQUOTE] then nginx_word (Some c) [] s else nginx_word None [] (c # s))"

lemma nginx_word_at_length:
  "\<not> ends_token c \<Longrightarrow> nginx_word_at c s = Inr (w, whole, rest) \<Longrightarrow> length rest \<le> length s"
  by (auto simp: nginx_word_at_def simp del: nginx_word.simps split: if_splits
      dest: nginx_word_length nginx_word_progress)

function (sequential) nginx_tokens :: "string list \<Rightarrow> rune list \<Rightarrow> string + string list" where
  "nginx_tokens out [] = Inr out"
| "nginx_tokens out (c # s) =
     (if unicode_space c then nginx_tokens out s
      else if c = ''#'' then nginx_tokens out (dropWhile (\<lambda>d. d \<noteq> [LF]) s)
      else if List.member delimiters c then nginx_tokens (out @ [c]) s
      else case nginx_word_at c s of
          Inl e \<Rightarrow> Inl e
        | Inr (w, whole, rest) \<Rightarrow>
            if \<not> whole \<or> (c = [SQUOTE] \<or> c = [DQUOTE]) \<and> rest \<noteq> [] \<and> \<not> ends_token (hd rest)
            then Inl ''invalid quoted token''
            else if w = '';'' \<or> w = ''{'' \<or> w = ''}'' then Inl ''quoted delimiters are unsupported''
            else if 4096 < length out + 1 then Inl ''configuration token limit exceeded''
            else nginx_tokens (out @ [w]) rest)"
  by pat_completeness auto
termination
  by (relation "measure (\<lambda>(_, s). length s)")
    (auto simp: le_imp_less_Suc length_dropWhile_le ends_token_def dest: nginx_word_at_length [rotated])

definition nginxTokens :: "string \<Rightarrow> string + string list" where
  "nginxTokens s = nginx_tokens [] (runes s)"

section \<open>Structure\<close>

datatype nginx_directive = Directive (dr_words: "string list") (dr_children: "nginx_directive list") (dr_block: bool)

definition structural :: "string \<Rightarrow> bool" where
  "structural t \<longleftrightarrow> t = '';'' \<or> t = ''{'' \<or> t = ''}''"

text \<open>The fuel bounds the calls; one more than the number of tokens is enough.\<close>

fun parse_directives ::
  "nat \<Rightarrow> bool \<Rightarrow> nat \<Rightarrow> nginx_directive list \<Rightarrow> string list \<Rightarrow> (string + nginx_directive list \<times> string list) option" where
  "parse_directives 0 nested depth out ts = None"
| "parse_directives (Suc n) nested depth out ts =
     (if 4 < depth then Some (Inl ''configuration nesting limit'')
      else if ts = [] then Some (if nested then Inl ''unclosed block'' else Inr (out, []))
      else if hd ts = ''}'' then Some (if nested then Inr (out, tl ts) else Inl ''unexpected closing brace'')
      else
        (let words = takeWhile (\<lambda>t. \<not> structural t) ts; rest = dropWhile (\<lambda>t. \<not> structural t) ts in
         if words = [] \<or> rest = [] \<or> hd rest = ''}'' then Some (Inl ''missing directive terminator'')
         else if hd rest = ''{'' then
           (case parse_directives n True (depth + 1) [] (tl rest) of
              None \<Rightarrow> None
            | Some (Inl e) \<Rightarrow> Some (Inl e)
            | Some (Inr (children, rest')) \<Rightarrow>
                parse_directives n nested depth (out @ [Directive words children True]) rest')
         else parse_directives n nested depth (out @ [Directive words [] False]) (tl rest)))"

lemma parse_directives_rest:
  "parse_directives n nested depth out ts = Some (Inr (ds, rest)) \<Longrightarrow> length rest \<le> length ts"
proof (induction n arbitrary: nested depth out ts ds rest)
  case (Suc n)
  let ?words = "takeWhile (\<lambda>t. \<not> structural t) ts" and ?rest = "dropWhile (\<lambda>t. \<not> structural t) ts"
  have "length (tl ?rest) \<le> length ts"
    by (metis diff_le_self length_dropWhile_le length_tl le_trans)
  with Suc.prems show ?case
    by (auto simp: Let_def split: if_splits option.splits sum.splits dest!: Suc.IH)
qed simp

lemma parse_directives_returns:
  "length ts < n \<Longrightarrow> parse_directives n nested depth out ts \<noteq> None"
proof (induction n arbitrary: nested depth out ts)
  case (Suc n)
  let ?rest = "dropWhile (\<lambda>t. \<not> structural t) ts"
  show ?case
  proof (cases "?rest = []")
    case False
    have "length ?rest \<le> length ts" by (simp add: length_dropWhile_le)
    with False Suc.prems have shorter: "length (tl ?rest) < n" by (cases ?rest) simp_all
    have "length rest' < n"
      if "parse_directives n True (depth + 1) [] (tl ?rest) = Some (Inr (children, rest'))" for children rest'
      using parse_directives_rest [OF that] shorter by simp
    with shorter Suc.IH show ?thesis
      by (auto simp: Let_def split: option.splits sum.splits simp del: not_None_eq)
  qed (simp add: Let_def)
qed simp

section \<open>Allowed directives\<close>

definition nginxInt :: "string list \<Rightarrow> int \<Rightarrow> int \<Rightarrow> bool" where
  "nginxInt args low high \<longleftrightarrow>
     (case args of
        [a] \<Rightarrow> a \<noteq> '''' \<and> Trim a ''0123456789'' = ''''
          \<and> (case Atoi a of None \<Rightarrow> False | Some n \<Rightarrow> low \<le> n \<and> n \<le> high)
      | _ \<Rightarrow> False)"

definition temp_directories :: "string list" where
  "temp_directories = [''client_body_temp_path'', ''proxy_temp_path'', ''fastcgi_temp_path'', ''uwsgi_temp_path'',
     ''scgi_temp_path'']"

text \<open>What the walk over the directives counts and measures.\<close>

record shape_state =
  sh_pid :: nat
  sh_log :: nat
  sh_health :: nat
  sh_resources :: nginx_resources

definition initial_shape :: shape_state where
  "initial_shape = \<lparr>sh_pid = 0, sh_log = 0, sh_health = 0,
     sh_resources = \<lparr>nr_Workers = 1, nr_ConnectionsPerWorker = 512\<rparr>\<rparr>"

text \<open>A directive without a block: an error, or whether its value may change, and the new state.\<close>

definition nginx_leaf ::
  "bool \<Rightarrow> nginx_service \<Rightarrow> url \<Rightarrow> string \<Rightarrow> bool \<Rightarrow> string \<Rightarrow> string list \<Rightarrow> shape_state
   \<Rightarrow> string + bool \<times> shape_state" where
  "nginx_leaf superuser s u loc health name args st =
     (if loc = ''main'' \<and> name = ''pid'' \<and> args = [ns_PIDFile s] then Inr (False, st\<lparr>sh_pid := sh_pid st + 1\<rparr>)
      else if loc = ''main'' \<and> name = ''error_log'' \<and> args = [''stderr'', ''notice'']
      then Inr (False, st\<lparr>sh_log := sh_log st + 1\<rparr>)
      else if loc = ''main'' \<and> name = ''user'' \<and> args = [''root''] \<and> superuser then Inr (False, st)
      else if loc = ''main'' \<and> (name = ''daemon'' \<or> name = ''master_process'') \<and> args = [''on''] then Inr (False, st)
      else if loc = ''main'' \<and> name = ''worker_processes'' then
        (if \<not> nginxInt args 1 16 then Inl ''worker_processes must be an integer in 1..16''
         else Inr (True, st\<lparr>sh_resources := (sh_resources st)\<lparr>nr_Workers := AtoiValue (hd args)\<rparr>\<rparr>))
      else if loc = ''events'' \<and> name = ''worker_connections'' then
        (if \<not> nginxInt args 1 65536 then Inl ''worker_connections must be an integer in 1..65536''
         else Inr (True, st\<lparr>sh_resources := (sh_resources st)\<lparr>nr_ConnectionsPerWorker := AtoiValue (hd args)\<rparr>\<rparr>))
      else if loc = ''http'' \<and> name = ''access_log'' \<and> args = [''off''] then Inr (False, st)
      else if loc = ''http'' \<and> name = ''default_type'' \<and> args = [''text/plain''] then Inr (False, st)
      else if loc = ''http'' \<and> List.member temp_directories name \<and> args = [ns_Prefix s @ ''/'' @ name]
      then Inr (False, st)
      else if loc = ''http'' \<and> (name = ''sendfile'' \<or> name = ''server_tokens'') \<and> (args = [''on''] \<or> args = [''off''])
      then Inr (True, st)
      else if (loc = ''http'' \<or> loc = ''server'') \<and> name = ''keepalive_timeout'' then
        (if \<not> nginxInt args 0 300 then Inl ''keepalive_timeout must be integer seconds in 0..300''
         else Inr (True, st))
      else if loc = ''server'' \<and> name = ''listen'' \<and> args = [ur_Host u] then Inr (False, st)
      else if loc = ''location'' \<and> name = ''return'' \<and> (length args = 1 \<or> length args = 2) then
        (if \<not> nginxInt (take 1 args) 200 599
            \<or> length args = 2 \<and> (8192 < length (args ! 1) \<or> Contains (args ! 1) ''$'')
         then Inl ''unsupported return status/body'' else Inr (True, st))
      else if loc = ''location'' \<and> health \<and> name = ''add_header'' \<and> args = [''X-Cvke-Worker'', ''$pid'', ''always'']
      then Inr (False, st\<lparr>sh_health := sh_health st + 1\<rparr>)
      else Inl ''unsupported directive'')"

text \<open>The location a block opens and whether it is the health location.\<close>

definition nginx_block :: "url \<Rightarrow> string \<Rightarrow> string \<Rightarrow> string list \<Rightarrow> string + string \<times> bool" where
  "nginx_block u loc name args =
     (if loc = ''main'' \<and> (name = ''events'' \<or> name = ''http'') \<and> args = [] then Inr (name, False)
      else if loc = ''http'' \<and> name = ''server'' \<and> args = [] then Inr (''server'', False)
      else if loc = ''server'' \<and> name = ''location'' \<and> (length args = 1 \<or> length args = 2 \<and> hd args = ''='') then
        (let path = last args in
         if \<not> HasPrefix path ''/'' \<or> ContainsAny path [CHR ''$'', LF, CR, BSLASH] then Inl ''unsupported location''
         else Inr (''location'', length args = 2 \<and> path = ur_Path u))
      else Inl ''unsupported block'')"

definition missing_directive :: "string \<Rightarrow> string list \<Rightarrow> string option" where
  "missing_directive loc seen =
     (if loc = ''http'' \<and> \<not> List.member seen ''access_log'' then Some ''explicit access_log off is required''
      else if loc = ''http'' \<and> list_ex (\<lambda>n. \<not> List.member seen n) temp_directories
      then Some ''explicit service-prefix temp path is required''
      else if loc = ''server'' \<and> \<not> List.member seen ''listen'' then Some ''explicit loopback listener is required''
      else None)"

definition reviewed_value :: string where
  "reviewed_value = ''<reviewed-value>''"

fun nginx_validate ::
  "bool \<Rightarrow> nginx_service \<Rightarrow> url \<Rightarrow> string \<Rightarrow> bool \<Rightarrow> string list \<Rightarrow> nginx_directive list \<Rightarrow> shape_state
   \<Rightarrow> string + nginx_directive list \<times> shape_state" where
  "nginx_validate su s u loc health seen [] st =
     (case missing_directive loc seen of Some e \<Rightarrow> Inl e | None \<Rightarrow> Inr ([], st))"
| "nginx_validate su s u loc health seen (Directive words children block # ds) st =
     (let name = hd words; args = tl words in
      if name \<noteq> ''server'' \<and> name \<noteq> ''location'' \<and> List.member seen name then Inl ''duplicate directive''
      else if block then
        (case nginx_block u loc name args of
           Inl e \<Rightarrow> Inl e
         | Inr (loc', health') \<Rightarrow>
             (case nginx_validate su s u loc' health' [] children st of
                Inl e \<Rightarrow> Inl e
              | Inr (children', st') \<Rightarrow>
                  (case nginx_validate su s u loc health (seen @ [name]) ds st' of
                     Inl e \<Rightarrow> Inl e
                   | Inr (ds', st'') \<Rightarrow> Inr (Directive words children' True # ds', st''))))
      else
        (case nginx_leaf su s u loc health name args st of
           Inl e \<Rightarrow> Inl e
         | Inr (mutable, st') \<Rightarrow>
             (case nginx_validate su s u loc health (seen @ [name]) ds st' of
                Inl e \<Rightarrow> Inl e
              | Inr (ds', st'') \<Rightarrow>
                  Inr (Directive (if mutable then [name, reviewed_value] else words) children False # ds', st''))))"

definition nginxShapeWithResources ::
  "bool \<Rightarrow> nginx_service \<Rightarrow> url \<Rightarrow> string \<Rightarrow> string + nginx_directive list \<times> nginx_resources" where
  "nginxShapeWithResources su s u input =
     (case nginxTokens input of
        Inl e \<Rightarrow> Inl e
      | Inr tokens \<Rightarrow>
          (case parse_directives (length tokens + 1) False 0 [] tokens of
             None \<Rightarrow> Inl ''''
           | Some (Inl e) \<Rightarrow> Inl e
           | Some (Inr (ds, _)) \<Rightarrow>
               (case nginx_validate su s u ''main'' False [] ds initial_shape of
                  Inl e \<Rightarrow> Inl e
                | Inr (ds', st) \<Rightarrow>
                    if sh_pid st \<noteq> 1 \<or> sh_log st \<noteq> 1 \<or> sh_health st \<noteq> 1
                    then Inl ''exact PID, stderr notice logging and one attested health location are required''
                    else Inr (ds', sh_resources st))))"

definition nginxShape :: "bool \<Rightarrow> nginx_service \<Rightarrow> url \<Rightarrow> string \<Rightarrow> string + nginx_directive list" where
  "nginxShape su s u input = map_sum id fst (nginxShapeWithResources su s u input)"

definition validateNGINXChange :: "bool \<Rightarrow> nginx_service \<Rightarrow> url \<Rightarrow> string \<Rightarrow> string \<Rightarrow> recovery_error option" where
  "validateNGINXChange su s u before after =
     (case nginxShape su s u before of
        Inl e \<Rightarrow> Some (Wrapped ''unsupported original NGINX config'' (Problem e))
      | Inr a \<Rightarrow>
          (case nginxShape su s u after of
             Inl e \<Rightarrow> Some (Wrapped ''unsupported candidate NGINX config'' (Problem e))
           | Inr b \<Rightarrow>
               if a \<noteq> b
               then Some (Problem ''NGINX change alters protected structure, listener, PID, identity or health attestation'')
               else None))"

section \<open>What an accepted configuration can be\<close>

definition mutable_directive :: "string \<Rightarrow> string \<Rightarrow> bool" where
  "mutable_directive loc name \<longleftrightarrow>
     loc = ''main'' \<and> name = ''worker_processes'' \<or> loc = ''events'' \<and> name = ''worker_connections''
     \<or> loc = ''http'' \<and> (name = ''sendfile'' \<or> name = ''server_tokens'')
     \<or> (loc = ''http'' \<or> loc = ''server'') \<and> name = ''keepalive_timeout'' \<or> loc = ''location'' \<and> name = ''return''"

text \<open>A configuration with the values of the mutable directives blanked out.\<close>

fun blanked :: "string \<Rightarrow> nginx_directive list \<Rightarrow> nginx_directive list" where
  "blanked loc [] = []"
| "blanked loc (Directive words children block # ds) =
     (if block then Directive words (blanked (hd words) children) True
      else Directive (if mutable_directive loc (hd words) then [hd words, reviewed_value] else words) children False)
     # blanked loc ds"

text \<open>The directives without a block, with the block they stand in.\<close>

fun leaves :: "string \<Rightarrow> nginx_directive list \<Rightarrow> (string \<times> string list) list" where
  "leaves loc [] = []"
| "leaves loc (Directive words children block # ds) =
     (if block then leaves (hd words) children else [(loc, words)]) @ leaves loc ds"

lemma nginx_block_location: "nginx_block u loc name args = Inr (loc', health) \<Longrightarrow> loc' = name"
  by (auto simp: nginx_block_def Let_def split: if_splits)

text \<open>The branches of \<open>nginx_leaf\<close> one at a time: what an accepted directive is.\<close>

definition leaf_allowed :: "bool \<Rightarrow> nginx_service \<Rightarrow> url \<Rightarrow> string \<Rightarrow> string list \<Rightarrow> bool" where
  "leaf_allowed su s u name args \<longleftrightarrow>
     (if name = ''pid'' then args = [ns_PIDFile s]
      else if name = ''listen'' then args = [ur_Host u]
      else if name = ''user'' then su \<and> args = [''root'']
      else if name = ''error_log'' then args = [''stderr'', ''notice'']
      else if name = ''access_log'' then args = [''off'']
      else if List.member temp_directories name then args = [ns_Prefix s @ ''/'' @ name]
      else if name = ''worker_processes'' then nginxInt args 1 16
      else if name = ''worker_connections'' then nginxInt args 1 65536
      else List.member [''daemon'', ''master_process'', ''default_type'', ''sendfile'', ''server_tokens'',
        ''keepalive_timeout'', ''return'', ''add_header''] name)"

text \<open>A property of the value of every branch of a conditional, each branch under its own condition only.\<close>

definition on_Inr :: "('a \<Rightarrow> bool) \<Rightarrow> string + 'a \<Rightarrow> bool" where
  "on_Inr R r \<longleftrightarrow> (case r of Inl _ \<Rightarrow> True | Inr x \<Rightarrow> R x)"

lemma on_Inr_simps [simp]: "on_Inr R (Inl e)" "on_Inr R (Inr x) = R x"
  by (simp_all add: on_Inr_def)

lemma on_Inr_if: "(c \<Longrightarrow> on_Inr R x) \<Longrightarrow> on_Inr R y \<Longrightarrow> on_Inr R (if c then x else y)"
  by simp

lemma on_Inr_refuse: "(c \<Longrightarrow> R x) \<Longrightarrow> on_Inr R (if \<not> c then Inl e else Inr x)"
  by simp

lemma temp_name:
  "name \<in> set temp_directories \<longleftrightarrow>
    name = ''client_body_temp_path'' \<or> name = ''proxy_temp_path'' \<or> name = ''fastcgi_temp_path''
    \<or> name = ''uwsgi_temp_path'' \<or> name = ''scgi_temp_path''"
  "List.member temp_directories name \<longleftrightarrow> name \<in> set temp_directories"
  by (simp_all add: temp_directories_def)

lemma nginx_leaf_result:
  "on_Inr (\<lambda>(b, _). b = mutable_directive loc name \<and> leaf_allowed su s u name args)
     (nginx_leaf su s u loc health name args st)"
  unfolding nginx_leaf_def
  by (intro on_Inr_refuse on_Inr_if;
      (simp only: temp_name)?; (elim conjE disjE)?; simp add: mutable_directive_def leaf_allowed_def temp_name)

definition resources_in_range :: "nginx_resources \<Rightarrow> bool" where
  "resources_in_range r \<longleftrightarrow> 1 \<le> nr_Workers r \<and> nr_Workers r \<le> 16
     \<and> 1 \<le> nr_ConnectionsPerWorker r \<and> nr_ConnectionsPerWorker r \<le> 65536"

lemma nginxInt_value: "nginxInt args low high \<Longrightarrow> low \<le> AtoiValue (hd args) \<and> AtoiValue (hd args) \<le> high"
  by (auto simp: nginxInt_def Atoi_def AtoiValue_def split: list.splits option.splits if_splits)

lemma nginx_leaf_resources:
  "resources_in_range (sh_resources st) \<Longrightarrow>
     on_Inr (\<lambda>(_, st'). resources_in_range (sh_resources st')) (nginx_leaf su s u loc health name args st)"
  unfolding nginx_leaf_def
  by (intro on_Inr_refuse on_Inr_if) (auto simp: resources_in_range_def dest: nginxInt_value)

lemma nginx_validate_shape:
  assumes "nginx_validate su s u loc health seen ds st = Inr (ds', st')"
  shows "ds' = blanked loc ds \<and> (\<forall>(l, ws) \<in> set (leaves loc ds). leaf_allowed su s u (hd ws) (tl ws))
    \<and> (resources_in_range (sh_resources st) \<longrightarrow> resources_in_range (sh_resources st'))"
  using assms
proof (induction su s u loc health seen ds st arbitrary: ds' st' rule: nginx_validate.induct)
  case (2 su s u loc health seen words children block ds st)
  have fresh: "\<not> (hd words \<noteq> ''server'' \<and> hd words \<noteq> ''location'' \<and> List.member seen (hd words))"
    using "2.prems" by (auto simp: Let_def)
  show ?case
  proof (cases block)
    case True
    with "2.prems" fresh obtain loc' health' children' st1 ds1 where block:
      "nginx_block u loc (hd words) (tl words) = Inr (loc', health')"
      "nginx_validate su s u loc' health' [] children st = Inr (children', st1)"
      "nginx_validate su s u loc health (seen @ [hd words]) ds st1 = Inr (ds1, st')"
      "ds' = Directive words children' True # ds1"
      by (auto simp: Let_def split: sum.splits)
    note IH = "2.IH"(1) [OF refl refl fresh True block(1) refl block(2)]
      "2.IH"(2) [OF refl refl fresh True block(1) refl block(2) refl block(3)]
    show ?thesis using IH True nginx_block_location [OF block(1)] by (auto simp: block(4))
  next
    case False
    with "2.prems" fresh obtain m st1 ds1 where leaf:
      "nginx_leaf su s u loc health (hd words) (tl words) st = Inr (m, st1)"
      "nginx_validate su s u loc health (seen @ [hd words]) ds st1 = Inr (ds1, st')"
      "ds' = Directive (if m then [hd words, reviewed_value] else words) children False # ds1"
      by (auto simp: Let_def split: sum.splits)
    have "m = mutable_directive loc (hd words)" "leaf_allowed su s u (hd words) (tl words)"
      "resources_in_range (sh_resources st) \<longrightarrow> resources_in_range (sh_resources st1)"
      using nginx_leaf_result [of loc "hd words" su s u "tl words" health st]
        nginx_leaf_resources [of st su s u loc health "hd words" "tl words"] by (simp_all add: leaf(1))
    with "2.IH"(3) [OF refl refl fresh False leaf(1) refl leaf(2)] False show ?thesis
      by (auto simp: leaf(3))
  qed
qed (auto split: option.splits)

lemma nginxShapeWithResources_Inr:
  assumes "nginxShapeWithResources su s u input = Inr (shape, r)"
  obtains tokens ds where "nginxTokens input = Inr tokens"
    "parse_directives (length tokens + 1) False 0 [] tokens = Some (Inr (ds, []))"
    "shape = blanked ''main'' ds" "\<forall>(l, ws) \<in> set (leaves ''main'' ds). leaf_allowed su s u (hd ws) (tl ws)"
    "resources_in_range r"
proof -
  obtain tokens ds rest ds' st where steps: "nginxTokens input = Inr tokens"
    "parse_directives (length tokens + 1) False 0 [] tokens = Some (Inr (ds, rest))"
    "nginx_validate su s u ''main'' False [] ds initial_shape = Inr (ds', st)" "shape = ds'" "r = sh_resources st"
    using assms by (auto simp: nginxShapeWithResources_def split: sum.splits option.splits if_splits)
  have "rest = []" if "parse_directives n False d out ts = Some (Inr (ds, rest))" for n d out ts
    using that by (induction n arbitrary: d out ts) (auto simp: Let_def split: if_splits option.splits sum.splits)
  then have "rest = []" using steps(2) .
  moreover have "resources_in_range (sh_resources initial_shape)"
    by (simp add: resources_in_range_def initial_shape_def)
  ultimately show ?thesis
    using that [OF steps(1)] steps(2,4,5) nginx_validate_shape [OF steps(3)] by simp
qed

text \<open>A configuration as the adapter reads it.\<close>

definition nginx_tree :: "string \<Rightarrow> nginx_directive list option" where
  "nginx_tree input =
     (case nginxTokens input of
        Inl _ \<Rightarrow> None
      | Inr tokens \<Rightarrow>
          (case parse_directives (length tokens + 1) False 0 [] tokens of
             Some (Inr (ds, _)) \<Rightarrow> Some ds | _ \<Rightarrow> None))"

text \<open>
  C37: A change of an NGINX configuration that passes the adapter's check changes nothing but values, as the
  adapter reads the files, in runes (bytes that are not UTF-8 all read as the replacement character): both
  files parse, and with the values of the six tunable directives blanked out they are the same tree of
  blocks and directives.  Every directive of the candidate is allowed: it keeps the configured PID file,
  listens only at the health check's host, logs to standard error and uses the service's own temporary directories.
\<close>

theorem accepted_nginx_change:
  assumes "validateNGINXChange su s u before after = None"
  shows "\<exists>a b. nginx_tree before = Some a \<and> nginx_tree after = Some b \<and> blanked ''main'' a = blanked ''main'' b
    \<and> (\<forall>(loc, ws) \<in> set (leaves ''main'' b). leaf_allowed su s u (hd ws) (tl ws))"
proof -
  obtain shape r r' where "nginxShapeWithResources su s u before = Inr (shape, r)"
    "nginxShapeWithResources su s u after = Inr (shape, r')"
    using assms unfolding validateNGINXChange_def nginxShape_def
    by (cases "nginxShapeWithResources su s u before"; cases "nginxShapeWithResources su s u after")
      (auto split: if_splits)
  then show ?thesis
    by (elim nginxShapeWithResources_Inr) (simp add: nginx_tree_def)
qed

text \<open>
  The resources read from an accepted configuration are in the range the budget arithmetic relies on:
  1 to 16 workers with 1 to 65536 connections each.
\<close>

theorem nginx_resources_bounded:
  "nginxShapeWithResources su s u input = Inr (shape, r) \<Longrightarrow> resources_in_range r"
  by (erule nginxShapeWithResources_Inr)

definition example_nginx :: nginx_service where
  "example_nginx = \<lparr>ns_ResourceLimits = \<lparr>nl_MaxWorkers = 4, nl_MaxConnectionsPerWorker = 4096, nl_MaxTotalConnections = 8192,
       nl_MaxResidentWorkers = 8, nl_DescriptorReserve = 64\<rparr>,
     ns_Name = ''web'', ns_Binary = ''/b/nginx'', ns_ConfigPath = ''/s/c'', ns_Prefix = ''/s'', ns_PIDFile = ''/s/p'',
     ns_HealthURL = ''http://127.0.0.1:8080/h'', ns_HealthStatus = 200, ns_HealthSHA256 = '''', ns_TimeoutSeconds = 5\<rparr>"

definition example_url :: url where
  "example_url = \<lparr>ur_Scheme = ''http'', ur_Host = ''127.0.0.1:8080'', ur_Hostname = ''127.0.0.1'', ur_Port = ''8080'',
     ur_User = False, ur_RawQuery = '''', ur_Fragment = '''', ur_RawPath = '''', ur_Path = ''/h''\<rparr>"

definition example_config :: "string \<Rightarrow> string" where
  "example_config workers =
     ''pid /s/p; error_log stderr notice; worker_processes '' @ workers @ ''; events { }'' @
     ''http { access_log off; '' @
     concat (map (\<lambda>n. n @ '' /s/'' @ n @ ''; '') temp_directories) @
     ''server { listen 127.0.0.1:8080; location = /h { add_header X-Cvke-Worker $pid always; return 200; } } }''"

lemma example_change_accepted:
  "validateNGINXChange False example_nginx example_url (example_config ''2'') (example_config ''4'') = None"
  by code_simp

theorem accepted_nginx_change_witness:
  "\<exists>a b. nginx_tree (example_config ''2'') = Some a \<and> nginx_tree (example_config ''4'') = Some b
     \<and> blanked ''main'' a = blanked ''main'' b"
  using accepted_nginx_change [OF example_change_accepted] by blast

text \<open>
  What the adapter reads is not what NGINX reads: two locations that differ in a byte that is not UTF-8 are
  the same to the check, so the change of a protected path is accepted.
\<close>

definition config_with_location :: "string \<Rightarrow> string" where
  "config_with_location path =
     ''pid /s/p; error_log stderr notice; events { }'' @
     ''http { access_log off; '' @
     concat (map (\<lambda>n. n @ '' /s/'' @ n @ ''; '') temp_directories) @
     ''server { listen 127.0.0.1:8080; location = /h { add_header X-Cvke-Worker $pid always; return 200; } location '' @
     path @ '' { return 200; } } }''"

lemma changed_location_accepted:
  "validateNGINXChange False example_nginx example_url
     (config_with_location [CHR ''/'', CHR 0xFF]) (config_with_location [CHR ''/'', CHR 0xFE]) = None"
  by code_simp

theorem nginx_resources_bounded_witness:
  "\<exists>shape r. nginxShapeWithResources False example_nginx example_url (example_config ''4'') = Inr (shape, r)
     \<and> resources_in_range r"
proof -
  obtain shape r where "nginxShapeWithResources False example_nginx example_url (example_config ''4'') = Inr (shape, r)"
    using example_change_accepted unfolding validateNGINXChange_def nginxShape_def
    by (cases "nginxShapeWithResources False example_nginx example_url (example_config ''4'')")
      (auto split: sum.splits)
  with nginx_resources_bounded [OF this] show ?thesis by blast
qed

end
