(* ===== verification/Recovery_Service.thy ===== *)
theory Recovery_Service
  imports Recovery_Entries Nginx_Config
begin

text \<open>
  The NGINX adapter of the recovery engine: \<open>recovery/service.go\<close>, \<open>recovery/service_linux.go\<close>,
  \<open>recovery/service_resources.go\<close> and \<open>recovery/service_resources_linux.go\<close>.  Files of \<open>/proc\<close>, the exit
  status of the validation command, the answers of the health check and the measured limits are answers of the
  machine; a signal is logged by the machine.
\<close>

unbundle bit_operations_syntax

section \<open>Configuration\<close>

definition name_characters :: string where
  "name_characters = ''abcdefghijklmnopqrstuvwxyzABCDEFGHIJKLMNOPQRSTUVWXYZ0123456789-_''"

definition no_limits :: nginx_limits where
  "no_limits = \<lparr>nl_MaxWorkers = 0, nl_MaxConnectionsPerWorker = 0, nl_MaxTotalConnections = 0,
     nl_MaxResidentWorkers = 0, nl_DescriptorReserve = 0\<rparr>"

definition limits_effective :: "nginx_limits \<Rightarrow> nginx_limits" where
  "limits_effective l =
     (if l = no_limits
      then \<lparr>nl_MaxWorkers = 4, nl_MaxConnectionsPerWorker = 4096, nl_MaxTotalConnections = 8192,
            nl_MaxResidentWorkers = 8, nl_DescriptorReserve = 64\<rparr>
      else l)"

definition nginx_limits_validate :: "nginx_limits \<Rightarrow> bool" where
  "nginx_limits_validate l \<longleftrightarrow>
     \<not> (nl_MaxWorkers l < 1 \<or> 16 < nl_MaxWorkers l \<or> nl_MaxConnectionsPerWorker l < 1
        \<or> 65536 < nl_MaxConnectionsPerWorker l \<or> nl_MaxTotalConnections l < 1 \<or> 1048576 < nl_MaxTotalConnections l
        \<or> nl_MaxResidentWorkers l < 2 \<or> 32 < nl_MaxResidentWorkers l \<or> nl_DescriptorReserve l < 32
        \<or> 4096 < nl_DescriptorReserve l)"

definition service_path :: "string \<Rightarrow> bool" where
  "service_path p \<longleftrightarrow> IsAbs p \<and> Clean p = p \<and> \<not> ContainsAny p ([SPC, TAB, CR, LF, NUL] @ '';$'')"

definition service_validate :: "codec \<Rightarrow> nginx_service \<Rightarrow> recovery_error option" where
  "service_validate c s =
     (if \<not> nginx_limits_validate (limits_effective (ns_ResourceLimits s))
      then Some (Problem ''invalid NGINX resource limits'')
      else if length (ns_Name s) = 0 \<or> 64 < length (ns_Name s) \<or> Trim (ns_Name s) name_characters \<noteq> ''''
      then Some (Problem ''invalid service name'')
      else if \<not> list_all service_path [ns_Binary s, ns_ConfigPath s, ns_Prefix s, ns_PIDFile s]
      then Some (Problem ''service paths must be clean absolute paths without whitespace or expansion'')
      else if ns_Prefix s = ''/'' \<or> \<not> is_within (ns_ConfigPath s) (ns_Prefix s)
        \<or> \<not> is_within (ns_PIDFile s) (ns_Prefix s) \<or> ns_ConfigPath s = ns_PIDFile s
      then Some (Problem ''config and distinct PID file must be under a dedicated service prefix'')
      else case cd_url c (ns_HealthURL s) of
          None \<Rightarrow> Some (Problem ''health URL must be a literal http://127.0.0.1:port/path without credentials or query'')
        | Some u \<Rightarrow>
            if ur_Scheme u \<noteq> ''http'' \<or> ur_Hostname u \<noteq> ''127.0.0.1'' \<or> ur_User u \<or> ur_RawQuery u \<noteq> ''''
              \<or> ur_Fragment u \<noteq> '''' \<or> ur_RawPath u \<noteq> '''' \<or> ur_Path u = ''''
            then Some (Problem ''health URL must be a literal http://127.0.0.1:port/path without credentials or query'')
            else (case Atoi (ur_Port u) of
                None \<Rightarrow> Some (Problem ''invalid service health port/status/hash or timeout (1..30 seconds)'')
              | Some port \<Rightarrow>
                  if port < 1024 \<or> 65535 < port \<or> ns_HealthStatus s < 200 \<or> 299 < ns_HealthStatus s
                    \<or> length (ns_HealthSHA256 s) \<noteq> 64 \<or> Trim (ns_HealthSHA256 s) ''0123456789abcdef'' \<noteq> ''''
                    \<or> ns_TimeoutSeconds s < 1 \<or> 30 < ns_TimeoutSeconds s
                  then Some (Problem ''invalid service health port/status/hash or timeout (1..30 seconds)'')
                  else None))"

definition validate_service :: "engine \<Rightarrow> nginx_service \<Rightarrow> unit sys" where
  "validate_service eg s = (case service_validate (eg_codec eg) s of Some e \<Rightarrow> fail_db e | None \<Rightarrow> return_db ())"

section \<open>Resources\<close>

definition validateNGINXResourceBudget :: "nginx_resources \<Rightarrow> nginx_limits \<Rightarrow> recovery_error option" where
  "validateNGINXResourceBudget r l =
     (if nr_Workers r < 1 \<or> 16 < nr_Workers r \<or> nr_ConnectionsPerWorker r < 1 \<or> 65536 < nr_ConnectionsPerWorker r
      then Some (Problem ''NGINX resource manifest is missing or invalid; prepare again'')
      else if nl_MaxWorkers l < nr_Workers r \<or> nl_MaxConnectionsPerWorker l < nr_ConnectionsPerWorker r
        \<or> nl_MaxTotalConnections l < nr_Workers r * nr_ConnectionsPerWorker r
      then Some (Problem ''NGINX candidate exceeds operator worker/connection impact limits'')
      else None)"

definition evaluateServiceResources ::
  "nginx_resources \<Rightarrow> nginx_limits \<Rightarrow> int \<Rightarrow> int \<Rightarrow> nat \<Rightarrow> resource_evidence" where
  "evaluateServiceResources r l cpus existing nofile =
     \<lparr>re_Passed = (validateNGINXResourceBudget r l = None \<and> nr_Workers r \<le> cpus \<and> 1 \<le> existing
        \<and> existing + nr_Workers r \<le> nl_MaxResidentWorkers l
        \<and> nr_ConnectionsPerWorker r + nl_DescriptorReserve l \<le> int nofile),
      re_Configured = r, re_Limits = l, re_AffinityCPUs = cpus, re_MasterDescriptorLimit = nofile,
      re_ExistingWorkers = existing, re_PeakWorkers = existing + nr_Workers r\<rparr>"

section \<open>Processes\<close>

text \<open>\<open>os.ReadFile\<close> of a file the kernel generates.\<close>

definition read_proc :: "string \<Rightarrow> string sys" where
  "read_proc path =
     then_db (ask (\<lambda>env n. sr_read env n path)) (\<lambda>r. case r of None \<Rightarrow> fail_db NotExist | Some b \<Rightarrow> return_db b)"

definition proc_path :: "int \<Rightarrow> string \<Rightarrow> string" where
  "proc_path pid file = ''/proc/'' @ int_text pid @ ''/'' @ file"

definition after_last :: "char \<Rightarrow> string \<Rightarrow> string option" where
  "after_last c s = (if List.member s c then Some (rev (takeWhile (\<lambda>d. d \<noteq> c) (rev s))) else None)"

definition processStart :: "int \<Rightarrow> (string \<times> int) sys" where
  "processStart pid =
     then_db (read_proc (proc_path pid ''stat'')) (\<lambda>b.
       case after_last CHR '')'' b of
         None \<Rightarrow> fail_db (Problem ''invalid process identity'')
       | Some rest \<Rightarrow>
           (let fields = Fields rest in
            if length fields < 20 \<or> fields ! 0 = ''Z'' then fail_db (Problem ''process is unavailable'')
            else (case Atoi (fields ! 1) of
                None \<Rightarrow> fail_db (Problem ''parse parent'')
              | Some parent \<Rightarrow> return_db (fields ! 19, parent))))"

definition currentServiceMaster :: "engine \<Rightarrow> nginx_service \<Rightarrow> service_process sys" where
  "currentServiceMaster eg s =
     then_db (parentFor (ns_PIDFile s)) (\<lambda>d.
     then_db Geteuid (\<lambda>euid.
     then_db (attempt (readRegular (cd_hash (eg_codec eg)) d (Base (ns_PIDFile s)) 32)) (\<lambda>r.
     then_db (case r of
         Inl e \<Rightarrow> fail_db (Wrapped ''service PID file is missing, unsafe or unreadable'' e)
       | Inr (f, b) \<Rightarrow>
           if \<not> fp_Exists f \<or> fp_UID f \<noteq> euid \<or> fp_Mode f AND 18 \<noteq> 0
           then fail_db (Problem ''service PID file is missing, unsafe or unreadable'') else return_db b) (\<lambda>b.
     case Atoi (TrimSpace b) of
       None \<Rightarrow> fail_db (Problem ''invalid service master PID'')
     | Some pid \<Rightarrow>
         then_db (refuse_when (pid \<le> 1) ''invalid service master PID'') (\<lambda>_.
         then_db (processStart pid) (\<lambda>(start, _).
         then_db (attempt (ask (\<lambda>env n. sr_readlink env n (proc_path pid ''exe'')))) (\<lambda>exe.
         then_db (refuse_when (exe \<noteq> Inr (Some (ns_Binary s))) ''PID does not run the configured executable'') (\<lambda>_.
         then_db (read_proc (proc_path pid ''cmdline'')) (\<lambda>command.
         then_db (refuse_when (TrimRight command [NUL, SPC] \<noteq>
                     ''nginx: master process '' @ ns_Binary s @ '' -p '' @ ns_Prefix s @ '' -c '' @ ns_ConfigPath s)
                   ''NGINX master must be started with exactly: binary -p prefix -c config_path'') (\<lambda>_.
         then_db (read_proc ''/proc/sys/kernel/random/boot_id'') (\<lambda>boot.
         return_db \<lparr>pr_PID = pid, pr_Start = start, pr_Boot = TrimSpace boot\<rparr>)))))))))))"

text \<open>The worker processes and when they started; a child that is no worker is left out.\<close>

fun collect_workers :: "int \<Rightarrow> string list \<Rightarrow> (int \<times> string) list \<Rightarrow> (int \<times> string) list sys" where
  "collect_workers master [] workers = return_db workers"
| "collect_workers master (f # fs) workers =
     (case Atoi f of
        None \<Rightarrow> fail_db (Problem ''parse worker'')
      | Some pid \<Rightarrow>
          then_db (attempt (processStart pid)) (\<lambda>r.
            case r of
              Inl _ \<Rightarrow> collect_workers master fs workers
            | Inr (start, parent) \<Rightarrow>
                if parent \<noteq> master then collect_workers master fs workers
                else then_db (attempt (read_proc (proc_path pid ''cmdline''))) (\<lambda>cmd.
                  case cmd of
                    Inl _ \<Rightarrow> collect_workers master fs workers
                  | Inr line \<Rightarrow>
                      collect_workers master fs
                        (if TrimRight line [NUL, SPC] = ''nginx: worker process''
                         then AList.update pid start workers else workers))))"

definition serviceWorkers :: "service_process \<Rightarrow> (int \<times> string) list sys" where
  "serviceWorkers master =
     then_db (attempt (processStart (pr_PID master))) (\<lambda>r.
     then_db (refuse_when (case r of Inl _ \<Rightarrow> True | Inr (start, _) \<Rightarrow> start \<noteq> pr_Start master)
               ''service master no longer matches'') (\<lambda>_.
     then_db (read_proc (proc_path (pr_PID master) (''task/'' @ int_text (pr_PID master) @ ''/children''))) (\<lambda>b.
     collect_workers (pr_PID master) (Fields b) [])))"

section \<open>Identity\<close>

definition serviceBinary :: "engine \<Rightarrow> nginx_service \<Rightarrow> fingerprint sys" where
  "serviceBinary eg s =
     then_db (parentFor (ns_Binary s)) (\<lambda>p.
     then_db (readRegular (cd_hash (eg_codec eg)) p (Base (ns_Binary s)) 67108864) (\<lambda>(f, _).
     then_db (refuse_when (\<not> fp_Exists f \<or> fp_Mode f AND 73 = 0 \<or> fp_Mode f AND 18 \<noteq> 0)
               ''service executable must be regular, executable and not group/world writable'') (\<lambda>_.
     return_db f)))"

fun verify_directories :: "string \<Rightarrow> service_directory list \<Rightarrow> string list \<Rightarrow> unit sys" where
  "verify_directories base (d # ds) (n # ns) =
     then_db (refuse_when (sd_Path d \<noteq> JoinPath base n) ''invalid service directory binding'') (\<lambda>_.
     then_db (openDirectory (sd_Path d)) (\<lambda>k.
     then_db (attempt (dirIdentity k)) (\<lambda>r.
     then_db (refuse_when (r \<noteq> Inr (sd_Device d, sd_Inode d))
               ''service temp directory changed; refusing service execution'') (\<lambda>_.
     verify_directories base ds ns))))"
| "verify_directories base _ _ = return_db ()"

definition adapter_name :: string where
  "adapter_name = ''nginx-standalone-v1''"

definition verifyServiceIdentity :: "engine \<Rightarrow> service_plan \<Rightarrow> unit sys" where
  "verifyServiceIdentity eg p =
     then_db (refuse_when (sp_Adapter p \<noteq> adapter_name) ''unsupported service adapter'') (\<lambda>_.
     then_db (validate_service eg (sp_Config p)) (\<lambda>_.
     then_db (serviceBinary eg (sp_Config p)) (\<lambda>b.
     then_db (refuse_when (\<not> matches b (sp_Binary p) True)
               ''service executable changed; refusing service execution'') (\<lambda>_.
     then_db (currentServiceMaster eg (sp_Config p)) (\<lambda>m.
     then_db (refuse_when (m \<noteq> sp_Master p)
               ''service master changed or restarted; manual service reconciliation required'') (\<lambda>_.
     then_db (refuse_when (length (sp_Directories p) \<noteq> length temp_directories)
               ''missing service directory identities'') (\<lambda>_.
     verify_directories (ns_Prefix (sp_Config p)) (sp_Directories p) temp_directories)))))))"

text \<open>Opening a descriptor for the process and sending a signal through it.\<close>

definition pidfd_open :: "int \<Rightarrow> unit sys" where
  "pidfd_open pid = on_error no_effect (\<lambda>e. fail_db (Wrapped ''service adapter requires Linux pidfd support'' e))"

definition send_signal :: "int \<Rightarrow> nat \<Rightarrow> unit sys" where
  "send_signal pid sig =
     then_db no_effect (\<lambda>_ m. (Inr (), m\<lparr>mc_signals := mc_signals m @ [(pid, sig)]\<rparr>))"

definition signalService :: "engine \<Rightarrow> service_plan \<Rightarrow> unit sys" where
  "signalService eg p =
     then_db (pidfd_open (pr_PID (sp_Master p))) (\<lambda>_.
     then_db (verifyServiceIdentity eg p) (\<lambda>_.
     send_signal (pr_PID (sp_Master p)) 1))"

text \<open>Signal 0 only asks whether the process may be signalled.\<close>

definition checkServiceCapability :: "engine \<Rightarrow> service_plan \<Rightarrow> unit sys" where
  "checkServiceCapability eg p =
     then_db (pidfd_open (pr_PID (sp_Master p))) (\<lambda>_.
     then_db (verifyServiceIdentity eg p) (\<lambda>_.
     on_error no_effect (\<lambda>e. fail_db (Wrapped ''service pidfd signaling is unavailable'' e))))"

section \<open>Health\<close>

definition good_response ::
  "engine \<Rightarrow> service_plan \<Rightarrow> (int \<times> string) list \<Rightarrow> http_response \<Rightarrow> recovery_error + (int \<times> string) list \<Rightarrow> bool" where
  "good_response eg p previous resp workers \<longleftrightarrow>
     (let body = take 65537 (hr_body resp) in
      length body \<le> 65536 \<and> hr_status resp = ns_HealthStatus (sp_Config p)
      \<and> cd_hash (eg_codec eg) body = ns_HealthSHA256 (sp_Config p)
      \<and> (case (Atoi (hr_worker resp), workers) of
           (Some pid, Inr ws) \<Rightarrow>
             (case map_of ws pid of
                None \<Rightarrow> False
              | Some start \<Rightarrow> map_of previous pid \<noteq> Some start)
         | _ \<Rightarrow> False))"

definition health_text :: string where
  "health_text = ''service health did not verify on three fresh connections''"

text \<open>The rounds that fit before the deadline of the context: each waits a tenth of a second.\<close>

fun health_rounds :: "engine \<Rightarrow> service_plan \<Rightarrow> (int \<times> string) list \<Rightarrow> nat \<Rightarrow> nat \<Rightarrow> unit sys" where
  "health_rounds eg p previous 0 successes = fail_db (Wrapped health_text Cancelled)"
| "health_rounds eg p previous (Suc n) successes =
     then_db (on_error ctx_Err (\<lambda>e. fail_db (Wrapped health_text e))) (\<lambda>_.
     then_db (attempt (ask (\<lambda>env i. sr_http env i (ns_HealthURL (sp_Config p))))) (\<lambda>r.
     then_db (case r of
         Inr (Some resp) \<Rightarrow>
           then_db (attempt (serviceWorkers (sp_Master p))) (\<lambda>ws. return_db (good_response eg p previous resp ws))
       | _ \<Rightarrow> return_db False) (\<lambda>good.
     let successes' = (if good then successes + 1 else 0) in
     if successes' = 3 then return_db () else health_rounds eg p previous n successes')))"

definition checkServiceHealth :: "engine \<Rightarrow> service_plan \<Rightarrow> (int \<times> string) list \<Rightarrow> unit sys" where
  "checkServiceHealth eg p previous =
     health_rounds eg p previous (nat (ns_TimeoutSeconds (sp_Config p)) * 10) 0"

section \<open>Operations\<close>

definition validateServiceConfig :: "engine \<Rightarrow> service_plan \<Rightarrow> string \<Rightarrow> unit sys" where
  "validateServiceConfig eg p path =
     then_db (verifyServiceIdentity eg p) (\<lambda>_.
     then_db (ask (\<lambda>env n. sr_command env n
         [ns_Binary (sp_Config p), ''-t'', ''-e'', ''stderr'', ''-p'', ns_Prefix (sp_Config p), ''-c'', path])) (\<lambda>ok.
     refuse_when (\<not> ok) ''NGINX syntax validation failed (diagnostic content suppressed)''))"

definition measureServiceResources :: "engine \<Rightarrow> service_plan \<Rightarrow> (int \<times> int \<times> nat) sys" where
  "measureServiceResources eg p =
     then_db (verifyServiceIdentity eg p) (\<lambda>_.
     then_db (on_error (ask (\<lambda>env n. sr_affinity env n (pr_PID (sp_Master p))))
               (\<lambda>e. fail_db (Wrapped ''measure master CPU affinity'' e))) (\<lambda>cpus.
     then_db (on_error (ask (\<lambda>env n. sr_nofile env n (pr_PID (sp_Master p))))
               (\<lambda>e. fail_db (Wrapped ''measure master descriptor limit'' e))) (\<lambda>nofile.
     then_db (serviceWorkers (sp_Master p)) (\<lambda>workers.
     then_db (verifyServiceIdentity eg p) (\<lambda>_.
     return_db (cpus, int (length workers), nofile))))))"

definition record_check_for :: "engine \<Rightarrow> operation \<Rightarrow> string \<Rightarrow> string \<Rightarrow> operation sys" where
  "record_check_for eg op kind evidence =
     then_db (on_store (RecordRecoveryCheck (cd_valid (eg_codec eg)) (op_Record op) kind evidence)) (\<lambda>check.
     return_db (op\<lparr>op_Checks := op_Checks op @ [check]\<rparr>))"

definition checkServiceResources :: "engine \<Rightarrow> operation \<Rightarrow> service_plan \<Rightarrow> operation sys" where
  "checkServiceResources eg op p =
     then_db (measureServiceResources eg p) (\<lambda>(cpus, workers, nofile).
     let v = evaluateServiceResources (sp_Resources p) (limits_effective (ns_ResourceLimits (sp_Config p))) cpus workers nofile in
     then_db (record_check_for eg op ''service_resources'' (cd_resources (eg_codec eg) v)) (\<lambda>op'.
     then_db (refuse_when (\<not> re_Passed v)
               ''fresh NGINX resource check refused worker count, reload overlap or descriptor headroom; target config unchanged'') (\<lambda>_.
     then_db (checkpoint eg ''service_resources_checked'' (-1)) (\<lambda>_.
     return_db op'))))"

fun prepare_directories :: "string \<Rightarrow> nat \<Rightarrow> string list \<Rightarrow> service_directory list sys" where
  "prepare_directories base device [] = return_db []"
| "prepare_directories base device (n # ns) =
     then_db (on_error (openDirectory (JoinPath base n))
               (\<lambda>e. fail_db (Wrapped ''service temp directory must already exist without symlinks'' e))) (\<lambda>k.
     then_db (attempt (dirIdentity k)) (\<lambda>r.
     case r of
       Inl _ \<Rightarrow> fail_db (Problem ''service temp directory crosses a mount or is unavailable'')
     | Inr (dev, ino) \<Rightarrow>
         then_db (refuse_when (dev \<noteq> device) ''service temp directory crosses a mount or is unavailable'') (\<lambda>_.
         then_db (prepare_directories base device ns) (\<lambda>ds.
         return_db (\<lparr>sd_Path = JoinPath base n, sd_Device = dev, sd_Inode = ino\<rparr> # ds)))))"

definition prepareService :: "engine \<Rightarrow> string \<Rightarrow> operation \<Rightarrow> string list \<Rightarrow> string list \<Rightarrow> service_plan sys" where
  "prepareService eg name op original candidates =
     (case find (\<lambda>s. ns_Name s = name) (eg_services eg) of
        None \<Rightarrow> fail_db (Problem ''service is not operator-configured'')
      | Some s \<Rightarrow>
          then_db (validate_service eg s) (\<lambda>_.
          (case mf_Entries (op_Plan op) of
             [en] \<Rightarrow>
               then_db (refuse_when (en_Action en \<noteq> ''replace'' \<or> en_Path en \<noteq> ns_ConfigPath s)
                         ''NGINX transaction requires exactly one replacement of the configured standalone config'') (\<lambda>_.
               then_db (check_path eg (ns_PIDFile s)) (\<lambda>_.
               then_db Geteuid (\<lambda>euid.
               (case cd_url (eg_codec eg) (ns_HealthURL s) of
                  None \<Rightarrow> fail_db (Problem ''health URL'')
                | Some u \<Rightarrow>
                    then_db (case validateNGINXChange (euid = 0) s u (hd original) (hd candidates) of
                        Some e \<Rightarrow> fail_db e | None \<Rightarrow> return_db ()) (\<lambda>_.
                    then_db (serviceBinary eg s) (\<lambda>b.
                    then_db (currentServiceMaster eg s) (\<lambda>master.
                    then_db (case nginxShapeWithResources (euid = 0) s u (hd candidates) of
                        Inl e \<Rightarrow> fail_db (Problem e) | Inr (_, r) \<Rightarrow> return_db r) (\<lambda>r.
                    then_db (case validateNGINXResourceBudget r (limits_effective (ns_ResourceLimits s)) of
                        Some e \<Rightarrow> fail_db e | None \<Rightarrow> return_db ()) (\<lambda>_.
                    then_db (prepare_directories (ns_Prefix s) (en_ParentDevice en) temp_directories) (\<lambda>ds.
                    let p = \<lparr>sp_Resources = r, sp_Adapter = adapter_name, sp_Config = s, sp_Binary = b,
                             sp_Master = master, sp_Directories = ds\<rparr> in
                    then_db (checkServiceCapability eg p) (\<lambda>_. return_db p)))))))))))
           | _ \<Rightarrow> fail_db (Problem ''NGINX transaction requires exactly one replacement of the configured standalone config''))))"

text \<open>The checks before an application; a failed validation is journaled.\<close>

definition servicePreflight :: "engine \<Rightarrow> operation \<Rightarrow> service_plan \<Rightarrow> operation sys" where
  "servicePreflight eg op p =
     then_db (refuse_when (sp_Adapter p \<noteq> adapter_name
                 \<or> find (\<lambda>s. ns_Name s = ns_Name (sp_Config p)) (eg_services eg) \<noteq> Some (sp_Config p))
               ''service configuration changed or adapter is unsupported; prepare again'') (\<lambda>_.
     then_db (verifyServiceIdentity eg p) (\<lambda>_.
     then_db (checkServiceCapability eg p) (\<lambda>_.
     then_db (checkServiceResources eg op p) (\<lambda>op1.
     then_db (save eg op1 Validating '''') (\<lambda>op2.
     then_db (checkpoint eg ''service_validating'' (-1)) (\<lambda>_.
     then_db (on_error
         (then_db (on_error (checkServiceHealth eg p []) (\<lambda>e. fail_db (Wrapped ''baseline health failed'' e))) (\<lambda>_.
          validateServiceConfig eg p
            (JoinPath (JoinPath (eg_assets eg) (op_ID op)) (en_Candidate (hd (mf_Entries (op_Plan op)))))))
         (\<lambda>e. then_db (attempt (save eg op2 ValidationFailed
                  ''baseline health or staged syntax validation failed; target config unchanged'')) (\<lambda>r.
              fail_db (join_errors e (case r of Inl e' \<Rightarrow> Some e' | Inr _ \<Rightarrow> None))))) (\<lambda>_.
     then_db (checkpoint eg ''service_validated'' (-1)) (\<lambda>_.
     return_db op2))))))))"

definition reloadService :: "engine \<Rightarrow> service_plan \<Rightarrow> unit sys" where
  "reloadService eg p =
     then_db (validateServiceConfig eg p (ns_ConfigPath (sp_Config p))) (\<lambda>_.
     then_db (serviceWorkers (sp_Master p)) (\<lambda>previous.
     then_db (signalService eg p) (\<lambda>_.
     then_db (checkpoint eg ''service_signaled'' (-1)) (\<lambda>_.
     then_db (checkServiceHealth eg p previous) (\<lambda>_.
     checkpoint eg ''service_healthy'' (-1))))))"

end
