(* ===== verification/Recovery_Engine.thy ===== *)
theory Recovery_Engine
  imports Recovery_Service Recovery_Frames
begin

text \<open>
  The operations of the recovery engine, \<open>recovery/engine.go\<close>, \<open>recovery/capacity_unix.go\<close> and
  \<open>recovery/repair_budget.go\<close>: preparing a plan, applying it, recovering from it, reconciling an interrupted
  operation and reserving a repair attempt of a model.  Where the source returns an operation together with
  an error, the model keeps the error; the journal has the status.  The guarded SSH plan that \<open>Prepare\<close>
  asks \<open>recovery/ssh.go\<close> for is a parameter.
\<close>

section \<open>Prepare\<close>

definition Getegid :: "nat sys" where
  "Getegid m = (Inr (fs_egid (mc_files m)), m)"

definition after_fingerprint :: "codec \<Rightarrow> change \<Rightarrow> fingerprint \<Rightarrow> nat \<Rightarrow> nat \<Rightarrow> nat \<Rightarrow> fingerprint" where
  "after_fingerprint c ch before euid egid dev =
     (if ch_Action ch = ''delete'' then no_file
      else
        (let f = before\<lparr>fp_Exists := True, fp_SHA256 := cd_hash c (ch_Content ch),
                   fp_Bytes := int (length (ch_Content ch)), fp_Inode := 0, fp_ModifiedNS := 0\<rparr>
         in if ch_Action ch = ''create''
            then f\<lparr>fp_Mode := (if ch_Mode ch = 0 then 384 else ch_Mode ch), fp_UID := euid, fp_GID := egid,
                   fp_Device := dev\<rparr>
            else f))"

definition check_change :: "change \<Rightarrow> string list \<Rightarrow> unit sys" where
  "check_change ch seen =
     then_db (refuse_when (List.member seen (ch_Path ch)) ''duplicate path'') (\<lambda>_.
     then_db (refuse_when (\<not> List.member [''replace'', ''create'', ''delete''] (ch_Action ch)) ''unsupported file action'') (\<lambda>_.
     then_db (refuse_when (511 < ch_Mode ch \<or> ch_Action ch \<noteq> ''create'' \<and> ch_Mode ch \<noteq> 0)
               ''mode is only supported for create, without special bits'') (\<lambda>_.
     refuse_when (ch_Action ch = ''delete'' \<and> ch_Content ch \<noteq> '''') ''delete cannot contain replacement content'')))"

definition prepare_entry ::
  "engine \<Rightarrow> string \<Rightarrow> string \<Rightarrow> nat \<Rightarrow> change \<Rightarrow> string list \<Rightarrow> int \<Rightarrow> (file_entry \<times> string \<times> int) sys" where
  "prepare_entry eg k selected i ch seen spent =
     (let c = eg_codec eg; lim = eg_limits eg; path = ch_Path ch in
     then_db ctx_Err (\<lambda>_.
     then_db (check_service_scope eg path selected) (\<lambda>_.
     then_db (check_path eg path) (\<lambda>base.
     then_db (check_change ch seen) (\<lambda>_.
     then_db (parentFor path) (\<lambda>p.
     then_db (dirIdentity p) (\<lambda>(dev, ino).
     then_db (openDirectory base) (\<lambda>rd.
     then_db (attempt (dirIdentity rd)) (\<lambda>r.
     then_db (refuse_when (case r of Inl _ \<Rightarrow> True | Inr (rdev, _) \<Rightarrow> rdev \<noteq> dev) ''operation crosses a mount boundary'') (\<lambda>_.
     then_db (on_error (readRegular (cd_hash c) p (Base path) (lm_MaxFileBytes lim))
               (\<lambda>e. fail_db (Wrapped ''inspect'' e))) (\<lambda>(before, b).
     then_db (refuse_when (fp_Exists before \<and> fp_Device before \<noteq> dev) ''file is a mount point'') (\<lambda>_.
     then_db (refuse_when ((ch_Action ch = ''create'') = fp_Exists before) ''existence precondition failed'') (\<lambda>_.
     then_db (refuse_when (ch_ExpectedSHA256 ch \<noteq> '''' \<and> ch_ExpectedSHA256 ch \<noteq> fp_SHA256 before) ''expected hash differs'') (\<lambda>_.
     then_db (refuse_when (lm_MaxFileBytes lim < int (length (ch_Content ch))) ''candidate exceeds per-file byte limit'') (\<lambda>_.
     let cost = int (length b) + int (length (ch_Content ch)) in
     then_db (refuse_when (lm_MaxBytes lim - spent < cost) ''original plus candidate bytes exceed operation budget'') (\<lambda>_.
     then_db Geteuid (\<lambda>euid.
     then_db Getegid (\<lambda>egid.
     return_db
       (\<lparr>en_Action = ch_Action ch, en_Path = path, en_Root = base, en_ParentDevice = dev, en_ParentInode = ino,
         en_Before = before, en_After = after_fingerprint c ch before euid egid dev,
         en_Backup = four_digits i @ ''.before'', en_Candidate = four_digits i @ ''.after'',
         en_Quarantine = (if ch_Action ch = ''delete''
           then ''.cvkeharness-'' @ k @ ''-'' @ four_digits i @ ''.deleted'' else '''')\<rparr>,
        b, spent + cost)))))))))))))))))))"

fun prepare_entries ::
  "engine \<Rightarrow> string \<Rightarrow> string \<Rightarrow> nat \<Rightarrow> change list \<Rightarrow> string list \<Rightarrow> int \<Rightarrow> (file_entry \<times> string) list sys" where
  "prepare_entries eg k selected i [] seen spent = return_db []"
| "prepare_entries eg k selected i (ch # chs) seen spent =
     then_db (prepare_entry eg k selected i ch seen spent) (\<lambda>(en, b, spent').
     then_db (prepare_entries eg k selected (i + 1) chs (ch_Path ch # seen) spent') (\<lambda>rest.
     return_db ((en, b) # rest)))"

definition preparationFailed :: "engine \<Rightarrow> operation \<Rightarrow> recovery_error \<Rightarrow> 'a sys" where
  "preparationFailed eg op cause =
     then_db (attempt (save eg op PreparationFailed ''unable to preserve recovery assets'')) (\<lambda>r.
       case r of Inl e \<Rightarrow> fail_db (Joined [cause, e]) | Inr _ \<Rightarrow> fail_db cause)"

text \<open>A failure of the assets is journaled, a failing checkpoint is not.\<close>

fun write_assets ::
  "engine \<Rightarrow> operation \<Rightarrow> nat \<Rightarrow> nat \<Rightarrow> file_entry list \<Rightarrow> string list \<Rightarrow> string list \<Rightarrow> unit sys" where
  "write_assets eg op d i (en # ens) (b # bs) (a # as) =
     then_db (on_error
         (then_db ctx_Err (\<lambda>_.
          then_db (if fp_Exists (en_Before en) then writeAt d (en_Backup en) b no_file else return_db ()) (\<lambda>_.
          if fp_Exists (en_After en) then writeAt d (en_Candidate en) a no_file else return_db ())))
         (preparationFailed eg op)) (\<lambda>_.
     then_db (checkpoint eg ''backup'' (int i)) (\<lambda>_.
     write_assets eg op d (i + 1) ens bs as))"
| "write_assets eg op d i _ _ _ = return_db ()"

definition new_operation :: "engine \<Rightarrow> string \<Rightarrow> time \<Rightarrow> file_entry list \<Rightarrow> operation" where
  "new_operation eg k now ens =
     \<lparr>op_Record = \<lparr>ro_ID = k, ro_Target = eg_target eg, ro_Policy = eg_policy eg, ro_Status = Preparing,
        ro_Digest = '''', ro_Manifest = '''', ro_Revision = 0, ro_UpdatedAt = zero_time, ro_Problem = ''''\<rparr>,
      op_Plan = \<lparr>mf_Version = 1, mf_CreatedAt = now, mf_Limits = eg_limits eg, mf_Entries = ens,
        mf_Service = None, mf_Snapshot = None, mf_SSH = None\<rparr>,
      op_Checks = []\<rparr>"

definition with_digest :: "engine \<Rightarrow> operation \<Rightarrow> operation" where
  "with_digest eg op =
     op\<lparr>op_Record := (op_Record op)\<lparr>ro_Digest := planDigest (eg_codec eg) (op_Target op) (op_Policy op) (op_Plan op)\<rparr>\<rparr>"

definition Prepare ::
  "(string \<Rightarrow> operation \<Rightarrow> string list \<Rightarrow> string list \<Rightarrow> string sys) \<Rightarrow> engine \<Rightarrow> request \<Rightarrow> operation sys" where
  "Prepare prepareSSH eg req =
     then_db (locked eg) (\<lambda>_.
     then_db (noArmedSSH eg) (\<lambda>_.
     then_db (refuse_when (rq_Service req \<noteq> '''' \<and> rq_SSHService req \<noteq> '''')
               ''one service adapter may be selected per operation'') (\<lambda>_.
     then_db (refuse_when (rq_Changes req = [] \<or> lm_MaxFiles (eg_limits eg) < int (length (rq_Changes req)))
               ''request must contain 1..max exact file changes'') (\<lambda>_.
     then_db (ask sr_random) (\<lambda>bytes.
     then_db (on_store clock_now) (\<lambda>now.
     let k = hex_encode bytes;
         selected = (if rq_SSHService req \<noteq> '''' then ''ssh:'' @ rq_SSHService req else rq_Service req);
         candidates = map ch_Content (rq_Changes req) in
     then_db (prepare_entries eg k selected 0 (rq_Changes req) [] 0) (\<lambda>prepared.
     let ens = map fst prepared; original = map snd prepared; op0 = new_operation eg k now ens in
     then_db (if rq_Service req \<noteq> ''''
              then then_db (prepareService eg (rq_Service req) op0 original candidates) (\<lambda>p. return_db (Some p))
              else return_db None) (\<lambda>sp.
     then_db (if rq_SSHService req \<noteq> ''''
              then then_db (prepareSSH (rq_SSHService req) op0 original candidates) (\<lambda>p. return_db (Some p))
              else return_db None) (\<lambda>ssh.
     let op1 = with_digest eg (op0\<lparr>op_Plan := (op_Plan op0)\<lparr>mf_Service := sp, mf_SSH := ssh\<rparr>\<rparr>) in
     then_db (save eg op1 Preparing '''') (\<lambda>op2.
     then_db (checkpoint eg ''preparing'' (-1)) (\<lambda>_.
     then_db (on_error (privateDirectory (JoinPath (eg_assets eg) k)) (preparationFailed eg op2)) (\<lambda>d.
     then_db (write_assets eg op2 d 0 ens original candidates) (\<lambda>_.
     then_db (save eg op2 Ready '''') (\<lambda>op3.
     then_db (checkpoint eg ''ready'' (-1)) (\<lambda>_.
     return_db op3)))))))))))))))"

section \<open>Capacity\<close>

fun group_capacity ::
  "engine \<Rightarrow> operation \<Rightarrow> file_entry list \<Rightarrow> (nat \<times> filesystem_capacity) list \<Rightarrow> (nat \<times> filesystem_capacity) list sys" where
  "group_capacity eg op [] groups = return_db groups"
| "group_capacity eg op (en # ens) groups =
     then_db (entryParent en) (\<lambda>p.
     then_db (on_error (ask (\<lambda>env n. sr_statfs env n p)) (\<lambda>e. fail_db (Wrapped ''measure target capacity'' e))) (\<lambda>(bavail, block).
     then_db (refuse_when (block < 512 \<or> 1048576 < block) ''unsupported target allocation block size'') (\<lambda>_.
     case checkedProduct (int bavail) block of
       Inl _ \<Rightarrow> fail_db (Problem ''resource measurement multiplication exceeds signed 64-bit range'')
     | Inr available \<Rightarrow>
         (case stagingCapacity (fp_Bytes (en_Before en)) (fp_Bytes (en_After en)) block of
            Inl e \<Rightarrow> fail_db e
          | Inr cost \<Rightarrow>
              (case add_capacity (eg_limits eg) (mf_Limits (op_Plan op)) en block available cost groups of
                 Inl e \<Rightarrow> fail_db e
               | Inr groups' \<Rightarrow> group_capacity eg op ens groups')))))"

definition checkCapacity :: "engine \<Rightarrow> operation \<Rightarrow> operation sys" where
  "checkCapacity eg op =
     then_db (group_capacity eg op (mf_Entries (op_Plan op)) []) (\<lambda>groups.
     let evidence = capacity_result groups in
     then_db (record_check_for eg op ''file_capacity'' (cd_capacity (eg_codec eg) evidence)) (\<lambda>op'.
     then_db (refuse_when (\<not> ce_Passed evidence)
               ''insufficient fresh target capacity for candidate staging, restoration headroom and operator reserve; target unchanged'') (\<lambda>_.
     then_db (checkpoint eg ''capacity_checked'' (-1)) (\<lambda>_.
     return_db op'))))"

section \<open>Recover\<close>

fun match_entries :: "engine \<Rightarrow> bool \<Rightarrow> (file_entry \<Rightarrow> fingerprint) \<Rightarrow> file_entry list \<Rightarrow> unit sys" where
  "match_entries eg identity want [] = return_db ()"
| "match_entries eg identity want (en # ens) =
     then_db (readMatching eg en (want en) identity) (\<lambda>_. match_entries eg identity want ens)"

text \<open>The entries are restored in the order given, the last one first; the errors are collected.\<close>

fun restore_entries :: "engine \<Rightarrow> operation \<Rightarrow> (nat \<times> file_entry) list \<Rightarrow> recovery_error list sys" where
  "restore_entries eg op [] = return_db []"
| "restore_entries eg op ((i, en) # ens) =
     then_db (attempt ctx_Err) (\<lambda>c.
       case c of
         Inl e \<Rightarrow> return_db [e]
       | Inr _ \<Rightarrow>
           then_db (attempt (restoreEntry eg op en i)) (\<lambda>r.
           then_db (checkpoint eg ''restored'' (int i)) (\<lambda>_.
           then_db (restore_entries eg op ens) (\<lambda>es.
           return_db (case r of Inl e \<Rightarrow> e # es | Inr _ \<Rightarrow> es)))))"

definition cancel_ready :: "engine \<Rightarrow> operation \<Rightarrow> operation sys" where
  "cancel_ready eg op =
     then_db (match_entries eg True en_Before (mf_Entries (op_Plan op))) (\<lambda>_.
     then_db (case mf_Service (op_Plan op) of
         None \<Rightarrow> return_db ()
       | Some p \<Rightarrow> then_db (verifyServiceIdentity eg p) (\<lambda>_. checkServiceHealth eg p [])) (\<lambda>_.
     then_db (save eg op Recovered ''cancelled before application; original state verified'') (\<lambda>op'.
     then_db (checkpoint eg ''recovered'' (-1)) (\<lambda>_.
     return_db op'))))"

definition restore_failed :: "engine \<Rightarrow> operation \<Rightarrow> string \<Rightarrow> (recovery_error option \<Rightarrow> recovery_error) \<Rightarrow> 'a sys" where
  "restore_failed eg op problem e =
     then_db (attempt (save eg op RecoveryFailed problem)) (\<lambda>r.
       fail_db (e (case r of Inl e' \<Rightarrow> Some e' | Inr _ \<Rightarrow> None)))"

text \<open>The last part of a restoration: the files are verified, a service is reloaded, the success is journaled.\<close>

definition finish_recovery :: "engine \<Rightarrow> operation \<Rightarrow> operation sys" where
  "finish_recovery eg op =
     then_db (on_error (match_entries eg False en_Before (mf_Entries (op_Plan op)))
         (\<lambda>e. restore_failed eg op ''restoration verification failed'' (\<lambda>_. e))) (\<lambda>_.
     then_db (case mf_Service (op_Plan op) of
         None \<Rightarrow> return_db ()
       | Some p \<Rightarrow> on_error (reloadService eg p)
           (\<lambda>e. restore_failed eg op ''files restored but service reload/health verification failed'' (join_errors e))) (\<lambda>_.
     then_db (save eg op Recovered '''') (\<lambda>op'.
     then_db (checkpoint eg ''recovered'' (-1)) (\<lambda>_.
     return_db op'))))"

definition roll_back :: "engine \<Rightarrow> operation \<Rightarrow> operation sys" where
  "roll_back eg op =
     then_db (save eg op RollingBack '''') (\<lambda>op1.
     then_db (checkpoint eg ''rolling_back'' (-1)) (\<lambda>_.
     then_db (restore_entries eg op1 (rev (enumerate 0 (mf_Entries (op_Plan op1))))) (\<lambda>failures.
     if failures \<noteq> [] then
       restore_failed eg op1 ''restoration incomplete; destination conflict or recovery artifact unavailable''
         (\<lambda>e. Joined (failures @ (case e of None \<Rightarrow> [] | Some e' \<Rightarrow> [e'])))
     else finish_recovery eg op1)))"

definition recoverLocked :: "engine \<Rightarrow> operation \<Rightarrow> operation sys" where
  "recoverLocked eg op =
     (if op_Status op = Recovered then return_db op
      else if op_Status op = Ready then cancel_ready eg op
      else if List.member [Preparing, PreparationFailed, ValidationFailed] (op_Status op)
      then fail_db (Problem ''operation has not started applying; target restoration is unnecessary'')
      else roll_back eg op)"

definition recover :: "engine \<Rightarrow> string \<Rightarrow> string \<Rightarrow> bool \<Rightarrow> operation sys" where
  "recover eg k digest service =
     then_db (locked eg) (\<lambda>_.
     then_db (noArmedSSH eg) (\<lambda>_.
     then_db (Inspect eg k) (\<lambda>op.
     then_db (refuse_when (digest \<noteq> op_Digest op) ''recovery digest does not match'') (\<lambda>_.
     then_db (refuse_when (mf_SSH (op_Plan op) \<noteq> None) ''managed SSH restoration requires recover_ssh authorization'') (\<lambda>_.
     then_db (refuse_when (mf_Snapshot (op_Plan op) \<noteq> None) ''snapshot recovery requires the native snapshot action'') (\<lambda>_.
     then_db (refuse_when ((mf_Service (op_Plan op) \<noteq> None) \<noteq> service)
               ''operation kind mismatch: service plans require recover_service authorization'') (\<lambda>_.
     recoverLocked eg op)))))))"

section \<open>Apply\<close>

fun check_entries :: "engine \<Rightarrow> operation \<Rightarrow> int \<Rightarrow> file_entry list \<Rightarrow> unit sys" where
  "check_entries eg op spent [] = return_db ()"
| "check_entries eg op spent (en # ens) =
     then_db (check_service_scope eg (en_Path en)
       (case mf_Service (op_Plan op) of None \<Rightarrow> '''' | Some p \<Rightarrow> ns_Name (sp_Config p))) (\<lambda>_.
     then_db (check_path eg (en_Path en)) (\<lambda>_.
     let cost = fp_Bytes (en_Before en) + fp_Bytes (en_After en) in
     then_db (refuse_when (lm_MaxBytes (eg_limits eg) - spent < cost
                 \<or> lm_MaxFileBytes (eg_limits eg) < fp_Bytes (en_Before en)
                 \<or> lm_MaxFileBytes (eg_limits eg) < fp_Bytes (en_After en)) ''current byte budget exceeded'') (\<lambda>_.
     then_db (readMatching eg en (en_Before en) True) (\<lambda>_.
     then_db (verifyAssets eg op en) (\<lambda>_.
     check_entries eg op (spent + cost) ens)))))"

text \<open>A failing entry is handled; a failing checkpoint ends the operation at once.\<close>

datatype apply_failure = Failed recovery_error | Stopped recovery_error

fun apply_entries :: "engine \<Rightarrow> operation \<Rightarrow> nat \<Rightarrow> file_entry list \<Rightarrow> (machine, apply_failure, unit) state_op" where
  "apply_entries eg op i [] = return_db ()"
| "apply_entries eg op i (en # ens) =
     then_db (lift_errors Failed (then_db ctx_Err (\<lambda>_. applyEntry eg op en i))) (\<lambda>_.
     then_db (lift_errors Stopped (checkpoint eg ''applied'' (int i))) (\<lambda>_.
     apply_entries eg op (i + 1) ens))"

text \<open>At most one automatic repair of a service; it never turns the failure into a success.\<close>

definition serviceFailure :: "engine \<Rightarrow> operation \<Rightarrow> recovery_error \<Rightarrow> 'a sys" where
  "serviceFailure eg op cause =
     then_db (attempt (recoverLocked eg op)) (\<lambda>r.
       case r of
         Inl e \<Rightarrow> fail_db (Joined [cause, Wrapped ''automatic service recovery failed'' e])
       | Inr _ \<Rightarrow> fail_db (Wrapped ''service change failed; original configuration and worker health restored'' cause))"

definition after_failure :: "engine \<Rightarrow> bool \<Rightarrow> operation \<Rightarrow> (recovery_error \<Rightarrow> 'a sys) \<Rightarrow> recovery_error \<Rightarrow> 'a sys" where
  "after_failure eg service op f e = (if service then serviceFailure eg op e else f e)"

definition save_unknown :: "engine \<Rightarrow> operation \<Rightarrow> string \<Rightarrow> (recovery_error option \<Rightarrow> recovery_error) \<Rightarrow> 'a sys" where
  "save_unknown eg op problem e =
     then_db (attempt (save eg op Unknown problem)) (\<lambda>r.
       fail_db (e (case r of Inl e' \<Rightarrow> Some e' | Inr _ \<Rightarrow> None)))"

text \<open>The handler of a failure: services are repaired, for files the failure is journaled.\<close>

definition on_failure :: "engine \<Rightarrow> operation \<Rightarrow> (recovery_error \<Rightarrow> 'a sys) \<Rightarrow> recovery_error \<Rightarrow> 'a sys" where
  "on_failure eg op f = after_failure eg (mf_Service (op_Plan op) \<noteq> None) op f"

text \<open>The last part of an application: the files are verified, a service is reloaded, the success is journaled.\<close>

definition commit_plan :: "engine \<Rightarrow> operation \<Rightarrow> operation sys" where
  "commit_plan eg op =
     then_db (on_error (match_entries eg False en_After (mf_Entries (op_Plan op)))
       (on_failure eg op (\<lambda>e. save_unknown eg op ''postcondition failed'' (\<lambda>_. e)))) (\<lambda>_.
     then_db (case mf_Service (op_Plan op) of
         None \<Rightarrow> return_db ()
       | Some p \<Rightarrow> on_error (reloadService eg p) (serviceFailure eg op)) (\<lambda>_.
     then_db (on_error (save eg op Committed '''')
       (on_failure eg (with_status (eg_codec eg) Committed '''' op) fail_db)) (\<lambda>op'.
     then_db (checkpoint eg ''committed'' (-1)) (\<lambda>_.
     return_db op'))))"

definition run_plan :: "engine \<Rightarrow> operation \<Rightarrow> operation sys" where
  "run_plan eg op =
     then_db (save eg op Applying '''') (\<lambda>op1.
     then_db (checkpoint eg ''applying'' (-1)) (\<lambda>_.
     then_db (on_error (apply_entries eg op1 0 (mf_Entries (op_Plan op1))) (\<lambda>f.
       case f of
         Stopped e \<Rightarrow> fail_db e
       | Failed e \<Rightarrow> on_failure eg op1
           (\<lambda>e. save_unknown eg op1 ''apply interrupted; inspect and recover'' (join_errors e)) e)) (\<lambda>_.
     then_db (on_error (save eg op1 Verifying '''')
       (on_failure eg (with_status (eg_codec eg) Verifying '''' op1) fail_db)) (\<lambda>op2.
     then_db (checkpoint eg ''verifying'' (-1)) (\<lambda>_.
     commit_plan eg op2)))))"

definition apply_ready :: "engine \<Rightarrow> operation \<Rightarrow> operation sys" where
  "apply_ready eg op =
     then_db (refuse_when (op_Status op \<noteq> Ready) ''reconcile or recover instead of retrying apply'') (\<lambda>_.
     then_db (on_store clock_now) (\<lambda>now.
     then_db (refuse_when (lm_MaxAgeSeconds (mf_Limits (op_Plan op)) * Second < now - mf_CreatedAt (op_Plan op))
               ''prepared operation expired; prepare a fresh plan'') (\<lambda>_.
     then_db (refuse_when (lm_MaxFiles (eg_limits eg) < int (length (mf_Entries (op_Plan op))))
               ''current file budget exceeded'') (\<lambda>_.
     then_db (check_entries eg op 0 (mf_Entries (op_Plan op))) (\<lambda>_.
     then_db (checkCapacity eg op) (\<lambda>op1.
     then_db (case mf_Service (op_Plan op) of None \<Rightarrow> return_db op1 | Some p \<Rightarrow> servicePreflight eg op1 p) (\<lambda>op2.
     run_plan eg op2)))))))"

definition apply_operation :: "engine \<Rightarrow> string \<Rightarrow> string \<Rightarrow> bool \<Rightarrow> operation sys" where
  "apply_operation eg k digest service =
     then_db (locked eg) (\<lambda>_.
     then_db (noArmedSSH eg) (\<lambda>_.
     then_db (Inspect eg k) (\<lambda>op.
     then_db (refuse_when (digest \<noteq> op_Digest op \<or> op_Policy op \<noteq> eg_policy eg)
               ''review digest or current policy does not match'') (\<lambda>_.
     then_db (refuse_when (mf_SSH (op_Plan op) \<noteq> None) ''managed SSH plans require apply_ssh authorization'') (\<lambda>_.
     then_db (refuse_when (mf_Snapshot (op_Plan op) \<noteq> None) ''snapshot operations require the native snapshot action'') (\<lambda>_.
     then_db (refuse_when ((mf_Service (op_Plan op) \<noteq> None) \<noteq> service)
               ''operation kind mismatch: service plans require apply_service authorization'') (\<lambda>_.
     if op_Status op = Committed then return_db op else apply_ready eg op)))))))"

section \<open>Reconcile and repairs\<close>

definition Reconcile :: "engine \<Rightarrow> string \<Rightarrow> operation sys" where
  "Reconcile eg k =
     then_db (locked eg) (\<lambda>_.
     then_db (Inspect eg k) (\<lambda>op.
     if op_Status op = Preparing
     then save eg op PreparationFailed ''preparation interrupted; create a fresh plan''
     else if List.member [Validating, Applying, Verifying, RollingBack] (op_Status op)
     then save eg op Unknown ''execution interrupted; compare target state and recover explicitly''
     else return_db op))"

definition repair_limit :: "int \<Rightarrow> int" where
  "repair_limit n = (if n = 0 then 2 else n)"

definition repairs_used :: "recovery_check list \<Rightarrow> int" where
  "repairs_used cs = int (length (filter (\<lambda>c. rk_Kind c = ''model_repair_attempt'') cs))"

definition ReserveModelRepair :: "engine \<Rightarrow> string \<Rightarrow> string \<Rightarrow> unit sys" where
  "ReserveModelRepair eg k digest =
     then_db (locked eg) (\<lambda>_.
     then_db (Inspect eg k) (\<lambda>op.
     then_db (refuse_when (digest \<noteq> op_Digest op) ''repair digest does not match'') (\<lambda>_.
     if op_Status op = Recovered then return_db ()
     else
       (let ceiling = min (repair_limit (lm_MaxRepairAttempts (eg_limits eg)))
                        (repair_limit (lm_MaxRepairAttempts (mf_Limits (op_Plan op))));
            used = repairs_used (op_Checks op) in
       then_db (refuse_when (ceiling \<le> used)
                 ''model repair-attempt budget exhausted; inspect and use the provider-independent operator recovery CLI'') (\<lambda>_.
       then_db (record_check_for eg op ''model_repair_attempt'' (cd_attempt (eg_codec eg) (used + 1) ceiling)) (\<lambda>_.
       return_db ()))))))"

definition List_operations :: "recovery_operation list sys" where
  "List_operations = on_store ListRecoveryOperations"

end
