(* ===== verification/Recovery_Rollback.thy ===== *)
theory Recovery_Rollback
  imports Recovery_Engine
begin

text \<open>
  Applying and restoring the entries of a plan: what one entry's destination can show after an interruption
  at any system call, and that the restoration brings every destination back.  The proofs run the
  operations through the rules of \<open>Recovery_Rules\<close> and combine the entries through the frames of
  \<open>Recovery_Frames\<close>.
\<close>

section \<open>Rules for the changing operations\<close>

text \<open>A name that shows nothing or a file with one link, which another file may replace.\<close>

definition replaceable :: "file_system \<Rightarrow> nat \<Rightarrow> string \<Rightarrow> bool" where
  "replaceable fs d n \<longleftrightarrow> (case lookup fs d n of None \<Rightarrow> True | Some j \<Rightarrow> links fs j = 1 \<and> \<not> is_dir fs j)"

lemma wp_renameat:
  assumes "lookup fs d old = Some k" "links fs k = 1" "\<not> is_dir fs k" "is_dir fs d'" "replaceable fs d' new"
    and "(d, old) \<noteq> (d', new)" "\<And>e. \<not> b \<Longrightarrow> E (SysErr e) s fs" "Q () s (moved d old d' new k fs)"
  shows "wp b (renameat d old d' new) Q E s fs"
proof -
  have "lookup fs d' new \<noteq> Some k" using single_link [OF assms(2,1)] assms(6) by blast
  then show ?thesis
    using assms unfolding renameat_def replaceable_def
    by (auto intro!: wp_syscall simp: moved_def split: option.splits)
qed

lemma wp_moveAt:
  assumes "lookup fs d old = Some k" "links fs k = 1" "\<not> is_dir fs k" "is_dir fs d'" "replaceable fs d' new"
    and "(d, old) \<noteq> (d', new)" "\<And>e. \<not> b \<Longrightarrow> E (SysErr e) s fs"
    and "\<And>e. \<not> b \<Longrightarrow> E (SysErr e) s (moved d old d' new k fs)" "Q () s (moved d old d' new k fs)"
  shows "wp b (moveAt d old d' new) Q E s fs"
  unfolding moveAt_def
  by (intro wp_then wp_renameat [OF assms(1-6)] wp_no_effect) (simp_all add: assms(7-9))

lemma wp_renameAt:
  assumes "lookup fs d old = Some k" "links fs k = 1" "\<not> is_dir fs k" "is_dir fs d" "replaceable fs d new"
    and "old \<noteq> new" "\<And>e. \<not> b \<Longrightarrow> E (SysErr e) s fs"
    and "\<And>e. \<not> b \<Longrightarrow> E (SysErr e) s (moved d old d new k fs)" "Q () s (moved d old d new k fs)"
  shows "wp b (renameAt d old new) Q E s fs"
  unfolding renameAt_def
  by (intro wp_then wp_renameat [OF assms(1-5)] wp_no_effect) (simp_all add: assms(6-9))

lemma wp_removeAt:
  assumes "lookup fs d n = Some k" "\<not> is_dir fs k" "\<And>e. \<not> b \<Longrightarrow> E (SysErr e) s fs"
    and "\<And>e. \<not> b \<Longrightarrow> E (SysErr e) s (delete_entry d n fs)" "Q () s (delete_entry d n fs)"
  shows "wp b (removeAt d n) Q E s fs"
  unfolding removeAt_def unlinkat_def
  using assms by (auto intro!: wp_rules)

text \<open>A private directory: only the executor can read or change it.\<close>

definition private_dir :: "file_system \<Rightarrow> nat \<Rightarrow> bool" where
  "private_dir fs q \<longleftrightarrow> is_dir fs q \<and> (case node_at fs q of None \<Rightarrow> False
     | Some nd \<Rightarrow> nd_mode nd = 448 \<and> nd_uid nd = fs_euid fs)"

lemma wp_check_private:
  assumes "\<And>e. \<not> b \<Longrightarrow> E e s fs" "private_dir fs q" "Q () s fs"
  shows "wp b (check_private q text) Q E s fs"
  using assms unfolding check_private_def private_dir_def
  by (auto intro!: wp_rules split: option.splits)

text \<open>Opening a private directory.\<close>

lemma wp_childPrivateDirectory_open:
  assumes "\<And>e. \<not> b \<Longrightarrow> E e s fs" "\<And>q. lookup fs d n = Some q \<Longrightarrow> private_dir fs q \<Longrightarrow> Q q s fs"
    and "lookup fs d n = None \<Longrightarrow> E NotExist s fs"
    and "b \<Longrightarrow> Base n = n \<and> (case lookup fs d n of None \<Rightarrow> True | Some q \<Rightarrow> private_dir fs q)"
  shows "wp b (childPrivateDirectory d n False) Q E s fs"
proof -
  have "wp b (check_private q t) (\<lambda>_. wp b (then_db (if False then no_effect else return_db ()) (\<lambda>_. return_db q)) Q E) E s fs"
    if "lookup fs d n = Some q" "is_dir fs q" for q t
    using assms that unfolding check_private_def private_dir_def
    by (cases b) (auto intro!: wp_rules split: option.splits)
  then show ?thesis
    unfolding childPrivateDirectory_def openat_dir_def
    using assms by (cases b) (auto intro!: wp_rules simp: private_dir_def split: option.splits)
qed

text \<open>Making one where the name is free.\<close>

definition new_dir :: "nat \<Rightarrow> string \<Rightarrow> file_system \<Rightarrow> file_system" where
  "new_dir d n fs = with_file d n (fresh_node d Directory 448 fs) fs"

lemma new_dir_simps [simp]:
  "lookup (new_dir d n fs) d' n' = (if d' = d \<and> n' = n then Some (length (fs_nodes fs)) else lookup fs d' n')"
  "fs_euid (new_dir d n fs) = fs_euid fs"
  "length (fs_nodes (new_dir d n fs)) = Suc (length (fs_nodes fs))"
  by (simp_all add: new_dir_def)

lemma private_new_dir [simp]: "private_dir (new_dir d n fs) (length (fs_nodes fs))"
  by (simp add: private_dir_def new_dir_def fresh_node_def is_dir_def)

lemma is_dir_new_dir [simp]: "is_dir (new_dir d n fs) (length (fs_nodes fs))"
  using private_new_dir by (simp add: private_dir_def)

lemma wp_childPrivateDirectory_create:
  assumes "\<And>e. \<not> b \<Longrightarrow> E e s fs" "\<And>e. \<not> b \<Longrightarrow> E e s (new_dir d n fs)"
    and "Base n = n" "is_dir fs d" "lookup fs d n = None" "Q (length (fs_nodes fs)) s (new_dir d n fs)"
  shows "wp b (childPrivateDirectory d n True) Q E s fs"
proof -
  let ?rest = "then_db (openat_dir d n) (\<lambda>k.
      then_db (check_private k ''quarantine directory is not private'') (\<lambda>_.
      then_db no_effect (\<lambda>_. return_db k)))"
  have rest: "wp b ?rest Q E s (new_dir d n fs)"
    unfolding openat_dir_def using assms by (auto intro!: wp_rules wp_check_private)
  have gone: "wp b ?rest Q E s fs" if "\<not> b"
    unfolding openat_dir_def using assms that by (auto intro!: wp_rules)
  have made: "wp b (on_error (mkdirat d n) (\<lambda>e. if e = SysErr ''file exists'' then return_db () else fail_db e))
      (\<lambda>_. wp b ?rest Q E) E s fs"
    unfolding mkdirat_def
    by (intro wp_on_error wp_syscall wp_if wp_return wp_fail gone)
      (use rest assms(1,4,5) in \<open>simp_all add: new_dir_def with_file_def\<close>)
  show ?thesis
    unfolding childPrivateDirectory_def if_True
    by (rule wp_then, rule wp_refuse_when, simp add: assms(3), rule wp_then, rule made)
qed

section \<open>What a name shows\<close>

definition files_ok :: "file_system \<Rightarrow> bool" where
  "files_ok fs \<longleftrightarrow> well_formed_files fs \<and> is_dir fs 0"

definition shows_file :: "(string \<Rightarrow> string) \<Rightarrow> file_system \<Rightarrow> nat \<Rightarrow> string \<Rightarrow> fingerprint \<Rightarrow> bool \<Rightarrow> bool" where
  "shows_file hash fs d n want identity \<longleftrightarrow>
     (\<exists>limit x c. read_at hash fs d n limit = Inr (x, c) \<and> matches x want identity)"

lemma matches_absent [simp]: "matches no_file want identity \<longleftrightarrow> \<not> fp_Exists want"
  by (simp add: matches_def no_file_def)

lemma no_file_Exists [simp]: "\<not> fp_Exists no_file"
  by (simp add: no_file_def)

lemma fingerprint_of_simps [simp]:
  "fp_Exists (fingerprint_of hash nd c)" "fp_Bytes (fingerprint_of hash nd c) = int (length c)"
  by (simp_all add: fingerprint_of_def)

lemma read_at_present:
  assumes "read_at hash fs d n limit = Inr (x, c)" "fp_Exists x"
  shows "\<exists>k nd. lookup fs d n = Some k \<and> node_at fs k = Some nd \<and> nd_kind nd = Regular c \<and> links fs k = 1
    \<and> \<not> is_dir fs k \<and> x = fingerprint_of hash nd c \<and> int (length c) \<le> limit
    \<and> (\<forall>limit'. int (length c) \<le> limit' \<longrightarrow> read_at hash fs d n limit' = Inr (x, c))"
  using assms
  by (auto simp: read_at_def read_node_def is_regular_def is_dir_def content_of_def
      split: option.splits if_splits node_kind.splits)

lemma read_at_absent:
  assumes "read_at hash fs d n limit = Inr (x, c)" "\<not> fp_Exists x" "well_formed_files fs"
  shows "lookup fs d n = None \<and> x = no_file"
  using assms well_formed_bound [OF assms(3)]
  by (fastforce simp: read_at_def read_node_def node_at_def split: option.splits if_splits)

lemma matches_Exists: "matches x want identity \<Longrightarrow> fp_Exists x = fp_Exists want"
  by (auto simp: matches_def split: if_splits)

lemma matches_Bytes: "matches x want identity \<Longrightarrow> fp_Exists want \<Longrightarrow> fp_Bytes x = fp_Bytes want"
  by (auto simp: matches_def split: if_splits)

lemma matches_weaken: "matches x want identity \<Longrightarrow> matches x want False"
  by (auto simp: matches_def split: if_splits)

lemma shows_file_weaken: "shows_file hash fs d n want identity \<Longrightarrow> shows_file hash fs d n want False"
  unfolding shows_file_def using matches_weaken by blast

lemma shows_fileI: "read_at hash fs d n limit = Inr (x, c) \<Longrightarrow> matches x want identity \<Longrightarrow> shows_file hash fs d n want identity"
  unfolding shows_file_def by blast

lemma shows_present:
  assumes "shows_file hash fs d n want identity" "fp_Exists want"
  shows "\<exists>k nd c. lookup fs d n = Some k \<and> node_at fs k = Some nd \<and> nd_kind nd = Regular c \<and> links fs k = 1
    \<and> \<not> is_dir fs k \<and> matches (fingerprint_of hash nd c) want identity
    \<and> (\<forall>limit. fp_Bytes want \<le> limit \<longrightarrow> read_at hash fs d n limit = Inr (fingerprint_of hash nd c, c))"
proof -
  obtain limit x c where x: "read_at hash fs d n limit = Inr (x, c)" "matches x want identity"
    using assms(1) by (auto simp: shows_file_def)
  then have present: "fp_Exists x" "fp_Bytes x = fp_Bytes want"
    using assms(2) by (simp_all add: matches_Exists matches_Bytes)
  from read_at_present [OF x(1) present(1)] x(2) present(2) show ?thesis by fastforce
qed

lemma shows_absent:
  assumes "shows_file hash fs d n want identity" "\<not> fp_Exists want" "well_formed_files fs"
  shows "lookup fs d n = None"
  using assms read_at_absent matches_Exists unfolding shows_file_def by blast

lemma shows_missing: "lookup fs d n = None \<Longrightarrow> shows_file hash fs d n want identity \<longleftrightarrow> \<not> fp_Exists want"
  by (simp add: shows_file_def read_at_def)

lemma shows_replaceable:
  "shows_file hash fs d n want identity \<Longrightarrow> well_formed_files fs \<Longrightarrow> replaceable fs d n"
  by (cases "fp_Exists want") (auto dest: shows_present shows_absent simp: replaceable_def)

text \<open>Any reading operation with room for the file sees what the name shows.\<close>

lemma shows_read:
  assumes "shows_file hash fs d n want identity" "well_formed_files fs" "fp_Exists want \<Longrightarrow> fp_Bytes want \<le> limit"
  shows "\<exists>x c. read_at hash fs d n limit = Inr (x, c) \<and> matches x want identity"
proof (cases "fp_Exists want")
  case True
  with shows_present [OF assms(1)] assms(3) show ?thesis by blast
next
  case False
  with shows_absent [OF assms(1) _ assms(2)] show ?thesis by (simp add: read_at_def)
qed

lemma shows_untouched:
  assumes "untouched X fs fs'" "(d, n) \<notin> X" "is_dir fs d"
  shows "shows_file hash fs' d n want identity = shows_file hash fs d n want identity"
  by (simp add: shows_file_def untouched_read_at [OF assms])

lemma shows_written:
  assumes "lookup fs d n = Some k" "node_at fs k = Some nd" "links fs k = 1"
    and "written fs' nd c want" "fp_Exists want" "hash c = fp_SHA256 want" "int (length c) = fp_Bytes want"
  shows "shows_file hash fs d n want False"
proof (rule shows_fileI)
  show "read_at hash fs d n (int (length c)) = Inr (fingerprint_of hash nd c, c)"
    using assms by (simp add: read_at_def read_node_def written_def is_regular_def content_of_def)
  show "matches (fingerprint_of hash nd c) want False"
    using assms by (simp add: matches_def fingerprint_of_def written_def)
qed

lemma shows_moved:
  assumes "lookup fs d old = Some k" "links fs k = 1" "shows_file hash fs d old want identity"
  shows "shows_file hash (moved d old d' new k fs) d' new want identity"
proof -
  have "read_at hash (moved d old d' new k fs) d' new limit = read_at hash fs d old limit" for limit
    by (cases "node_at fs k") (simp_all add: read_at_def assms(1,2) links_moved [OF assms(1,2)])
  then show ?thesis using assms(3) by (simp add: shows_file_def)
qed

section \<open>Rules for the parts of an entry's operation\<close>

definition parent_at :: "file_system \<Rightarrow> file_entry \<Rightarrow> nat \<Rightarrow> bool" where
  "parent_at fs en p \<longleftrightarrow> dir_at fs (Dir (en_Path en)) = Inr p \<and>
     (case node_at fs p of None \<Rightarrow> False
      | Some nd \<Rightarrow> nd_device nd = en_ParentDevice en \<and> nd_inode nd = en_ParentInode en)"

lemma parent_unique: "parent_at fs en p \<Longrightarrow> parent_at fs en p' \<Longrightarrow> p' = p"
  by (simp add: parent_at_def)

lemma dir_at_dir: "dir_at fs path = Inr d \<Longrightarrow> files_ok fs \<Longrightarrow> is_dir fs d"
  using walk_dir by (auto simp: dir_at_def files_ok_def split: if_splits)

lemma parent_dir: "parent_at fs en p \<Longrightarrow> files_ok fs \<Longrightarrow> is_dir fs p"
  by (rule dir_at_dir [of _ "Dir (en_Path en)"]) (simp_all add: parent_at_def)

lemma parent_untouched: "untouched X fs fs' \<Longrightarrow> files_ok fs \<Longrightarrow> parent_at fs en p \<Longrightarrow> parent_at fs' en p"
  using untouched_dir_at untouchedD(4) [of X fs fs' p] parent_dir [of fs en p]
  by (simp add: parent_at_def)

lemma files_ok_untouched: "untouched X fs fs' \<Longrightarrow> well_formed_files fs' \<Longrightarrow> files_ok fs \<Longrightarrow> files_ok fs'"
  using untouched_is_dir by (auto simp: files_ok_def)

lemma wp_entryParent:
  assumes "\<And>e. \<not> b \<Longrightarrow> E e s fs" "\<And>p. parent_at fs en p \<Longrightarrow> Q p s fs" "b \<Longrightarrow> \<exists>p. parent_at fs en p"
  shows "wp b (entryParent en) Q E s fs"
proof (cases "\<exists>p. parent_at fs en p")
  case True
  then obtain p where "parent_at fs en p" by blast
  then show ?thesis
    using assms(1,2) unfolding entryParent_def parentFor_def parent_at_def
    by (auto intro!: wp_rules split: option.splits)
next
  case False
  with assms(1,3) have "E e s fs" for e by blast
  with False show ?thesis
    unfolding entryParent_def parentFor_def parent_at_def
    by (auto intro!: wp_rules split: option.splits sum.splits)
qed

definition artifact_at :: "engine \<Rightarrow> operation \<Rightarrow> file_system \<Rightarrow> string \<Rightarrow> string \<Rightarrow> string \<Rightarrow> bool" where
  "artifact_at eg op fs name h c \<longleftrightarrow> Base name = name \<and>
     (\<exists>a f. dir_at fs (JoinPath (eg_assets eg) (op_ID op)) = Inr a
        \<and> read_at (cd_hash (eg_codec eg)) fs a name (lm_MaxFileBytes (mf_Limits (op_Plan op))) = Inr (f, c)
        \<and> fp_Exists f \<and> fp_SHA256 f = h \<and> fp_Mode f = 384 \<and> fp_UID f = fs_euid fs)"

lemma artifact_hash: "artifact_at eg op fs name h c \<Longrightarrow> cd_hash (eg_codec eg) c = h"
  using read_at_present by (fastforce simp: artifact_at_def fingerprint_of_def)

lemma wp_artifact:
  assumes "\<And>e. \<not> b \<Longrightarrow> E e s fs" "\<And>c. artifact_at eg op fs name h c \<Longrightarrow> Q c s fs"
    and "b \<Longrightarrow> \<exists>c. artifact_at eg op fs name h c"
  shows "wp b (artifact eg op name h) Q E s fs"
proof (cases "\<exists>c. artifact_at eg op fs name h c")
  case True
  then obtain c where "artifact_at eg op fs name h c" by blast
  then show ?thesis
    using assms(1,2) unfolding artifact_def artifact_at_def
    by (auto intro!: wp_rules)
next
  case False
  with assms(1,3) have "E e s fs" for e by blast
  with False show ?thesis
    unfolding artifact_def artifact_at_def
    by (auto intro!: wp_rules split: sum.splits)
qed

text \<open>A staging file is written, and put in the place of another.\<close>

lemma wp_stage:
  assumes "files_ok fs" "fp_Exists want" "hash c = fp_SHA256 want" "int (length c) = fp_Bytes want"
    and "\<And>fs1. files_ok fs1 \<Longrightarrow> untouched {(d, tmp)} fs fs1 \<Longrightarrow> shows_file hash fs1 d tmp want False \<Longrightarrow> Q () s fs1"
    and "\<And>e fs1. \<not> b \<Longrightarrow> files_ok fs1 \<Longrightarrow> untouched {(d, tmp)} fs fs1 \<Longrightarrow> E e s fs1"
    and "b \<Longrightarrow> is_dir fs d \<and> lookup fs d tmp = None"
  shows "wp b (writeAt d tmp c want) Q E s fs"
proof (rule wp_writeAt)
  have wf: "well_formed_files fs" using assms(1) by (simp add: files_ok_def)
  show "E e s fs1" if "\<not> b" "partly_written d tmp fs fs1" for e fs1
    using that assms(6) untouched_partly_written [OF that(2) wf] files_ok_untouched assms(1) by blast
  show "Q () s (with_file d tmp nd fs)"
    if "is_dir fs d" "lookup fs d tmp = None" "written fs nd c want" for nd
  proof (rule assms(5))
    show frame: "untouched {(d, tmp)} fs (with_file d tmp nd fs)" by (rule untouched_with_file [OF wf that(2)])
    show "files_ok (with_file d tmp nd fs)"
      by (rule files_ok_untouched [OF frame well_formed_with_file [OF wf that(1)] assms(1)])
    show "shows_file hash (with_file d tmp nd fs) d tmp want False"
      by (rule shows_written [where k = "length (fs_nodes fs)", OF _ _ _ that(3)])
        (simp_all add: wf assms(2-4))
  qed
qed (use assms(7) in blast)

lemma moved_ok:
  assumes "files_ok fs" "shows_file hash fs d old want identity" "fp_Exists want" "is_dir fs d'" "replaceable fs d' new"
    and "lookup fs d old = Some k"
  shows "files_ok (moved d old d' new k fs)" "untouched {(d, old), (d', new)} fs (moved d old d' new k fs)"
    "shows_file hash (moved d old d' new k fs) d' new want identity"
proof -
  from shows_present [OF assms(2,3)] assms(6)
  have k: "links fs k = 1" "\<not> is_dir fs k" by auto
  show frame: "untouched {(d, old), (d', new)} fs (moved d old d' new k fs)"
    by (rule untouched_moved [OF assms(6) k]) (use assms(5) in \<open>simp add: replaceable_def\<close>)
  show "files_ok (moved d old d' new k fs)"
    using files_ok_untouched [OF frame well_formed_moved [OF _ assms(6,4)] assms(1)] assms(1)
    by (simp add: files_ok_def)
  show "shows_file hash (moved d old d' new k fs) d' new want identity"
    by (rule shows_moved [OF assms(6) k(1) assms(2)])
qed

lemma wp_put_in_place:
  assumes "files_ok fs" "shows_file hash fs d tmp want identity" "fp_Exists want" "is_dir fs d" "replaceable fs d n" "tmp \<noteq> n"
    and "\<And>fs1. files_ok fs1 \<Longrightarrow> untouched {(d, tmp), (d, n)} fs fs1 \<Longrightarrow> shows_file hash fs1 d n want identity
           \<Longrightarrow> Q () s fs1 \<and> (\<not> b \<longrightarrow> (\<forall>e. E e s fs1))"
    and "\<And>e. \<not> b \<Longrightarrow> E e s fs"
  shows "wp b (renameAt d tmp n) Q E s fs"
proof -
  from shows_present [OF assms(2,3)] obtain k
    where k: "lookup fs d tmp = Some k" "links fs k = 1" "\<not> is_dir fs k" by blast
  note moved = assms(7) [OF moved_ok [OF assms(1-5) k(1)]]
  show ?thesis
    by (rule wp_renameAt [OF k assms(4,5,6)]) (use moved assms(8) in simp_all)
qed

lemma wp_move_to:
  assumes "files_ok fs" "shows_file hash fs d old want identity" "fp_Exists want" "is_dir fs d'" "replaceable fs d' n"
    and "(d, old) \<noteq> (d', n)"
    and "\<And>fs1. files_ok fs1 \<Longrightarrow> untouched {(d, old), (d', n)} fs fs1 \<Longrightarrow> shows_file hash fs1 d' n want identity
           \<Longrightarrow> lookup fs1 d old = None \<Longrightarrow> Q () s fs1 \<and> (\<not> b \<longrightarrow> (\<forall>e. E e s fs1))"
    and "\<And>e. \<not> b \<Longrightarrow> E e s fs"
  shows "wp b (moveAt d old d' n) Q E s fs"
proof -
  from shows_present [OF assms(2,3)] obtain k
    where k: "lookup fs d old = Some k" "links fs k = 1" "\<not> is_dir fs k" by blast
  have "lookup (moved d old d' n k fs) d old = None" using assms(6) by auto
  note moved = assms(7) [OF moved_ok [OF assms(1-5) k(1)] this]
  show ?thesis
    by (rule wp_moveAt [OF k assms(4,5,6)]) (use moved assms(8) in simp_all)
qed

section \<open>Restoring one entry\<close>

text \<open>What a prepared entry is: its destination is not one of the engine's own names, a deletion is of a
  file that exists and has its own quarantine, and both files are within the limit of the plan.\<close>

definition entry_ok :: "operation \<Rightarrow> nat \<Rightarrow> file_entry \<Rightarrow> bool" where
  "entry_ok op i en \<longleftrightarrow>
     \<not> HasPrefix (Base (en_Path en)) ''.cvkeharness-''
     \<and> (if en_Action en = ''delete''
        then fp_Exists (en_Before en) \<and> \<not> fp_Exists (en_After en)
          \<and> en_Quarantine en = staging_name op i ''.deleted'' \<and> Base (en_Quarantine en) = en_Quarantine en
        else fp_Exists (en_After en))
     \<and> fp_Bytes (en_Before en) \<le> lm_MaxFileBytes (mf_Limits (op_Plan op))
     \<and> fp_Bytes (en_After en) \<le> lm_MaxFileBytes (mf_Limits (op_Plan op))"

text \<open>A copy among the assets with the right hash has the right length; \<open>stored\<close> says that there is one.\<close>

definition true_copy :: "engine \<Rightarrow> operation \<Rightarrow> file_system \<Rightarrow> string \<Rightarrow> fingerprint \<Rightarrow> bool" where
  "true_copy eg op fs name want \<longleftrightarrow>
     (\<forall>c. artifact_at eg op fs name (fp_SHA256 want) c \<longrightarrow> int (length c) = fp_Bytes want)"

definition stored :: "engine \<Rightarrow> operation \<Rightarrow> file_system \<Rightarrow> string \<Rightarrow> fingerprint \<Rightarrow> bool" where
  "stored eg op fs name want \<longleftrightarrow> (\<exists>c. artifact_at eg op fs name (fp_SHA256 want) c)"

lemma staging_prefix: "HasPrefix (staging_name op i kind) ''.cvkeharness-''"
  by (simp add: staging_name_def HasPrefix_def)

lemma entry_name: "entry_ok op i en \<Longrightarrow> Base (en_Path en) \<noteq> staging_name op j kind"
  using staging_prefix [of op j kind] by (auto simp: entry_ok_def)

text \<open>The names a restoration may change.\<close>

definition restore_area :: "operation \<Rightarrow> nat \<Rightarrow> file_entry \<Rightarrow> nat \<Rightarrow> file_system \<Rightarrow> (nat \<times> string) set" where
  "restore_area op i en p fs =
     {(p, Base (en_Path en)), (p, staging_name op i ''.restore'')}
     \<union> {(q, ''original'') | q. en_Action en = ''delete'' \<and> lookup fs p (en_Quarantine en) = Some q}"

text \<open>How a restoration may leave the files, however it ends: nothing outside its names changed, nothing
  at all if the destination did not show the operation's output, and the destination shows what it
  showed or the original.\<close>

definition restore_keeps ::
  "(string \<Rightarrow> string) \<Rightarrow> operation \<Rightarrow> nat \<Rightarrow> file_entry \<Rightarrow> nat \<Rightarrow> file_system \<Rightarrow> file_system \<Rightarrow> bool" where
  "restore_keeps hash op i en p fs fs' \<longleftrightarrow>
     files_ok fs' \<and> untouched (restore_area op i en p fs) fs fs'
     \<and> (\<not> shows_file hash fs p (Base (en_Path en)) (en_After en) False \<longrightarrow> fs' = fs)
     \<and> ((\<forall>limit. read_at hash fs' p (Base (en_Path en)) limit = read_at hash fs p (Base (en_Path en)) limit)
        \<or> shows_file hash fs' p (Base (en_Path en)) (en_Before en) False)"

lemma restore_keeps_refl: "files_ok fs \<Longrightarrow> restore_keeps hash op i en p fs fs"
  by (simp add: restore_keeps_def)

lemma restore_keepsI:
  assumes "files_ok fs'" "untouched X fs fs'" "X \<subseteq> restore_area op i en p fs"
    and "shows_file hash fs p (Base (en_Path en)) (en_After en) False"
    and "(p, Base (en_Path en)) \<notin> X \<and> is_dir fs p \<or> shows_file hash fs' p (Base (en_Path en)) (en_Before en) False"
  shows "restore_keeps hash op i en p fs fs'"
  using assms untouched_mono [OF assms(2,3)] untouched_read_at [OF assms(2)]
  unfolding restore_keeps_def by blast

lemma wp_restore_staged:
  fixes eg op en i
  defines "hash \<equiv> cd_hash (eg_codec eg)" and "name \<equiv> Base (en_Path en)" and "tmp \<equiv> staging_name op i ''.restore''"
  assumes ok: "files_ok fs" "is_dir fs p" "entry_ok op i en" "fp_Exists (en_Before en)"
    and out: "shows_file hash fs p name (en_After en) False"
    and staged: "files_ok fs1" "untouched {(p, tmp)} fs fs1" "shows_file hash fs1 p tmp (en_Before en) False"
  shows "wp b (restore_staged eg op en p tmp)
    (\<lambda>_ s' fs'. restore_keeps hash op i en p fs fs' \<and> shows_file hash fs' p name (en_Before en) False)
    (\<lambda>_ s' fs'. \<not> b \<and> restore_keeps hash op i en p fs fs') s fs1"
    (is "wp b _ ?Q ?E s fs1")
proof -
  let ?L = "lm_MaxFileBytes (mf_Limits (op_Plan op))"
  have name: "tmp \<noteq> name" using entry_name [OF ok(3), of i "''.restore''"] by (simp add: name_def tmp_def)
  have area: "{(p, tmp)} \<subseteq> restore_area op i en p fs" "{(p, tmp), (p, name)} \<subseteq> restore_area op i en p fs"
    by (auto simp: restore_area_def name_def tmp_def)
  have dir: "is_dir fs1 p" by (rule untouched_is_dir [OF staged(2) ok(2)])
  have wf: "well_formed_files fs1" using staged(1) by (simp add: files_ok_def)
  have here: "shows_file hash fs1 p name (en_After en) False"
    using shows_untouched [OF staged(2) _ ok(2)] out name by simp
  have failed: "?E e s fs1" if "\<not> b" for e
    using that restore_keepsI [OF staged(1,2) area(1)] ok(2) out name by (simp add: name_def hash_def)
  have swap: "wp b (renameAt p tmp name) ?Q ?E s fs1"
  proof (rule wp_put_in_place [OF staged(1,3) ok(4) dir shows_replaceable [OF here wf] name])
    fix fs2
    assume two: "files_ok fs2" "untouched {(p, tmp), (p, name)} fs1 fs2" "shows_file hash fs2 p name (en_Before en) False"
    have frame: "untouched {(p, tmp), (p, name)} fs fs2"
      using untouched_trans [OF staged(2) two(2)] ok(1) by (simp add: files_ok_def insert_commute)
    have "restore_keeps hash op i en p fs fs2"
      by (rule restore_keepsI [OF two(1) frame area(2)]) (use out two(3) in \<open>simp_all add: name_def\<close>)
    then show "?Q () s fs2 \<and> (\<not> b \<longrightarrow> (\<forall>e. ?E e s fs2))" using two(3) by simp
  qed (use failed in simp)
  obtain x d where x: "read_at hash fs1 p name ?L = Inr (x, d)" "matches x (en_After en) False"
    using shows_read [OF here wf, of ?L] ok(3) by (auto simp: entry_ok_def)
  show ?thesis
    unfolding restore_staged_def hash_def [symmetric] name_def [symmetric]
    by (intro wp_then wp_on_error wp_readRegular) (use x failed swap in \<open>simp_all add: wp_return wp_fail wp_then\<close>)
qed

lemma wp_restore_backup:
  fixes eg op en i
  defines "hash \<equiv> cd_hash (eg_codec eg)" and "name \<equiv> Base (en_Path en)" and "tmp \<equiv> staging_name op i ''.restore''"
  assumes ok: "files_ok fs" "is_dir fs p" "entry_ok op i en" "fp_Exists (en_Before en)"
    and out: "shows_file hash fs p name (en_After en) False"
    and copy: "hash c = fp_SHA256 (en_Before en)" "int (length c) = fp_Bytes (en_Before en)"
    and free: "b \<Longrightarrow> lookup fs p tmp = None"
  shows "wp b (restore_backup eg op en i p c)
    (\<lambda>_ s' fs'. restore_keeps hash op i en p fs fs' \<and> shows_file hash fs' p name (en_Before en) False)
    (\<lambda>_ s' fs'. \<not> b \<and> restore_keeps hash op i en p fs fs') s fs"
    (is "wp b _ ?Q ?E s fs")
proof -
  let ?L = "lm_MaxFileBytes (mf_Limits (op_Plan op))"
  have kept: "?E e s fs" if "\<not> b" for e
    using that restore_keeps_refl [OF ok(1)] by simp
  have finish: "wp b (restore_staged eg op en p tmp) ?Q ?E s fs1"
    if "files_ok fs1" "untouched {(p, tmp)} fs fs1" "shows_file hash fs1 p tmp (en_Before en) False" for fs1
    using wp_restore_staged [OF ok, of eg fs1] out that by (simp add: hash_def name_def tmp_def)
  have name: "tmp \<noteq> name" using entry_name [OF ok(3), of i "''.restore''"] by (simp add: name_def tmp_def)
  have broken: "?E e s fs1" if "\<not> b" "files_ok fs1" "untouched {(p, tmp)} fs fs1" for e fs1
    using that restore_keepsI [OF that(2,3), of op i en p hash] ok(2) out name
    by (simp add: restore_area_def name_def tmp_def)
  have writing: "wp b (writeAt p tmp c (en_Before en)) (\<lambda>_. wp b (restore_staged eg op en p tmp) ?Q ?E) ?E s fs"
    by (rule wp_stage [where hash = hash, OF ok(1,4)], rule copy, rule copy, erule (2) finish, erule (2) broken)
      (use ok(2) free in simp)
  have reuse: "wp b (refuse_when (\<not> matches staged (en_Before en) False) ''restore staging conflict'')
      (\<lambda>_. wp b (restore_staged eg op en p tmp) ?Q ?E) ?E s fs"
    if "read_at hash fs p tmp ?L = Inr (staged, d)" "fp_Exists staged" for staged d
  proof (rule wp_refuse_when)
    have "\<not> b" using free that by (auto simp: read_at_def)
    then show "?E (Problem t) s fs" for t by (rule kept)
    show "wp b (restore_staged eg op en p tmp) ?Q ?E s fs" if "\<not> \<not> matches staged (en_Before en) False"
      using that ok(1) shows_fileI [OF \<open>read_at hash fs p tmp ?L = Inr (staged, d)\<close>] by (intro finish) simp_all
  qed
  have unreadable: "\<not> b" if "read_at hash fs p tmp ?L = Inl e" for e
    using that free by (auto simp: read_at_def)
  show ?thesis
    unfolding restore_backup_def Let_def hash_def [symmetric] tmp_def [symmetric]
  proof (intro wp_then wp_readRegular)
    show "?E e s fs" if "\<not> b" for e by (rule kept [OF that])
    show "case read_at hash fs p tmp ?L of
        Inl e \<Rightarrow> ?E e s fs
      | Inr x \<Rightarrow> wp b (case x of (staged, _) \<Rightarrow>
          then_db (if fp_Exists staged then refuse_when (\<not> matches staged (en_Before en) False) ''restore staging conflict''
                   else writeAt p tmp c (en_Before en))
            (\<lambda>_. restore_staged eg op en p tmp)) ?Q ?E s fs"
      using kept unreadable writing reuse by (auto intro: wp_then split: sum.splits prod.splits)
  qed
qed

lemma wp_restore_quarantined:
  fixes eg op en i
  defines "hash \<equiv> cd_hash (eg_codec eg)" and "name \<equiv> Base (en_Path en)"
  assumes ok: "files_ok fs" "is_dir fs p" "entry_ok op i en" "en_Action en = ''delete''"
    and out: "shows_file hash fs p name (en_After en) False"
    and away: "b \<Longrightarrow> \<exists>q. lookup fs p (en_Quarantine en) = Some q \<and> private_dir fs q
                  \<and> shows_file hash fs q ''original'' (en_Before en) True"
    and restored: "\<And>fs'. restore_keeps hash op i en p fs fs' \<Longrightarrow> shows_file hash fs' p name (en_Before en) False \<Longrightarrow> Q True s fs'"
    and not_there: "\<not> b \<Longrightarrow> Q False s fs"
    and failed: "\<And>e fs'. \<not> b \<Longrightarrow> restore_keeps hash op i en p fs fs' \<Longrightarrow> E e s fs'"
  shows "wp b (restore_quarantined eg op en p) Q E s fs"
proof -
  let ?L = "lm_MaxFileBytes (mf_Limits (op_Plan op))"
  have wf: "well_formed_files fs" using ok(1) by (simp add: files_ok_def)
  have before: "fp_Exists (en_Before en)" "\<not> fp_Exists (en_After en)" "fp_Bytes (en_Before en) \<le> ?L"
    "Base (en_Quarantine en) = en_Quarantine en"
    using ok(3,4) by (auto simp: entry_ok_def)
  have gone: "lookup fs p name = None" by (rule shows_absent [OF out before(2) wf])
  have kept: "E e s fs" if "\<not> b" for e
    using that by (rule failed) (rule restore_keeps_refl [OF ok(1)])
  have moving: "wp b (moveAt q ''original'' p name) (\<lambda>_. wp b (return_db True) Q E) E s fs"
    if q: "lookup fs p (en_Quarantine en) = Some q" "shows_file hash fs q ''original'' (en_Before en) True" for q
  proof (rule wp_move_to [OF ok(1) q(2) before(1) ok(2)])
    show "replaceable fs p name" by (simp add: replaceable_def gone)
    show "(q, ''original'') \<noteq> (p, name)" using gone shows_present [OF q(2) before(1)] by auto
    show "E e s fs" if "\<not> b" for e by (rule kept [OF that])
    fix fs1
    assume one: "files_ok fs1" "untouched {(q, ''original''), (p, name)} fs fs1"
      "shows_file hash fs1 p name (en_Before en) True"
    have shown: "shows_file hash fs1 p name (en_Before en) False" by (rule shows_file_weaken [OF one(3)])
    have "restore_keeps hash op i en p fs fs1"
      by (rule restore_keepsI [OF one(1,2)])
        (use out shown ok(4) q(1) in \<open>simp_all add: restore_area_def name_def\<close>)
    then show "wp b (return_db True) Q E s fs1 \<and> (\<not> b \<longrightarrow> (\<forall>e. E e s fs1))"
      using shown restored failed by (simp add: wp_return)
  qed
  have reading: "wp b (if \<not> fp_Exists x then return_db False
        else if \<not> matches x (en_Before en) True
        then fail_db (Problem ''quarantined file changed; refusing ambiguous restore'')
        else then_db (moveAt q ''original'' p name) (\<lambda>_. return_db True)) Q E s fs"
    if "lookup fs p (en_Quarantine en) = Some q" "read_at hash fs q ''original'' ?L = Inr (x, d)"
      "b \<Longrightarrow> matches x (en_Before en) True" for q x d
  proof (intro wp_if wp_return wp_fail wp_then moving)
    show "Q False s fs" if "\<not> fp_Exists x"
      using that before(1) \<open>b \<Longrightarrow> matches x (en_Before en) True\<close> not_there by (cases b) (auto dest: matches_Exists)
  qed (use that kept in \<open>auto intro: shows_fileI\<close>)
  have opened: "wp b (then_db (readRegular hash q ''original'' ?L) (\<lambda>(x, _).
        if \<not> fp_Exists x then return_db False
        else if \<not> matches x (en_Before en) True
        then fail_db (Problem ''quarantined file changed; refusing ambiguous restore'')
        else then_db (moveAt q ''original'' p name) (\<lambda>_. return_db True))) Q E s fs"
    if q: "lookup fs p (en_Quarantine en) = Some q" for q
  proof (intro wp_then wp_readRegular)
    show "E e s fs" if "\<not> b" for e by (rule kept [OF that])
    have "\<exists>x d. read_at hash fs q ''original'' ?L = Inr (x, d) \<and> matches x (en_Before en) True" if b
      using away [OF that] shows_read [OF _ wf, of hash q "''original''" "en_Before en" True ?L] q before(3) by auto
    then show "case read_at hash fs q ''original'' ?L of
        Inl e \<Rightarrow> E e s fs
      | Inr y \<Rightarrow> wp b (case y of (x, _) \<Rightarrow>
          if \<not> fp_Exists x then return_db False
          else if \<not> matches x (en_Before en) True
          then fail_db (Problem ''quarantined file changed; refusing ambiguous restore'')
          else then_db (moveAt q ''original'' p name) (\<lambda>_. return_db True)) Q E s fs"
      using kept reading [OF q] by (cases b) (fastforce split: sum.splits)+
  qed
  show ?thesis
    unfolding restore_quarantined_def hash_def [symmetric] name_def [symmetric]
  proof (intro wp_then wp_attempt wp_childPrivateDirectory_open)
    show "b \<Longrightarrow> Base (en_Quarantine en) = en_Quarantine en
        \<and> (case lookup fs p (en_Quarantine en) of None \<Rightarrow> True | Some q \<Rightarrow> private_dir fs q)"
      using away before(4) by auto
  qed (use kept not_there away opened in \<open>auto intro: wp_if wp_return wp_fail\<close>)
qed

text \<open>Where an interruption of the application may leave an entry: at its original, at its candidate, or with
  the deleted original in its quarantine.\<close>

definition entry_state :: "(string \<Rightarrow> string) \<Rightarrow> file_entry \<Rightarrow> nat \<Rightarrow> file_system \<Rightarrow> bool" where
  "entry_state hash en p fs \<longleftrightarrow>
     shows_file hash fs p (Base (en_Path en)) (en_Before en) False
     \<or> (if en_Action en = ''delete''
        then lookup fs p (Base (en_Path en)) = None \<and>
          (case lookup fs p (en_Quarantine en) of None \<Rightarrow> False
           | Some q \<Rightarrow> private_dir fs q \<and> shows_file hash fs q ''original'' (en_Before en) True)
        else shows_file hash fs p (Base (en_Path en)) (en_After en) False)"

definition restorable :: "engine \<Rightarrow> operation \<Rightarrow> nat \<Rightarrow> file_entry \<Rightarrow> nat \<Rightarrow> file_system \<Rightarrow> bool" where
  "restorable eg op i en p fs \<longleftrightarrow>
     entry_state (cd_hash (eg_codec eg)) en p fs \<and> lookup fs p (staging_name op i ''.restore'') = None
     \<and> (fp_Exists (en_Before en) \<longrightarrow> stored eg op fs (en_Backup en) (en_Before en))"

lemma wp_restore_removed:
  fixes en
  defines "name \<equiv> Base (en_Path en)"
  assumes ok: "files_ok fs"
    and out: "shows_file hash fs p name (en_After en) False" "\<not> fp_Exists (en_Before en)" "fp_Exists (en_After en)"
  shows "wp b (removeAt p name)
    (\<lambda>_ s' fs'. restore_keeps hash op i en p fs fs' \<and> shows_file hash fs' p name (en_Before en) False)
    (\<lambda>_ s' fs'. \<not> b \<and> restore_keeps hash op i en p fs fs') s fs"
proof -
  have wf: "well_formed_files fs" using ok by (simp add: files_ok_def)
  from shows_present [OF out(1,3)] obtain k
    where k: "lookup fs p name = Some k" "links fs k = 1" "\<not> is_dir fs k" by blast
  let ?fs = "delete_entry p name fs"
  have frame: "untouched {(p, name)} fs ?fs" by (rule untouched_delete_entry [OF k(1,3,2)])
  have shown: "shows_file hash ?fs p name (en_Before en) False" using out(2) by (simp add: shows_missing)
  have "restore_keeps hash op i en p fs ?fs"
    by (rule restore_keepsI [OF files_ok_untouched [OF frame well_formed_delete_entry [OF wf] ok] frame])
      (use out(1) shown in \<open>simp_all add: restore_area_def name_def\<close>)
  then show ?thesis
    using shown restore_keeps_refl [OF ok, of hash op i en p] by (intro wp_removeAt [OF k(1,3)]) simp_all
qed

lemma wp_restore_original:
  fixes eg op en i
  defines "hash \<equiv> cd_hash (eg_codec eg)" and "name \<equiv> Base (en_Path en)"
  assumes ok: "files_ok fs" "is_dir fs p" "entry_ok op i en" "fp_Exists (en_Before en)"
    and copy: "true_copy eg op fs (en_Backup en) (en_Before en)"
    and out: "shows_file hash fs p name (en_After en) False" "\<not> shows_file hash fs p name (en_Before en) False"
    and good: "b \<Longrightarrow> restorable eg op i en p fs"
  shows "wp b (restore_original eg op en i p)
    (\<lambda>_ s' fs'. restore_keeps hash op i en p fs fs' \<and> shows_file hash fs' p name (en_Before en) False)
    (\<lambda>_ s' fs'. \<not> b \<and> restore_keeps hash op i en p fs fs') s fs"
    (is "wp b _ ?Q ?E s fs")
proof -
  have kept: "?E e s fs" if "\<not> b" for e
    using that restore_keeps_refl [OF ok(1)] by simp
  have free: "lookup fs p (staging_name op i ''.restore'') = None" if b
    using good [OF that] by (simp add: restorable_def)
  have backup: "wp b (restore_backup eg op en i p c) ?Q ?E s fs"
    if "artifact_at eg op fs (en_Backup en) (fp_SHA256 (en_Before en)) c" for c
    using wp_restore_backup [OF ok(1-4), of eg c b s] artifact_hash [OF that] copy that out(1) free
    by (simp add: true_copy_def hash_def name_def)
  have quarantine: "wp b (restore_quarantined eg op en p)
      (\<lambda>moved_back. wp b (if moved_back then return_db () else restore_backup eg op en i p c) ?Q ?E) ?E s fs"
    if delete: "en_Action en = ''delete''"
      and c: "artifact_at eg op fs (en_Backup en) (fp_SHA256 (en_Before en)) c" for c
  proof (rule wp_restore_quarantined [OF ok(1-3) delete])
    show "\<exists>q. lookup fs p (en_Quarantine en) = Some q \<and> private_dir fs q
        \<and> shows_file (cd_hash (eg_codec eg)) fs q ''original'' (en_Before en) True" if b
      using good [OF that] out(2) delete
      by (auto simp: restorable_def entry_state_def hash_def name_def split: option.splits)
  qed (use out(1) backup [OF c] in \<open>simp_all add: hash_def name_def wp_return\<close>)
  have "\<exists>c. artifact_at eg op fs (en_Backup en) (fp_SHA256 (en_Before en)) c" if b
    using good [OF that] ok(4) by (simp add: restorable_def stored_def)
  then show ?thesis
    unfolding restore_original_def
    using kept quarantine backup by (intro wp_then wp_artifact) (simp_all add: wp_return)
qed

lemma wp_restoreEntry:
  fixes eg op en i
  defines "hash \<equiv> cd_hash (eg_codec eg)" and "name \<equiv> Base (en_Path en)"
  assumes ok: "files_ok fs" "entry_ok op i en" "parent_at fs en p"
    and copy: "true_copy eg op fs (en_Backup en) (en_Before en)"
    and good: "b \<Longrightarrow> restorable eg op i en p fs"
  shows "wp b (restoreEntry eg op en i)
    (\<lambda>_ s' fs'. restore_keeps hash op i en p fs fs' \<and> shows_file hash fs' p name (en_Before en) False)
    (\<lambda>_ s' fs'. \<not> b \<and> restore_keeps hash op i en p fs fs') s fs"
    (is "wp b _ ?Q ?E s fs")
proof -
  let ?L = "lm_MaxFileBytes (mf_Limits (op_Plan op))"
  have wf: "well_formed_files fs" using ok(1) by (simp add: files_ok_def)
  have kept: "?E e s fs" if "\<not> b" for e
    using that restore_keeps_refl [OF ok(1)] by simp
  have bytes: "fp_Bytes (en_Before en) \<le> ?L" "fp_Bytes (en_After en) \<le> ?L"
    and deletion: "en_Action en = ''delete'' \<Longrightarrow> \<not> fp_Exists (en_After en)"
    using ok(2) by (auto simp: entry_ok_def split: if_splits)
  have readable: "\<exists>x d. read_at hash fs p name ?L = Inr (x, d)
      \<and> (matches x (en_Before en) False \<or> matches x (en_After en) False)" if b
    using good [OF that] shows_read [OF _ wf, of hash p name _ False ?L] bytes deletion
    by (fastforce simp: restorable_def entry_state_def hash_def name_def read_at_def split: if_splits)
  have decided: "wp b (if matches x (en_Before en) False then return_db ()
      else if \<not> matches x (en_After en) False then fail_db (Problem ''restore conflict'')
      else if \<not> fp_Exists (en_Before en) then removeAt p name else restore_original eg op en i p) ?Q ?E s fs"
    if x: "read_at hash fs p name ?L = Inr (x, d)" for x d
  proof (intro wp_if)
    have shown: "shows_file hash fs p name want False = matches x want False" if "fp_Bytes want \<le> ?L" for want
      using shows_read [OF _ wf, of hash p name want False ?L] shows_fileI [OF x] x that by auto
    show "wp b (return_db ()) ?Q ?E s fs" if "matches x (en_Before en) False"
      using that shows_fileI [OF x that] restore_keeps_refl [OF ok(1)] by (intro wp_return) simp
    show "wp b (fail_db (Problem ''restore conflict'')) ?Q ?E s fs"
      if "\<not> matches x (en_Before en) False" "\<not> matches x (en_After en) False"
      using that readable x kept by (cases b) (auto intro: wp_fail)
    assume changed: "\<not> matches x (en_Before en) False" "\<not> \<not> matches x (en_After en) False"
    show "wp b (removeAt p name) ?Q ?E s fs" if "\<not> fp_Exists (en_Before en)"
    proof -
      have "fp_Exists (en_After en)" using changed that by (metis matches_Exists matches_def)
      then show ?thesis
        unfolding name_def by (intro wp_restore_removed) (use ok(1) shown bytes changed that in \<open>simp_all add: name_def\<close>)
    qed
    show "wp b (restore_original eg op en i p) ?Q ?E s fs" if "\<not> \<not> fp_Exists (en_Before en)"
      unfolding hash_def name_def
      by (rule wp_restore_original [OF ok(1) parent_dir [OF ok(3,1)] ok(2) _ copy])
        (use shown bytes changed that good in \<open>simp_all add: hash_def name_def\<close>)
  qed
  have unread: "\<not> b" if "read_at hash fs p name ?L = Inl e" for e
    using that readable by (cases b) auto
  have "wp b (readRegular hash p' name ?L) (\<lambda>x. wp b (case x of (actual, _) \<Rightarrow>
      if matches actual (en_Before en) False then return_db ()
      else if \<not> matches actual (en_After en) False then fail_db (Problem ''restore conflict'')
      else if \<not> fp_Exists (en_Before en) then removeAt p' name else restore_original eg op en i p') ?Q ?E) ?E s fs"
    if "parent_at fs en p'" for p'
    using parent_unique [OF ok(3) that] decided kept unread
    by (intro wp_readRegular) (fastforce split: sum.splits prod.splits)+
  then show ?thesis
    unfolding restoreEntry_def hash_def [symmetric] name_def [symmetric]
    using kept ok(3) by (intro wp_then wp_entryParent) auto
qed

section \<open>Applying one entry\<close>

text \<open>Names in new directories need not be listed in a frame.\<close>

lemma untouched_new_name:
  assumes "untouched (insert (q, n) X) fs fs'" "length (fs_nodes fs) \<le> q" "well_formed_files fs"
  shows "untouched X fs fs'"
  unfolding untouched_def
proof (intro conjI allI impI)
  note frame = untouchedD [OF assms(1)]
  show "fs_euid fs' = fs_euid fs" "length (fs_nodes fs) \<le> length (fs_nodes fs')"
    by (rule frame(1), rule frame(2))
  fix d m k
  show "lookup fs' d m = lookup fs d m" if "(d, m) \<notin> X \<and> d < length (fs_nodes fs)"
    using that frame(3) [of d m] assms(2) by auto
  show "node_at fs' k = node_at fs k" if "is_dir fs k" by (rule frame(4) [OF that])
  show "lookup fs' d m = Some k" if "lookup fs d m = Some k \<and> is_dir fs k" using that frame(5) by blast
  assume k: "(d, m) \<notin> X \<and> lookup fs d m = Some k"
  then have "d < length (fs_nodes fs)"
    using assms(3) is_dir_bound unfolding well_formed_files_def by blast
  with k assms(2) have "(d, m) \<notin> insert (q, n) X" by auto
  with k show "node_at fs' k = node_at fs k" "links fs' k = links fs k"
    using frame(6,7) [of d m k] by simp_all
qed

lemma private_untouched: "untouched X fs fs' \<Longrightarrow> private_dir fs q \<Longrightarrow> private_dir fs' q"
  using untouchedD(1,4) [of X fs fs'] untouched_is_dir [of X fs fs']
  by (auto simp: private_dir_def split: option.splits)

lemma new_dir_ok:
  assumes "files_ok fs" "is_dir fs d" "lookup fs d n = None"
  shows "files_ok (new_dir d n fs)" "untouched {(d, n)} fs (new_dir d n fs)"
    "links (new_dir d n fs) (length (fs_nodes fs)) = 1"
    "lookup (new_dir d n fs) (length (fs_nodes fs)) m = None"
proof -
  have wf: "well_formed_files fs" using assms(1) by (simp add: files_ok_def)
  show frame: "untouched {(d, n)} fs (new_dir d n fs)"
    unfolding new_dir_def by (rule untouched_with_file [OF wf assms(3)])
  show "files_ok (new_dir d n fs)"
    using files_ok_untouched [OF frame _ assms(1)] well_formed_with_file [OF wf assms(2)] by (simp add: new_dir_def)
  show "links (new_dir d n fs) (length (fs_nodes fs)) = 1"
    unfolding new_dir_def by (rule links_with_file [OF wf])
  have "d \<noteq> length (fs_nodes fs)" using is_dir_bound [OF assms(2)] by simp
  moreover have "lookup fs (length (fs_nodes fs)) m = None"
    using wf is_dir_bound [of fs "length (fs_nodes fs)"]
    by (cases "lookup fs (length (fs_nodes fs)) m") (auto simp: well_formed_files_def)
  ultimately show "lookup (new_dir d n fs) (length (fs_nodes fs)) m = None" by simp
qed

definition apply_area :: "operation \<Rightarrow> nat \<Rightarrow> file_entry \<Rightarrow> nat \<Rightarrow> (nat \<times> string) set" where
  "apply_area op i en p =
     {(p, Base (en_Path en)), (p, staging_name op i ''.pending'')}
     \<union> (if en_Action en = ''delete'' then {(p, en_Quarantine en)} else {})"

text \<open>An entry whose application was begun and may have been interrupted.  Its quarantine, if there is one,
  is a directory of its own among the files that are new since the operation started with \<open>n\<close> of them.\<close>

definition interrupted :: "(string \<Rightarrow> string) \<Rightarrow> nat \<Rightarrow> file_entry \<Rightarrow> nat \<Rightarrow> file_system \<Rightarrow> bool" where
  "interrupted hash n en p fs \<longleftrightarrow> entry_state hash en p fs
     \<and> (en_Action en = ''delete'' \<longrightarrow>
          (case lookup fs p (en_Quarantine en) of None \<Rightarrow> True
           | Some q \<Rightarrow> n \<le> q \<and> links fs q = 1 \<and> is_dir fs q))"

definition apply_keeps ::
  "(string \<Rightarrow> string) \<Rightarrow> nat \<Rightarrow> operation \<Rightarrow> nat \<Rightarrow> file_entry \<Rightarrow> nat \<Rightarrow> file_system \<Rightarrow> file_system \<Rightarrow> bool" where
  "apply_keeps hash n op i en p fs fs' \<longleftrightarrow>
     files_ok fs' \<and> untouched (apply_area op i en p) fs fs' \<and> interrupted hash n en p fs'"

lemma wp_quarantine_file:
  fixes eg en
  defines "hash \<equiv> cd_hash (eg_codec eg)" and "name \<equiv> Base (en_Path en)"
  assumes ok: "files_ok fs" "is_dir fs p" "entry_ok op i en" "en_Action en = ''delete''" "n \<le> length (fs_nodes fs)"
    and before: "shows_file hash fs p name (en_Before en) True" "lookup fs p (en_Quarantine en) = None"
  shows "wp False (quarantine_file eg en p)
    (\<lambda>_ s' fs'. apply_keeps hash n op i en p fs fs' \<and> shows_file hash fs' p name (en_After en) False)
    (\<lambda>_ s' fs'. apply_keeps hash n op i en p fs fs') s fs"
    (is "wp False _ ?Q ?E s fs")
proof -
  let ?fs = "new_dir p (en_Quarantine en) fs" and ?q = "length (fs_nodes fs)"
  have entry: "fp_Exists (en_Before en)" "\<not> fp_Exists (en_After en)" "Base (en_Quarantine en) = en_Quarantine en"
    "name \<noteq> en_Quarantine en"
    using ok(3,4) entry_name [OF ok(3), of i "''.deleted''"] by (auto simp: entry_ok_def name_def)
  note new = new_dir_ok [OF ok(1,2) before(2)]
  have area: "{(p, en_Quarantine en)} \<subseteq> apply_area op i en p"
    "{(p, en_Quarantine en), (p, name)} \<subseteq> apply_area op i en p"
    using ok(4) by (auto simp: apply_area_def name_def)
  have here: "shows_file hash ?fs p name (en_Before en) True"
    using shows_untouched [OF new(2) _ ok(2)] before(1) entry(4) by simp
  have state: "apply_keeps hash n op i en p fs fs"
    using ok before shows_file_weaken [OF before(1)]
    by (simp add: apply_keeps_def interrupted_def entry_state_def name_def)
  have state1: "apply_keeps hash n op i en p fs ?fs"
    using new(1,3) untouched_mono [OF new(2) area(1)] shows_file_weaken [OF here] ok(5)
    by (simp add: apply_keeps_def interrupted_def entry_state_def name_def)
  have moving: "wp False (moveAt p name ?q ''original'') ?Q ?E s ?fs"
  proof (rule wp_move_to [OF new(1) here entry(1) is_dir_new_dir])
    show "replaceable ?fs ?q ''original''" by (simp only: replaceable_def new(4) option.case)
    show "(p, name) \<noteq> (?q, ''original'')" using is_dir_bound [OF ok(2)] by auto
    show "?E e s ?fs" for e by (rule state1)
    fix fs2
    assume two: "files_ok fs2" "untouched {(p, name), (?q, ''original'')} ?fs fs2"
      "shows_file hash fs2 ?q ''original'' (en_Before en) True" "lookup fs2 p name = None"
    have kept: "lookup fs2 p (en_Quarantine en) = Some ?q" "links fs2 ?q = 1"
      using untouchedD(5,7) [OF two(2), of p "en_Quarantine en" ?q] entry(4) new(3) is_dir_bound [OF ok(2)] by auto
    have mine: "private_dir fs2 ?q" by (rule private_untouched [OF two(2) private_new_dir])
    have "untouched (insert (?q, ''original'') {(p, en_Quarantine en), (p, name)}) fs fs2"
      using untouched_trans [OF new(2) two(2)] ok(1) by (simp add: files_ok_def insert_commute)
    then have frame: "untouched {(p, en_Quarantine en), (p, name)} fs fs2"
      by (rule untouched_new_name) (use ok(1) in \<open>simp_all add: files_ok_def\<close>)
    have "apply_keeps hash n op i en p fs fs2"
      using two(1,3,4) kept mine untouched_mono [OF frame area(2)] ok(4,5)
      by (simp add: apply_keeps_def interrupted_def entry_state_def name_def private_dir_def)
    then show "?Q () s fs2 \<and> (\<not> False \<longrightarrow> (\<forall>e. ?E e s fs2))"
      using two(4) entry(2) by (simp add: shows_missing)
  qed
  show ?thesis
    unfolding quarantine_file_def hash_def [symmetric] name_def [symmetric]
    by (intro wp_then wp_childPrivateDirectory_create wp_readRegular)
      (use state state1 entry ok(2) before(2) moving new(4) in
        \<open>auto intro!: wp_refuse_when wp_then split: sum.splits simp: read_at_def\<close>)
qed

lemma wp_replace_file:
  fixes eg op en i
  defines "hash \<equiv> cd_hash (eg_codec eg)" and "name \<equiv> Base (en_Path en)" and "tmp \<equiv> staging_name op i ''.pending''"
  assumes ok: "files_ok fs" "is_dir fs p" "entry_ok op i en" "en_Action en \<noteq> ''delete''"
    and before: "shows_file hash fs p name (en_Before en) True"
    and copy: "true_copy eg op fs (en_Candidate en) (en_After en)"
  shows "wp False (replace_file eg op en i p)
    (\<lambda>_ s' fs'. apply_keeps hash n op i en p fs fs' \<and> shows_file hash fs' p name (en_After en) False)
    (\<lambda>_ s' fs'. apply_keeps hash n op i en p fs fs') s fs"
    (is "wp False _ ?Q ?E s fs")
proof -
  have name: "tmp \<noteq> name" using entry_name [OF ok(3), of i "''.pending''"] by (simp add: name_def tmp_def)
  have after: "fp_Exists (en_After en)" using ok(3,4) by (simp add: entry_ok_def)
  have area: "{(p, tmp)} \<subseteq> apply_area op i en p" "{(p, tmp), (p, name)} \<subseteq> apply_area op i en p"
    by (auto simp: apply_area_def name_def tmp_def)
  have state: "?E e s fs1" "shows_file hash fs1 p name (en_Before en) True"
    if "files_ok fs1" "untouched {(p, tmp)} fs fs1" for e :: recovery_error and fs1
  proof -
    show shown: "shows_file hash fs1 p name (en_Before en) True"
      using shows_untouched [OF that(2) _ ok(2)] before name by simp
    show "?E e s fs1"
      using that(1) untouched_mono [OF that(2) area(1)] shows_file_weaken [OF shown] ok(4)
      by (simp add: apply_keeps_def interrupted_def entry_state_def name_def)
  qed
  have swap: "wp False (renameAt p tmp name) ?Q ?E s fs1"
    if staged: "files_ok fs1" "untouched {(p, tmp)} fs fs1" "shows_file hash fs1 p tmp (en_After en) False" for fs1
  proof (rule wp_put_in_place [OF staged(1,3) after untouched_is_dir [OF staged(2) ok(2)] _ name])
    show "replaceable fs1 p name"
      by (rule shows_replaceable [OF state(2) [OF staged(1,2)]]) (use staged(1) in \<open>simp add: files_ok_def\<close>)
    show "?E e s fs1" for e by (rule state(1) [OF staged(1,2)])
    fix fs2
    assume two: "files_ok fs2" "untouched {(p, tmp), (p, name)} fs1 fs2" "shows_file hash fs2 p name (en_After en) False"
    have frame: "untouched {(p, tmp), (p, name)} fs fs2"
      using untouched_trans [OF staged(2) two(2)] ok(1) by (simp add: files_ok_def insert_commute)
    show "?Q () s fs2 \<and> (\<not> False \<longrightarrow> (\<forall>e. ?E e s fs2))"
      using two(1,3) untouched_mono [OF frame area(2)] ok(4)
      by (simp add: apply_keeps_def interrupted_def entry_state_def name_def)
  qed
  have replace: "wp False (replace_staged eg en p tmp) ?Q ?E s fs1"
    if staged: "files_ok fs1" "untouched {(p, tmp)} fs fs1" "shows_file hash fs1 p tmp (en_After en) False" for fs1
    unfolding replace_staged_def name_def [symmetric]
    by (intro wp_then wp_on_error wp_readRegular)
      (use state(1) [OF staged(1,2)] swap [OF staged] in \<open>auto intro!: wp_if wp_return wp_fail wp_then split: sum.splits\<close>)
  have writing: "wp False (writeAt p tmp c (en_After en)) (\<lambda>_. wp False (replace_staged eg en p tmp) ?Q ?E) ?E s fs"
    if c: "artifact_at eg op fs (en_Candidate en) (fp_SHA256 (en_After en)) c" for c
    by (rule wp_stage [where hash = hash, OF ok(1) after], insert c copy artifact_hash [OF c], simp add: hash_def,
        simp add: true_copy_def, erule (2) replace, erule (1) state(1), simp)
  show ?thesis
    unfolding replace_file_def tmp_def [symmetric]
    using state(1) [OF ok(1) untouched_refl] writing by (intro wp_then wp_artifact) simp_all
qed

lemma wp_applyEntry:
  fixes eg op en i
  defines "hash \<equiv> cd_hash (eg_codec eg)" and "name \<equiv> Base (en_Path en)"
  assumes ok: "files_ok fs" "entry_ok op i en" "parent_at fs en p" "n \<le> length (fs_nodes fs)"
    and before: "shows_file hash fs p name (en_Before en) True"
      "en_Action en = ''delete'' \<Longrightarrow> lookup fs p (en_Quarantine en) = None"
    and copy: "true_copy eg op fs (en_Candidate en) (en_After en)"
  shows "wp False (applyEntry eg op en i)
    (\<lambda>_ s' fs'. apply_keeps hash n op i en p fs fs' \<and> shows_file hash fs' p name (en_After en) False)
    (\<lambda>_ s' fs'. apply_keeps hash n op i en p fs fs') s fs"
    (is "wp False _ ?Q ?E s fs")
proof -
  have dir: "is_dir fs p" by (rule parent_dir [OF ok(3,1)])
  have state: "apply_keeps hash n op i en p fs fs"
    using ok before shows_file_weaken [OF before(1)]
    by (simp add: apply_keeps_def interrupted_def entry_state_def name_def)
  have delete: "wp False (quarantine_file eg en p) ?Q ?E s fs" if "en_Action en = ''delete''"
    unfolding name_def hash_def
    by (rule wp_quarantine_file [OF ok(1) dir ok(2) that ok(4)]) (use before that in \<open>simp_all add: name_def hash_def\<close>)
  have replace: "wp False (replace_file eg op en i p) ?Q ?E s fs" if "en_Action en \<noteq> ''delete''"
    unfolding name_def hash_def
    by (rule wp_replace_file [OF ok(1) dir ok(2) that _ copy]) (use before in \<open>simp add: name_def hash_def\<close>)
  have decided: "wp False (then_db (refuse_when c t) (\<lambda>_.
      if en_Action en = ''delete'' then quarantine_file eg en p else replace_file eg op en i p)) ?Q ?E s fs" for c t
    by (rule wp_then, rule wp_refuse_when) (use state delete replace in simp_all)
  show ?thesis
    unfolding applyEntry_def hash_def [symmetric] name_def [symmetric]
  proof (intro wp_then wp_entryParent wp_readRegular)
    fix p'
    assume "parent_at fs en p'"
    then have [simp]: "p' = p" by (rule parent_unique [OF ok(3)])
    show "case read_at hash fs p' name (lm_MaxFileBytes (eg_limits eg)) of
        Inl e \<Rightarrow> ?E e s fs
      | Inr x \<Rightarrow> wp False (case x of (actual, _) \<Rightarrow>
          then_db (refuse_when (\<not> matches actual (en_Before en) True) ''file changed after preparation'') (\<lambda>_.
          if en_Action en = ''delete'' then quarantine_file eg en p' else replace_file eg op en i p')) ?Q ?E s fs"
      using state decided by (cases "read_at hash fs p name (lm_MaxFileBytes (eg_limits eg))") (auto split: prod.split)
  qed (use state ok(3) in auto)
qed

section \<open>The names of the engine's own files\<close>

lemma zeros: "list_all is_digit (replicate k (CHR ''0'')) \<and>
    foldl (\<lambda>n c. 10 * n + digit_value c) 0 (replicate k (CHR ''0'')) = 0"
  by (induction k) (simp_all add: digit_value_def is_digit_def)

lemma four_digits_value:
  "list_all is_digit (four_digits i) \<and> foldl (\<lambda>n c. 10 * n + digit_value c) 0 (four_digits i) = int i"
proof -
  have "list_all is_digit (intString (int i)) \<and>
      foldl (\<lambda>n c. 10 * n + digit_value c) 0 (intString (int i)) = int i"
    using intString_loop_value [of i] intString_loop_Nil [of i]
    by (auto simp: intString_def is_digit_def digit_value_def)
  then show ?thesis
    using zeros [of "4 - length (intString (int i))"] by (simp add: four_digits_def int_text_def Let_def)
qed

lemma takeWhile_digits:
  assumes "list_all is_digit s" "HasPrefix k ''.''"
  shows "takeWhile is_digit (s @ k) = s"
proof -
  from assms(2) obtain r where "k = CHR ''.'' # r"
    by (auto simp: HasPrefix_def prefix_def)
  with assms(1) show ?thesis by (simp add: takeWhile_append list_all_iff)
qed

lemma staging_name_inject:
  assumes "staging_name op i kind = staging_name op j kind'" "HasPrefix kind ''.''" "HasPrefix kind' ''.''"
  shows "i = j" "kind = kind'"
proof -
  from assms(1) have names: "four_digits i @ kind = four_digits j @ kind'" by (simp add: staging_name_def)
  then have "four_digits i = four_digits j"
    using takeWhile_digits [OF _ assms(2), of "four_digits i"] takeWhile_digits [OF _ assms(3), of "four_digits j"]
      four_digits_value by simp
  moreover from this have "int i = int j" using four_digits_value by metis
  ultimately show "i = j" "kind = kind'" using names by simp_all
qed

section \<open>All entries of a plan\<close>

text \<open>
  A plan on the files: every entry is prepared, its parent directory is there, and its copies are among
  the assets in directory \<open>a\<close>; the destinations are different names, and directories numbered from \<open>n\<close> on are
  newer than the operation.
\<close>

definition plan_sound :: "engine \<Rightarrow> operation \<Rightarrow> nat \<Rightarrow> nat \<Rightarrow> nat list \<Rightarrow> file_system \<Rightarrow> bool" where
  "plan_sound eg op n a ps fs \<longleftrightarrow>
     (let ens = mf_Entries (op_Plan op) in
      files_ok fs \<and> n \<le> length (fs_nodes fs) \<and> a < n \<and> a \<notin> set ps \<and> (\<forall>p \<in> set ps. p < n)
      \<and> length ps = length ens \<and> dir_at fs (JoinPath (eg_assets eg) (op_ID op)) = Inr a
      \<and> distinct (zip ps (map (\<lambda>en. Base (en_Path en)) ens))
      \<and> (\<forall>i < length ens. entry_ok op i (ens ! i) \<and> parent_at fs (ens ! i) (ps ! i)
          \<and> true_copy eg op fs (en_Backup (ens ! i)) (en_Before (ens ! i))
          \<and> true_copy eg op fs (en_Candidate (ens ! i)) (en_After (ens ! i))
          \<and> (fp_Exists (en_Before (ens ! i)) \<longrightarrow> stored eg op fs (en_Backup (ens ! i)) (en_Before (ens ! i)))))"

definition untried :: "(string \<Rightarrow> string) \<Rightarrow> operation \<Rightarrow> nat \<Rightarrow> file_entry \<Rightarrow> nat \<Rightarrow> file_system \<Rightarrow> bool" where
  "untried hash op i en p fs \<longleftrightarrow> shows_file hash fs p (Base (en_Path en)) (en_Before en) True
     \<and> (en_Action en = ''delete'' \<longrightarrow> lookup fs p (en_Quarantine en) = None)
     \<and> lookup fs p (staging_name op i ''.restore'') = None"

definition begun :: "(string \<Rightarrow> string) \<Rightarrow> nat \<Rightarrow> operation \<Rightarrow> nat \<Rightarrow> file_entry \<Rightarrow> nat \<Rightarrow> file_system \<Rightarrow> bool" where
  "begun hash n op i en p fs \<longleftrightarrow> interrupted hash n en p fs \<and> lookup fs p (staging_name op i ''.restore'') = None"

lemma untried_begun: "untried hash op i en p fs \<Longrightarrow> begun hash n op i en p fs"
  using shows_file_weaken by (auto simp: untried_def begun_def interrupted_def entry_state_def)

text \<open>The names an entry depends on, and the names its operations change.\<close>

definition own_names :: "operation \<Rightarrow> nat \<Rightarrow> file_entry \<Rightarrow> nat \<Rightarrow> file_system \<Rightarrow> (nat \<times> string) set" where
  "own_names op i en p fs =
     {(p, Base (en_Path en)), (p, staging_name op i ''.restore'')}
     \<union> (if en_Action en = ''delete'' then {(p, en_Quarantine en)} else {})
     \<union> {(q, ''original'') | q. en_Action en = ''delete'' \<and> lookup fs p (en_Quarantine en) = Some q}"

lemma untried_untouched:
  assumes "untouched X fs fs'" "X \<inter> own_names op i en p fs = {}" "is_dir fs p" "untried hash op i en p fs"
  shows "untried hash op i en p fs'"
proof -
  have "(p, Base (en_Path en)) \<notin> X" "(p, staging_name op i ''.restore'') \<notin> X"
    "en_Action en = ''delete'' \<Longrightarrow> (p, en_Quarantine en) \<notin> X"
    using assms(2) by (auto simp: own_names_def)
  then show ?thesis
    using assms(4) shows_untouched [OF assms(1) _ assms(3)] untouched_lookup [OF assms(1) _ assms(3)]
    by (auto simp: untried_def)
qed

lemma interrupted_untouched:
  assumes "untouched X fs fs'" "X \<inter> own_names op i en p fs = {}" "is_dir fs p" "interrupted hash n en p fs"
  shows "interrupted hash n en p fs'"
proof -
  have names: "(p, Base (en_Path en)) \<notin> X"
    using assms(2) by (auto simp: own_names_def)
  note same = shows_untouched [OF assms(1) _ assms(3)] untouched_lookup [OF assms(1) _ assms(3)]
  show ?thesis
  proof (cases "en_Action en = ''delete''")
    case False
    then show ?thesis using assms(4) names same by (simp add: interrupted_def entry_state_def)
  next
    case True
    then have quarantine: "(p, en_Quarantine en) \<notin> X"
      and original: "lookup fs p (en_Quarantine en) = Some q \<Longrightarrow> (q, ''original'') \<notin> X" for q
      using assms(2) by (auto simp: own_names_def)
    show ?thesis
    proof (cases "lookup fs p (en_Quarantine en)")
      case None
      then show ?thesis using True assms(4) names same quarantine by (simp add: interrupted_def entry_state_def)
    next
      case (Some q)
      then have q: "links fs q = 1" "is_dir fs q" "n \<le> q"
        using assms(4) True by (simp_all add: interrupted_def)
      then have "links fs' q = 1" "is_dir fs' q" "private_dir fs q \<longrightarrow> private_dir fs' q"
        "shows_file hash fs' q ''original'' (en_Before en) True = shows_file hash fs q ''original'' (en_Before en) True"
        using untouchedD(7) [OF assms(1) quarantine Some] untouched_is_dir [OF assms(1)] private_untouched [OF assms(1)]
          shows_untouched [OF assms(1) original [OF Some]] by simp_all
      then show ?thesis
        using True Some assms(4) names same quarantine q by (auto simp: interrupted_def entry_state_def)
    qed
  qed
qed

lemma begun_untouched:
  assumes "untouched X fs fs'" "X \<inter> own_names op i en p fs = {}" "is_dir fs p" "begun hash n op i en p fs"
  shows "begun hash n op i en p fs'"
proof -
  have "(p, staging_name op i ''.restore'') \<notin> X" using assms(2) by (auto simp: own_names_def)
  then show ?thesis
    using assms(4) interrupted_untouched [OF assms(1-3)] untouched_lookup [OF assms(1) _ assms(3)]
    by (simp add: begun_def)
qed

lemma artifact_untouched:
  assumes "untouched X fs fs'" "files_ok fs" "dir_at fs (JoinPath (eg_assets eg) (op_ID op)) = Inr a"
    and "\<And>m. (a, m) \<notin> X"
  shows "artifact_at eg op fs' name h c = artifact_at eg op fs name h c"
  unfolding artifact_at_def
  using untouched_dir_at [OF assms(1,3)] assms(3) untouched_read_at [OF assms(1,4) dir_at_dir [OF assms(3,2)]]
    untouchedD(1) [OF assms(1)] by simp

lemma plan_sound_untouched:
  assumes "plan_sound eg op n a ps fs" "untouched X fs fs'" "files_ok fs'" "\<And>m. (a, m) \<notin> X"
  shows "plan_sound eg op n a ps fs'"
proof -
  have ok: "files_ok fs" "dir_at fs (JoinPath (eg_assets eg) (op_ID op)) = Inr a"
    using assms(1) by (simp_all add: plan_sound_def Let_def)
  note same = artifact_untouched [OF assms(2) ok assms(4)]
  show ?thesis
    using assms(1,3) parent_untouched [OF assms(2) ok(1)] untouched_dir_at [OF assms(2) ok(2)] untouchedD(2) [OF assms(2)]
    unfolding plan_sound_def Let_def true_copy_def stored_def same by auto
qed

lemma plan_soundD:
  assumes "plan_sound eg op n a ps fs"
  shows "files_ok fs" "n \<le> length (fs_nodes fs)" "length ps = length (mf_Entries (op_Plan op))"
    and "i < length ps \<Longrightarrow> entry_ok op i (mf_Entries (op_Plan op) ! i)"
    and "i < length ps \<Longrightarrow> parent_at fs (mf_Entries (op_Plan op) ! i) (ps ! i)"
    and "i < length ps \<Longrightarrow> is_dir fs (ps ! i)"
    and "i < length ps \<Longrightarrow> ps ! i < n \<and> ps ! i \<noteq> a" "a < n"
    and "i < length ps \<Longrightarrow> true_copy eg op fs (en_Backup (mf_Entries (op_Plan op) ! i)) (en_Before (mf_Entries (op_Plan op) ! i))"
    and "i < length ps \<Longrightarrow> true_copy eg op fs (en_Candidate (mf_Entries (op_Plan op) ! i)) (en_After (mf_Entries (op_Plan op) ! i))"
    and "i < length ps \<Longrightarrow> fp_Exists (en_Before (mf_Entries (op_Plan op) ! i)) \<Longrightarrow>
      stored eg op fs (en_Backup (mf_Entries (op_Plan op) ! i)) (en_Before (mf_Entries (op_Plan op) ! i))"
  using assms parent_dir by (auto simp: plan_sound_def Let_def dest: nth_mem)

lemma plan_sound_names:
  assumes "plan_sound eg op n a ps fs" "i < length ps" "j < length ps" "i \<noteq> j"
  shows "(ps ! i, Base (en_Path (mf_Entries (op_Plan op) ! i))) \<noteq> (ps ! j, Base (en_Path (mf_Entries (op_Plan op) ! j)))"
proof -
  let ?z = "zip ps (map (\<lambda>en. Base (en_Path en)) (mf_Entries (op_Plan op)))"
  have z: "distinct ?z" and len: "length ps = length (mf_Entries (op_Plan op))"
    using assms(1) by (simp_all add: plan_sound_def Let_def)
  have "?z ! i \<noteq> ?z ! j"
    by (subst nth_eq_iff_index_eq [OF z]) (use assms(2-4) len in simp_all)
  then show ?thesis using assms(2,3) len by simp
qed

text \<open>What an operation on one entry may change, and what another entry depends on, have nothing in common.\<close>

definition changed_names :: "operation \<Rightarrow> nat \<Rightarrow> file_entry \<Rightarrow> nat \<Rightarrow> file_system \<Rightarrow> (nat \<times> string) set" where
  "changed_names op i en p fs = apply_area op i en p \<union> restore_area op i en p fs"

lemma quarantine_inject:
  assumes "interrupted hash n en p fs" "interrupted hash n en' p' fs"
    and "lookup fs p (en_Quarantine en) = Some q" "lookup fs p' (en_Quarantine en') = Some q"
    and "en_Action en = ''delete''"
  shows "(p', en_Quarantine en') = (p, en_Quarantine en)"
  using single_link [of fs q p "en_Quarantine en" p' "en_Quarantine en'"] assms
  by (simp add: interrupted_def)

lemma names_apart:
  fixes op
  defines "E \<equiv> (\<lambda>i. mf_Entries (op_Plan op) ! i)"
  assumes sound: "plan_sound eg op n a ps fs" and ij: "i < length ps" "j < length ps" "i \<noteq> j"
    and begun: "interrupted hash n (E i) (ps ! i) fs" "interrupted hash n (E j) (ps ! j) fs"
  shows "changed_names op i (E i) (ps ! i) fs \<inter> own_names op j (E j) (ps ! j) fs = {}"
    and "(a, m) \<notin> changed_names op i (E i) (ps ! i) fs"
proof -
  note dest = plan_sound_names [OF sound ij, folded E_def]
  have ok: "entry_ok op i (E i)" "entry_ok op j (E j)" and old: "ps ! i < n" "ps ! j < n"
    using plan_soundD(4,7) [OF sound] ij by (simp_all add: E_def)
  have own: "Base (en_Path (E i)) \<noteq> staging_name op k kind" "Base (en_Path (E j)) \<noteq> staging_name op k kind" for k kind
    using entry_name ok by blast+
  have staging: "staging_name op i kind \<noteq> staging_name op j kind'" if "HasPrefix kind ''.''" "HasPrefix kind' ''.''" for kind kind'
    using staging_name_inject(1) [OF _ that] ij(3) by blast
  have kinds: "HasPrefix ''.pending'' ''.''" "HasPrefix ''.restore'' ''.''" "HasPrefix ''.deleted'' ''.''" by code_simp+
  have quarantines: "en_Action (E i) = ''delete'' \<Longrightarrow> en_Quarantine (E i) = staging_name op i ''.deleted''"
    "en_Action (E j) = ''delete'' \<Longrightarrow> en_Quarantine (E j) = staging_name op j ''.deleted''"
    using ok by (auto simp: entry_ok_def)
  have new: "n \<le> q" if "en_Action (E k) = ''delete''" "lookup fs (ps ! k) (en_Quarantine (E k)) = Some q" "k \<in> {i, j}" for q k
    using begun that by (auto simp: interrupted_def)
  have two: "q \<noteq> q'" if "en_Action (E i) = ''delete''" "lookup fs (ps ! i) (en_Quarantine (E i)) = Some q"
    "en_Action (E j) = ''delete''" "lookup fs (ps ! j) (en_Quarantine (E j)) = Some q'" for q q'
    using quarantine_inject [OF begun, of q] that quarantines staging [OF kinds(3,3)] by auto
  define K where "K k m \<longleftrightarrow> m = Base (en_Path (E k)) \<or> (\<exists>kind. HasPrefix kind ''.'' \<and> m = staging_name op k kind)" for k m
  define D where "D k q \<longleftrightarrow> en_Action (E k) = ''delete'' \<and> lookup fs (ps ! k) (en_Quarantine (E k)) = Some q" for k q
  have changed: "(\<exists>k. x = (ps ! i, k) \<and> K i k) \<or> (\<exists>q. D i q \<and> x = (q, ''original''))"
    if "x \<in> changed_names op i (E i) (ps ! i) fs" for x
    using that kinds quarantines(1) unfolding changed_names_def apply_area_def restore_area_def K_def D_def
    by (auto split: if_splits)
  have needed: "(\<exists>k. x = (ps ! j, k) \<and> K j k) \<or> (\<exists>q. D j q \<and> x = (q, ''original''))"
    if "x \<in> own_names op j (E j) (ps ! j) fs" for x
    using that kinds quarantines(2) unfolding own_names_def K_def D_def by (auto split: if_splits)
  have keys: "(ps ! i, k) \<noteq> (ps ! j, k')" if "K i k" "K j k'" for k k'
    using that unfolding K_def
    by (elim disjE exE conjE) (use dest own own [symmetric] staging in \<open>simp_all\<close>)
  have dirs: "(q, ''original'') \<noteq> (ps ! j, k)" if "D i q" for q k
    using that new [of i q] old(2) by (auto simp: D_def)
  have dirs': "(ps ! i, k) \<noteq> (q, ''original'')" if "D j q" for q k
    using that new [of j q] old(1) by (auto simp: D_def)
  have others: "(q, ''original'') \<noteq> (q', ''original'')" if "D i q" "D j q'" for q q'
    using that two by (auto simp: D_def)
  show "changed_names op i (E i) (ps ! i) fs \<inter> own_names op j (E j) (ps ! j) fs = {}"
  proof (rule equals0I)
    fix x
    assume "x \<in> changed_names op i (E i) (ps ! i) fs \<inter> own_names op j (E j) (ps ! j) fs"
    then have "x \<in> changed_names op i (E i) (ps ! i) fs" "x \<in> own_names op j (E j) (ps ! j) fs" by simp_all
    from changed [OF this(1)] needed [OF this(2)] show False
    proof (elim disjE exE conjE)
      show False if "x = (ps ! i, k)" "K i k" "x = (ps ! j, k')" "K j k'" for k k'
        using keys [OF that(2,4)] that(1,3) by simp
      show False if "D i q" "x = (q, ''original'')" "x = (ps ! j, k)" for q k
        using dirs [OF that(1), of k] that(2,3) by simp
      show False if "x = (ps ! i, k)" "D j q" "x = (q, ''original'')" for q k
        using dirs' [OF that(2), of k] that(1,3) by simp
      show False if "D i q" "x = (q, ''original'')" "D j q'" "x = (q', ''original'')" for q q'
        using others [OF that(1,3)] that(2,4) by simp
    qed
  qed
  show "(a, m) \<notin> changed_names op i (E i) (ps ! i) fs"
    using plan_soundD(7) [OF sound, of i] plan_soundD(8) [OF sound] ij(1) new [of i]
    by (auto simp: changed_names_def apply_area_def restore_area_def)
qed

section \<open>An interrupted application is undone by a recovery\<close>

definition entry_at :: "operation \<Rightarrow> nat \<Rightarrow> file_entry" where
  "entry_at op i = mf_Entries (op_Plan op) ! i"

text \<open>An operation on one entry keeps what is known of the plan and of the other entries.\<close>

lemma step_keeps:
  assumes sound: "plan_sound eg op n a ps fs" and i: "i < length ps"
    and all: "\<And>j. j < length ps \<Longrightarrow> interrupted hash n (entry_at op j) (ps ! j) fs"
    and step: "untouched X fs fs'" "X \<subseteq> changed_names op i (entry_at op i) (ps ! i) fs" "files_ok fs'"
  shows "plan_sound eg op n a ps fs'"
    and "\<And>j. j < length ps \<Longrightarrow> j \<noteq> i \<Longrightarrow> interrupted hash n (entry_at op j) (ps ! j) fs'"
    and "\<And>j. j < length ps \<Longrightarrow> j \<noteq> i \<Longrightarrow> begun hash n op j (entry_at op j) (ps ! j) fs
           \<Longrightarrow> begun hash n op j (entry_at op j) (ps ! j) fs'"
    and "\<And>j. j < length ps \<Longrightarrow> j \<noteq> i \<Longrightarrow> untried hash op j (entry_at op j) (ps ! j) fs
           \<Longrightarrow> untried hash op j (entry_at op j) (ps ! j) fs'"
    and "\<And>j. j < length ps \<Longrightarrow> j \<noteq> i \<Longrightarrow>
           shows_file hash fs' (ps ! j) (Base (en_Path (entry_at op j))) want identity =
           shows_file hash fs (ps ! j) (Base (en_Path (entry_at op j))) want identity"
proof -
  have "(a, m) \<notin> changed_names op i (entry_at op i) (ps ! i) fs" for m
    using plan_soundD(7) [OF sound, of i] plan_soundD(8) [OF sound] all [OF i] i
    by (auto simp: changed_names_def apply_area_def restore_area_def interrupted_def)
  then show "plan_sound eg op n a ps fs'"
    using plan_sound_untouched [OF sound step(1,3)] step(2) by blast
  fix j
  assume j: "j < length ps" "j \<noteq> i"
  have apart: "X \<inter> own_names op j (entry_at op j) (ps ! j) fs = {}"
    using names_apart(1) [OF sound i j(1)] j(2) all [OF i] all [OF j(1)] step(2) by (auto simp: entry_at_def)
  have dir: "is_dir fs (ps ! j)" by (rule plan_soundD(6) [OF sound j(1)])
  show "interrupted hash n (entry_at op j) (ps ! j) fs'"
    by (rule interrupted_untouched [OF step(1) apart dir all [OF j(1)]])
  show "begun hash n op j (entry_at op j) (ps ! j) fs'" if "begun hash n op j (entry_at op j) (ps ! j) fs"
    by (rule begun_untouched [OF step(1) apart dir that])
  show "untried hash op j (entry_at op j) (ps ! j) fs'" if "untried hash op j (entry_at op j) (ps ! j) fs"
    by (rule untried_untouched [OF step(1) apart dir that])
  show "shows_file hash fs' (ps ! j) (Base (en_Path (entry_at op j))) want identity =
      shows_file hash fs (ps ! j) (Base (en_Path (entry_at op j))) want identity"
    by (rule shows_untouched [OF step(1) _ dir]) (use apart in \<open>auto simp: own_names_def\<close>)
qed

text \<open>Between the entries: those before \<open>i\<close> are applied, the others untried.\<close>

definition applied_upto :: "(string \<Rightarrow> string) \<Rightarrow> nat \<Rightarrow> operation \<Rightarrow> nat list \<Rightarrow> nat \<Rightarrow> file_system \<Rightarrow> bool" where
  "applied_upto hash n op ps i fs \<longleftrightarrow>
     (\<forall>j < length ps. begun hash n op j (entry_at op j) (ps ! j) fs
        \<and> (j < i \<longrightarrow> shows_file hash fs (ps ! j) (Base (en_Path (entry_at op j))) (en_After (entry_at op j)) False)
        \<and> (i \<le> j \<longrightarrow> untried hash op j (entry_at op j) (ps ! j) fs))"

definition all_begun :: "engine \<Rightarrow> operation \<Rightarrow> nat \<Rightarrow> nat \<Rightarrow> nat list \<Rightarrow> file_system \<Rightarrow> bool" where
  "all_begun eg op n a ps fs \<longleftrightarrow> plan_sound eg op n a ps fs
     \<and> (\<forall>j < length ps. begun (cd_hash (eg_codec eg)) n op j (entry_at op j) (ps ! j) fs)"

lemma wp_apply_step:
  fixes eg
  defines "hash \<equiv> cd_hash (eg_codec eg)"
  assumes sound: "plan_sound eg op n a ps fs" and i: "i < length ps" and upto: "applied_upto hash n op ps i fs"
  shows "wp False (applyEntry eg op (entry_at op i) i)
    (\<lambda>_ s' fs'. plan_sound eg op n a ps fs' \<and> applied_upto hash n op ps (Suc i) fs')
    (\<lambda>_ s' fs'. all_begun eg op n a ps fs') s fs"
proof -
  let ?en = "entry_at op i" and ?p = "ps ! i"
  have untried: "untried hash op i ?en ?p fs" and all: "\<And>j. j < length ps \<Longrightarrow> begun hash n op j (entry_at op j) (ps ! j) fs"
    using upto i by (simp_all add: applied_upto_def)
  have name: "staging_name op i ''.restore'' \<noteq> Base (en_Path ?en)" "staging_name op i ''.restore'' \<noteq> staging_name op i ''.pending''"
    "en_Action ?en = ''delete'' \<Longrightarrow> en_Quarantine ?en \<noteq> staging_name op i ''.restore''"
    using entry_name [OF plan_soundD(4) [OF sound i], of i "''.restore''"] plan_soundD(4) [OF sound i]
    by (auto simp: entry_at_def staging_name_def entry_ok_def)
  have one: "wp False (applyEntry eg op ?en i)
      (\<lambda>_ s' fs'. apply_keeps hash n op i ?en ?p fs fs' \<and> shows_file hash fs' ?p (Base (en_Path ?en)) (en_After ?en) False)
      (\<lambda>_ s' fs'. apply_keeps hash n op i ?en ?p fs fs') s fs"
    unfolding hash_def
    by (rule wp_applyEntry [OF plan_soundD(1) [OF sound] _ _ plan_soundD(2) [OF sound]])
      (use plan_soundD(4,5,10) [OF sound i] untried in \<open>simp_all add: entry_at_def untried_def hash_def\<close>)
  have step: "plan_sound eg op n a ps fs'" "begun hash n op i ?en ?p fs'"
    "\<And>j. j < length ps \<Longrightarrow> j \<noteq> i \<Longrightarrow> begun hash n op j (entry_at op j) (ps ! j) fs'"
    "\<And>j. j < length ps \<Longrightarrow> j \<noteq> i \<Longrightarrow> untried hash op j (entry_at op j) (ps ! j) fs
      \<Longrightarrow> untried hash op j (entry_at op j) (ps ! j) fs'"
    "\<And>j. j < length ps \<Longrightarrow> j \<noteq> i \<Longrightarrow> shows_file hash fs' (ps ! j) (Base (en_Path (entry_at op j))) (en_After (entry_at op j)) False =
      shows_file hash fs (ps ! j) (Base (en_Path (entry_at op j))) (en_After (entry_at op j)) False"
    if kept: "apply_keeps hash n op i ?en ?p fs fs'" for fs'
  proof -
    have frame: "untouched (apply_area op i ?en ?p) fs fs'" "files_ok fs'"
      using kept by (simp_all add: apply_keeps_def)
    note others = step_keeps [where hash = hash, OF sound i _ frame(1) _ frame(2)]
    have now: "\<And>j. j < length ps \<Longrightarrow> interrupted hash n (entry_at op j) (ps ! j) fs"
      using all by (simp add: begun_def)
    show "plan_sound eg op n a ps fs'" by (rule others(1)) (simp_all add: now changed_names_def)
    have "(?p, staging_name op i ''.restore'') \<notin> apply_area op i ?en ?p"
      using name by (auto simp: apply_area_def split: if_splits)
    then have "lookup fs' ?p (staging_name op i ''.restore'') = None"
      using untouched_lookup [OF frame(1) _ plan_soundD(6) [OF sound i]] untried by (simp add: untried_def)
    then show "begun hash n op i ?en ?p fs'" using kept by (simp add: begun_def apply_keeps_def)
    show "begun hash n op j (entry_at op j) (ps ! j) fs'" if "j < length ps" "j \<noteq> i" for j
      using others(3) now all that by (simp add: changed_names_def)
    show "untried hash op j (entry_at op j) (ps ! j) fs'"
      if "j < length ps" "j \<noteq> i" "untried hash op j (entry_at op j) (ps ! j) fs" for j
      using others(4) now that by (simp add: changed_names_def)
    show "shows_file hash fs' (ps ! j) (Base (en_Path (entry_at op j))) (en_After (entry_at op j)) False =
      shows_file hash fs (ps ! j) (Base (en_Path (entry_at op j))) (en_After (entry_at op j)) False"
      if "j < length ps" "j \<noteq> i" for j
      using others(5) now that by (simp add: changed_names_def)
  qed
  show ?thesis
  proof (rule wp_mono [OF one])
    fix s' fs'
    assume "apply_keeps hash n op i ?en ?p fs fs' \<and> shows_file hash fs' ?p (Base (en_Path ?en)) (en_After ?en) False"
    then have kept: "apply_keeps hash n op i ?en ?p fs fs'" "shows_file hash fs' ?p (Base (en_Path ?en)) (en_After ?en) False"
      by simp_all
    have "begun hash n op j (entry_at op j) (ps ! j) fs'
        \<and> (j < Suc i \<longrightarrow> shows_file hash fs' (ps ! j) (Base (en_Path (entry_at op j))) (en_After (entry_at op j)) False)
        \<and> (Suc i \<le> j \<longrightarrow> untried hash op j (entry_at op j) (ps ! j) fs')" if "j < length ps" for j
      using step(2-5) [OF kept(1)] kept(2) upto that by (cases "j = i") (auto simp: applied_upto_def)
    then show "plan_sound eg op n a ps fs' \<and> applied_upto hash n op ps (Suc i) fs'"
      using step(1) [OF kept(1)] by (simp add: applied_upto_def)
  next
    fix e s' fs'
    assume kept: "apply_keeps hash n op i ?en ?p fs fs'"
    have "begun hash n op j (entry_at op j) (ps ! j) fs'" if "j < length ps" for j
      using step(2,3) [OF kept] that by (cases "j = i") simp_all
    then show "all_begun eg op n a ps fs'" using step(1) [OF kept] by (simp add: all_begun_def hash_def)
  qed
qed

lemma wp_checkpoint:
  assumes "\<And>e. eg_fault eg \<noteq> None \<Longrightarrow> E e s fs" "Q () s fs"
  shows "wp b (checkpoint eg stage i) Q E s fs"
  using assms unfolding checkpoint_def by (auto intro: wp_return wp_fail split: option.splits)

lemma wp_apply_entries:
  fixes eg
  defines "hash \<equiv> cd_hash (eg_codec eg)"
  assumes "plan_sound eg op n a ps fs" "applied_upto hash n op ps i fs" "i \<le> length ps"
  shows "wp False (apply_entries eg op i (drop i (mf_Entries (op_Plan op))))
    (\<lambda>_ s' fs'. plan_sound eg op n a ps fs' \<and> applied_upto hash n op ps (length ps) fs')
    (\<lambda>_ s' fs'. all_begun eg op n a ps fs') s fs"
  using assms(2-4)
proof (induction "length ps - i" arbitrary: i s fs)
  case 0
  then show ?case using plan_soundD(3) [OF 0(2)] by (auto intro: wp_return)
next
  case (Suc k)
  then have i: "i < length ps" by simp
  have ens: "drop i (mf_Entries (op_Plan op)) = entry_at op i # drop (Suc i) (mf_Entries (op_Plan op))"
    using Cons_nth_drop_Suc [of i "mf_Entries (op_Plan op)"] plan_soundD(3) [OF Suc.prems(1)] i by (simp add: entry_at_def)
  have begun: "all_begun eg op n a ps fs'"
    if "plan_sound eg op n a ps fs'" "applied_upto hash n op ps j fs'" for fs' j
    using that by (simp add: all_begun_def applied_upto_def hash_def)
  have rest: "wp False (apply_entries eg op (Suc i) (drop (Suc i) (mf_Entries (op_Plan op))))
      (\<lambda>_ s' fs'. plan_sound eg op n a ps fs' \<and> applied_upto hash n op ps (length ps) fs')
      (\<lambda>_ s' fs'. all_begun eg op n a ps fs') s' fs'"
    if "plan_sound eg op n a ps fs'" "applied_upto hash n op ps (Suc i) fs'" for s' fs'
    by (rule Suc.hyps(1)) (use Suc.hyps(2) i that in simp_all)
  let ?tail = "then_db (lift_errors Stopped (checkpoint eg ''applied'' (int i)))
      (\<lambda>_. apply_entries eg op (i + 1) (drop (Suc i) (mf_Entries (op_Plan op))))"
  have tail: "wp False ?tail
      (\<lambda>_ s' fs'. plan_sound eg op n a ps fs' \<and> applied_upto hash n op ps (length ps) fs')
      (\<lambda>_ s' fs'. all_begun eg op n a ps fs') s' fs'"
    if "plan_sound eg op n a ps fs'" "applied_upto hash n op ps (Suc i) fs'" for s' fs'
    using rest [OF that] begun [OF that] by (intro wp_then wp_lift_errors wp_checkpoint) simp_all
  have entry: "wp False (then_db ctx_Err (\<lambda>_. applyEntry eg op (entry_at op i) i))
      (\<lambda>_ s' fs'. plan_sound eg op n a ps fs' \<and> applied_upto hash n op ps (Suc i) fs')
      (\<lambda>_ s' fs'. all_begun eg op n a ps fs') s fs"
    using wp_apply_step [OF Suc.prems(1) i] Suc.prems(2) begun [OF Suc.prems(1,2)]
    by (intro wp_then wp_ctx_Err) (simp_all add: hash_def)
  show ?case
    unfolding ens apply_entries.simps
    by (rule wp_then, rule wp_lift_errors, rule wp_mono [OF entry]) (use tail in simp_all)
qed

text \<open>While restoring, from the last entry to the first: those from \<open>k\<close> on show their originals.\<close>

definition restored_from :: "(string \<Rightarrow> string) \<Rightarrow> nat \<Rightarrow> operation \<Rightarrow> nat list \<Rightarrow> nat \<Rightarrow> file_system \<Rightarrow> bool" where
  "restored_from hash n op ps k fs \<longleftrightarrow>
     (\<forall>j < length ps. interrupted hash n (entry_at op j) (ps ! j) fs
        \<and> (j < k \<longrightarrow> begun hash n op j (entry_at op j) (ps ! j) fs)
        \<and> (k \<le> j \<longrightarrow> shows_file hash fs (ps ! j) (Base (en_Path (entry_at op j))) (en_Before (entry_at op j)) False))"

lemma wp_restore_step:
  fixes eg
  defines "hash \<equiv> cd_hash (eg_codec eg)"
  assumes sound: "plan_sound eg op n a ps fs" and k: "k < length ps" and from_k: "restored_from hash n op ps (Suc k) fs"
  shows "wp True (restoreEntry eg op (entry_at op k) k)
    (\<lambda>_ s' fs'. plan_sound eg op n a ps fs' \<and> restored_from hash n op ps k fs') (\<lambda>_ _ _. False) s fs"
proof -
  let ?en = "entry_at op k" and ?p = "ps ! k"
  have now: "\<And>j. j < length ps \<Longrightarrow> interrupted hash n (entry_at op j) (ps ! j) fs"
    and mine: "begun hash n op k ?en ?p fs"
    using from_k k by (simp_all add: restored_from_def)
  have ok: "entry_ok op k ?en" using plan_soundD(4) [OF sound k] by (simp add: entry_at_def)
  have ready: "restorable eg op k ?en ?p fs"
    using mine plan_soundD(11) [OF sound k] by (simp add: restorable_def begun_def interrupted_def entry_at_def hash_def)
  have one: "wp True (restoreEntry eg op ?en k)
      (\<lambda>_ s' fs'. restore_keeps hash op k ?en ?p fs fs' \<and> shows_file hash fs' ?p (Base (en_Path ?en)) (en_Before ?en) False)
      (\<lambda>_ s' fs'. \<not> True \<and> restore_keeps hash op k ?en ?p fs fs') s fs"
    unfolding hash_def
    by (rule wp_restoreEntry [OF plan_soundD(1) [OF sound] ok _ _ ready])
      (use plan_soundD(5,9) [OF sound k] in \<open>simp_all add: entry_at_def\<close>)
  have "plan_sound eg op n a ps fs' \<and> restored_from hash n op ps k fs'"
    if kept: "restore_keeps hash op k ?en ?p fs fs'"
      and shown: "shows_file hash fs' ?p (Base (en_Path ?en)) (en_Before ?en) False" for fs'
  proof
    have frame: "untouched (restore_area op k ?en ?p fs) fs fs'" "files_ok fs'"
      using kept by (simp_all add: restore_keeps_def)
    note others = step_keeps [where hash = hash, OF sound k now frame(1) _ frame(2)]
    show "plan_sound eg op n a ps fs'" by (rule others(1)) (simp_all add: changed_names_def)
    have "interrupted hash n ?en ?p fs'"
    proof (cases "en_Action ?en = ''delete''")
      case True
      then have "en_Quarantine ?en = staging_name op k ''.deleted''" using ok by (simp add: entry_ok_def)
      then have quarantine: "(?p, en_Quarantine ?en) \<notin> restore_area op k ?en ?p fs"
        using entry_name [OF ok, of k "''.deleted''"] plan_soundD(7) [OF sound k] now [OF k] True
        by (auto simp: restore_area_def staging_name_def interrupted_def)
      then have "lookup fs' ?p (en_Quarantine ?en) = lookup fs ?p (en_Quarantine ?en)"
        using untouched_lookup [OF frame(1) _ plan_soundD(6) [OF sound k]] by simp
      then show ?thesis
        using now [OF k] shown True untouchedD(7) [OF frame(1) quarantine] untouched_is_dir [OF frame(1)]
        by (auto simp: interrupted_def entry_state_def split: option.splits)
    qed (simp add: interrupted_def entry_state_def shown)
    then have "interrupted hash n (entry_at op j) (ps ! j) fs'
        \<and> (j < k \<longrightarrow> begun hash n op j (entry_at op j) (ps ! j) fs')
        \<and> (k \<le> j \<longrightarrow> shows_file hash fs' (ps ! j) (Base (en_Path (entry_at op j))) (en_Before (entry_at op j)) False)"
      if "j < length ps" for j
      using others(2,3,5) [of j] shown that from_k
      by (cases "j = k") (auto simp: changed_names_def restored_from_def)
    then show "restored_from hash n op ps k fs'" by (simp add: restored_from_def)
  qed
  then show ?thesis by (intro wp_mono [OF one]) simp_all
qed

lemma wp_restore_entries:
  fixes eg
  defines "hash \<equiv> cd_hash (eg_codec eg)"
  assumes "eg_fault eg = None" "plan_sound eg op n a ps fs" "restored_from hash n op ps k fs" "k \<le> length ps"
  shows "wp True (restore_entries eg op (rev (enumerate 0 (take k (mf_Entries (op_Plan op))))))
    (\<lambda>es s' fs'. es = [] \<and> plan_sound eg op n a ps fs' \<and> restored_from hash n op ps 0 fs') (\<lambda>_ _ _. False) s fs"
  using assms(3-5)
proof (induction k arbitrary: s fs)
  case 0
  then show ?case by (simp add: wp_return)
next
  case (Suc k)
  then have k: "k < length ps" "k < length (mf_Entries (op_Plan op))" using plan_soundD(3) [OF Suc.prems(1)] by simp_all
  have list: "rev (enumerate 0 (take (Suc k) (mf_Entries (op_Plan op)))) =
      (k, entry_at op k) # rev (enumerate 0 (take k (mf_Entries (op_Plan op))))"
    using k(2) by (simp add: take_Suc_conv_app_nth enumerate_append_eq entry_at_def)
  have rest: "wp True (restore_entries eg op (rev (enumerate 0 (take k (mf_Entries (op_Plan op))))))
      (\<lambda>es s' fs'. es = [] \<and> plan_sound eg op n a ps fs' \<and> restored_from hash n op ps 0 fs') (\<lambda>_ _ _. False) s' fs'"
    if "plan_sound eg op n a ps fs' \<and> restored_from hash n op ps k fs'" for s' fs'
    using Suc.IH that k(1) by simp
  have one: "wp True (restoreEntry eg op (entry_at op k) k)
      (\<lambda>_ s' fs'. plan_sound eg op n a ps fs' \<and> restored_from hash n op ps k fs') (\<lambda>_ _ _. False) s fs"
    using wp_restore_step [OF Suc.prems(1) k(1)] Suc.prems(2) by (simp add: hash_def)
  show ?case
    unfolding list restore_entries.simps
  proof (intro wp_then wp_attempt wp_ctx_Err, goal_cases)
    case 2
    have "wp True (checkpoint eg ''restored'' (int k)) (\<lambda>_. wp True (then_db
          (restore_entries eg op (rev (enumerate 0 (take k (mf_Entries (op_Plan op))))))
          (\<lambda>es. return_db (case Inr () of Inl e \<Rightarrow> e # es | Inr _ \<Rightarrow> es)))
        (\<lambda>es s' fs'. es = [] \<and> plan_sound eg op n a ps fs' \<and> restored_from hash n op ps 0 fs') (\<lambda>_ _ _. False))
        (\<lambda>_ _ _. False) s' fs'"
      if "plan_sound eg op n a ps fs' \<and> restored_from hash n op ps k fs'" for s' fs'
      by (rule wp_checkpoint, simp add: assms(2), rule wp_then, rule wp_mono [OF rest [OF that]])
        (simp_all add: wp_return)
    then show ?case
      by (simp, intro wp_then wp_attempt wp_mono [OF one]) simp_all
  qed simp
qed

end
