(* ===== verification/Recovery_Store.thy ===== *)
theory Recovery_Store
  imports Recovery_Rollback
begin

text \<open>
  What the engine's operations do to the journal: which row a plan was read from, which operations leave the
  rows as they are, and what a save has written.  The engine holds the lock of its asset directory while it
  works, so no other process writes the rows of the journal meanwhile; other tables may change.
\<close>

lemma wp_conj:
  assumes "wp b f Q E s fs" "wp b f Q' E' s fs"
  shows "wp b f (\<lambda>x s fs. Q x s fs \<and> Q' x s fs) (\<lambda>e s fs. E e s fs \<and> E' e s fs) s fs"
  unfolding wp_def
proof (intro allI impI)
  fix m
  assume "settled b m \<and> mc_store m = s \<and> mc_files m = fs"
  then have m: "settled b m" "mc_store m = s" "mc_files m = fs" by simp_all
  show "case f m of (r, m') \<Rightarrow> settled b m' \<and>
      (case r of Inr x \<Rightarrow> Q x (mc_store m') (mc_files m') \<and> Q' x (mc_store m') (mc_files m')
       | Inl e \<Rightarrow> E e (mc_store m') (mc_files m') \<and> E' e (mc_store m') (mc_files m'))"
    using wp_run [OF assms(1) [folded m(2,3)] m(1)] wp_run [OF assms(2) [folded m(2,3)] m(1)]
    by (auto split: prod.splits sum.splits)
qed

section \<open>The rows of the journal\<close>

definition journal_alone :: "store \<Rightarrow> bool" where
  "journal_alone st \<longleftrightarrow> (\<forall>n d. db_operations (st_others st n d) = db_operations d)"

text \<open>The id is the primary key.\<close>

definition keyed :: "store \<Rightarrow> bool" where
  "keyed st \<longleftrightarrow> (\<forall>k r. map_of (db_operations (st_db st)) k = Some r \<longrightarrow> ro_ID r = k)"

definition journal_status :: "store \<Rightarrow> string \<Rightarrow> string option" where
  "journal_status st k = map_option ro_Status (map_of (db_operations (st_db st)) k)"

text \<open>The operation is the one stored under \<open>k\<close>: its record is the row and its plan is the row's manifest.\<close>

definition journaled :: "engine \<Rightarrow> string \<Rightarrow> store \<Rightarrow> operation \<Rightarrow> bool" where
  "journaled eg k st op \<longleftrightarrow> map_of (db_operations (st_db st)) k = Some (op_Record op)
     \<and> cd_decode (eg_codec eg) (ro_Manifest (op_Record op)) = Some (op_Plan op)"

lemma journaled_status: "journaled eg k st op \<Longrightarrow> journal_status st k = Some (op_Status op)"
  by (simp add: journaled_def journal_status_def)

definition same_journal :: "store \<Rightarrow> store \<Rightarrow> bool" where
  "same_journal st st' \<longleftrightarrow>
     (journal_alone st \<longrightarrow> journal_alone st' \<and> db_operations (st_db st') = db_operations (st_db st))"

lemma same_journal_refl [simp]: "same_journal st st"
  by (simp add: same_journal_def)

lemma same_journal_trans: "same_journal st st' \<Longrightarrow> same_journal st' st'' \<Longrightarrow> same_journal st st''"
  by (simp add: same_journal_def)

lemma journaled_same: "same_journal st st' \<Longrightarrow> journal_alone st \<Longrightarrow> journaled eg k st' op = journaled eg k st op"
  by (simp add: same_journal_def journaled_def)

lemma statement_same_journal:
  assumes "statement f st = (r, st')" "\<And>d. db_operations (snd (f d)) = db_operations d"
  shows "same_journal st st'" "r = Inr x \<Longrightarrow> journal_alone st \<Longrightarrow>
    \<exists>d. db_operations d = db_operations (st_db st) \<and> x = fst (f d)"
proof -
  show "same_journal st st'"
    using assms(1) assms(2) [of "st_others st (st_count st) (st_db st)"]
    by (auto simp: statement_def Let_def same_journal_def journal_alone_def split: exec_answer.splits prod.splits)
  show "\<exists>d. db_operations d = db_operations (st_db st) \<and> x = fst (f d)" if "r = Inr x" "journal_alone st"
    using assms(1) that
    by (auto simp: statement_def Let_def journal_alone_def split: exec_answer.splits prod.splits
        intro: exI [of _ "st_others st (st_count st) (st_db st)"])
qed

lemma GetRecoveryOperation_journal:
  assumes "GetRecoveryOperation k st = (r, st')"
  shows "same_journal st st'" "r = Inr op \<Longrightarrow> journal_alone st \<Longrightarrow> map_of (db_operations (st_db st)) k = Some op"
proof -
  let ?f = "\<lambda>d. (map_of (db_operations d) k, d)"
  obtain r1 st1 where run: "statement ?f st = (r1, st1)" by fastforce
  have same: "same_journal st st1" using statement_same_journal(1) [OF run] by simp
  show "same_journal st st'"
    using assms same
    by (auto simp: GetRecoveryOperation_def when_available_def then_db_def run fail_db_def return_db_def
        split: if_splits sum.splits option.splits)
  show "map_of (db_operations (st_db st)) k = Some op" if "r = Inr op" "journal_alone st"
  proof -
    have "r1 = Inr (Some op)"
      using assms that(1)
      by (auto simp: GetRecoveryOperation_def when_available_def then_db_def run fail_db_def return_db_def
          split: if_splits sum.splits option.splits)
    then show ?thesis
      using statement_same_journal(2) [OF run, of "Some op"] that(2) by auto
  qed
qed

lemma reads_journal:
  "when_available (statement (\<lambda>d. (g d, d))) st = (r, st') \<Longrightarrow> same_journal st st'"
  using statement_same_journal(1) [of "\<lambda>d. (g d, d)" st r st'] by (simp add: when_available_def split: if_splits)

lemma clock_now_journal: "clock_now st = (r, st') \<Longrightarrow> same_journal st st'"
  by (auto simp: clock_now_def same_journal_def journal_alone_def)

text \<open>What a save writes: on success the row of the operation has the status, whatever others did; the rows
  of the other operations, and after an error all rows, are as they were.\<close>

lemma write_operation_status:
  assumes "write_operation op now d = Inr (u, d')"
  shows "map_option ro_Status (map_of (db_operations d') (ro_ID op)) = Some (ro_Status op)"
proof -
  obtain d1 where d1: "write_row op now d = Inr d1" "db_operations d' = db_operations d1"
    using assms by (rule write_operation_row)
  from d1(1) show ?thesis by (rule write_row_cases) (simp_all add: d1(2) update_conv)
qed

lemma SaveRecoveryOperation_journal:
  assumes "SaveRecoveryOperation valid op st = (r, st')"
  shows "r = Inl e \<Longrightarrow> same_journal st st'"
    and "r = Inr op' \<Longrightarrow> journal_status st' (ro_ID op) = Some (ro_Status op) \<and> ro_ID op' = ro_ID op
      \<and> (journal_alone st \<longrightarrow> journal_alone st'
           \<and> (\<forall>j. j \<noteq> ro_ID op \<longrightarrow> map_of (db_operations (st_db st')) j = map_of (db_operations (st_db st)) j))"
proof -
  let ?now = "st_clock st (st_ticks st)"
  let ?st = "st\<lparr>st_ticks := Suc (st_ticks st)\<rparr>"
  show "same_journal st st'" if "r = Inl e"
  proof -
    obtain r1 st1 where run: "transaction (write_operation op ?now) ?st = (r1, st1)" by fastforce
    have "same_journal st st1" if "r1 = Inl e1" for e1
      using transaction_Inl [OF run [unfolded that]] by (auto simp: same_journal_def journal_alone_def)
    then show ?thesis
      using assms \<open>r = Inl e\<close>
      by (auto simp: SaveRecoveryOperation_def when_available_def clock_now_def then_db_def run fail_db_def return_db_def
          split: if_splits sum.splits)
  qed
  assume "r = Inr op'"
  with assms have "SaveRecoveryOperation valid op st = (Inr op', st')" by simp
  then obtain now where w: "write_operation op now (st_others st (st_count st) (st_db st)) = Inr ((), st_db st')"
    "st_others st' = st_others st" "op' = op\<lparr>ro_Revision := ro_Revision op + 1, ro_UpdatedAt := now\<rparr>"
    by (rule SaveRecoveryOperation_Inr)
  show "journal_status st' (ro_ID op) = Some (ro_Status op) \<and> ro_ID op' = ro_ID op
      \<and> (journal_alone st \<longrightarrow> journal_alone st'
           \<and> (\<forall>j. j \<noteq> ro_ID op \<longrightarrow> map_of (db_operations (st_db st')) j = map_of (db_operations (st_db st)) j))"
    using write_operation_status [OF w(1)] journal.keeps_others [OF w(1)] w(2,3)
    by (simp add: journal_status_def journal_alone_def)
qed

section \<open>Rules\<close>

lemma wp_reading_store:
  assumes "\<And>r st'. f s = (r, st') \<Longrightarrow> same_journal s st'"
    and "\<And>e s'. same_journal s s' \<Longrightarrow> E e s' fs" "\<And>x s'. same_journal s s' \<Longrightarrow> Q x s' fs"
  shows "wp b (on_store f) Q E s fs"
  using assms by (intro wp_on_store) (auto split: prod.splits sum.splits)

lemma wp_clock_now:
  assumes "\<And>now s'. same_journal s s' \<Longrightarrow> Q now s' fs"
  shows "wp b (on_store clock_now) Q E s fs"
  using assms clock_now_journal [of s] by (intro wp_on_store) (auto simp: clock_now_def)

lemma wp_noArmedSSH:
  assumes "\<And>e s'. same_journal s s' \<Longrightarrow> E e s' fs" "\<And>s'. same_journal s s' \<Longrightarrow> Q () s' fs"
  shows "wp b (noArmedSSH eg) Q E s fs"
  unfolding noArmedSSH_def RecoveryGuardArmed_def
  by (intro wp_then wp_reading_store wp_refuse_when assms) (simp_all add: reads_journal)

lemma wp_Inspect:
  assumes "\<And>e s'. same_journal s s' \<Longrightarrow> E e s' fs"
    and "\<And>op s'. planDigest (eg_codec eg) (op_Target op) (op_Policy op) (op_Plan op) = op_Digest op
      \<Longrightarrow> op_Target op = eg_target eg \<Longrightarrow> same_journal s s' \<Longrightarrow> (journal_alone s \<Longrightarrow> journaled eg k s op) \<Longrightarrow> Q op s' fs"
  shows "wp b (Inspect eg k) Q E s fs"
proof -
  have found: "wp b (case cd_decode (eg_codec eg) (ro_Manifest r) of
        None \<Rightarrow> fail_db (Problem ''decode manifest'')
      | Some plan \<Rightarrow>
          then_db (refuse_when (\<not> hex_id k \<or> mf_Version plan \<noteq> 1
                      \<or> planDigest (eg_codec eg) (ro_Target r) (ro_Policy r) plan \<noteq> ro_Digest r)
                    ''invalid or altered recovery manifest'') (\<lambda>_.
          then_db (refuse_when (ro_Target r \<noteq> eg_target eg) ''operation belongs to a different machine or principal'') (\<lambda>_.
          then_db (on_store (RecoveryChecks k)) (\<lambda>checks.
          return_db \<lparr>op_Record = r, op_Plan = plan, op_Checks = checks\<rparr>)))) Q E s1 fs"
    if s1: "same_journal s s1" "journal_alone s \<Longrightarrow> map_of (db_operations (st_db s)) k = Some r" for r s1
  proof (cases "cd_decode (eg_codec eg) (ro_Manifest r)")
    case None
    then show ?thesis using assms(1) s1(1) by (simp add: wp_fail)
  next
    case (Some plan)
    have "wp b (on_store (RecoveryChecks k)) (\<lambda>checks.
        wp b (return_db \<lparr>op_Record = r, op_Plan = plan, op_Checks = checks\<rparr>) Q E) E s1 fs"
      if "planDigest (eg_codec eg) (ro_Target r) (ro_Policy r) plan = ro_Digest r" "ro_Target r = eg_target eg"
    proof (rule wp_reading_store)
      show "same_journal s1 st'" if "RecoveryChecks k s1 = (r', st')" for r' st'
        using that unfolding RecoveryChecks_def by (rule reads_journal)
    qed (use that s1 Some assms same_journal_trans in \<open>auto intro!: wp_return simp: journaled_def\<close>)
    then show ?thesis
      unfolding Some option.case using assms(1) s1(1) by (intro wp_then wp_refuse_when) auto
  qed
  show ?thesis
    unfolding Inspect_def
    using assms(1) found GetRecoveryOperation_journal [of k s]
    by (intro wp_then wp_on_store) (auto split: prod.splits sum.splits)
qed

lemma wp_save:
  assumes "\<And>e s'. same_journal s s' \<Longrightarrow> E e s' fs"
    and "\<And>op' s'. op_Status op' = status \<Longrightarrow> op_Plan op' = op_Plan op \<Longrightarrow> op_ID op' = op_ID op
      \<Longrightarrow> journal_status s' (op_ID op) = Some status
      \<Longrightarrow> (journal_alone s \<Longrightarrow> journal_alone s' \<and> (\<forall>j. j \<noteq> op_ID op \<longrightarrow>
            map_of (db_operations (st_db s')) j = map_of (db_operations (st_db s)) j))
      \<Longrightarrow> Q op' s' fs"
  shows "wp b (save eg op status problem) Q E s fs"
proof -
  let ?op = "with_status (eg_codec eg) status problem op"
  have given: "op_ID ?op = op_ID op" "op_Status ?op = status" "op_Plan ?op = op_Plan op"
    by (simp_all add: with_status_def encodePlan_def)
  have saved: "case r of Inr x \<Rightarrow> wp b (return_db (with_record x ?op)) Q E s' fs | Inl e \<Rightarrow> E (StoreErr e) s' fs"
    if run: "SaveRecoveryOperation (cd_valid (eg_codec eg)) (op_Record ?op) s = (r, s')" for r s'
  proof (cases r)
    case (Inl e)
    then show ?thesis using assms(1) SaveRecoveryOperation_journal(1) [OF run] by simp
  next
    case (Inr x)
    then have "SaveRecoveryOperation (cd_valid (eg_codec eg)) (op_Record ?op) s = (Inr x, s')" using run by simp
    then have "ro_Status x = status" using given(2) by (auto elim!: SaveRecoveryOperation_Inr)
    then show ?thesis
      using SaveRecoveryOperation_journal(2) [OF run Inr] given
      unfolding Inr sum.case by (intro wp_return assms(2)) (auto simp: with_record_def)
  qed
  show ?thesis
    unfolding save_def Let_def using saved by (intro wp_then wp_on_store) (auto split: prod.splits)
qed

end
