(* ===== verification/Recovery_Runs.thy ===== *)
theory Recovery_Runs
  imports Recovery_Store
begin

text \<open>
  Whole operations of the recovery engine: what a reported success means, which operations leave the files
  alone, and the bounds the engine keeps.
\<close>

section \<open>What operations do to the files in general\<close>

text \<open>An operation keeps a relation between the files before and after it, however its calls are answered.\<close>

definition keeping :: "(file_system \<Rightarrow> file_system \<Rightarrow> bool) \<Rightarrow> (machine, 'e, 'a) state_op \<Rightarrow> bool" where
  "keeping R f \<longleftrightarrow> (\<forall>s fs. wp False f (\<lambda>_ _ fs'. R fs fs') (\<lambda>_ _ fs'. R fs fs') s fs)"

lemma keepingI: "(\<And>s fs. wp False f (\<lambda>_ _ fs'. R fs fs') (\<lambda>_ _ fs'. R fs fs') s fs) \<Longrightarrow> keeping R f"
  by (simp add: keeping_def)

lemma wp_keeping:
  assumes "keeping R f" "\<And>x s' fs'. R fs fs' \<Longrightarrow> Q x s' fs'" "\<And>e s' fs'. R fs fs' \<Longrightarrow> E e s' fs'"
  shows "wp False f Q E s fs"
proof -
  have "wp False f (\<lambda>_ _ fs'. R fs fs') (\<lambda>_ _ fs'. R fs fs') s fs" using assms(1) by (simp add: keeping_def)
  then show ?thesis by (rule wp_mono) (simp_all add: assms(2,3))
qed

text \<open>The relations that can be composed, and the operations of the engine that change no file: they keep
  every such relation.\<close>

locale file_frame =
  fixes R :: "file_system \<Rightarrow> file_system \<Rightarrow> bool"
  assumes refl: "R fs fs" and trans: "R fs fs' \<Longrightarrow> R fs' fs'' \<Longrightarrow> R fs fs''"
begin

lemma return_keeps: "keeping R (return_db x)" and fail_keeps: "keeping R (fail_db e)"
  by (auto intro: keepingI wp_return wp_fail refl)

lemma then_keeps: "keeping R f \<Longrightarrow> (\<And>x. keeping R (g x)) \<Longrightarrow> keeping R (then_db f g)"
  by (rule keepingI, rule wp_then, rule wp_keeping, assumption) (auto intro: wp_keeping trans)

lemma on_error_keeps: "keeping R f \<Longrightarrow> (\<And>e. keeping R (h e)) \<Longrightarrow> keeping R (on_error f h)"
  by (rule keepingI, rule wp_on_error, rule wp_keeping, assumption) (auto intro: wp_keeping trans)

lemma lift_errors_keeps: "keeping R f \<Longrightarrow> keeping R (lift_errors h f)"
  by (rule keepingI, rule wp_lift_errors, rule wp_keeping, assumption) simp_all

lemma attempt_keeps: "keeping R f \<Longrightarrow> keeping R (attempt f)"
  by (rule keepingI, rule wp_attempt, rule wp_keeping, assumption) simp_all

lemma refuse_when_keeps: "keeping R (refuse_when c t)"
  by (auto intro: keepingI wp_refuse_when refl)

lemma if_keeps: "keeping R f \<Longrightarrow> keeping R g \<Longrightarrow> keeping R (if c then f else g)"
  by simp

lemma case_option_keeps:
  "keeping R f \<Longrightarrow> (\<And>x. keeping R (g x)) \<Longrightarrow> keeping R (case z of None \<Rightarrow> f | Some x \<Rightarrow> g x)"
  by (cases z) simp_all

lemma case_sum_keeps:
  "(\<And>e. keeping R (f e)) \<Longrightarrow> (\<And>x. keeping R (g x)) \<Longrightarrow> keeping R (case z of Inl e \<Rightarrow> f e | Inr x \<Rightarrow> g x)"
  by (cases z) simp_all

lemma case_prod_keeps: "(\<And>x y. keeping R (f x y)) \<Longrightarrow> keeping R (case z of (x, y) \<Rightarrow> f x y)"
  by (cases z) simp

lemma let_keeps: "(\<And>x. keeping R (f x)) \<Longrightarrow> keeping R (let x = z in f x)"
  by simp

lemma ask_keeps: "keeping R (ask q)"
  by (auto intro: keepingI wp_ask refl)

lemma no_effect_keeps: "keeping R no_effect"
  by (auto intro: keepingI wp_no_effect refl)

lemma ctx_Err_keeps: "keeping R ctx_Err"
  by (auto intro: keepingI wp_ctx_Err refl)

lemma Geteuid_keeps: "keeping R Geteuid"
  by (auto intro: keepingI wp_Geteuid refl)

lemma on_store_keeps: "keeping R (on_store f)"
  by (auto intro!: keepingI wp_on_store refl split: prod.splits sum.splits)

lemma openDirectory_keeps: "keeping R (openDirectory path)"
  by (rule keepingI, rule wp_openDirectory) (auto intro: refl split: sum.splits)

lemma dirIdentity_keeps: "keeping R (dirIdentity d)"
  by (rule keepingI, rule wp_dirIdentity) (auto intro: refl split: option.splits)

lemma readRegular_keeps: "keeping R (readRegular hash d n limit)"
  by (rule keepingI, rule wp_readRegular) (auto intro: refl split: sum.splits)

lemma checkpoint_keeps: "keeping R (checkpoint eg stage i)"
  by (rule keepingI, rule wp_checkpoint) (auto intro: refl)

lemma send_signal_keeps: "keeping R (send_signal pid sig)"
  unfolding send_signal_def
  by (rule then_keeps, rule no_effect_keeps) (auto simp: keeping_def wp_def settled_def refl)

lemmas steps = return_keeps fail_keeps then_keeps on_error_keeps lift_errors_keeps attempt_keeps refuse_when_keeps
  if_keeps case_option_keeps case_sum_keeps case_prod_keeps let_keeps ask_keeps no_effect_keeps ctx_Err_keeps
  Geteuid_keeps on_store_keeps openDirectory_keeps dirIdentity_keeps readRegular_keeps checkpoint_keeps
  send_signal_keeps

lemma entryParent_keeps: "keeping R (entryParent en)"
  unfolding entryParent_def parentFor_def by (intro steps)

lemma readMatching_keeps: "keeping R (readMatching eg en want identity)"
  unfolding readMatching_def by (intro steps entryParent_keeps)

lemma match_entries_keeps: "keeping R (match_entries eg identity want ens)"
  by (induction ens) (auto intro!: steps readMatching_keeps)

lemma save_keeps: "keeping R (save eg op status problem)"
  unfolding save_def by (intro steps)

lemma noArmedSSH_keeps: "keeping R (noArmedSSH eg)"
  unfolding noArmedSSH_def by (intro steps)

lemma Inspect_keeps: "keeping R (Inspect eg k)"
  unfolding Inspect_def by (intro steps)

lemma artifact_keeps: "keeping R (artifact eg op name h)"
  unfolding artifact_def by (intro steps)

lemma verifyAssets_keeps: "keeping R (verifyAssets eg op en)"
  unfolding verifyAssets_def by (intro steps artifact_keeps)

lemma read_proc_keeps: "keeping R (read_proc path)"
  unfolding read_proc_def by (intro steps)

lemma processStart_keeps: "keeping R (processStart pid)"
  unfolding processStart_def by (intro steps read_proc_keeps)

lemma collect_workers_keeps: "keeping R (collect_workers master fs workers)"
  by (induction master fs workers rule: collect_workers.induct)
    (auto intro!: steps processStart_keeps read_proc_keeps split: option.split)

lemma serviceWorkers_keeps: "keeping R (serviceWorkers master)"
  unfolding serviceWorkers_def by (intro steps processStart_keeps read_proc_keeps collect_workers_keeps)

lemma serviceBinary_keeps: "keeping R (serviceBinary eg s)"
  unfolding serviceBinary_def parentFor_def by (intro steps)

lemma currentServiceMaster_keeps: "keeping R (currentServiceMaster eg s)"
  unfolding currentServiceMaster_def parentFor_def by (intro steps processStart_keeps read_proc_keeps)

lemma verify_directories_keeps: "keeping R (verify_directories base ds ns)"
  by (induction base ds ns rule: verify_directories.induct) (auto intro!: steps)

lemma verifyServiceIdentity_keeps: "keeping R (verifyServiceIdentity eg p)"
  unfolding verifyServiceIdentity_def validate_service_def
  by (intro steps serviceBinary_keeps currentServiceMaster_keeps verify_directories_keeps)

lemma signalService_keeps: "keeping R (signalService eg p)"
  unfolding signalService_def pidfd_open_def by (intro steps verifyServiceIdentity_keeps)

lemma health_rounds_keeps: "keeping R (health_rounds eg p previous n successes)"
  by (induction n arbitrary: successes)
    (auto intro!: steps serviceWorkers_keeps split: sum.split option.split simp: Let_def)

lemma checkServiceHealth_keeps: "keeping R (checkServiceHealth eg p previous)"
  unfolding checkServiceHealth_def by (rule health_rounds_keeps)

lemma validateServiceConfig_keeps: "keeping R (validateServiceConfig eg p path)"
  unfolding validateServiceConfig_def by (intro steps verifyServiceIdentity_keeps)

lemma reloadService_keeps: "keeping R (reloadService eg p)"
  unfolding reloadService_def
  by (intro steps validateServiceConfig_keeps serviceWorkers_keeps signalService_keeps checkServiceHealth_keeps)

lemma servicePreflight_keeps: "keeping R (servicePreflight eg op p)"
  unfolding servicePreflight_def checkServiceCapability_def pidfd_open_def checkServiceResources_def
    measureServiceResources_def record_check_for_def
  by (intro steps verifyServiceIdentity_keeps serviceWorkers_keeps save_keeps checkServiceHealth_keeps
      validateServiceConfig_keeps)

lemma group_capacity_keeps: "keeping R (group_capacity eg op ens groups)"
  by (induction ens arbitrary: groups)
    (auto intro!: steps entryParent_keeps split: sum.split)

lemma checkCapacity_keeps: "keeping R (checkCapacity eg op)"
  unfolding checkCapacity_def record_check_for_def by (intro steps group_capacity_keeps)

lemma check_entries_keeps: "keeping R (check_entries eg op spent ens)"
  by (induction eg op spent ens rule: check_entries.induct)
    (auto intro!: steps readMatching_keeps verifyAssets_keeps
      simp: check_service_scope_def check_path_def Let_def split: option.split sum.split)

lemma cancel_ready_keeps: "keeping R (cancel_ready eg op)"
  unfolding cancel_ready_def
  by (intro steps match_entries_keeps verifyServiceIdentity_keeps checkServiceHealth_keeps save_keeps)

end

interpretation reading: file_frame "(=)"
  by unfold_locales simp_all

interpretation tame: file_frame "\<lambda>_ _. True"
  by unfold_locales simp_all

section \<open>What a reported success means\<close>

definition entry_shows :: "engine \<Rightarrow> file_system \<Rightarrow> file_entry \<Rightarrow> fingerprint \<Rightarrow> bool" where
  "entry_shows eg fs en want \<longleftrightarrow>
     (\<exists>p. parent_at fs en p \<and> shows_file (cd_hash (eg_codec eg)) fs p (Base (en_Path en)) want False)"

lemma wp_readMatching:
  assumes "\<And>e. E e s fs"
    and "\<And>x. \<exists>p. parent_at fs en p \<and> shows_file (cd_hash (eg_codec eg)) fs p (Base (en_Path en)) want identity \<Longrightarrow> Q x s fs"
  shows "wp False (readMatching eg en want identity) Q E s fs"
  unfolding readMatching_def
proof (intro wp_then wp_entryParent wp_readRegular)
  fix p
  assume p: "parent_at fs en p"
  show "case read_at (cd_hash (eg_codec eg)) fs p (Base (en_Path en))
        (max (max (fp_Bytes (en_Before en)) (fp_Bytes (en_After en))) 1) of
      Inl e \<Rightarrow> E e s fs
    | Inr x \<Rightarrow> wp False (case x of (got, _) \<Rightarrow>
        if \<not> matches got want identity then fail_db file_conflict else return_db got) Q E s fs"
    using p assms by (auto intro!: wp_if wp_fail wp_return intro: shows_fileI split: sum.splits)
qed (simp_all add: assms(1))

lemma wp_match_entries:
  assumes "\<And>e. E e s fs" "(\<And>en. en \<in> set ens \<Longrightarrow> entry_shows eg fs en (want en)) \<Longrightarrow> Q () s fs"
  shows "wp False (match_entries eg identity want ens) Q E s fs"
  using assms(2)
proof (induction ens)
  case Nil
  then show ?case by (simp add: wp_return)
next
  case (Cons en ens)
  have "wp False (match_entries eg identity want ens) Q E s fs" if "entry_shows eg fs en (want en)"
  proof (rule Cons.IH)
    assume "\<And>en. en \<in> set ens \<Longrightarrow> entry_shows eg fs en (want en)"
    then show "Q () s fs" using Cons.prems that by (metis set_ConsD)
  qed
  note rest = this
  have "wp False (readMatching eg en (want en) identity) (\<lambda>_. wp False (match_entries eg identity want ens) Q E) E s fs"
  proof (rule wp_readMatching, rule assms(1), rule rest)
    assume "\<exists>p. parent_at fs en p \<and> shows_file (cd_hash (eg_codec eg)) fs p (Base (en_Path en)) (want en) identity"
    then show "entry_shows eg fs en (want en)" unfolding entry_shows_def using shows_file_weaken by blast
  qed
  then show ?case by (simp add: wp_then)
qed

text \<open>The operations that change files, for the relation that always holds.\<close>

abbreviation any_files :: "file_system \<Rightarrow> file_system \<Rightarrow> bool" where
  "any_files \<equiv> \<lambda>_ _. True"

lemma syscall_partial_tame: "keeping any_files (syscall_partial g f)"
  by (rule keepingI, rule wp_syscall_partial) (auto split: prod.splits sum.splits)

lemma syscall_tame: "keeping any_files (syscall f)"
  unfolding syscall_def by (rule syscall_partial_tame)

lemma writeAt_tame: "keeping any_files (writeAt d n c fp)"
  unfolding writeAt_def create_exclusive_def fill_file_def write_all_def set_metadata_def fstat_def change_node_def
    unlinkat_def
  by (intro tame.steps syscall_partial_tame syscall_tame)

lemma moves_tame: "keeping any_files (renameAt d old n)" "keeping any_files (moveAt d old d' n)" "keeping any_files (removeAt d n)"
  unfolding renameAt_def moveAt_def removeAt_def renameat_def unlinkat_def
  by (intro tame.steps syscall_tame)+

lemma childPrivateDirectory_tame: "keeping any_files (childPrivateDirectory d n create)"
  unfolding childPrivateDirectory_def mkdirat_def openat_dir_def check_private_def fstat_def
  by (intro tame.steps syscall_tame)

lemma restoreEntry_tame: "keeping any_files (restoreEntry eg op en i)"
  unfolding restoreEntry_def restore_original_def restore_quarantined_def restore_backup_def restore_staged_def
  by (intro tame.steps tame.entryParent_keeps tame.artifact_keeps moves_tame writeAt_tame childPrivateDirectory_tame)

lemma applyEntry_tame: "keeping any_files (applyEntry eg op en i)"
  unfolding applyEntry_def quarantine_file_def replace_file_def replace_staged_def
  by (intro tame.steps tame.entryParent_keeps tame.artifact_keeps moves_tame writeAt_tame childPrivateDirectory_tame)

lemma restore_entries_tame: "keeping any_files (restore_entries eg op ens)"
  by (induction eg op ens rule: restore_entries.induct)
    (auto intro!: tame.steps restoreEntry_tame split: sum.split)

lemma apply_entries_tame: "keeping any_files (apply_entries eg op i ens)"
  by (induction eg op i ens rule: apply_entries.induct) (auto intro!: tame.steps applyEntry_tame)

lemma roll_back_tame: "keeping any_files (roll_back eg op)"
  unfolding roll_back_def finish_recovery_def restore_failed_def
  by (intro tame.steps tame.save_keeps restore_entries_tame tame.match_entries_keeps tame.reloadService_keeps)

lemma recoverLocked_tame: "keeping any_files (recoverLocked eg op)"
  unfolding recoverLocked_def by (intro tame.steps tame.cancel_ready_keeps roll_back_tame)

text \<open>The handlers of failures end in an error, whatever happens in them.\<close>

lemma wp_serviceFailure: "wp False (serviceFailure eg op cause) Q (\<lambda>_ _ _. True) s fs"
  unfolding serviceFailure_def
  by (intro wp_then wp_attempt wp_keeping [OF recoverLocked_tame]) (auto intro: wp_fail)

lemma wp_save_unknown: "wp False (save_unknown eg op problem e) Q (\<lambda>_ _ _. True) s fs"
  unfolding save_unknown_def
  by (intro wp_then wp_attempt wp_keeping [OF tame.save_keeps]) (auto intro: wp_fail)

lemma wp_restore_failed: "wp False (restore_failed eg op problem e) Q (\<lambda>_ _ _. True) s fs"
  unfolding restore_failed_def
  by (intro wp_then wp_attempt wp_keeping [OF tame.save_keeps]) (auto intro: wp_fail)

lemma wp_on_failure:
  "(\<And>e s fs. wp False (f e) Q (\<lambda>_ _ _. True) s fs) \<Longrightarrow> wp False (on_failure eg op f e) Q (\<lambda>_ _ _. True) s fs"
  unfolding on_failure_def after_failure_def by (intro wp_if wp_serviceFailure) simp

lemma wp_if_service:
  assumes "\<And>e s fs. wp False (h e) (\<lambda>_ _ _. False) (\<lambda>_ _ _. True) s fs" "\<And>s'. Q () s' fs"
  shows "wp False (case sp of None \<Rightarrow> return_db () | Some p \<Rightarrow> on_error (reloadService eg p) h) Q (\<lambda>_ _ _. True) s fs"
proof (cases sp)
  case (Some p)
  have "wp False (h e) Q (\<lambda>_ _ _. True) s fs" for e s fs by (rule wp_mono [OF assms(1)]) simp_all
  then show ?thesis
    using assms(2) unfolding Some option.case by (intro wp_on_error wp_keeping [OF reading.reloadService_keeps]) auto
qed (simp add: wp_return assms(2))

text \<open>The operation is committed, in the journal too, and applied.\<close>

definition applied_as :: "engine \<Rightarrow> operation \<Rightarrow> operation \<Rightarrow> store \<Rightarrow> file_system \<Rightarrow> bool" where
  "applied_as eg op op' s fs \<longleftrightarrow>
     op_Status op' = Committed \<and> op_ID op' = op_ID op \<and> op_Plan op' = op_Plan op
     \<and> journal_status s (op_ID op) = Some Committed
     \<and> list_all (\<lambda>en. entry_shows eg fs en (en_After en)) (mf_Entries (op_Plan op))"

lemma applied_as_other:
  "op_Plan op2 = op_Plan op \<Longrightarrow> op_ID op2 = op_ID op \<Longrightarrow> applied_as eg op2 = applied_as eg op"
  by (intro ext) (simp add: applied_as_def)

lemma wp_commit_plan: "wp False (commit_plan eg op) (applied_as eg op) (\<lambda>_ _ _. True) s fs"
  unfolding commit_plan_def applied_as_def list_all_iff
  by (intro wp_then wp_on_error wp_match_entries wp_on_failure wp_save_unknown wp_if_service wp_serviceFailure wp_save
      wp_checkpoint wp_return wp_fail) simp_all

lemma wp_run_plan: "wp False (run_plan eg op) (applied_as eg op) (\<lambda>_ _ _. True) s fs"
    (is "wp False _ ?Q ?E s fs")
proof -
  have committed: "wp False (commit_plan eg op2) ?Q ?E s fs" if "op_Plan op2 = op_Plan op" "op_ID op2 = op_ID op" for op2 s fs
    using wp_commit_plan [of eg op2] applied_as_other [OF that] by simp
  have verified: "wp False (then_db (on_error (save eg op1 Verifying '''')
        (on_failure eg (with_status (eg_codec eg) Verifying '''' op1) fail_db)) (\<lambda>op2.
      then_db (checkpoint eg ''verifying'' (-1)) (\<lambda>_. commit_plan eg op2))) ?Q ?E s fs"
    if "op_Plan op1 = op_Plan op" "op_ID op1 = op_ID op" for op1 s fs
    by (intro wp_then wp_on_error wp_save wp_checkpoint committed wp_on_failure wp_fail) (simp_all add: that)
  have stopped: "wp False (case f of Stopped e \<Rightarrow> fail_db e
      | Failed e \<Rightarrow> on_failure eg op1 (\<lambda>e. save_unknown eg op1 problem (join_errors e)) e) Q ?E s fs" for f op1 problem Q s fs
    by (cases f) (auto intro: wp_fail wp_on_failure wp_save_unknown)
  show ?thesis
    unfolding run_plan_def
    by (intro wp_then wp_save wp_checkpoint wp_on_error wp_keeping [OF apply_entries_tame] verified stopped) simp_all
qed

lemma wp_finish_recovery:
  "wp False (finish_recovery eg op)
    (\<lambda>op' _ fs. op_Status op' = Recovered \<and> (\<forall>en \<in> set (mf_Entries (op_Plan op)). entry_shows eg fs en (en_Before en)))
    (\<lambda>_ _ _. True) s fs"
  unfolding finish_recovery_def
  by (intro wp_then wp_on_error wp_match_entries wp_restore_failed wp_if_service wp_save wp_checkpoint wp_return) simp_all

lemma wp_roll_back:
  "wp False (roll_back eg op)
    (\<lambda>op' _ fs. op_Status op' = Recovered \<and> (\<forall>en \<in> set (mf_Entries (op_Plan op)). entry_shows eg fs en (en_Before en)))
    (\<lambda>_ _ _. True) s fs"
    (is "wp False _ ?Q ?E s fs")
proof -
  have "wp False (finish_recovery eg op1) ?Q ?E s fs" if "op_Plan op1 = op_Plan op" for op1 s fs
    using wp_finish_recovery [of eg op1] that by simp
  then show ?thesis
    unfolding roll_back_def
    by (intro wp_then wp_save wp_checkpoint wp_keeping [OF restore_entries_tame] wp_if wp_restore_failed) simp_all
qed

lemma wp_recoverLocked:
  assumes "op_Status op \<noteq> Recovered"
  shows "wp False (recoverLocked eg op)
    (\<lambda>op' _ fs. op_Status op' = Recovered \<and> (\<forall>en \<in> set (mf_Entries (op_Plan op)). entry_shows eg fs en (en_Before en)))
    (\<lambda>_ _ _. True) s fs"
    (is "wp False _ ?Q ?E s fs")
proof -
  have ready: "wp False (case mf_Service (op_Plan op) of None \<Rightarrow> return_db ()
      | Some p \<Rightarrow> then_db (verifyServiceIdentity eg p) (\<lambda>_. checkServiceHealth eg p [])) (\<lambda>_ _ fs'. fs' = fs) ?E s fs" for s fs
    by (cases "mf_Service (op_Plan op)")
      (auto intro!: wp_return wp_then wp_keeping [OF reading.verifyServiceIdentity_keeps]
        wp_keeping [OF reading.checkServiceHealth_keeps])
  have "wp False (cancel_ready eg op) ?Q ?E s fs"
    unfolding cancel_ready_def
    by (intro wp_then wp_match_entries wp_mono [OF ready] wp_save wp_checkpoint wp_return) simp_all
  then show ?thesis
    unfolding recoverLocked_def by (intro wp_if wp_roll_back wp_fail) (simp_all add: assms)
qed

section \<open>Operations that only add files\<close>

text \<open>Every file and directory there was is still there under its name, with its content and its metadata.\<close>

definition only_adds :: "file_system \<Rightarrow> file_system \<Rightarrow> bool" where
  "only_adds fs fs' \<longleftrightarrow> length (fs_nodes fs) \<le> length (fs_nodes fs')
     \<and> (\<forall>k nd. node_at fs k = Some nd \<longrightarrow> node_at fs' k = Some nd)
     \<and> (\<forall>d n k. lookup fs d n = Some k \<longrightarrow> lookup fs' d n = Some k)"

lemma only_adds_trans: "only_adds fs fs' \<Longrightarrow> only_adds fs' fs'' \<Longrightarrow> only_adds fs fs''"
  by (simp add: only_adds_def)

interpretation adding: file_frame only_adds
  by unfold_locales (simp add: only_adds_def, rule only_adds_trans)

lemma only_adds_new: "lookup fs d n = None \<Longrightarrow> only_adds fs (set_entry d n (length (fs_nodes fs)) (add_node nd fs))"
  by (auto simp: only_adds_def)

lemma mkdirat_adds: "keeping only_adds (mkdirat d n)"
  unfolding mkdirat_def
  by (rule keepingI, rule wp_syscall) (auto simp: adding.refl only_adds_new split: option.splits)

lemma openat_dir_adds: "keeping only_adds (openat_dir d n)"
  unfolding openat_dir_def
  by (rule keepingI, rule wp_syscall) (auto simp: adding.refl split: option.splits)

lemma mkdir_parts_adds: "keeping only_adds (mkdir_parts d ps)"
  by (induction ps arbitrary: d) (auto intro!: adding.steps mkdirat_adds openat_dir_adds split: sum.split)

lemma fstat_adds: "keeping only_adds (fstat k)"
  by (rule keepingI, rule wp_fstat) (auto simp: adding.refl split: option.splits)

lemma privateDirectory_adds: "keeping only_adds (privateDirectory path)"
  unfolding privateDirectory_def check_private_def
  by (intro adding.steps mkdir_parts_adds fstat_adds)

lemma lockDirectory_adds: "keeping only_adds (lockDirectory d)"
  unfolding lockDirectory_def
  by (intro adding.steps, rule keepingI, rule wp_syscall) (auto simp: adding.refl only_adds_new split: option.splits)

lemma locked_adds: "keeping only_adds (locked eg)"
  unfolding locked_def by (intro adding.steps privateDirectory_adds lockDirectory_adds)

text \<open>Taking the lock leaves the store as it is.\<close>

lemma wp_mkdirat:
  assumes "\<And>e fs'. E e s fs'" "\<And>fs'. Q () s fs'"
  shows "wp False (mkdirat d n) Q E s fs"
  unfolding mkdirat_def by (intro wp_syscall) (simp_all add: assms)

lemma wp_openat_dir:
  assumes "\<And>e. E e s fs" "\<And>k. Q k s fs"
  shows "wp False (openat_dir d n) Q E s fs"
  unfolding openat_dir_def by (intro wp_syscall) (simp_all add: assms split: option.split)

lemma wp_mkdir_parts:
  assumes "\<And>e fs'. E e s fs'" "\<And>fs'. Q () s fs'"
  shows "wp False (mkdir_parts d ps) Q E s fs"
proof (induction ps arbitrary: d fs)
  case (Cons p ps)
  have make: "wp False (if e = NotExist
      then then_db (mkdirat d p) (\<lambda>_. then_db (openat_dir d p) (\<lambda>k. mkdir_parts k ps)) else return_db ()) Q E s fs" for e fs
    by (intro wp_if wp_then wp_mkdirat wp_openat_dir wp_return Cons.IH assms)
  show ?case
    unfolding mkdir_parts.simps
    by (intro wp_if wp_then wp_attempt wp_openat_dir) (simp_all add: Cons.IH make split del: if_split)
qed (simp add: wp_return assms)

lemma wp_locked_store:
  assumes "\<And>e fs'. E e s fs'" "\<And>fs'. Q () s fs'"
  shows "wp False (locked eg) Q E s fs"
  unfolding locked_def privateDirectory_def check_private_def lockDirectory_def
  by (intro wp_then wp_mkdir_parts wp_openDirectory wp_fstat)
    (auto intro!: wp_then wp_fstat wp_Geteuid wp_refuse_when wp_return wp_syscall wp_on_error wp_no_effect wp_fail assms
      split: sum.splits option.splits)

lemma wp_locked:
  assumes "\<And>e fs'. only_adds fs fs' \<Longrightarrow> E e s fs'" "\<And>fs'. only_adds fs fs' \<Longrightarrow> Q () s fs'"
  shows "wp False (locked eg) Q E s fs"
proof -
  have "wp False (locked eg) (\<lambda>_ s' _. s' = s) (\<lambda>_ s' _. s' = s) s fs"
    by (rule wp_locked_store) simp_all
  moreover have "wp False (locked eg) (\<lambda>_ _ fs'. only_adds fs fs') (\<lambda>_ _ fs'. only_adds fs fs') s fs"
    by (rule wp_keeping [OF locked_adds])
  ultimately have "wp False (locked eg) (\<lambda>_ s' fs'. s' = s \<and> only_adds fs fs') (\<lambda>_ s' fs'. s' = s \<and> only_adds fs fs') s fs"
    by (rule wp_conj)
  then show ?thesis by (rule wp_mono) (use assms in auto)
qed

section \<open>What an application has checked before it changes a file\<close>

text \<open>An entry is ready: its path may be changed, it fits the limits, and it is exactly as it was prepared.\<close>

definition entry_ready :: "engine \<Rightarrow> file_system \<Rightarrow> file_entry \<Rightarrow> bool" where
  "entry_ready eg fs en \<longleftrightarrow> (\<exists>base. checkPath eg (en_Path en) = Inr base)
     \<and> fp_Bytes (en_Before en) \<le> lm_MaxFileBytes (eg_limits eg) \<and> fp_Bytes (en_After en) \<le> lm_MaxFileBytes (eg_limits eg)
     \<and> (\<exists>p. parent_at fs en p \<and> shows_file (cd_hash (eg_codec eg)) fs p (Base (en_Path en)) (en_Before en) True)"

definition entry_cost :: "file_entry \<Rightarrow> int" where
  "entry_cost en = fp_Bytes (en_Before en) + fp_Bytes (en_After en)"

lemma wp_check_entries:
  assumes "\<And>e s'. E e s' fs"
    and "\<And>s'. list_all (entry_ready eg fs) ens
      \<Longrightarrow> (ens \<noteq> [] \<Longrightarrow> spent + sum_list (map entry_cost ens) \<le> lm_MaxBytes (eg_limits eg)) \<Longrightarrow> Q () s' fs"
  shows "wp False (check_entries eg op spent ens) Q E s fs"
  using assms(2)
proof (induction ens arbitrary: spent s)
  case Nil
  then show ?case by (simp add: wp_return)
next
  case (Cons en ens)
  let ?tail = "\<lambda>spent'. check_entries eg op spent' ens"
  have tail: "wp False (?tail (spent + entry_cost en)) Q E s' fs"
    if "entry_ready eg fs en" "spent + entry_cost en \<le> lm_MaxBytes (eg_limits eg)" for s'
  proof (rule Cons.IH)
    fix s'
    assume "list_all (entry_ready eg fs) ens"
      "ens \<noteq> [] \<Longrightarrow> spent + entry_cost en + sum_list (map entry_cost ens) \<le> lm_MaxBytes (eg_limits eg)"
    then show "Q () s' fs" using that by (intro Cons.prems) (cases ens; simp add: add.assoc)+
  qed
  have path: "wp False (check_path eg (en_Path en)) Q' E s fs"
    if "\<And>base. checkPath eg (en_Path en) = Inr base \<Longrightarrow> Q' base s fs" for Q'
    using that assms(1) by (auto simp: check_path_def intro: wp_fail wp_return split: sum.splits)
  have scope: "wp False (check_service_scope eg path selected) Q' E s fs" if "Q' () s fs" for Q' path selected
    using that assms(1) by (auto simp: check_service_scope_def intro: wp_fail wp_return split: option.splits)
  have assets: "wp False (verifyAssets eg op en) (\<lambda>_. wp False (?tail (spent + entry_cost en)) Q E) E s fs"
    if "entry_ready eg fs en" "spent + entry_cost en \<le> lm_MaxBytes (eg_limits eg)"
    by (rule wp_keeping [OF reading.verifyAssets_keeps]) (use tail [OF that] assms(1) in auto)
  show ?case
    unfolding check_entries.simps Let_def entry_cost_def [symmetric]
  proof (intro wp_then scope path wp_refuse_when wp_readMatching assms(1))
    fix base
    assume "checkPath eg (en_Path en) = Inr base"
      "\<not> (lm_MaxBytes (eg_limits eg) - spent < entry_cost en
        \<or> lm_MaxFileBytes (eg_limits eg) < fp_Bytes (en_Before en)
        \<or> lm_MaxFileBytes (eg_limits eg) < fp_Bytes (en_After en))"
      "\<exists>p. parent_at fs en p \<and> shows_file (cd_hash (eg_codec eg)) fs p (Base (en_Path en)) (en_Before en) True"
    then show "wp False (verifyAssets eg op en) (\<lambda>_. wp False (?tail (spent + entry_cost en)) Q E) E s fs"
      by (intro assets) (auto simp: entry_ready_def)
  qed
qed

text \<open>The checks that are recorded leave the plan as it is.\<close>

lemma wp_record_check_for:
  assumes "\<And>e s'. E e s' fs" "\<And>op' s'. op_Plan op' = op_Plan op \<Longrightarrow> op_ID op' = op_ID op \<Longrightarrow> Q op' s' fs"
  shows "wp False (record_check_for eg op kind evidence) Q E s fs"
  unfolding record_check_for_def
  by (intro wp_then wp_on_store) (auto intro!: wp_return assms split: prod.splits sum.splits)

lemma wp_checkCapacity:
  assumes "\<And>e s'. E e s' fs" "\<And>op' s'. op_Plan op' = op_Plan op \<Longrightarrow> op_ID op' = op_ID op \<Longrightarrow> Q op' s' fs"
  shows "wp False (checkCapacity eg op) Q E s fs"
  unfolding checkCapacity_def Let_def
  by (intro wp_then wp_keeping [OF reading.group_capacity_keeps] wp_refuse_when wp_checkpoint wp_return
      wp_record_check_for) (auto simp: assms intro!: wp_then wp_record_check_for wp_refuse_when wp_checkpoint wp_return)

lemma service_parts_keep:
  "keeping (=) (measureServiceResources eg p)" "keeping (=) (checkServiceCapability eg p)"
  unfolding measureServiceResources_def checkServiceCapability_def pidfd_open_def
  by (intro reading.steps reading.verifyServiceIdentity_keeps reading.serviceWorkers_keeps)+

lemma wp_checkServiceResources:
  assumes "\<And>e s'. E e s' fs" "\<And>op' s'. op_Plan op' = op_Plan op \<Longrightarrow> op_ID op' = op_ID op \<Longrightarrow> Q op' s' fs"
  shows "wp False (checkServiceResources eg op p) Q E s fs"
proof -
  have measured: "wp False (case x of (cpus, workers, nofile) \<Rightarrow>
      let v = evaluateServiceResources (sp_Resources p) (limits_effective (ns_ResourceLimits (sp_Config p))) cpus workers nofile in
      then_db (record_check_for eg op ''service_resources'' (cd_resources (eg_codec eg) v)) (\<lambda>op'.
      then_db (refuse_when (\<not> re_Passed v)
                ''fresh NGINX resource check refused worker count, reload overlap or descriptor headroom; target config unchanged'') (\<lambda>_.
      then_db (checkpoint eg ''service_resources_checked'' (-1)) (\<lambda>_.
      return_db op')))) Q E s' fs" for x s'
    unfolding Let_def
    by (cases x) (auto intro!: wp_then wp_record_check_for wp_refuse_when wp_checkpoint wp_return assms)
  show ?thesis
    unfolding checkServiceResources_def
    by (intro wp_then wp_keeping [OF service_parts_keep(1)]) (use assms measured in auto)
qed

lemma wp_servicePreflight:
  assumes "\<And>e s'. E e s' fs" "\<And>op' s'. op_Plan op' = op_Plan op \<Longrightarrow> op_ID op' = op_ID op \<Longrightarrow> Q op' s' fs"
  shows "wp False (servicePreflight eg op p) Q E s fs"
proof -
  have keeps: "keeping (=) (on_error
       (then_db (on_error (checkServiceHealth eg p []) (\<lambda>e. fail_db (Wrapped ''baseline health failed'' e)))
         (\<lambda>_. validateServiceConfig eg p path))
       (\<lambda>e. then_db (attempt (save eg op2 ValidationFailed
           ''baseline health or staged syntax validation failed; target config unchanged''))
         (\<lambda>r. fail_db (join_errors e (case r of Inl e' \<Rightarrow> Some e' | Inr _ \<Rightarrow> None)))))" for path op2
    by (intro reading.steps reading.checkServiceHealth_keeps reading.validateServiceConfig_keeps reading.save_keeps)
  note validated = wp_keeping [OF keeps]
  show ?thesis
    unfolding servicePreflight_def
    by (intro wp_then wp_refuse_when wp_keeping [OF reading.verifyServiceIdentity_keeps] wp_keeping [OF service_parts_keep(2)])
      (auto intro!: wp_then wp_checkServiceResources wp_save wp_checkpoint wp_return validated simp: assms)
qed

text \<open>The operation that was reviewed: the stored plan has the digest that was approved, for the current policy and
  the requested kind, and it has not been started.\<close>

definition reviewed :: "engine \<Rightarrow> string \<Rightarrow> bool \<Rightarrow> operation \<Rightarrow> bool" where
  "reviewed eg digest service op \<longleftrightarrow>
     planDigest (eg_codec eg) (op_Target op) (op_Policy op) (op_Plan op) = digest
     \<and> op_Target op = eg_target eg \<and> op_Policy op = eg_policy eg \<and> op_Status op = Ready
     \<and> (mf_Service (op_Plan op) \<noteq> None) = service \<and> mf_SSH (op_Plan op) = None \<and> mf_Snapshot (op_Plan op) = None"

definition plan_ready :: "engine \<Rightarrow> file_system \<Rightarrow> operation \<Rightarrow> bool" where
  "plan_ready eg fs op \<longleftrightarrow> list_all (entry_ready eg fs) (mf_Entries (op_Plan op))
     \<and> sum_list (map entry_cost (mf_Entries (op_Plan op))) \<le> max 0 (lm_MaxBytes (eg_limits eg))
     \<and> int (length (mf_Entries (op_Plan op))) \<le> lm_MaxFiles (eg_limits eg)"

text \<open>Until the plan is run nothing is changed; a run that ends well has applied it.\<close>

lemma wp_apply_ready:
  assumes "\<And>e s'. E e s' fs"
    and "\<And>op' s' fs'. plan_ready eg fs op \<Longrightarrow> op_Status op = Ready \<Longrightarrow> applied_as eg op op' s' fs' \<Longrightarrow> Q op' s' fs'"
    and "\<And>e s' fs'. plan_ready eg fs op \<Longrightarrow> op_Status op = Ready \<Longrightarrow> E e s' fs'"
  shows "wp False (apply_ready eg op) Q E s fs"
proof -
  have run: "wp False (run_plan eg op2) Q E s' fs"
    if "plan_ready eg fs op" "op_Status op = Ready" "op_Plan op2 = op_Plan op" "op_ID op2 = op_ID op" for op2 s'
    by (rule wp_mono [OF wp_run_plan]) (use that assms(2,3) applied_as_other [OF that(3,4)] in auto)
  have checked: "wp False (checkCapacity eg op) (\<lambda>op1. wp False
       (then_db (case mf_Service (op_Plan op) of None \<Rightarrow> return_db op1 | Some p \<Rightarrow> servicePreflight eg op1 p)
         (run_plan eg)) Q E) E s' fs" if "plan_ready eg fs op" "op_Status op = Ready" for s'
    using run [OF that]
    by (cases "mf_Service (op_Plan op)")
      (auto intro!: wp_then wp_checkCapacity wp_servicePreflight wp_return assms(1))
  show ?thesis
    unfolding apply_ready_def
  proof (intro wp_then wp_refuse_when wp_clock_now wp_check_entries assms(1), goal_cases)
    case (1 now s')
    have "plan_ready eg fs op"
      using 1 by (cases "mf_Entries (op_Plan op) = []") (auto simp: plan_ready_def)
    then show ?case using checked 1 by simp
  qed
qed

lemma wp_apply_operation:
  assumes "\<And>e s' fs'. only_adds fs fs' \<Longrightarrow> E e s' fs'"
    and "\<And>op s' fs'. only_adds fs fs' \<Longrightarrow> same_journal s s' \<Longrightarrow> (journal_alone s \<Longrightarrow> journaled eg k s op)
      \<Longrightarrow> op_Status op = Committed \<Longrightarrow> Q op s' fs'"
    and "\<And>op op' fs1 s' fs'. only_adds fs fs1 \<Longrightarrow> reviewed eg digest service op \<Longrightarrow> plan_ready eg fs1 op
      \<Longrightarrow> (journal_alone s \<Longrightarrow> journaled eg k s op) \<Longrightarrow> applied_as eg op op' s' fs' \<Longrightarrow> Q op' s' fs'"
    and "\<And>op fs1 e s' fs'. only_adds fs fs1 \<Longrightarrow> reviewed eg digest service op \<Longrightarrow> plan_ready eg fs1 op
      \<Longrightarrow> (journal_alone s \<Longrightarrow> journaled eg k s op) \<Longrightarrow> E e s' fs'"
  shows "wp False (apply_operation eg k digest service) Q E s fs"
proof -
  have from_stored: "wp False (if op_Status op = Committed then return_db op else apply_ready eg op) Q E s' fs1"
    if "only_adds fs fs1" "same_journal s s'" "journal_alone s \<Longrightarrow> journaled eg k s op"
      "planDigest (eg_codec eg) (op_Target op) (op_Policy op) (op_Plan op) = op_Digest op"
      "op_Target op = eg_target eg" "\<not> (digest \<noteq> op_Digest op \<or> op_Policy op \<noteq> eg_policy eg)"
      "\<not> mf_SSH (op_Plan op) \<noteq> None" "\<not> mf_Snapshot (op_Plan op) \<noteq> None"
      "\<not> (mf_Service (op_Plan op) \<noteq> None) \<noteq> service" for op s' fs1
  proof -
    have "reviewed eg digest service op" if "op_Status op = Ready"
      using that \<open>planDigest _ _ _ _ = _\<close> \<open>op_Target op = _\<close> \<open>\<not> (_ \<or> _)\<close> \<open>\<not> mf_SSH _ \<noteq> _\<close> \<open>\<not> mf_Snapshot _ \<noteq> _\<close>
        \<open>\<not> (_ \<noteq> None) \<noteq> service\<close> by (simp add: reviewed_def)
    then show ?thesis
      using that(1-3) assms by (intro wp_if wp_return wp_apply_ready) auto
  qed
  have read: "same_journal s s2" "journal_alone s \<Longrightarrow> journaled eg k s op"
    if "same_journal s s1" "same_journal s1 s2" "journal_alone s1 \<Longrightarrow> journaled eg k s1 op" for s1 s2 op
    using that by (auto simp: same_journal_def journaled_def)
  show ?thesis
    unfolding apply_operation_def
    by (intro wp_then wp_locked wp_noArmedSSH wp_Inspect wp_refuse_when from_stored) (use assms(1) read in blast)+
qed

lemma Reconcile_adds: "keeping only_adds (Reconcile eg k)"
  unfolding Reconcile_def by (intro adding.steps locked_adds adding.Inspect_keeps adding.save_keeps)

lemma ReserveModelRepair_adds: "keeping only_adds (ReserveModelRepair eg k digest)"
  unfolding ReserveModelRepair_def record_check_for_def
  by (intro adding.steps locked_adds adding.Inspect_keeps)

end
