(* ===== verification/Recovery_Sample.thy ===== *)
theory Recovery_Sample
  imports Recovery_Rollback
begin

text \<open>
  A machine with a prepared plan, on which the theorems about the recovery engine are applied: the plan
  replaces \<open>/etc/app.conf\<close>, deletes \<open>/etc/old.conf\<close> and creates \<open>/etc/new.conf\<close>; its copies are in
  the directory of its id under \<open>/var/r\<close>.  The hash is the identity.
\<close>

definition sample_id :: string where
  "sample_id = ''0123456789abcdef0123456789abcdef''"

definition sample_node :: "nat \<Rightarrow> node_kind \<Rightarrow> nat \<Rightarrow> node" where
  "sample_node i kind mode = \<lparr>nd_kind = kind, nd_device = 1, nd_inode = i, nd_mode = mode, nd_setid = False, nd_uid = 0,
     nd_gid = 0, nd_extended = Some False, nd_modified = 5000\<rparr>"

definition sample_files :: file_system where
  "sample_files = \<lparr>fs_table = [((0, ''etc''), 1), ((0, ''var''), 2), ((2, ''r''), 3), ((3, sample_id), 4),
       ((1, ''app.conf''), 5), ((1, ''old.conf''), 6), ((4, ''0000.before''), 7), ((4, ''0000.after''), 8),
       ((4, ''0001.before''), 9), ((4, ''0002.after''), 10)],
     fs_nodes = [sample_node 0 Directory 493, sample_node 1 Directory 493, sample_node 2 Directory 493,
       sample_node 3 Directory 448, sample_node 4 Directory 448, sample_node 5 (Regular ''old'') 420,
       sample_node 6 (Regular ''bye'') 420, sample_node 7 (Regular ''old'') 384, sample_node 8 (Regular ''new'') 384,
       sample_node 9 (Regular ''bye'') 384, sample_node 10 (Regular ''made'') 384],
     fs_euid = 0, fs_egid = 0, fs_inode = (\<lambda>k. k), fs_mtime = (\<lambda>_. 7000)\<rparr>"

definition sample_after :: "fingerprint \<Rightarrow> string \<Rightarrow> fingerprint" where
  "sample_after before content = before\<lparr>fp_Exists := True, fp_SHA256 := content, fp_Bytes := int (length content),
     fp_Mode := 420, fp_Inode := 0, fp_ModifiedNS := 0\<rparr>"

definition sample_entry :: "string \<Rightarrow> string \<Rightarrow> string \<Rightarrow> fingerprint \<Rightarrow> fingerprint \<Rightarrow> string \<Rightarrow> file_entry" where
  "sample_entry action path number before after quarantine =
     \<lparr>en_Action = action, en_Path = path, en_Root = ''/etc'', en_ParentDevice = 1, en_ParentInode = 1,
      en_Before = before, en_After = after, en_Backup = number @ ''.before'', en_Candidate = number @ ''.after'',
      en_Quarantine = quarantine\<rparr>"

definition sample_entries :: "file_entry list" where
  "sample_entries =
     (let file = (\<lambda>i b. fingerprint_of (\<lambda>s. s) (sample_node i (Regular b) 420) b) in
     [sample_entry ''replace'' ''/etc/app.conf'' ''0000'' (file 5 ''old'') (sample_after (file 5 ''old'') ''new'') '''',
      sample_entry ''delete'' ''/etc/old.conf'' ''0001'' (file 6 ''bye'') no_file (''.cvkeharness-'' @ sample_id @ ''-0001.deleted''),
      sample_entry ''create'' ''/etc/new.conf'' ''0002'' no_file (sample_after no_file ''made'') ''''])"

definition sample_plan :: manifest where
  "sample_plan = \<lparr>mf_Version = 1, mf_CreatedAt = 0, mf_Limits = DefaultLimits, mf_Entries = sample_entries,
     mf_Service = None, mf_Snapshot = None, mf_SSH = None\<rparr>"

definition sample_operation :: "string \<Rightarrow> operation" where
  "sample_operation status =
     \<lparr>op_Record = \<lparr>ro_ID = sample_id, ro_Target = ''t'', ro_Policy = ''p'', ro_Status = status, ro_Digest = ''tp'',
        ro_Manifest = ''{}'', ro_Revision = 3, ro_UpdatedAt = 0, ro_Problem = ''''\<rparr>,
      op_Plan = sample_plan,
      op_Checks = []\<rparr>"

definition sample_codec :: codec where
  "sample_codec = \<lparr>cd_hash = (\<lambda>s. s), cd_valid = (\<lambda>_. True), cd_encode = (\<lambda>_. ''{}''), cd_decode = (\<lambda>_. Some sample_plan),
     cd_review = (\<lambda>t p _. t @ p), cd_capacity = (\<lambda>_. ''{}''), cd_resources = (\<lambda>_. ''{}''), cd_attempt = (\<lambda>_ _. ''{}''),
     cd_url = (\<lambda>_. None)\<rparr>"

definition sample_engine :: engine where
  "sample_engine = \<lparr>eg_assets = ''/var/r'', eg_executable = ''/bin/harness'', eg_roots = [''/etc''], eg_limits = DefaultLimits,
     eg_policy = ''p'', eg_target = ''t'', eg_fault = None, eg_services = [], eg_sshServices = [], eg_fleetBinaries = [],
     eg_codec = sample_codec\<rparr>"

text \<open>The machine answers every call, or fails from call \<open>n\<close> on.\<close>

definition sample_surroundings :: surroundings where
  "sample_surroundings = \<lparr>sr_cancelled = (\<lambda>_. False), sr_partial = (\<lambda>_. 1), sr_random = (\<lambda>_. ''0123456789abcdef''),
     sr_statfs = (\<lambda>_ _. (1000000, 4096)), sr_read = (\<lambda>_ _. None), sr_readlink = (\<lambda>_ _. None), sr_affinity = (\<lambda>_ _. 1),
     sr_nofile = (\<lambda>_ _. 1024), sr_command = (\<lambda>_ _. True), sr_http = (\<lambda>_ _. None)\<rparr>"

definition sample_store :: "string \<Rightarrow> store" where
  "sample_store status = quiet_store (\<lambda>n. int n)
     (empty_db\<lparr>db_operations := [(sample_id, op_Record (sample_operation status))]\<rparr>)"

definition sample_machine :: "nat option \<Rightarrow> string \<Rightarrow> file_system \<Rightarrow> machine" where
  "sample_machine failing status fs =
     \<lparr>mc_store = sample_store status, mc_files = fs,
      mc_answer = (\<lambda>i. case failing of None \<Rightarrow> SysOk | Some n \<Rightarrow> if i < n then SysOk else SysError ''input/output error''),
      mc_others = (\<lambda>_ fs. fs), mc_count = 0, mc_env = sample_surroundings, mc_signals = []\<rparr>"

lemma sample_settled: "settled False (sample_machine failing status fs)" "settled True (sample_machine None status fs)"
  by (simp_all add: settled_def sample_machine_def sample_surroundings_def)

lemma sample_machine_files [simp]: "mc_files (sample_machine failing status fs) = fs"
  by (simp add: sample_machine_def)

section \<open>The plan is sound on the sample files\<close>

lemma well_formed_table:
  assumes "list_all (\<lambda>((d, n), k). is_dir fs d \<and> k < length (fs_nodes fs)) (fs_table fs)"
  shows "well_formed_files fs"
  using assms unfolding well_formed_files_def lookup_def list_all_iff by (fastforce dest: map_of_SomeD)

lemma shows_file_check:
  "(case read_at hash fs d n limit of Inl _ \<Rightarrow> False | Inr (x, _) \<Rightarrow> matches x want identity)
    \<Longrightarrow> shows_file hash fs d n want identity"
  by (auto simp: shows_file_def split: sum.splits)

lemma true_copy_identity:
  "eg_codec eg = sample_codec \<Longrightarrow> int (length (fp_SHA256 want)) = fp_Bytes want \<Longrightarrow> true_copy eg op fs name want"
  using artifact_hash by (fastforce simp: true_copy_def sample_codec_def)

lemma stored_check:
  assumes "Base name = name"
    and "case dir_at fs (JoinPath (eg_assets eg) (op_ID op)) of Inl _ \<Rightarrow> False
      | Inr a \<Rightarrow> (case read_at (cd_hash (eg_codec eg)) fs a name (lm_MaxFileBytes (mf_Limits (op_Plan op))) of
          Inl _ \<Rightarrow> False
        | Inr (f, _) \<Rightarrow> fp_Exists f \<and> fp_SHA256 f = fp_SHA256 want \<and> fp_Mode f = 384 \<and> fp_UID f = fs_euid fs)"
  shows "stored eg op fs name want"
  using assms by (auto simp: stored_def artifact_at_def split: sum.splits)

lemma sample_files_ok: "files_ok sample_files"
  unfolding files_ok_def by (intro conjI well_formed_table) code_simp+

lemma sample_hash [simp]: "cd_hash (eg_codec sample_engine) = (\<lambda>s. s)"
  by (simp add: sample_engine_def sample_codec_def)

lemma below_three: "i < 3 \<longleftrightarrow> i = 0 \<or> i = 1 \<or> i = (2::nat)"
  by auto

lemma sample_entries_length [simp]: "length sample_entries = 3"
  by (simp add: sample_entries_def)

lemma sample_plan_entries [simp]: "mf_Entries (op_Plan (sample_operation status)) = sample_entries"
  by (simp add: sample_operation_def sample_plan_def)

lemma sample_entry_checks:
  "i < 3 \<Longrightarrow> entry_ok (sample_operation status) i (sample_entries ! i)"
  unfolding below_three by (elim disjE; hypsubst) code_simp+

lemma sample_parents: "i < 3 \<Longrightarrow> parent_at sample_files (sample_entries ! i) ([1, 1, 1] ! i)"
  unfolding below_three by (elim disjE; hypsubst) code_simp+

lemma sample_copies:
  "i < 3 \<Longrightarrow> true_copy sample_engine (sample_operation status) sample_files (en_Backup (sample_entries ! i)) (en_Before (sample_entries ! i))"
  "i < 3 \<Longrightarrow> true_copy sample_engine (sample_operation status) sample_files (en_Candidate (sample_entries ! i)) (en_After (sample_entries ! i))"
  unfolding below_three
  by (rule true_copy_identity, simp add: sample_engine_def, elim disjE; hypsubst; code_simp)+

lemma sample_stored:
  "i < 3 \<Longrightarrow> fp_Exists (en_Before (sample_entries ! i)) \<Longrightarrow>
    stored sample_engine (sample_operation status) sample_files (en_Backup (sample_entries ! i)) (en_Before (sample_entries ! i))"
proof -
  have "\<not> fp_Exists (en_Before (sample_entries ! 2))" by code_simp
  moreover have "stored sample_engine (sample_operation status) sample_files
      (en_Backup (sample_entries ! i)) (en_Before (sample_entries ! i))" if "i < 2" for i
    using that unfolding less_2_cases_iff by - (elim disjE; hypsubst; rule stored_check; code_simp)
  ultimately show "i < 3 \<Longrightarrow> fp_Exists (en_Before (sample_entries ! i)) \<Longrightarrow>
    stored sample_engine (sample_operation status) sample_files (en_Backup (sample_entries ! i)) (en_Before (sample_entries ! i))"
    unfolding below_three by (elim disjE) simp_all
qed

lemma sample_plan_sound: "plan_sound sample_engine (sample_operation status) 11 4 [1, 1, 1] sample_files"
proof -
  have "dir_at sample_files (JoinPath (eg_assets sample_engine) (op_ID (sample_operation status))) = Inr 4"
    unfolding sample_operation_def by code_simp
  moreover have "distinct (zip [1, 1, 1 :: nat] (map (\<lambda>en. Base (en_Path en)) sample_entries))"
    by code_simp
  moreover have "length (fs_nodes sample_files) = 11" by code_simp
  ultimately show ?thesis
    unfolding plan_sound_def
    using sample_files_ok sample_entry_checks sample_parents sample_copies sample_stored
    by (simp add: Let_def)
qed

lemma sample_untried:
  assumes "i < 3"
  shows "untried (cd_hash (eg_codec sample_engine)) (sample_operation status) i (sample_entries ! i) ([1, 1, 1] ! i) sample_files"
  using assms unfolding below_three untried_def
  by - (elim disjE; hypsubst; intro conjI shows_file_check [where limit = 100]; code_simp)

section \<open>The sample runs\<close>

text \<open>With all calls succeeding the plan is applied; with the twentieth call and all later ones failing it is not.\<close>

lemma sample_applied:
  "case apply_operation sample_engine sample_id ''tp'' False (sample_machine None Ready sample_files) of
     (Inl _, _) \<Rightarrow> False
   | (Inr op', m') \<Rightarrow> op_Status op' = Committed \<and> lookup (mc_files m') 1 ''old.conf'' = None
       \<and> content_of (fs_nodes (mc_files m') ! the (lookup (mc_files m') 1 ''app.conf'')) = ''new''"
  by code_simp

end
