(* ===== verification/Recovery_Guarantees.thy ===== *)
theory Recovery_Guarantees
  imports Recovery_Runs Recovery_Sample
begin

text \<open>
  What the recovery engine promises: an interrupted change is undone, nothing foreign is overwritten, and a
  reported success is a verified one.  Each theorem is applied to the machine of \<open>Recovery_Sample\<close>.
\<close>

section \<open>Undoing a change\<close>

text \<open>
  C3: An interrupted change is undone.  Start from a prepared plan whose destinations show their originals.
  However the system calls of its application are answered, and wherever it is cut off by errors, every
  entry ends up at its original, at its candidate or in its quarantine; and a later run of the restoration
  in which the calls succeed restores every destination to its original content, mode and owner without
  reporting a failure.
\<close>

theorem interrupted_apply_recovers:
  assumes "settled False m" "plan_sound eg op n a ps (mc_files m)"
    and "\<And>i. i < length ps \<Longrightarrow> untried (cd_hash (eg_codec eg)) op i (entry_at op i) (ps ! i) (mc_files m)"
    and "apply_entries eg op 0 (mf_Entries (op_Plan op)) m = (r, m1)"
    and "settled True m2" "mc_files m2 = mc_files m1" "eg_fault eg = None"
  shows "case restore_entries eg op (rev (enumerate 0 (mf_Entries (op_Plan op)))) m2 of (r', m3) \<Rightarrow>
    r' = Inr [] \<and> (\<forall>i < length ps. shows_file (cd_hash (eg_codec eg)) (mc_files m3) (ps ! i)
      (Base (en_Path (entry_at op i))) (en_Before (entry_at op i)) False)"
proof -
  let ?hash = "cd_hash (eg_codec eg)"
  have "applied_upto ?hash n op ps 0 (mc_files m)"
    using assms(3) untried_begun by (simp add: applied_upto_def)
  from wp_run [OF wp_apply_entries [OF assms(2) this] assms(1)]
  have "all_begun eg op n a ps (mc_files m1)"
    by (cases r) (auto simp: assms(4) all_begun_def applied_upto_def)
  then have "plan_sound eg op n a ps (mc_files m2)" "restored_from ?hash n op ps (length ps) (mc_files m2)"
    by (simp_all add: assms(6) all_begun_def restored_from_def begun_def)
  note run = wp_run [OF wp_restore_entries [OF assms(7) this order_refl] assms(5)]
  obtain r' m3 where m3: "restore_entries eg op (rev (enumerate 0 (mf_Entries (op_Plan op)))) m2 = (r', m3)"
    by fastforce
  show ?thesis
    using run plan_soundD(3) [OF assms(2)] by (cases r') (simp_all add: m3 restored_from_def)
qed

theorem interrupted_apply_recovers_witness:
  "case apply_entries sample_engine (sample_operation Applying) 0 sample_entries (sample_machine (Some 20) Applying sample_files) of
     (r, m1) \<Rightarrow> case restore_entries sample_engine (sample_operation Applying) (rev (enumerate 0 sample_entries))
         (sample_machine None Applying (mc_files m1)) of (r', m3) \<Rightarrow>
       r' = Inr [] \<and> shows_file (\<lambda>s. s) (mc_files m3) 1 ''old.conf'' (en_Before (sample_entries ! 1)) False"
proof -
  let ?m = "sample_machine (Some 20) Applying sample_files"
  let ?op = "sample_operation Applying"
  obtain r m1 where run: "apply_entries sample_engine ?op 0 sample_entries ?m = (r, m1)" by fastforce
  have untried: "untried (cd_hash (eg_codec sample_engine)) ?op i (entry_at ?op i) ([1, 1, 1] ! i) (mc_files ?m)"
    if "i < length [1, 1, 1 :: nat]" for i
    using sample_untried [of i Applying] that by (simp add: entry_at_def)
  have "eg_fault sample_engine = None" "Base (en_Path (sample_entries ! 1)) = ''old.conf''" by code_simp+
  moreover obtain r' m3 where run': "restore_entries sample_engine ?op (rev (enumerate 0 sample_entries))
      (sample_machine None Applying (mc_files m1)) = (r', m3)" by fastforce
  moreover have "case restore_entries sample_engine ?op (rev (enumerate 0 (mf_Entries (op_Plan ?op))))
        (sample_machine None Applying (mc_files m1)) of (r', m3) \<Rightarrow>
      r' = Inr [] \<and> (\<forall>i < length [1, 1, 1 :: nat]. shows_file (cd_hash (eg_codec sample_engine)) (mc_files m3) ([1, 1, 1] ! i)
        (Base (en_Path (entry_at ?op i))) (en_Before (entry_at ?op i)) False)"
    by (rule interrupted_apply_recovers [where m = ?m and n = 11 and a = 4 and r = r and ?m1.0 = m1])
      (use sample_settled sample_plan_sound run untried calculation in simp_all)
  ultimately show ?thesis
    by (auto simp: run run' entry_at_def)
qed

text \<open>
  C30: Restoring an entry never overwrites a file the operation did not put there.  However the system calls
  are answered, and wherever the restoration is interrupted, a destination that does not show the
  operation's output is left as it is, together with every other file; otherwise it shows afterwards what
  it showed before or the original, and the restoration is reported only when it shows the original.
\<close>

theorem restore_never_overwrites:
  assumes "settled False m" "files_ok (mc_files m)" "entry_ok op i en" "parent_at (mc_files m) en p"
    and "true_copy eg op (mc_files m) (en_Backup en) (en_Before en)"
    and "restoreEntry eg op en i m = (r, m')"
  shows "(\<not> shows_file (cd_hash (eg_codec eg)) (mc_files m) p (Base (en_Path en)) (en_After en) False
            \<longrightarrow> mc_files m' = mc_files m)
    \<and> ((\<forall>limit. read_at (cd_hash (eg_codec eg)) (mc_files m') p (Base (en_Path en)) limit =
                 read_at (cd_hash (eg_codec eg)) (mc_files m) p (Base (en_Path en)) limit)
        \<or> shows_file (cd_hash (eg_codec eg)) (mc_files m') p (Base (en_Path en)) (en_Before en) False)
    \<and> (r = Inr () \<longrightarrow> shows_file (cd_hash (eg_codec eg)) (mc_files m') p (Base (en_Path en)) (en_Before en) False)"
proof -
  have "wp False (restoreEntry eg op en i)
      (\<lambda>_ s' fs'. restore_keeps (cd_hash (eg_codec eg)) op i en p (mc_files m) fs'
        \<and> shows_file (cd_hash (eg_codec eg)) fs' p (Base (en_Path en)) (en_Before en) False)
      (\<lambda>_ s' fs'. \<not> False \<and> restore_keeps (cd_hash (eg_codec eg)) op i en p (mc_files m) fs') (mc_store m) (mc_files m)"
    by (rule wp_restoreEntry [OF assms(2-5)]) simp
  from wp_run [OF this assms(1)] show ?thesis
    by (cases r) (simp_all add: assms(6) restore_keeps_def)
qed

theorem restore_never_overwrites_witness:
  "case restoreEntry sample_engine (sample_operation Applying) (sample_entries ! 1) 1
      (sample_machine (Some 20) Applying sample_files) of (r, m') \<Rightarrow> mc_files m' = sample_files"
proof -
  let ?m = "sample_machine (Some 20) Applying sample_files"
  obtain r m' where run: "restoreEntry sample_engine (sample_operation Applying) (sample_entries ! 1) 1 ?m = (r, m')"
    by fastforce
  have "en_Action (sample_entries ! 1) = ''delete''" "Base (en_Path (sample_entries ! 1)) = ''old.conf''"
    "\<not> fp_Exists (en_After (sample_entries ! 1))" "lookup sample_files 1 ''old.conf'' = Some 6" by code_simp+
  moreover have "well_formed_files sample_files" using sample_files_ok by (simp add: files_ok_def)
  ultimately have "\<not> shows_file (cd_hash (eg_codec sample_engine)) (mc_files ?m) 1 (Base (en_Path (sample_entries ! 1)))
      (en_After (sample_entries ! 1)) False"
    by (auto dest: shows_absent)
  with restore_never_overwrites [where m = ?m and p = 1 and r = r and m' = m', OF _ _ _ _ _ run]
    sample_settled sample_files_ok sample_entry_checks [of 1] sample_parents [of 1] sample_copies(1) [of 1]
  have "mc_files m' = sample_files" by simp
  then show ?thesis by (simp only: run prod.case)
qed

section \<open>Applying a change\<close>

lemma sample_machine_store [simp]: "mc_store (sample_machine failing status fs) = sample_store status"
  by (simp add: sample_machine_def)

lemma sample_journal:
  "journal_alone (mc_store (sample_machine failing status fs))" "keyed (mc_store (sample_machine failing status fs))"
  by (simp_all add: sample_store_def quiet_store_def journal_alone_def keyed_def empty_db_def sample_operation_def)

text \<open>
  C4: Files are changed only under a reviewed plan.  However the calls are answered, applying an operation
  leaves every existing file and directory as it is, unless the journal had under that id an operation that
  was ready and not yet started, with exactly the digest that was approved, made under the current policy for
  this machine and of the requested kind, and each entry of its stored plan, within the current limits and
  roots, was found exactly as prepared.  No other process writes the journal's rows meanwhile.
\<close>

theorem apply_acts_on_reviewed_plan:
  assumes "settled False m" "journal_alone (mc_store m)"
  shows "case apply_operation eg k digest service m of (r, m') \<Rightarrow>
    only_adds (mc_files m) (mc_files m')
    \<or> (\<exists>op fs. journaled eg k (mc_store m) op \<and> reviewed eg digest service op
          \<and> only_adds (mc_files m) fs \<and> plan_ready eg fs op)"
proof -
  let ?ok = "\<lambda>fs'. only_adds (mc_files m) fs' \<or> (\<exists>op fs. journaled eg k (mc_store m) op \<and> reviewed eg digest service op
      \<and> only_adds (mc_files m) fs \<and> plan_ready eg fs op)"
  have "wp False (apply_operation eg k digest service) (\<lambda>_ _. ?ok) (\<lambda>_ _. ?ok) (mc_store m) (mc_files m)"
    by (rule wp_apply_operation [where digest = digest and service = service and k = k]) (use assms(2) in blast)+
  from wp_run [OF this assms(1)] show ?thesis by (auto split: prod.splits sum.splits)
qed

theorem apply_acts_on_reviewed_plan_witness:
  "case apply_operation sample_engine sample_id ''tp'' False (sample_machine None Ready sample_files) of (r, m') \<Rightarrow>
    lookup (mc_files m') 1 ''old.conf'' = None
    \<and> (\<exists>op fs. journaled sample_engine sample_id (sample_store Ready) op \<and> reviewed sample_engine ''tp'' False op
          \<and> only_adds sample_files fs \<and> plan_ready sample_engine fs op)"
proof -
  have "lookup sample_files 1 ''old.conf'' = Some 6" by code_simp
  then show ?thesis
    using apply_acts_on_reviewed_plan [OF sample_settled(1) [of None Ready sample_files] sample_journal(1), where eg = sample_engine and k = sample_id
        and digest = "''tp''" and service = False]
      sample_applied
    by (auto simp: only_adds_def split: prod.splits sum.splits)
qed

text \<open>
  C31: A committed operation is applied.  Whatever calls fail on the way, when applying an operation reports
  success, the journal has the operation as committed, and either it was committed before, is returned as it
  is stored and no existing file has changed, or it was stored as ready with the approved digest and now
  every entry of its stored plan shows the planned content, mode and owner at its destination, or is gone
  where a deletion was planned.  No other process writes the journal's rows meanwhile.
\<close>

theorem committed_means_applied:
  assumes "settled False m" "journal_alone (mc_store m)" "keyed (mc_store m)"
  shows "case apply_operation eg k digest service m of
      (Inl e, m') \<Rightarrow> True
    | (Inr op', m') \<Rightarrow> op_Status op' = Committed \<and> journal_status (mc_store m') k = Some Committed
        \<and> (\<exists>op. journaled eg k (mc_store m) op \<and> op_Plan op' = op_Plan op
             \<and> (op_Status op = Committed \<and> op' = op \<and> only_adds (mc_files m) (mc_files m')
                \<or> reviewed eg digest service op
                  \<and> list_all (\<lambda>en. entry_shows eg (mc_files m') en (en_After en)) (mf_Entries (op_Plan op))))"
proof -
  let ?done = "\<lambda>op' s' fs'. op_Status op' = Committed \<and> journal_status s' k = Some Committed
     \<and> (\<exists>op. journaled eg k (mc_store m) op \<and> op_Plan op' = op_Plan op
          \<and> (op_Status op = Committed \<and> op' = op \<and> only_adds (mc_files m) fs'
             \<or> reviewed eg digest service op \<and> list_all (\<lambda>en. entry_shows eg fs' en (en_After en)) (mf_Entries (op_Plan op))))"
  have before: "?done op s' fs'" if "only_adds (mc_files m) fs'" "same_journal (mc_store m) s'"
    "journaled eg k (mc_store m) op" "op_Status op = Committed" for op s' fs'
  proof -
    have "journaled eg k s' op" using that(3) journaled_same [OF that(2) assms(2)] by simp
    then have "journal_status s' k = Some Committed" using that(4) by (simp add: journaled_status)
    then show ?thesis using that by blast
  qed
  have now: "?done op' s' fs'" if "reviewed eg digest service op" "journaled eg k (mc_store m) op"
    "applied_as eg op op' s' fs'" for op op' s' fs'
  proof -
    have "op_ID op = k" using that(2) assms(3) by (simp add: keyed_def journaled_def)
    then show ?thesis using that by (auto simp: applied_as_def)
  qed
  have "wp False (apply_operation eg k digest service) ?done (\<lambda>_ _ _. True) (mc_store m) (mc_files m)"
  proof (rule wp_apply_operation [where digest = digest and service = service and k = k], goal_cases)
    case (2 op s' fs')
    then show ?case by (rule before) (rule assms(2))
  next
    case (3 op op' fs1 s' fs')
    show ?case by (rule now [OF 3(2) 3(4) [OF assms(2)] 3(5)])
  qed simp_all
  from wp_run [OF this assms(1)] show ?thesis by (auto split: prod.splits sum.splits)
qed

theorem committed_means_applied_witness:
  "case apply_operation sample_engine sample_id ''tp'' False (sample_machine None Ready sample_files) of
      (Inl e, m') \<Rightarrow> False
    | (Inr op', m') \<Rightarrow> op_Status op' = Committed \<and> journal_status (mc_store m') sample_id = Some Committed
        \<and> (\<exists>op. journaled sample_engine sample_id (sample_store Ready) op \<and> op_Plan op' = op_Plan op
             \<and> reviewed sample_engine ''tp'' False op
             \<and> list_all (\<lambda>en. entry_shows sample_engine (mc_files m') en (en_After en)) (mf_Entries (op_Plan op)))"
proof -
  have "lookup sample_files 1 ''old.conf'' = Some 6" by code_simp
  then show ?thesis
    using committed_means_applied [OF sample_settled(1) [of None Ready sample_files] sample_journal, where eg = sample_engine and k = sample_id
        and digest = "''tp''" and service = False]
      sample_applied
    by (auto simp: only_adds_def split: prod.splits sum.splits)
qed

text \<open>
  C32: A recovered operation is restored.  Whatever calls fail on the way, when recovering an operation
  reports success it is journaled as recovered, and every entry's destination shows its original; only an
  operation that was recovered before is returned without looking at the files.
\<close>

theorem recovered_means_restored:
  assumes "settled False m"
  shows "case recoverLocked eg op m of
      (Inl e, m') \<Rightarrow> True
    | (Inr op', m') \<Rightarrow> op_Status op' = Recovered
        \<and> (op_Status op = Recovered
           \<or> list_all (\<lambda>en. entry_shows eg (mc_files m') en (en_Before en)) (mf_Entries (op_Plan op)))"
proof (cases "op_Status op = Recovered")
  case True
  then show ?thesis by (simp add: recoverLocked_def return_db_def)
next
  case False
  from wp_run [OF wp_recoverLocked [OF this, of eg] assms] show ?thesis
    by (auto simp: list_all_iff split: prod.splits sum.splits)
qed

theorem recovered_means_restored_witness:
  "case recoverLocked sample_engine (sample_operation Applying) (sample_machine None Applying sample_files) of
      (Inl e, m') \<Rightarrow> False
    | (Inr op', m') \<Rightarrow> op_Status op' = Recovered
        \<and> list_all (\<lambda>en. entry_shows sample_engine (mc_files m') en (en_Before en)) sample_entries"
proof -
  let ?m = "sample_machine None Applying sample_files"
  have "case recoverLocked sample_engine (sample_operation Applying) ?m of (Inl e, m') \<Rightarrow> False | (Inr op', m') \<Rightarrow> True"
    by code_simp
  moreover have "op_Status (sample_operation Applying) \<noteq> Recovered" by code_simp
  ultimately show ?thesis
    using recovered_means_restored [OF sample_settled(1), where eg = sample_engine and op = "sample_operation Applying"
        and failing1 = None and status1 = Applying and fs1 = sample_files]
    by (auto split: prod.splits sum.splits)
qed

text \<open>
  C33: Reconciling settles an interrupted operation in the journal without touching what it left.  It changes
  no existing file.  On success the row of the operation, which was there before, has the status of the
  operation returned: failed preparation where it was being prepared, unknown where it was being validated,
  applied, verified or rolled back; otherwise no row of the journal has changed.  The other rows never
  change, and after an error none has.  No other process writes the journal's rows meanwhile.
\<close>

theorem reconcile_settles:
  assumes "settled False m" "journal_alone (mc_store m)" "keyed (mc_store m)"
  shows "case Reconcile eg k m of (r, m') \<Rightarrow>
    let rows = db_operations (st_db (mc_store m)); rows' = db_operations (st_db (mc_store m')) in
    only_adds (mc_files m) (mc_files m')
    \<and> (case r of Inl e \<Rightarrow> rows' = rows
       | Inr op' \<Rightarrow> \<exists>before. map_of rows k = Some before
           \<and> journal_status (mc_store m') k = Some (op_Status op')
           \<and> (if ro_Status before = Preparing then op_Status op' = PreparationFailed
              else if ro_Status before \<in> {Validating, Applying, Verifying, RollingBack} then op_Status op' = Unknown
              else rows' = rows \<and> op_Status op' = ro_Status before)
           \<and> (\<forall>j. j \<noteq> k \<longrightarrow> map_of rows' j = map_of rows j))"
proof -
  let ?rows = "db_operations (st_db (mc_store m))"
  let ?failed = "\<lambda>(e :: recovery_error) s' fs'. only_adds (mc_files m) fs' \<and> db_operations (st_db s') = ?rows"
  let ?done = "\<lambda>op' s' fs'. only_adds (mc_files m) fs' \<and> (\<exists>before. map_of ?rows k = Some before
     \<and> journal_status s' k = Some (op_Status op')
     \<and> (if ro_Status before = Preparing then op_Status op' = PreparationFailed
        else if ro_Status before \<in> {Validating, Applying, Verifying, RollingBack} then op_Status op' = Unknown
        else db_operations (st_db s') = ?rows \<and> op_Status op' = ro_Status before)
     \<and> (\<forall>j. j \<noteq> k \<longrightarrow> map_of (db_operations (st_db s')) j = map_of ?rows j))"
  have settles: "wp False (if op_Status op = Preparing
       then save eg op PreparationFailed ''preparation interrupted; create a fresh plan''
       else if List.member [Validating, Applying, Verifying, RollingBack] (op_Status op)
       then save eg op Unknown ''execution interrupted; compare target state and recover explicitly''
       else return_db op) ?done ?failed s fs"
    if files: "only_adds (mc_files m) fs" and s: "same_journal (mc_store m) s" and stored: "journaled eg k (mc_store m) op"
    for op s fs
  proof -
    have alone: "journal_alone s" "db_operations (st_db s) = ?rows"
      using s assms(2) by (simp_all add: same_journal_def)
    have row: "map_of ?rows k = Some (op_Record op)" "op_ID op = k"
      using stored assms(3) by (simp_all add: journaled_def keyed_def)
    show ?thesis
      using files alone row by (intro wp_if wp_save wp_return) (auto simp: same_journal_def journal_status_def)
  qed
  have "wp False (Reconcile eg k) ?done ?failed (mc_store m) (mc_files m)"
    unfolding Reconcile_def
    by (intro wp_then wp_locked wp_Inspect settles) (use assms(2) in \<open>auto simp: same_journal_def\<close>)
  from wp_run [OF this assms(1)] show ?thesis by (auto simp: Let_def split: prod.splits sum.splits)
qed

theorem reconcile_settles_witness:
  "case Reconcile sample_engine sample_id (sample_machine None Applying sample_files) of (r, m') \<Rightarrow>
    only_adds sample_files (mc_files m') \<and> journal_status (mc_store m') sample_id = Some Unknown"
proof -
  have "case Reconcile sample_engine sample_id (sample_machine None Applying sample_files) of (r, m') \<Rightarrow> isl r = False"
    "map_option ro_Status (map_of (db_operations (st_db (sample_store Applying))) sample_id) = Some Applying"
    "Applying \<noteq> Preparing"
    by code_simp+
  then show ?thesis
    using reconcile_settles [OF sample_settled(1) [of None Applying sample_files] sample_journal, where eg = sample_engine and k = sample_id]
    by (auto simp: Let_def split: prod.splits sum.splits)
qed

end
