(* ===== verification/Recovery_Budget.thy ===== *)
theory Recovery_Budget
  imports Recovery_Runs Recovery_Sample
begin

text \<open>
  The budget of repair attempts a model may spend on one operation: the attempts are rows of the table of
  measurements, numbered from 1, and the engine reserves an attempt by adding one.
\<close>

section \<open>Numbered measurements\<close>

text \<open>The measurements of every operation are numbered from 1 in the order of the table, at most 128 of them,
  and the journal has every operation under its id.\<close>

definition checks_ok :: "state_db \<Rightarrow> bool" where
  "checks_ok d \<longleftrightarrow> (\<forall>k. map rk_Sequence (checks_of k d) = map int [1..<length (checks_of k d) + 1]
     \<and> length (checks_of k d) \<le> 128) \<and> (\<forall>k op. map_of (db_operations d) k = Some op \<longrightarrow> ro_ID op = k)"

definition repairs_of :: "string \<Rightarrow> state_db \<Rightarrow> int" where
  "repairs_of k d = repairs_used (checks_of k d)"

lemma foldl_max_upto: "foldl max (0::int) (map int [1..<n + 1]) = int n"
  by (induction n) simp_all

lemma next_sequence_ok: "checks_ok d \<Longrightarrow> next_sequence k d = int (length (checks_of k d)) + 1"
  using foldl_max_upto [of "length (checks_of k d)"] by (simp add: checks_ok_def next_sequence_def)

lemma record_check_ok:
  assumes "record_check op kind evidence now d = Inr (c, d')" "checks_ok d"
  shows "checks_ok d' \<and> repairs_of k d' = repairs_of k d + (if k = ro_ID op \<and> kind = ''model_repair_attempt'' then 1 else 0)"
proof -
  let ?n = "int (length (checks_of (ro_ID op) d)) + 1"
  from assms have d': "d' = d\<lparr>db_checks := db_checks d @ [(ro_ID op, c)]\<rparr>" "rk_Sequence c = ?n" "rk_Kind c = kind" "?n \<le> 128"
    by (auto simp: record_check_def Let_def next_sequence_ok split: if_splits option.splits)
  have checks: "checks_of j d' = checks_of j d @ (if j = ro_ID op then [c] else [])" for j
    by (simp add: d'(1) checks_of_def)
  have "map rk_Sequence (checks_of j d') = map int [1..<length (checks_of j d') + 1]
      \<and> length (checks_of j d') \<le> 128" for j
    using assms(2) d'(2,4) by (auto simp: checks checks_ok_def)
  moreover have "db_operations d' = db_operations d" by (simp add: d'(1))
  ultimately show ?thesis
    using assms(2) d'(3) by (simp add: checks_ok_def checks repairs_of_def repairs_used_def)
qed

lemma sorted_checks:
  assumes "checks_ok d"
  shows "take 128 (sort_key rk_Sequence (checks_of k d)) = checks_of k d"
proof -
  have "sorted (map int [1..<n + 1])" for n
    by (induction n) (auto simp: sorted_append)
  then have "sorted (map rk_Sequence (checks_of k d))"
    using assms by (simp only: checks_ok_def)
  then have "sort_key rk_Sequence (checks_of k d) = checks_of k d" by (rule sort_key_id_if_sorted)
  then show ?thesis using assms by (simp add: checks_ok_def)
qed

section \<open>Reserving an attempt\<close>

definition alone :: "store \<Rightarrow> bool" where
  "alone st \<longleftrightarrow> st_others st = (\<lambda>_ d. d)"

lemma statement_alone:
  "alone st \<Longrightarrow> statement f st = (r, st') \<Longrightarrow> alone st' \<and>
     (case r of Inl _ \<Rightarrow> st_db st' = st_db st | Inr x \<Rightarrow> f (st_db st) = (x, st_db st'))"
  by (auto simp: alone_def statement_def Let_def split: exec_answer.splits prod.splits)

lemma GetRecoveryOperation_alone:
  assumes "GetRecoveryOperation k st = (r, st')" "alone st"
  shows "alone st' \<and> st_db st' = st_db st \<and> (\<forall>op. r = Inr op \<longrightarrow> map_of (db_operations (st_db st)) k = Some op)"
  using assms statement_alone [OF assms(2), of "\<lambda>d. (map_of (db_operations d) k, d)"]
  by (fastforce simp: GetRecoveryOperation_def when_available_def then_db_def return_db_def fail_db_def
      split: if_splits prod.splits sum.splits option.splits)

lemma RecoveryChecks_alone:
  assumes "RecoveryChecks k st = (r, st')" "alone st" "checks_ok (st_db st)"
  shows "alone st' \<and> st_db st' = st_db st \<and> (\<forall>cs. r = Inr cs \<longrightarrow> cs = checks_of k (st_db st))"
  using assms(1) statement_alone [OF assms(2), of "\<lambda>d. (take 128 (sort_key rk_Sequence (checks_of k d)), d)"]
    sorted_checks [OF assms(3), of k] assms(2)
  by (fastforce simp: RecoveryChecks_def when_available_def split: if_splits prod.splits sum.splits)

lemma RecordRecoveryCheck_alone:
  assumes "RecordRecoveryCheck valid op kind evidence st = (r, st')" "alone st"
  shows "alone st' \<and> (case r of Inl _ \<Rightarrow> st_db st' = st_db st
    | Inr c \<Rightarrow> \<exists>now. record_check op kind evidence now (st_db st) = Inr (c, st_db st'))"
proof (cases "\<not> st_available st \<or> ro_ID op = '''' \<or> 64 < length kind \<or> 65536 < length evidence \<or> \<not> valid evidence")
  case True
  then show ?thesis using assms by (auto simp: RecordRecoveryCheck_def fail_db_def)
next
  case False
  let ?now = "st_clock st (st_ticks st)" and ?st = "st\<lparr>st_ticks := st_ticks st + 1\<rparr>"
  let ?f = "\<lambda>d. case record_check op kind evidence ?now d of Inl e \<Rightarrow> (Inl e, d) | Inr (r, d') \<Rightarrow> (Inr r, d')"
  obtain r1 st1 where run: "statement ?f ?st = (r1, st1)" by fastforce
  have "alone ?st" using assms(2) by (simp add: alone_def)
  note step = statement_alone [OF this run]
  have "(r, st') = (case r1 of Inl e \<Rightarrow> (Inl e, st1) | Inr (Inl e) \<Rightarrow> (Inl e, st1) | Inr (Inr c) \<Rightarrow> (Inr c, st1))"
    using assms(1) False run
    by (simp add: RecordRecoveryCheck_def then_db_def clock_now_def transaction_def fail_db_def return_db_def
        split: sum.splits)
  then show ?thesis
    using step by (auto split: sum.splits prod.splits)
qed

text \<open>The effect of a reservation on the database: an attempt below the limit is counted, and nothing is written
  for an operation that is already recovered.\<close>

definition attempt_counted :: "engine \<Rightarrow> string \<Rightarrow> state_db \<Rightarrow> state_db \<Rightarrow> bool" where
  "attempt_counted eg k d d' \<longleftrightarrow> checks_ok d' \<and> repairs_of k d' = repairs_of k d + 1
     \<and> repairs_of k d < repair_limit (lm_MaxRepairAttempts (eg_limits eg))"

definition recovered_before :: "string \<Rightarrow> state_db \<Rightarrow> bool" where
  "recovered_before k d \<longleftrightarrow> map_option ro_Status (map_of (db_operations d) k) = Some Recovered"

lemma wp_Inspect_alone:
  assumes "alone s" "checks_ok (st_db s)" "\<And>e s'. alone s' \<Longrightarrow> st_db s' = st_db s \<Longrightarrow> E e s' fs"
    and "\<And>op s'. alone s' \<Longrightarrow> st_db s' = st_db s \<Longrightarrow> op_ID op = k \<Longrightarrow> op_Checks op = checks_of k (st_db s)
      \<Longrightarrow> map_of (db_operations (st_db s)) k = Some (op_Record op) \<Longrightarrow> Q op s' fs"
  shows "wp False (Inspect eg k) Q E s fs"
proof -
  have checks: "wp False (on_store (RecoveryChecks k)) (\<lambda>cs. wp False (return_db \<lparr>op_Record = r, op_Plan = plan, op_Checks = cs\<rparr>) Q E)
      E s' fs" if "alone s'" "st_db s' = st_db s" "ro_ID r = k" "map_of (db_operations (st_db s)) k = Some r" for r plan s'
  proof (rule wp_on_store)
    obtain c s1 where run: "RecoveryChecks k s' = (c, s1)" by fastforce
    have "alone s1" "st_db s1 = st_db s" "\<forall>cs. c = Inr cs \<longrightarrow> cs = checks_of k (st_db s)"
      using RecoveryChecks_alone [OF run that(1)] that(2) assms(2) by simp_all
    then show "case RecoveryChecks k s' of (r', s1) \<Rightarrow> (case r' of
        Inr cs \<Rightarrow> wp False (return_db \<lparr>op_Record = r, op_Plan = plan, op_Checks = cs\<rparr>) Q E s1 fs
      | Inl e \<Rightarrow> E (StoreErr e) s1 fs)"
      using that(3,4) by (cases c) (simp_all add: run assms(3) assms(4) wp_return)
  qed
  have plan: "wp False (case cd_decode (eg_codec eg) (ro_Manifest r) of
        None \<Rightarrow> fail_db (Problem ''decode manifest'')
      | Some plan \<Rightarrow>
          then_db (refuse_when (\<not> hex_id k \<or> mf_Version plan \<noteq> 1
                      \<or> planDigest (eg_codec eg) (ro_Target r) (ro_Policy r) plan \<noteq> ro_Digest r)
                    ''invalid or altered recovery manifest'') (\<lambda>_.
          then_db (refuse_when (ro_Target r \<noteq> eg_target eg) ''operation belongs to a different machine or principal'') (\<lambda>_.
          then_db (on_store (RecoveryChecks k)) (\<lambda>checks.
          return_db \<lparr>op_Record = r, op_Plan = plan, op_Checks = checks\<rparr>)))) Q E s' fs"
    if "alone s'" "st_db s' = st_db s" "map_of (db_operations (st_db s)) k = Some r" for r s'
    using checks [OF that(1,2)] that assms(2,3)
    by (cases "cd_decode (eg_codec eg) (ro_Manifest r)")
      (auto intro!: wp_fail wp_then wp_refuse_when simp: checks_ok_def)
  show ?thesis
    unfolding Inspect_def using GetRecoveryOperation_alone [of k s] plan assms(1,3)
    by (intro wp_then wp_on_store) (auto split: prod.splits sum.splits)
qed

lemma wp_reserve:
  assumes "alone s" "checks_ok (st_db s)" "op_ID op = k" "op_Checks op = checks_of k (st_db s)"
    and "most \<le> repair_limit (lm_MaxRepairAttempts (eg_limits eg))" "repairs_used (op_Checks op) < most"
  shows "wp False (record_check_for eg op ''model_repair_attempt'' evidence)
    (\<lambda>_ s' _. alone s' \<and> attempt_counted eg k (st_db s) (st_db s')) (\<lambda>_ s' _. alone s' \<and> st_db s' = st_db s) s fs"
proof -
  have one: "attempt_counted eg k (st_db s) (st_db s')" if
    "record_check (op_Record op) ''model_repair_attempt'' evidence now (st_db s) = Inr (c, st_db s')" for s' now c
    using record_check_ok [OF that assms(2), of k] assms(3-6) by (simp add: attempt_counted_def repairs_of_def)
  show ?thesis
    unfolding record_check_for_def
  proof (intro wp_then wp_on_store, clarify)
    fix r s'
    assume "RecordRecoveryCheck (cd_valid (eg_codec eg)) (op_Record op) ''model_repair_attempt'' evidence s = (r, s')"
    from RecordRecoveryCheck_alone [OF this assms(1)] one
    show "case r of
        Inr check \<Rightarrow> wp False (return_db (op\<lparr>op_Checks := op_Checks op @ [check]\<rparr>))
          (\<lambda>_ s' _. alone s' \<and> attempt_counted eg k (st_db s) (st_db s')) (\<lambda>_ s' _. alone s' \<and> st_db s' = st_db s) s' fs
      | Inl e \<Rightarrow> alone s' \<and> st_db s' = st_db s"
      by (cases r) (auto intro!: wp_return)
  qed
qed

text \<open>
  C34: A model cannot repair without end.  However the calls and the database answer, a repair attempt is
  granted only if the operation is already recovered, and then nothing is written, or if the attempts
  recorded for it were below the limit the operator has configured, and then exactly one more is recorded;
  a refusal records nothing.  The measurements stay numbered, so the bound holds for any sequence of
  reservations.
\<close>

theorem repair_budget_kept:
  assumes "settled False m" "alone (mc_store m)" "checks_ok (st_db (mc_store m))"
  shows "case ReserveModelRepair eg k digest m of (r, m') \<Rightarrow>
    let d = st_db (mc_store m); d' = st_db (mc_store m'); limit = repair_limit (lm_MaxRepairAttempts (eg_limits eg)) in
    settled False m' \<and> alone (mc_store m') \<and> checks_ok d'
    \<and> repairs_of k d' \<le> max (repairs_of k d) limit
    \<and> (case r of
         Inl e \<Rightarrow> d' = d
       | Inr _ \<Rightarrow> map_option ro_Status (map_of (db_operations d) k) = Some Recovered \<and> d' = d
           \<or> repairs_of k d < limit \<and> repairs_of k d' = repairs_of k d + 1)"
proof -
  let ?s = "mc_store m" and ?limit = "\<lambda>l. repair_limit (lm_MaxRepairAttempts l)"
  let ?failed = "\<lambda>_ s' _. alone s' \<and> st_db s' = st_db ?s"
  let ?granted = "\<lambda>_ s' _. alone s' \<and> (recovered_before k (st_db ?s) \<and> st_db s' = st_db ?s
     \<or> attempt_counted eg k (st_db ?s) (st_db s'))"
  have reserve: "wp False (if op_Status op = Recovered then return_db () else
      (let ceiling = min (?limit (eg_limits eg)) (?limit (mf_Limits (op_Plan op))); used = repairs_used (op_Checks op) in
       then_db (refuse_when (ceiling \<le> used)
                 ''model repair-attempt budget exhausted; inspect and use the provider-independent operator recovery CLI'') (\<lambda>_.
       then_db (record_check_for eg op ''model_repair_attempt'' (cd_attempt (eg_codec eg) (used + 1) ceiling)) (\<lambda>_.
       return_db ())))) ?granted ?failed s fs"
    if op: "alone s" "st_db s = st_db ?s" "op_ID op = k" "op_Checks op = checks_of k (st_db ?s)"
      "map_of (db_operations (st_db ?s)) k = Some (op_Record op)" for op s fs
  proof -
    let ?ceiling = "min (?limit (eg_limits eg)) (?limit (mf_Limits (op_Plan op)))"
    have "wp False (record_check_for eg op ''model_repair_attempt'' ev) (\<lambda>_. wp False (return_db ()) ?granted ?failed) ?failed s fs"
      if "\<not> ?ceiling \<le> repairs_used (op_Checks op)" for ev
      by (rule wp_mono [OF wp_reserve [where most = ?ceiling and k = k]])
        (use op assms(3) that in \<open>auto intro!: wp_return\<close>)
    moreover have "recovered_before k (st_db ?s)" if "op_Status op = Recovered"
      using op(5) that by (simp add: recovered_before_def)
    ultimately show ?thesis
      unfolding Let_def using op(1,2)
      by (intro wp_if wp_then wp_refuse_when) (simp_all add: wp_return)
  qed
  have "wp False (ReserveModelRepair eg k digest) ?granted ?failed ?s (mc_files m)"
    unfolding ReserveModelRepair_def
    by (intro wp_then wp_locked wp_Inspect_alone wp_refuse_when reserve) (use assms in simp_all)
  from wp_run [OF this assms(1)] assms(3) show ?thesis
    by (auto simp: attempt_counted_def recovered_before_def Let_def split: prod.splits sum.splits)
qed

theorem repair_budget_kept_witness:
  "case ReserveModelRepair sample_engine sample_id ''tp'' (sample_machine None Applying sample_files) of (r, m') \<Rightarrow>
    r = Inr () \<and> repairs_of sample_id (st_db (mc_store m')) = 1
    \<and> repairs_of sample_id (st_db (mc_store m')) = repairs_of sample_id (st_db (sample_store Applying)) + 1
    \<and> repairs_of sample_id (st_db (sample_store Applying)) < repair_limit (lm_MaxRepairAttempts DefaultLimits)"
proof -
  let ?m = "sample_machine None Applying sample_files"
  have "case ReserveModelRepair sample_engine sample_id ''tp'' ?m of
      (r, m') \<Rightarrow> r = Inr () \<and> repairs_of sample_id (st_db (mc_store m')) = 1" by code_simp
  moreover have "map_option ro_Status (map_of (db_operations (st_db (sample_store Applying))) sample_id) = Some Applying"
    "Applying \<noteq> Recovered" by code_simp+
  moreover have "mc_store ?m = sample_store Applying" by (simp add: sample_machine_def)
  moreover have "alone (mc_store ?m)" "checks_ok (st_db (mc_store ?m))"
    by (simp_all add: sample_machine_def sample_store_def quiet_store_def alone_def checks_ok_def checks_of_def
        empty_db_def sample_operation_def)
  moreover have "eg_limits sample_engine = DefaultLimits" by (simp add: sample_engine_def)
  ultimately show ?thesis
    using repair_budget_kept [OF sample_settled(1) [of None Applying sample_files],
        where eg = sample_engine and k = sample_id and digest = "''tp''"]
    by (auto simp: Let_def split: prod.splits)
qed

end
