(* ===== verification/System_Cron.thy ===== *)
theory System_Cron
  imports State_DB Quantity
begin

text \<open>
  Editing the user's crontab: the document of \<open>systemcron/systemcron.go\<close>, and the tool of
  \<open>tools/system_cron.go\<close> that lets a model propose a change and a human apply it.  The \<open>crontab\<close> command and
  the terminal answer from a record; \<open>hash\<close> is the hexadecimal SHA-256 of a line.
\<close>

section \<open>Lines\<close>

definition metadataPrefix :: string where
  "metadataPrefix = ''# cvkeharness:id=''"

record cron_entry =
  ce_ID :: string
  ce_Line :: nat
  ce_Schedule :: string
  ce_Command :: string
  ce_Raw :: string
  ce_Disabled :: bool
  ce_Managed :: bool
  ce_Hash :: string

definition hashLine :: "(string \<Rightarrow> string) \<Rightarrow> string \<Rightarrow> string" where
  "hashLine hash line = take 16 (hash line)"

definition splitLines :: "string \<Rightarrow> string list" where
  "splitLines content = (let c = TrimRight content [LF] in if c = '''' then [] else SplitByte LF c)"

text \<open>A value, a range, or \<open>*\<close>; each may have a step.\<close>

definition valid_base :: "int \<Rightarrow> int \<Rightarrow> string \<Rightarrow> bool" where
  "valid_base low high base \<longleftrightarrow>
     base = ''*''
     \<or> (if ContainsByte base CHR ''-''
        then (case SplitByte CHR ''-'' base of
            [x, y] \<Rightarrow> (case (Atoi x, Atoi y) of
                (Some a, Some b) \<Rightarrow> \<not> (b < a \<or> a < low \<or> high < b)
              | _ \<Rightarrow> False)
          | _ \<Rightarrow> False)
        else (case Atoi base of Some n \<Rightarrow> \<not> (n < low \<or> high < n) | None \<Rightarrow> False))"

definition valid_part :: "int \<Rightarrow> int \<Rightarrow> string \<Rightarrow> bool" where
  "valid_part low high part \<longleftrightarrow>
     part \<noteq> ''''
     \<and> (if ContainsByte part CHR ''/''
        then (case SplitByte CHR ''/'' part of
            [base, step] \<Rightarrow> (case Atoi step of Some n \<Rightarrow> 0 < n \<and> valid_base low high base | None \<Rightarrow> False)
          | _ \<Rightarrow> False)
        else valid_base low high part)"

definition validCronField :: "string \<Rightarrow> int \<Rightarrow> int \<Rightarrow> bool" where
  "validCronField raw low high \<longleftrightarrow> raw = ''*'' \<or> list_all (valid_part low high) (SplitByte CHR '','' raw)"

definition cron_ranges :: "(int \<times> int) list" where
  "cron_ranges = [(0, 59), (0, 23), (1, 31), (1, 12), (0, 7)]"

definition looksLikeCron :: "string \<Rightarrow> bool" where
  "looksLikeCron line \<longleftrightarrow>
     (let parts = Fields line in 6 \<le> length parts
        \<and> list_all (\<lambda>(p, low, high). validCronField p low high) (zip (take 5 parts) cron_ranges))"

definition splitCronLine :: "string \<Rightarrow> string \<times> string" where
  "splitCronLine line = (Join (take 5 (Fields line)) [SPC], Join (drop 5 (Fields line)) [SPC])"

definition isEnvLine :: "string \<Rightarrow> bool" where
  "isEnvLine line \<longleftrightarrow>
     \<not> HasPrefix line ''#''
     \<and> (case Index line ''='' of None \<Rightarrow> False | Some i \<Rightarrow> 0 < i \<and> \<not> ContainsAny (take i line) [SPC, TAB])"

section \<open>Parsing a crontab\<close>

text \<open>The candidate of a line, and whether it is commented out.\<close>

definition cron_candidate :: "string \<Rightarrow> bool \<times> string" where
  "cron_candidate trimmed =
     (if HasPrefix trimmed ''#'' then (True, TrimSpace (TrimPrefix trimmed ''#'')) else (False, trimmed))"

text \<open>One line: the pending identifier after it, and the entry it is, if it is one.\<close>

definition parse_line :: "(string \<Rightarrow> string) \<Rightarrow> nat \<Rightarrow> string \<Rightarrow> string \<Rightarrow> string \<times> cron_entry list" where
  "parse_line hash i pending line =
     (let trimmed = TrimSpace line in
      if HasPrefix trimmed metadataPrefix then (TrimSpace (TrimPrefix trimmed metadataPrefix), [])
      else if trimmed = '''' \<or> isEnvLine trimmed then ('''', [])
      else (let (disabled, candidate) = cron_candidate trimmed in
        if \<not> looksLikeCron candidate then (if disabled then pending else '''', [])
        else (let (schedule, command) = splitCronLine candidate in
          ('''', [\<lparr>ce_ID = pending, ce_Line = i, ce_Schedule = schedule, ce_Command = command, ce_Raw = line,
                   ce_Disabled = disabled, ce_Managed = pending \<noteq> '''', ce_Hash = hashLine hash line\<rparr>]))))"

fun parse_lines :: "(string \<Rightarrow> string) \<Rightarrow> nat \<Rightarrow> string \<Rightarrow> string list \<Rightarrow> cron_entry list" where
  "parse_lines hash i pending [] = []"
| "parse_lines hash i pending (line # rest) =
     (let (pending', found) = parse_line hash i pending line in found @ parse_lines hash (i + 1) pending' rest)"

definition Parse :: "(string \<Rightarrow> string) \<Rightarrow> string \<Rightarrow> cron_entry list" where
  "Parse hash content = parse_lines hash 0 '''' (splitLines content)"

datatype cron_error =
    CrontabFailed string
  | NotSingleLine
  | BadSchedule
  | EmptyCommand
  | NoRandom
  | EntryNotFound string
  | BadArguments
  | UnknownAction string
  | NotApproved

definition ValidateEntry :: "string \<Rightarrow> string \<Rightarrow> cron_error option" where
  "ValidateEntry schedule command =
     (if ContainsAny schedule [LF, CR, NUL] \<or> ContainsAny command [LF, CR, NUL] then Some NotSingleLine
      else if \<not> looksLikeCron (TrimSpace schedule @ [SPC] @ TrimSpace command) then Some BadSchedule
      else if TrimSpace command = '''' then Some EmptyCommand
      else None)"

text \<open>The first entry that has the target as its identifier, its hash, or its line number from 1 or from 0.\<close>

definition is_target :: "string \<Rightarrow> cron_entry \<Rightarrow> bool" where
  "is_target target en \<longleftrightarrow>
     ce_ID en \<noteq> '''' \<and> ce_ID en = target \<or> ce_Hash en = target
     \<or> int_text (int (ce_Line en) + 1) = target \<or> int_text (int (ce_Line en)) = target"

definition findEntry :: "cron_entry list \<Rightarrow> string \<Rightarrow> cron_entry option" where
  "findEntry ens target = find (is_target target) ens"

section \<open>Preparing a change\<close>

record cron_mutation =
  cm_Action :: string
  cm_Target :: string
  cm_Schedule :: string
  cm_Command :: string
  cm_Name :: string
  cm_OldContent :: string
  cm_NewContent :: string
  cm_Entry :: cron_entry

text \<open>The text of an added entry: an optional comment with its name, its identifier, and the entry.\<close>

definition added_lines :: "string \<Rightarrow> string \<Rightarrow> string \<Rightarrow> string list" where
  "added_lines name k raw = (if TrimSpace name \<noteq> '''' then [''# '' @ TrimSpace name] else []) @ [metadataPrefix @ k, raw]"

definition add_content :: "string \<Rightarrow> string \<Rightarrow> string \<Rightarrow> string \<Rightarrow> string" where
  "add_content content name k raw =
     (let b = TrimRight content [LF] in
      (if b = '''' then '''' else b @ [LF]) @ concat (map (\<lambda>l. l @ [LF]) (added_lines name k raw)))"

definition cron_raw :: "string \<Rightarrow> string \<Rightarrow> string" where
  "cron_raw schedule command = TrimSpace schedule @ [SPC] @ TrimSpace command"

definition added :: "(string \<Rightarrow> string) \<Rightarrow> string \<Rightarrow> string \<Rightarrow> string \<Rightarrow> string \<Rightarrow> string \<Rightarrow> cron_mutation" where
  "added hash content k schedule command name =
     (let raw = cron_raw schedule command in
     \<lparr>cm_Action = ''add'', cm_Target = k, cm_Schedule = TrimSpace schedule, cm_Command = TrimSpace command,
      cm_Name = TrimSpace name, cm_OldContent = content, cm_NewContent = add_content content name k raw,
      cm_Entry = \<lparr>ce_ID = k, ce_Line = 0, ce_Schedule = TrimSpace schedule, ce_Command = TrimSpace command,
        ce_Raw = raw, ce_Disabled = False, ce_Managed = True, ce_Hash = hashLine hash raw\<rparr>\<rparr>)"

text \<open>The lines after the entry's line is replaced; an empty replacement removes it, together with its
  identifier when that is in the line before.\<close>

definition rewrite_lines :: "string list \<Rightarrow> cron_entry \<Rightarrow> string \<Rightarrow> string list" where
  "rewrite_lines ls en raw =
     (if raw = '''' then
        (let start = (if ce_Managed en \<and> 0 < ce_Line en \<and> HasPrefix (TrimSpace (ls ! (ce_Line en - 1))) metadataPrefix
                      then ce_Line en - 1 else ce_Line en)
         in take start ls @ drop (ce_Line en + 1) ls)
      else ls[ce_Line en := raw])"

definition join_lines :: "string list \<Rightarrow> string" where
  "join_lines ls = (let c = Join ls [LF] in if TrimSpace c \<noteq> '''' then TrimRight c [LF] @ [LF] else c)"

definition rewritten ::
  "(string \<Rightarrow> string) \<Rightarrow> string \<Rightarrow> string \<Rightarrow> string \<Rightarrow> (cron_entry \<Rightarrow> string) \<Rightarrow> cron_error + cron_mutation" where
  "rewritten hash content action target replacement =
     (case findEntry (Parse hash content) target of
        None \<Rightarrow> Inl (EntryNotFound target)
      | Some en \<Rightarrow>
          (let raw = replacement en in
           Inr \<lparr>cm_Action = action, cm_Target = target, cm_Schedule = '''', cm_Command = '''', cm_Name = '''',
             cm_OldContent = content, cm_NewContent = join_lines (rewrite_lines (splitLines content) en raw),
             cm_Entry = en\<lparr>ce_Raw := raw, ce_Hash := hashLine hash raw\<rparr>\<rparr>))"

definition enabled_raw :: "bool \<Rightarrow> cron_entry \<Rightarrow> string" where
  "enabled_raw enabled en =
     (let raw = TrimSpace (ce_Raw en) in
      if enabled then TrimSpace (TrimPrefix raw ''#'')
      else if HasPrefix raw ''#'' then raw
      else ''# '' @ raw)"

definition prefixedLines :: "string \<Rightarrow> string \<Rightarrow> string" where
  "prefixedLines p text =
     (if text = '''' then p @ [LF] else concat (map (\<lambda>l. p @ l @ [LF]) (splitLines text)))"

definition cron_Diff :: "string \<Rightarrow> string \<Rightarrow> string" where
  "cron_Diff old new =
     (if old = new then ''(no changes)''
      else ''--- current crontab'' @ [LF] @ ''+++ proposed crontab'' @ [LF] @ prefixedLines ''-'' old @ prefixedLines ''+'' new)"

section \<open>The crontab and the client\<close>

text \<open>
  What the operations run in: the crontab of the user, the answers of the \<open>crontab\<close> command (an error text, or
  none), what other programs do to the crontab before a call, the random bytes, the choice the human makes
  when a difference is shown, and the audit table.  A failing installation leaves the crontab as it is.
\<close>

record cron_audit =
  ca_Action :: string
  ca_Target :: string
  ca_OldSnippet :: string
  ca_NewSnippet :: string
  ca_Success :: bool

record cron_host =
  ct_content :: string
  ct_answer :: "nat \<Rightarrow> string option"
  ct_others :: "nat \<Rightarrow> string \<Rightarrow> string"
  ct_random :: "nat \<Rightarrow> string option"
  ct_choice :: "nat \<Rightarrow> string \<Rightarrow> nat option"
  ct_recorded :: "nat \<Rightarrow> bool"
  ct_count :: nat
  ct_shown :: "string list"
  ct_audits :: "cron_audit list"

type_synonym 'a cron_op = "(cron_host, cron_error, 'a) state_op"

definition runner_List :: "string cron_op" where
  "runner_List h =
     (let n = ct_count h; c = ct_others h n (ct_content h); h' = h\<lparr>ct_count := n + 1, ct_content := c\<rparr>
      in case ct_answer h n of
           None \<Rightarrow> (Inr c, h')
         | Some msg \<Rightarrow> (if Contains (ToLower msg) ''no crontab'' then Inr '''' else Inl (CrontabFailed (TrimSpace msg)), h'))"

definition runner_Install :: "string \<Rightarrow> unit cron_op" where
  "runner_Install content h =
     (let n = ct_count h; c = ct_others h n (ct_content h); h' = h\<lparr>ct_count := n + 1\<rparr>
      in case ct_answer h n of
           None \<Rightarrow> (Inr (), h'\<lparr>ct_content := content\<rparr>)
         | Some msg \<Rightarrow> (Inl (CrontabFailed (TrimSpace msg)), h'\<lparr>ct_content := c\<rparr>))"

definition newCronID :: "string cron_op" where
  "newCronID h =
     (case ct_random h (ct_count h) of
        None \<Rightarrow> (Inl NoRandom, h)
      | Some b \<Rightarrow> (Inr (''cron_'' @ hex_encode b), h))"

definition List_entries :: "(string \<Rightarrow> string) \<Rightarrow> (cron_entry list \<times> string) cron_op" where
  "List_entries hash = then_db runner_List (\<lambda>content. return_db (Parse hash content, content))"

definition check_entry :: "string \<Rightarrow> string \<Rightarrow> unit cron_op" where
  "check_entry schedule command =
     (case ValidateEntry schedule command of Some e \<Rightarrow> fail_db e | None \<Rightarrow> return_db ())"

definition cron_Add :: "(string \<Rightarrow> string) \<Rightarrow> string \<Rightarrow> string \<Rightarrow> string \<Rightarrow> cron_mutation cron_op" where
  "cron_Add hash schedule command name =
     then_db (check_entry schedule command) (\<lambda>_.
     then_db (List_entries hash) (\<lambda>(_, content).
     then_db newCronID (\<lambda>k.
     return_db (added hash content k schedule command name))))"

definition cron_rewrite ::
  "(string \<Rightarrow> string) \<Rightarrow> string \<Rightarrow> string \<Rightarrow> (cron_entry \<Rightarrow> string) \<Rightarrow> cron_mutation cron_op" where
  "cron_rewrite hash action target replacement =
     then_db (List_entries hash) (\<lambda>(_, content).
       case rewritten hash content action target replacement of Inl e \<Rightarrow> fail_db e | Inr m \<Rightarrow> return_db m)"

definition cron_Update :: "(string \<Rightarrow> string) \<Rightarrow> string \<Rightarrow> string \<Rightarrow> string \<Rightarrow> cron_mutation cron_op" where
  "cron_Update hash target schedule command =
     then_db (check_entry schedule command) (\<lambda>_.
     cron_rewrite hash ''update'' target (\<lambda>_. cron_raw schedule command))"

definition cron_Remove :: "(string \<Rightarrow> string) \<Rightarrow> string \<Rightarrow> cron_mutation cron_op" where
  "cron_Remove hash target = cron_rewrite hash ''remove'' target (\<lambda>_. '''')"

definition cron_SetEnabled :: "(string \<Rightarrow> string) \<Rightarrow> string \<Rightarrow> bool \<Rightarrow> cron_mutation cron_op" where
  "cron_SetEnabled hash target enabled =
     cron_rewrite hash (if enabled then ''enable'' else ''disable'') target (enabled_raw enabled)"

definition cron_Apply :: "cron_mutation \<Rightarrow> unit cron_op" where
  "cron_Apply m = runner_Install (cm_NewContent m)"

section \<open>The tool\<close>

record cron_request =
  cq_Action :: string
  cq_Target :: string
  cq_Schedule :: string
  cq_Command :: string
  cq_Name :: string

definition cron_prepare :: "(string \<Rightarrow> string) \<Rightarrow> cron_request \<Rightarrow> cron_mutation cron_op" where
  "cron_prepare hash q =
     (if List.member [''add'', ''dry_run''] (cq_Action q) then cron_Add hash (cq_Schedule q) (cq_Command q) (cq_Name q)
      else if cq_Action q = ''update'' then cron_Update hash (cq_Target q) (cq_Schedule q) (cq_Command q)
      else if cq_Action q = ''remove'' then cron_Remove hash (cq_Target q)
      else if cq_Action q = ''enable'' then cron_SetEnabled hash (cq_Target q) True
      else if cq_Action q = ''disable'' then cron_SetEnabled hash (cq_Target q) False
      else fail_db (UnknownAction (cq_Action q)))"

text \<open>The audit of a preparation that failed has no mutation; a failing insertion is ignored.\<close>

definition cron_logged :: "cron_audit \<Rightarrow> cron_host \<Rightarrow> cron_host" where
  "cron_logged a h = (if ct_recorded h (length (ct_audits h)) then h\<lparr>ct_audits := ct_audits h @ [a]\<rparr> else h)"

definition cron_record :: "cron_audit \<Rightarrow> unit cron_op" where
  "cron_record a h = (Inr (), cron_logged a h)"

definition audit_of :: "cron_mutation option \<Rightarrow> bool \<Rightarrow> cron_audit" where
  "audit_of m success =
     (case m of
        None \<Rightarrow> \<lparr>ca_Action = '''', ca_Target = '''', ca_OldSnippet = '''', ca_NewSnippet = '''', ca_Success = success\<rparr>
      | Some m \<Rightarrow> \<lparr>ca_Action = cm_Action m, ca_Target = cm_Target m, ca_OldSnippet = cm_OldContent m,
          ca_NewSnippet = cm_NewContent m, ca_Success = success\<rparr>)"

definition show_text :: "string \<Rightarrow> unit cron_op" where
  "show_text t h = (Inr (), h\<lparr>ct_shown := ct_shown h @ [t]\<rparr>)"

text \<open>The difference is on the screen when the human chooses; the second choice applies it.\<close>

definition cron_confirm :: "bool cron_op" where
  "cron_confirm h = (Inr (ct_choice h (ct_count h) (last (ct_shown h)) = Some 1), h)"

definition on_failed :: "unit cron_op \<Rightarrow> 'a cron_op \<Rightarrow> 'a cron_op" where
  "on_failed g f h = (case f h of (Inl e, h') \<Rightarrow> (Inl e, snd (g h')) | (Inr x, h') \<Rightarrow> (Inr x, h'))"

definition cron_change :: "(string \<Rightarrow> string) \<Rightarrow> cron_request \<Rightarrow> cron_mutation cron_op" where
  "cron_change hash q =
     then_db (on_failed (cron_record (audit_of None False)) (cron_prepare hash q)) (\<lambda>m.
     then_db (show_text (cron_Diff (cm_OldContent m) (cm_NewContent m))) (\<lambda>_.
     then_db cron_confirm (\<lambda>yes.
     if \<not> yes then then_db (cron_record (audit_of (Some m) False)) (\<lambda>_. fail_db NotApproved)
     else then_db (on_failed (cron_record (audit_of (Some m) False)) (cron_Apply m)) (\<lambda>_.
          then_db (cron_record (audit_of (Some m) True)) (\<lambda>_.
          return_db m)))))"

text \<open>\<open>show\<close> compares the target with an identifier that may be empty.\<close>

definition shows_target :: "string \<Rightarrow> cron_entry \<Rightarrow> bool" where
  "shows_target target en \<longleftrightarrow> ce_ID en = target \<or> is_target target en"

datatype cron_answer = Entries "cron_entry list" | OneEntry cron_entry | PlainText string | Changed string string

definition system_cron_Execute ::
  "(string \<Rightarrow> string) \<Rightarrow> (string \<Rightarrow> cron_request option) \<Rightarrow> string \<Rightarrow> cron_answer cron_op" where
  "system_cron_Execute hash decode args =
     (case decode args of
        None \<Rightarrow> fail_db BadArguments
      | Some q \<Rightarrow>
          if cq_Action q = ''list'' then then_db (List_entries hash) (\<lambda>(ens, _). return_db (Entries ens))
          else if cq_Action q = ''show'' then then_db (List_entries hash) (\<lambda>(ens, content).
            if TrimSpace (cq_Target q) = '''' then return_db (PlainText content)
            else (case find (shows_target (cq_Target q)) ens of
                None \<Rightarrow> fail_db (EntryNotFound (cq_Target q))
              | Some en \<Rightarrow> return_db (OneEntry en)))
          else if cq_Action q = ''dry_run'' then then_db (cron_prepare hash q) (\<lambda>m.
            return_db (PlainText (cron_Diff (cm_OldContent m) (cm_NewContent m))))
          else if List.member [''add'', ''update'', ''remove'', ''enable'', ''disable''] (cq_Action q)
          then then_db (cron_change hash q) (\<lambda>m. return_db (Changed (cm_Action m) (cm_Target m)))
          else fail_db (UnknownAction (cq_Action q)))"

section \<open>Splitting and joining lines\<close>

lemma SplitByte_nonempty: "SplitByte sep s \<noteq> []"
  by (cases s) (auto split: list.splits)

lemma SplitByte_append: "SplitByte sep (x @ sep # y) = SplitByte sep x @ SplitByte sep y"
proof (induction x)
  case (Cons c x)
  obtain w ws where "SplitByte sep x = w # ws" using SplitByte_nonempty [of sep x] by (cases "SplitByte sep x") auto
  then show ?case using Cons by simp
qed simp

lemma SplitByte_plain: "sep \<notin> set x \<Longrightarrow> SplitByte sep x = [x]"
  by (induction x) auto

lemma SplitByte_clean: "l \<in> set (SplitByte sep s) \<Longrightarrow> sep \<notin> set l"
  by (induction s arbitrary: l) (auto split: if_splits list.splits)

lemma SplitByte_bytes: "set s \<subseteq> insert sep (\<Union> (set ` set (SplitByte sep s)))"
proof (induction s)
  case (Cons c s)
  obtain w ws where "SplitByte sep s = w # ws" using SplitByte_nonempty [of sep s] by (cases "SplitByte sep s") auto
  with Cons show ?case by auto
qed simp

lemma SplitByte_replicate: "SplitByte sep (x @ replicate n sep) = SplitByte sep x @ replicate n []"
proof -
  have "SplitByte sep (replicate n sep) = replicate (Suc n) []" for n by (induction n) simp_all
  then show ?thesis by (cases n) (simp_all add: SplitByte_append)
qed

lemma SplitByte_Join: "ls \<noteq> [] \<Longrightarrow> \<forall>l \<in> set ls. sep \<notin> set l \<Longrightarrow> SplitByte sep (Join ls [sep]) = ls"
  by (induction ls "[sep]" rule: Join.induct) (simp_all add: SplitByte_plain SplitByte_append)

lemma TrimRight_append: "TrimRight (x @ replicate n sep) [sep] = TrimRight x [sep]"
proof -
  have "dropWhile (List.member [sep]) (replicate n sep @ y) = dropWhile (List.member [sep]) y" for y
    by (induction n) simp_all
  then show ?thesis by (simp add: TrimRight_def)
qed

lemma TrimRight_last: "x \<noteq> '''' \<Longrightarrow> last x \<noteq> sep \<Longrightarrow> TrimRight x [sep] = x"
  by (cases x rule: rev_cases) (simp_all add: TrimRight_def)

lemma TrimRight_split: "\<exists>n. s = TrimRight s [sep] @ replicate n sep"
proof (induction s rule: rev_induct)
  case (snoc c s)
  show ?case
  proof (cases "c = sep")
    case True
    from snoc obtain n where n: "s = TrimRight s [sep] @ replicate n sep" by blast
    have "s @ [c] = TrimRight s [sep] @ replicate (Suc n) sep"
      using True by (subst n) (simp add: replicate_append_same)
    then show ?thesis using TrimRight_append [of s 1 sep] True by (intro exI [of _ "Suc n"]) simp
  qed (auto simp: TrimRight_def intro: exI [of _ 0])
qed (simp add: TrimRight_def)

lemma TrimRight_idem [simp]: "TrimRight (TrimRight s [sep]) [sep] = TrimRight s [sep]"
  by (metis TrimRight_append TrimRight_split)

lemma splitLines_clean: "l \<in> set (splitLines s) \<Longrightarrow> LF \<notin> set l"
  by (auto simp: splitLines_def Let_def dest: SplitByte_clean split: if_splits)

section \<open>Parsing line by line\<close>

text \<open>The pending identifier after some lines.\<close>

definition pending_after :: "string \<Rightarrow> string list \<Rightarrow> string" where
  "pending_after p ls = foldl (\<lambda>p l. fst (parse_line (\<lambda>s. s) 0 p l)) p ls"

lemma parse_line_pending: "fst (parse_line hash i p l) = fst (parse_line hash' j p l)"
  by (simp add: parse_line_def Let_def split: prod.split)

lemma pending_after_Nil [simp]: "pending_after p [] = p"
  by (simp add: pending_after_def)

lemma pending_after_Cons: "pending_after p (l # ls) = pending_after (fst (parse_line hash i p l)) ls"
  by (simp add: pending_after_def parse_line_pending [of hash i p l "\<lambda>s. s" 0])

lemma parse_lines_append:
  "parse_lines hash i p (xs @ ys) = parse_lines hash i p xs @ parse_lines hash (i + length xs) (pending_after p xs) ys"
proof (induction xs arbitrary: i p)
  case (Cons l xs)
  show ?case by (simp add: split_beta Cons pending_after_Cons [of p l xs hash i])
qed simp

lemma parse_line_blank [simp]: "parse_line hash i p '''' = ('''', [])"
  by (simp add: parse_line_def TrimSpace_def metadataPrefix_def HasPrefix_def)

lemma parse_blanks: "parse_lines hash i p (replicate n []) = []"
  by (induction n arbitrary: i p) simp_all

lemma Parse_all_lines: "Parse hash s = parse_lines hash 0 '''' (SplitByte LF s)"
proof -
  obtain n where n: "s = TrimRight s [LF] @ replicate n LF" using TrimRight_split by blast
  have "SplitByte LF s = SplitByte LF (TrimRight s [LF]) @ replicate n []"
    by (subst n) (simp add: SplitByte_replicate)
  then show ?thesis
    by (simp add: Parse_def splitLines_def Let_def parse_lines_append parse_blanks)
qed

lemma Parse_join_lines:
  assumes "\<forall>l \<in> set ls. LF \<notin> set l"
  shows "Parse hash (join_lines ls) = parse_lines hash 0 '''' ls"
proof -
  have "splitLines (TrimRight c [LF] @ [LF]) = splitLines c" for c
    using TrimRight_append [of "TrimRight c [LF]" 1 LF] by (simp add: splitLines_def)
  then have "Parse hash (join_lines ls) = Parse hash (Join ls [LF])"
    by (simp add: join_lines_def Let_def Parse_def)
  also have "\<dots> = parse_lines hash 0 '''' (SplitByte LF (Join ls [LF]))" by (rule Parse_all_lines)
  also have "\<dots> = parse_lines hash 0 '''' ls"
    using SplitByte_Join [OF _ assms] by (cases "ls = []") simp_all
  finally show ?thesis .
qed

text \<open>An entry is found on its line, under the identifier pending there.\<close>

lemma parse_line_found:
  "en \<in> set (snd (parse_line hash i p l)) \<Longrightarrow>
     parse_line hash i p l = ('''', [en]) \<and> ce_Line en = i \<and> ce_Raw en = l \<and> ce_ID en = p \<and> ce_Managed en = (p \<noteq> '''')"
  by (auto simp: parse_line_def Let_def split: if_splits prod.splits)

lemma parse_lines_found:
  "en \<in> set (parse_lines hash i p ls) \<Longrightarrow> \<exists>k. k < length ls \<and> ce_Line en = i + k \<and> ce_Raw en = ls ! k
     \<and> parse_line hash (i + k) (pending_after p (take k ls)) (ls ! k) = ('''', [en])
     \<and> ce_ID en = pending_after p (take k ls) \<and> ce_Managed en = (ce_ID en \<noteq> '''')"
proof (induction ls arbitrary: i p)
  case (Cons l ls)
  let ?p = "fst (parse_line hash i p l)"
  from Cons.prems consider "en \<in> set (snd (parse_line hash i p l))" | "en \<in> set (parse_lines hash (i + 1) ?p ls)"
    by (auto simp: split_beta)
  then show ?case
  proof cases
    case 1
    from parse_line_found [OF this] show ?thesis by (intro exI [of _ 0]) auto
  next
    case 2
    from Cons.IH [OF this] obtain k where "k < length ls" "ce_Line en = i + 1 + k" "ce_Raw en = ls ! k"
      "parse_line hash (i + 1 + k) (pending_after ?p (take k ls)) (ls ! k) = ('''', [en])"
      "ce_ID en = pending_after ?p (take k ls)" "ce_Managed en = (ce_ID en \<noteq> '''')" by blast
    then show ?thesis
      by (intro exI [of _ "Suc k"]) (simp add: pending_after_Cons [of p l _ hash i])
  qed
qed simp

lemma parse_lines_at:
  assumes "k < length ls"
  shows "parse_lines hash 0 p ls = parse_lines hash 0 p (take k ls)
    @ snd (parse_line hash k (pending_after p (take k ls)) (ls ! k))
    @ parse_lines hash (k + 1) (fst (parse_line hash k (pending_after p (take k ls)) (ls ! k))) (drop (k + 1) ls)"
proof -
  have "parse_lines hash 0 p ls = parse_lines hash 0 p (take k ls @ ls ! k # drop (k + 1) ls)"
    using assms by (simp add: id_take_nth_drop [symmetric] Cons_nth_drop_Suc)
  then show ?thesis using assms by (simp only: parse_lines_append) (simp add: split_beta min_absorb2)
qed

section \<open>Lines that are entries\<close>

definition listed :: "(string \<Rightarrow> string) \<Rightarrow> nat \<Rightarrow> string \<Rightarrow> bool \<Rightarrow> string \<Rightarrow> string \<Rightarrow> cron_entry" where
  "listed hash i k disabled text line =
     \<lparr>ce_ID = k, ce_Line = i, ce_Schedule = fst (splitCronLine text), ce_Command = snd (splitCronLine text),
      ce_Raw = line, ce_Disabled = disabled, ce_Managed = k \<noteq> '''', ce_Hash = hashLine hash line\<rparr>"

text \<open>No control bytes that \<open>isEnvLine\<close> does not take for white space.\<close>

definition plain_text :: "string \<Rightarrow> bool" where
  "plain_text s \<longleftrightarrow> \<not> ContainsAny s [CHR 0x0B, CHR 0x0C, CR, LF]"

definition cron_byte :: "char \<Rightarrow> bool" where
  "cron_byte c \<longleftrightarrow> is_digit c \<or> List.member ''+-*/,'' c"

lemma Atoi_bytes: "Atoi s = Some n \<Longrightarrow> list_all cron_byte s"
  by (auto simp: Atoi_def atoi_signed_def atoi_digits_def cron_byte_def list_all_iff split: option.splits if_splits list.splits)

lemma valid_base_bytes: "valid_base low high b \<Longrightarrow> list_all cron_byte b"
proof (cases "ContainsByte b CHR ''-''")
  case True
  assume valid: "valid_base low high b"
  show ?thesis
  proof (cases "b = ''*''")
    case False
    then obtain x y where xy: "SplitByte CHR ''-'' b = [x, y]" "Atoi x \<noteq> None" "Atoi y \<noteq> None"
      using valid True by (auto simp: valid_base_def split: list.splits option.splits)
    then have "list_all cron_byte x" "list_all cron_byte y" by (auto intro: Atoi_bytes)
    then show ?thesis using SplitByte_bytes [of b "CHR ''-''"] xy(1) by (fastforce simp: list_all_iff cron_byte_def)
  qed (simp add: cron_byte_def)
qed (auto simp: valid_base_def cron_byte_def split: option.splits intro: Atoi_bytes)

lemma valid_part_bytes: "valid_part low high part \<Longrightarrow> list_all cron_byte part"
proof (cases "ContainsByte part CHR ''/''")
  case True
  assume "valid_part low high part"
  then obtain base step where parts: "SplitByte CHR ''/'' part = [base, step]" "valid_base low high base" "Atoi step \<noteq> None"
    using True by (auto simp: valid_part_def split: list.splits option.splits)
  then have "list_all cron_byte base" "list_all cron_byte step" by (auto intro: Atoi_bytes valid_base_bytes)
  then show ?thesis using SplitByte_bytes [of part "CHR ''/''"] parts(1) by (fastforce simp: list_all_iff cron_byte_def)
qed (auto simp: valid_part_def intro: valid_base_bytes)

lemma validCronField_bytes: "validCronField raw low high \<Longrightarrow> list_all cron_byte raw"
proof (cases "raw = ''*''")
  case False
  assume "validCronField raw low high"
  then have "\<forall>part \<in> set (SplitByte CHR '','' raw). list_all cron_byte part"
    using False valid_part_bytes by (auto simp: validCronField_def list_all_iff)
  then show ?thesis using SplitByte_bytes [of raw "CHR '',''"] by (fastforce simp: list_all_iff cron_byte_def)
qed (simp add: cron_byte_def)

lemma fields_first: "cur \<noteq> [] \<Longrightarrow> \<exists>ws. fields_acc s cur = (cur @ takeWhile (\<lambda>c. \<not> is_space c) s) # ws"
proof (induction s arbitrary: cur)
  case (Cons c s)
  then show ?case using Cons.IH [of "cur @ [c]"] by auto
qed simp

lemma fields_leading: "fields_acc (dropWhile is_space s) [] = fields_acc s []"
  by (induction s) simp_all

lemma fields_trailing: "list_all is_space b \<Longrightarrow> fields_acc (s @ b) cur = fields_acc s cur"
proof (induction s arbitrary: cur)
  case Nil
  then have "fields_acc b [] = []" by (induction b) simp_all
  with Nil show ?case by (cases b) simp_all
qed simp

lemma TrimSpace_split:
  "\<exists>b. list_all is_space b \<and> dropWhile is_space s = TrimSpace s @ b"
proof -
  let ?d = "dropWhile is_space s"
  have "rev (dropWhile is_space (rev ?d)) @ rev (takeWhile is_space (rev ?d)) = ?d"
    by (simp only: rev_append [symmetric] takeWhile_dropWhile_id rev_rev_ident)
  then have "?d = TrimSpace s @ rev (takeWhile is_space (rev ?d))" by (simp only: TrimSpace_def)
  moreover have "list_all is_space (rev (takeWhile is_space (rev ?d)))" by (auto simp: list_all_iff dest: set_takeWhileD)
  ultimately show ?thesis by blast
qed

lemma Fields_TrimSpace: "Fields (TrimSpace s) = Fields s"
  using TrimSpace_split [of s] fields_trailing fields_leading [of s] by (metis Fields_def)

lemma TrimSpace_hd: "TrimSpace s \<noteq> '''' \<Longrightarrow> \<not> is_space (hd (TrimSpace s))"
  using TrimSpace_split [of s] hd_dropWhile [of is_space s] by (metis Nil_is_append_conv hd_append2)

lemma TrimSpace_last: "TrimSpace s \<noteq> '''' \<Longrightarrow> \<not> is_space (last (TrimSpace s))"
  using hd_dropWhile [of is_space "rev (dropWhile is_space s)"] by (simp add: TrimSpace_def last_rev)

lemma TrimSpace_id: "s \<noteq> '''' \<Longrightarrow> \<not> is_space (hd s) \<Longrightarrow> \<not> is_space (last s) \<Longrightarrow> TrimSpace s = s"
proof -
  assume s: "s \<noteq> ''''" "\<not> is_space (hd s)" "\<not> is_space (last s)"
  then have "dropWhile is_space s = s" by (cases s) simp_all
  moreover from s have "dropWhile is_space (rev s) = rev s" by (cases s rule: rev_cases) simp_all
  ultimately show "TrimSpace s = s" by (simp add: TrimSpace_def)
qed

lemma set_TrimSpace: "set (TrimSpace s) \<subseteq> set s"
  by (auto simp: TrimSpace_def dest!: set_dropWhileD)

lemma looks_TrimSpace [simp]: "looksLikeCron (TrimSpace s) = looksLikeCron s" "splitCronLine (TrimSpace s) = splitCronLine s"
  by (simp_all add: looksLikeCron_def splitCronLine_def Fields_TrimSpace)

lemma Index_byte: "Index t [c] = Some i \<Longrightarrow> i < length t \<and> t ! i = c"
  by (induction t arbitrary: i) (auto split: if_splits)

text \<open>What an entry's text begins with: a field of cron bytes and a blank.\<close>

lemma cron_text:
  assumes "looksLikeCron s" "plain_text s"
  obtains w b rest where "TrimSpace s = w @ b # rest" "w \<noteq> ''''" "list_all cron_byte w" "b = SPC \<or> b = TAB"
proof -
  let ?t = "TrimSpace s" and ?P = "\<lambda>c. \<not> is_space c"
  have six: "6 \<le> length (Fields ?t)" and valid: "validCronField (hd (Fields ?t)) 0 59"
    using assms(1) by (cases "Fields s"; simp add: looksLikeCron_def Fields_TrimSpace cron_ranges_def Let_def)+
  then have t: "?t \<noteq> ''''" by (auto simp: Fields_def)
  note first = TrimSpace_hd [OF t]
  obtain c u where cu: "?t = c # u" using t by (cases ?t) auto
  then obtain ws where ws: "Fields ?t = takeWhile ?P ?t # ws"
    using fields_first [of "[c]" u] first by (auto simp: Fields_def)
  have "dropWhile ?P ?t \<noteq> []"
  proof
    assume none: "dropWhile ?P ?t = []"
    have "fields_acc u cur = [cur @ u]" if "cur \<noteq> []" "list_all ?P u" for cur u
      using that by (induction u arbitrary: cur) auto
    then have "length (Fields ?t) = 1"
      using none first by (simp add: cu Fields_def list_all_iff dropWhile_eq_Nil_conv)
    with six show False by simp
  qed
  then obtain b rest where b: "dropWhile ?P ?t = b # rest" by (cases "dropWhile ?P ?t") auto
  have "is_space b" using b by (metis dropWhile_eq_Cons_conv)
  moreover have "b \<in> set s" using b set_TrimSpace [of s] set_dropWhileD [of b ?P ?t] by auto
  ultimately have "b = SPC \<or> b = TAB"
    using assms(2) by (auto simp: is_space_def plain_text_def ContainsAny_def list_ex_iff)
  moreover have "?t = takeWhile ?P ?t @ b # rest" using b takeWhile_dropWhile_id [of ?P ?t] by simp
  moreover have "list_all cron_byte (takeWhile ?P ?t)" using validCronField_bytes [OF valid] by (simp add: ws)
  moreover have "takeWhile ?P ?t \<noteq> ''''" using first by (simp add: cu)
  ultimately show ?thesis using that by blast
qed

lemma cron_text_not_special:
  assumes "looksLikeCron s" "plain_text s"
  shows "TrimSpace s \<noteq> ''''" "\<not> HasPrefix (TrimSpace s) ''#''" "\<not> HasPrefix (TrimSpace s) metadataPrefix"
    "\<not> isEnvLine (TrimSpace s)" "\<not> HasPrefix (TrimSpace s) ''cvkeharness:id=''"
proof -
  obtain w b rest where t: "TrimSpace s = w @ b # rest" "w \<noteq> ''''" "list_all cron_byte w" "b = SPC \<or> b = TAB"
    using cron_text [OF assms] .
  then obtain c u where c: "w = c # u" "cron_byte c" by (cases w) auto
  then have "c \<noteq> CHR ''#''" "c \<noteq> CHR ''c''" by (auto simp: cron_byte_def is_digit_def)
  then show "TrimSpace s \<noteq> ''''" "\<not> HasPrefix (TrimSpace s) ''#''" "\<not> HasPrefix (TrimSpace s) metadataPrefix"
    "\<not> HasPrefix (TrimSpace s) ''cvkeharness:id=''"
    by (simp_all add: t(1) c(1) HasPrefix_def metadataPrefix_def)
  have "ContainsAny (take i (TrimSpace s)) [SPC, TAB]" if index: "Index (TrimSpace s) ''='' = Some i" for i
  proof -
    have i: "i < length (TrimSpace s)" "TrimSpace s ! i = CHR ''=''" using Index_byte [OF index] by simp_all
    have "\<not> i \<le> length w"
    proof
      assume "i \<le> length w"
      then consider "i < length w" | "i = length w" by linarith
      then show False
      proof cases
        case 1
        then have "cron_byte (w ! i)" using t(3) by (simp add: list_all_length)
        then show False using 1 i(2) t(1) by (simp add: nth_append cron_byte_def is_digit_def)
      qed (use i(2) t(1,4) in auto)
    qed
    then have "take i (TrimSpace s) = w @ b # take (i - length w - 1) rest"
      by (simp add: t(1) take_Cons')
    then show ?thesis using t(4) by (auto simp: ContainsAny_def)
  qed
  then show "\<not> isEnvLine (TrimSpace s)" by (auto simp: isEnvLine_def split: option.splits)
qed

lemma parse_line_entry:
  assumes "looksLikeCron line" "plain_text line"
  shows "parse_line hash i p line = ('''', [listed hash i p False line line])"
  using cron_text_not_special [OF assms] assms(1)
  by (simp add: parse_line_def Let_def cron_candidate_def listed_def split_beta)

lemma TrimSpace_comment: "TrimSpace s \<noteq> '''' \<Longrightarrow> TrimSpace (''# '' @ TrimSpace s) = ''# '' @ TrimSpace s"
  using TrimSpace_last [of s] by (intro TrimSpace_id) (simp_all add: is_space_def)

lemma parse_line_disabled:
  assumes "looksLikeCron s" "plain_text s"
  shows "parse_line hash i p (''# '' @ TrimSpace s) = ('''', [listed hash i p True s (''# '' @ TrimSpace s)])"
proof -
  note special = cron_text_not_special [OF assms]
  have "TrimSpace ([SPC] @ TrimSpace s) = TrimSpace s"
    using TrimSpace_id [OF special(1) TrimSpace_hd [OF special(1)] TrimSpace_last [OF special(1)]]
    by (simp add: TrimSpace_def is_space_def)
  moreover have "\<not> isEnvLine (''# '' @ TrimSpace s)" by (simp add: isEnvLine_def HasPrefix_def)
  moreover have "\<not> HasPrefix (''# '' @ TrimSpace s) metadataPrefix"
    using special(5) by (simp add: HasPrefix_def metadataPrefix_def)
  ultimately show ?thesis
    using assms(1) TrimSpace_comment [OF special(1)]
    by (simp add: parse_line_def Let_def cron_candidate_def listed_def split_beta TrimPrefix_def HasPrefix_def)
qed

section \<open>Changes of one entry\<close>

text \<open>Where the changed entry is, and what is around it.\<close>

lemma rewritten_found:
  assumes "rewritten hash content action target replacement = Inr m"
  obtains en where "findEntry (Parse hash content) target = Some en" "ce_Line en < length (splitLines content)"
    "ce_Raw en = splitLines content ! ce_Line en"
    "ce_ID en = pending_after '''' (take (ce_Line en) (splitLines content))" "ce_Managed en = (ce_ID en \<noteq> '''')"
    "parse_line hash (ce_Line en) (ce_ID en) (ce_Raw en) = ('''', [en])"
    "Parse hash content = parse_lines hash 0 '''' (take (ce_Line en) (splitLines content)) @ en #
       parse_lines hash (ce_Line en + 1) '''' (drop (ce_Line en + 1) (splitLines content))"
    "is_target target en" "\<not> list_ex (is_target target) (parse_lines hash 0 '''' (take (ce_Line en) (splitLines content)))"
    "cm_NewContent m = join_lines (rewrite_lines (splitLines content) en (replacement en))"
proof -
  let ?ls = "splitLines content"
  obtain en where en: "findEntry (Parse hash content) target = Some en"
    "cm_NewContent m = join_lines (rewrite_lines ?ls en (replacement en))"
    using assms by (auto simp: rewritten_def Let_def split: option.splits)
  then have "en \<in> set (Parse hash content)" "is_target target en"
    by (auto simp: findEntry_def find_Some_iff)
  moreover from parse_lines_found [OF this(1) [unfolded Parse_def]]
  have at: "ce_Line en < length ?ls" "ce_Raw en = ?ls ! ce_Line en"
    "parse_line hash (ce_Line en) (pending_after '''' (take (ce_Line en) ?ls)) (?ls ! ce_Line en) = ('''', [en])"
    "ce_ID en = pending_after '''' (take (ce_Line en) ?ls)" "ce_Managed en = (ce_ID en \<noteq> '''')" by auto
  moreover from parse_lines_at [OF at(1), of hash "''''"]
  have parts: "Parse hash content = parse_lines hash 0 '''' (take (ce_Line en) ?ls) @ en #
      parse_lines hash (ce_Line en + 1) '''' (drop (ce_Line en + 1) ?ls)"
    by (simp add: Parse_def at(3))
  moreover have "\<not> list_ex (is_target target) (parse_lines hash 0 '''' (take (ce_Line en) ?ls))"
  proof
    let ?before = "parse_lines hash 0 '''' (take (ce_Line en) ?ls)"
    assume "list_ex (is_target target) ?before"
    then obtain x where "find (is_target target) ?before = Some x"
      by (cases "find (is_target target) ?before") (auto simp: find_None_iff list_ex_iff)
    then have "x \<in> set ?before" "findEntry (Parse hash content) target = Some x"
      by (auto simp: findEntry_def parts find_Some_iff nth_append)
    with en(1) parse_lines_found [of x hash 0 "''''" "take (ce_Line en) ?ls"] show False by auto
  qed
  ultimately show ?thesis using that en by metis
qed

text \<open>A line that is an entry again takes the place of the old one.\<close>

lemma replaced_entry:
  assumes "rewritten hash content action target replacement = Inr m"
    and "\<And>en. findEntry (Parse hash content) target = Some en \<Longrightarrow> ce_Raw en \<in> set (splitLines content) \<Longrightarrow>
      parse_line hash (ce_Line en) (ce_ID en) (ce_Raw en) = ('''', [en]) \<Longrightarrow>
      replacement en \<noteq> '''' \<and> LF \<notin> set (replacement en)
      \<and> parse_line hash (ce_Line en) (ce_ID en) (replacement en) = ('''', [new_entry en])"
  shows "\<exists>before en after. Parse hash content = before @ en # after \<and> is_target target en
    \<and> \<not> list_ex (is_target target) before \<and> Parse hash (cm_NewContent m) = before @ new_entry en # after"
proof -
  let ?ls = "splitLines content"
  obtain en where en: "findEntry (Parse hash content) target = Some en" "ce_Line en < length ?ls" "ce_Raw en = ?ls ! ce_Line en"
    "ce_ID en = pending_after '''' (take (ce_Line en) ?ls)"
    "parse_line hash (ce_Line en) (ce_ID en) (ce_Raw en) = ('''', [en])"
    "Parse hash content = parse_lines hash 0 '''' (take (ce_Line en) ?ls) @ en #
       parse_lines hash (ce_Line en + 1) '''' (drop (ce_Line en + 1) ?ls)"
    "is_target target en" "\<not> list_ex (is_target target) (parse_lines hash 0 '''' (take (ce_Line en) ?ls))"
    "cm_NewContent m = join_lines (rewrite_lines ?ls en (replacement en))"
    using rewritten_found [OF assms(1)] by metis
  have raw: "replacement en \<noteq> ''''" "LF \<notin> set (replacement en)"
    "parse_line hash (ce_Line en) (ce_ID en) (replacement en) = ('''', [new_entry en])"
    using assms(2) [OF en(1) _ en(5)] en(2,3) by auto
  have clean: "\<forall>l \<in> set (?ls[ce_Line en := replacement en]). LF \<notin> set l"
    using raw(2) splitLines_clean set_update_subset_insert by fastforce
  have "Parse hash (cm_NewContent m) = parse_lines hash 0 '''' (?ls[ce_Line en := replacement en])"
    using Parse_join_lines [OF clean] raw(1) by (simp add: en(9) rewrite_lines_def)
  also have "\<dots> = parse_lines hash 0 '''' (take (ce_Line en) ?ls) @ new_entry en #
      parse_lines hash (ce_Line en + 1) '''' (drop (ce_Line en + 1) ?ls)"
    using parse_lines_at [of "ce_Line en" "?ls[ce_Line en := replacement en]" hash "''''"] en(2,4) raw(3) by simp
  finally show ?thesis using en(6-8) by blast
qed

lemma plain_text_parts: "plain_text s \<Longrightarrow> LF \<notin> set s" "plain_text s \<Longrightarrow> set t \<subseteq> set s \<Longrightarrow> plain_text t"
  by (auto simp: plain_text_def ContainsAny_def list_ex_iff)

text \<open>
  Updating changes exactly one entry.  After an update with a valid schedule and command the crontab
  has the same entries on the same lines, except the first one the target names: it keeps its line and its
  identifier, has the new text, and is enabled.
\<close>

theorem update_changes_one_entry:
  assumes "rewritten hash content action target (\<lambda>_. cron_raw schedule command) = Inr m"
    and "ValidateEntry schedule command = None" "plain_text (cron_raw schedule command)"
  shows "\<exists>before en after. Parse hash content = before @ en # after \<and> is_target target en
    \<and> \<not> list_ex (is_target target) before
    \<and> Parse hash (cm_NewContent m) =
        before @ listed hash (ce_Line en) (ce_ID en) False (cron_raw schedule command) (cron_raw schedule command) # after"
proof (rule replaced_entry [OF assms(1)])
  fix en
  let ?raw = "cron_raw schedule command"
  have "looksLikeCron ?raw" using assms(2) by (simp add: ValidateEntry_def cron_raw_def split: if_splits)
  from parse_line_entry [OF this assms(3)] plain_text_parts(1) [OF assms(3)]
  show "?raw \<noteq> '''' \<and> LF \<notin> set ?raw
    \<and> parse_line hash (ce_Line en) (ce_ID en) ?raw = ('''', [listed hash (ce_Line en) (ce_ID en) False ?raw ?raw])"
    by (simp add: cron_raw_def)
qed

text \<open>The text of an entry's line, and whether it is commented out.\<close>

lemma entry_line:
  assumes "parse_line hash i p line = ('''', [en])"
  obtains (plain) "\<not> HasPrefix (TrimSpace line) ''#''" "looksLikeCron line" "en = listed hash i p False line line"
  | (comment) cand where "HasPrefix (TrimSpace line) ''#''" "cand = TrimSpace (TrimPrefix (TrimSpace line) ''#'')"
      "looksLikeCron cand" "en = listed hash i p True cand line"
  using assms
  by (auto simp: parse_line_def Let_def cron_candidate_def listed_def split_beta split: if_splits)

lemma listed_set:
  "en = listed hash i p d text line \<Longrightarrow>
     en\<lparr>ce_Raw := r, ce_Disabled := d', ce_Hash := hashLine hash r\<rparr> = listed hash i p d' text r"
  by (simp add: listed_def)

lemma TrimSpace_twice [simp]: "TrimSpace (TrimSpace s) = TrimSpace s"
  by (cases "TrimSpace s = ''''") (simp_all add: TrimSpace_id TrimSpace_hd TrimSpace_last, simp add: TrimSpace_def)

lemma parse_line_TrimSpace:
  "parse_line hash i p line = ('''', [listed hash i p d text line])
    \<Longrightarrow> parse_line hash i p (TrimSpace line) = ('''', [listed hash i p d text (TrimSpace line)])"
  by (auto simp: parse_line_def Let_def listed_def split_beta split: if_splits)

text \<open>
  C38: Enabling and disabling change exactly one entry, and nothing of it but whether it is commented out:
  its schedule, command, identifier and line stay, so that disabling and enabling an entry brings its
  schedule and command back.
\<close>

theorem set_enabled_changes_one_entry:
  assumes "rewritten hash content action target (enabled_raw enabled) = Inr m" "list_all plain_text (splitLines content)"
  shows "\<exists>before en after. Parse hash content = before @ en # after \<and> is_target target en
    \<and> \<not> list_ex (is_target target) before
    \<and> Parse hash (cm_NewContent m) =
        before @ en\<lparr>ce_Raw := enabled_raw enabled en, ce_Disabled := \<not> enabled,
                    ce_Hash := hashLine hash (enabled_raw enabled en)\<rparr> # after"
proof (rule replaced_entry [OF assms(1)])
  fix en
  let ?raw = "enabled_raw enabled en" and ?line = "ce_Raw en"
  assume line: "?line \<in> set (splitLines content)" "parse_line hash (ce_Line en) (ce_ID en) ?line = ('''', [en])"
  have clean: "plain_text ?line" using line(1) assms(2) by (simp add: list_all_iff)
  let ?new = "en\<lparr>ce_Raw := ?raw, ce_Disabled := \<not> enabled, ce_Hash := hashLine hash ?raw\<rparr>"
  have "?raw \<noteq> '''' \<and> plain_text ?raw \<and> parse_line hash (ce_Line en) (ce_ID en) ?raw = ('''', [?new])"
    using line(2)
  proof (cases rule: entry_line)
    case plain
    note special = cron_text_not_special [OF plain(2) clean]
    have plain': "plain_text (TrimSpace ?line)" "plain_text (''# '' @ TrimSpace ?line)"
      using plain_text_parts(2) [OF clean set_TrimSpace] by (auto simp: plain_text_def ContainsAny_def)
    show ?thesis
    proof (cases enabled)
      case True
      then have "?raw = TrimSpace ?line" using plain(1) by (simp add: enabled_raw_def TrimPrefix_def Let_def)
      moreover have "?new = listed hash (ce_Line en) (ce_ID en) False (TrimSpace ?line) (TrimSpace ?line)"
        using listed_set [OF plain(3), of "TrimSpace ?line" False] True calculation by (simp add: listed_def)
      ultimately show ?thesis
        using parse_line_entry [of "TrimSpace ?line"] plain(2) plain' special(1) by simp
    next
      case False
      then have "?raw = ''# '' @ TrimSpace ?line" using plain(1) by (simp add: enabled_raw_def Let_def)
      moreover have "?new = listed hash (ce_Line en) (ce_ID en) True ?line (''# '' @ TrimSpace ?line)"
        using listed_set [OF plain(3), of "''# '' @ TrimSpace ?line" True] False calculation by simp
      ultimately show ?thesis
        using parse_line_disabled [OF plain(2) clean] plain' by simp
    qed
  next
    case (comment cand)
    have "set cand \<subseteq> set ?line"
      using set_TrimSpace [of ?line] set_TrimSpace [of "TrimPrefix (TrimSpace ?line) ''#''"] set_drop_subset [of 1 "TrimSpace ?line"]
      unfolding comment(2) TrimPrefix_def by (auto split: if_splits)
    note plain' = plain_text_parts(2) [OF clean this] plain_text_parts(2) [OF clean set_TrimSpace]
    note special = cron_text_not_special [OF comment(3) plain'(1)]
    have cand: "TrimSpace cand = cand" by (simp add: comment(2))
    show ?thesis
    proof (cases enabled)
      case True
      then have raw: "?raw = cand" by (simp add: enabled_raw_def comment(2) Let_def)
      then have "?new = listed hash (ce_Line en) (ce_ID en) False cand cand"
        using listed_set [OF comment(4), of cand False] True by simp
      then show ?thesis using parse_line_entry [OF comment(3) plain'(1)] plain' special(1) cand raw by simp
    next
      case False
      then have raw: "?raw = TrimSpace ?line" using comment(1) by (simp add: enabled_raw_def Let_def)
      then have "?new = listed hash (ce_Line en) (ce_ID en) True cand (TrimSpace ?line)"
        using listed_set [OF comment(4), of "TrimSpace ?line" True] False by simp
      moreover have "TrimSpace ?line \<noteq> ''''" using comment(1) by (auto simp: HasPrefix_def)
      ultimately show ?thesis
        using parse_line_TrimSpace [of hash _ _ ?line True cand] line(2) comment(4) plain' raw by simp
    qed
  qed
  then show "?raw \<noteq> '''' \<and> LF \<notin> set ?raw \<and> parse_line hash (ce_Line en) (ce_ID en) ?raw = ('''', [?new])"
    using plain_text_parts(1) by blast
qed

section \<open>Removing and adding an entry\<close>

definition moved_up :: "nat \<Rightarrow> cron_entry \<Rightarrow> cron_entry" where
  "moved_up n en = en\<lparr>ce_Line := ce_Line en - n\<rparr>"

lemma parse_line_shift:
  "parse_line hash i p l = (fst (parse_line hash (i + n) p l), map (moved_up n) (snd (parse_line hash (i + n) p l)))"
  by (simp add: parse_line_def Let_def moved_up_def split: prod.split)

lemma parse_lines_shift: "parse_lines hash i p ls = map (moved_up n) (parse_lines hash (i + n) p ls)"
proof (induction ls arbitrary: i p)
  case (Cons l ls)
  show ?case
    using Cons [of "i + 1"] by (simp add: split_beta parse_line_shift [of hash i p l n])
qed simp

text \<open>The identifier of an entry is its own: it is in the line before, and no earlier one is pending.\<close>

definition owns_id :: "string list \<Rightarrow> cron_entry \<Rightarrow> bool" where
  "owns_id ls en \<longleftrightarrow> ce_ID en = ''''
     \<or> 0 < ce_Line en \<and> HasPrefix (TrimSpace (ls ! (ce_Line en - 1))) metadataPrefix
       \<and> pending_after '''' (take (ce_Line en - 1) ls) = ''''"


text \<open>A name that is a comment of one line and nothing else.\<close>

definition plain_name :: "string \<Rightarrow> bool" where
  "plain_name name \<longleftrightarrow> LF \<notin> set name \<and> \<not> looksLikeCron name \<and> \<not> HasPrefix (TrimSpace name) ''cvkeharness:id=''"

lemma splitLines_add_content:
  assumes "\<forall>l \<in> set (added_lines name k raw). LF \<notin> set l" "raw \<noteq> ''''"
  shows "splitLines (add_content content name k raw) = splitLines content @ added_lines name k raw"
proof -
  let ?new = "added_lines name k raw" and ?b = "TrimRight content [LF]"
  have joined: "concat (map (\<lambda>l. l @ [LF]) ls) = Join ls [LF] @ [LF]" if "ls \<noteq> []" for ls
    using that by (induction ls "[LF]" rule: Join.induct) simp_all
  have ls: "?new \<noteq> []" "last ?new = raw" by (simp_all add: added_lines_def)
  have split: "SplitByte LF (Join ?new [LF]) = ?new" by (rule SplitByte_Join [OF ls(1) assms(1)])
  have last_Join: "last (Join ls [LF]) = last (last ls) \<and> Join ls [LF] \<noteq> ''''" if "ls \<noteq> []" "last ls \<noteq> ''''" for ls
    using that by (induction ls "[LF]" rule: Join.induct) (auto simp: last_append)
  have "LF \<notin> set raw" using assms(1) ls last_in_set [of ?new] by auto
  then have "last raw \<noteq> LF" using last_in_set [OF assms(2)] by auto
  then have "last (Join ?new [LF]) \<noteq> LF \<and> Join ?new [LF] \<noteq> ''''"
    using last_Join [of ?new] ls assms(2) by auto
  then have trimmed: "TrimRight (x @ Join ?new [LF] @ [LF]) [LF] = x @ Join ?new [LF]" for x
    using TrimRight_append [of "x @ Join ?new [LF]" 1 LF] TrimRight_last [of "x @ Join ?new [LF]" LF]
    by (simp add: last_append)
  show ?thesis
    using trimmed [of "''''"] trimmed [of "?b @ [LF]"] split \<open>last _ \<noteq> LF \<and> _\<close>
    by (simp add: splitLines_def add_content_def Let_def joined [OF ls(1)] SplitByte_append)
qed


section \<open>The tool changes the crontab only as confirmed\<close>

lemma cron_logged_content [simp]: "ct_content (cron_logged a h) = ct_content h"
  by (simp add: cron_logged_def)

text \<open>
  C24: The crontab changes only to what a human saw.  While no other program edits it, running the tool
  leaves the crontab as it is, unless the difference between the listed and the new text was shown and the
  choice to apply it was made; then it is exactly the new text of the prepared change.
\<close>

theorem crontab_changed_only_as_confirmed:
  assumes "ct_others h = (\<lambda>_ c. c)"
  shows "case system_cron_Execute hash decode args h of (r, h') \<Rightarrow>
    ct_content h' = ct_content h
    \<or> (\<exists>q m n. decode args = Some q \<and> fst (cron_prepare hash q h) = Inr m
         \<and> ct_choice h n (cron_Diff (cm_OldContent m) (cm_NewContent m)) = Some 1
         \<and> ct_content h' = cm_NewContent m)"
proof -
  have listing: "ct_content h' = ct_content h \<and> ct_others h' = ct_others h \<and> ct_choice h' = ct_choice h"
    if "List_entries hash h = (r, h')" for r h'
    using that assms by (auto simp: List_entries_def runner_List_def then_db_def return_db_def Let_def
        split: option.splits sum.splits prod.splits)
  have prepared: "ct_content h' = ct_content h \<and> ct_others h' = ct_others h \<and> ct_choice h' = ct_choice h"
    if "cron_prepare hash q h = (r, h')" for q r h'
  proof -
    obtain rl hl where l: "List_entries hash h = (rl, hl)" by fastforce
    from listing [OF l] that show ?thesis
      by (auto simp: cron_prepare_def cron_Add_def cron_Update_def cron_Remove_def cron_SetEnabled_def cron_rewrite_def
          check_entry_def newCronID_def then_db_def return_db_def fail_db_def l
          split: if_splits option.splits sum.splits prod.splits)
  qed
  have changed: "ct_content h' = ct_content h \<or> (\<exists>m n. fst (cron_prepare hash q h) = Inr m
      \<and> ct_choice h n (cron_Diff (cm_OldContent m) (cm_NewContent m)) = Some 1 \<and> ct_content h' = cm_NewContent m)"
    if "cron_change hash q h = (r, h')" for q r h'
  proof -
    obtain rp hp where p: "cron_prepare hash q h = (rp, hp)" by fastforce
    note same = prepared [OF p]
    show ?thesis
    proof (cases rp)
      case (Inl e)
      then show ?thesis using that same by (auto simp: cron_change_def then_db_def on_failed_def p cron_record_def)
    next
      case (Inr m)
      let ?d = "cron_Diff (cm_OldContent m) (cm_NewContent m)"
      show ?thesis
      proof (cases "ct_choice h (ct_count hp) ?d = Some 1")
        case True
        then show ?thesis
          using that same assms unfolding Inr
          by (auto simp: cron_change_def then_db_def on_failed_def p Inr show_text_def cron_confirm_def cron_record_def
              cron_Apply_def runner_Install_def return_db_def Let_def split: option.splits)
      next
        case False
        then show ?thesis
          using that same
          by (auto simp: cron_change_def then_db_def on_failed_def p Inr show_text_def cron_confirm_def cron_record_def fail_db_def
              return_db_def)
      qed
    qed
  qed
  show ?thesis
  proof (cases "decode args")
    case (Some q)
    obtain rl hl rp hp rc hc where runs: "List_entries hash h = (rl, hl)" "cron_prepare hash q h = (rp, hp)"
      "cron_change hash q h = (rc, hc)" by (metis prod.exhaust)
    have last: "snd (then_db f g h) = snd (f h)" if "\<And>x h'. snd (g x h') = h'" for f :: "'a cron_op" and g :: "'a \<Rightarrow> 'b cron_op"
      using that by (simp add: then_db_def split: prod.split sum.split)
    consider "cq_Action q = ''list''" | "cq_Action q = ''show''" | "cq_Action q = ''dry_run''"
      | "\<not> List.member [''list'', ''show'', ''dry_run''] (cq_Action q)" by auto
    then have "snd (system_cron_Execute hash decode args h) \<in> {h, hl, hp, hc}"
    proof cases
      case 1
      then show ?thesis
        using last [of "\<lambda>(ens, _). return_db (Entries ens)" "List_entries hash"]
        by (simp add: system_cron_Execute_def Some runs return_db_def split_beta)
    next
      case 2
      then show ?thesis
        using last [of "\<lambda>(ens, content). if TrimSpace (cq_Target q) = '''' then return_db (PlainText content)
            else (case find (shows_target (cq_Target q)) ens of
                None \<Rightarrow> fail_db (EntryNotFound (cq_Target q))
              | Some en \<Rightarrow> return_db (OneEntry en))" "List_entries hash"]
        by (simp add: system_cron_Execute_def Some runs return_db_def fail_db_def split_beta split: option.split)
    next
      case 3
      then show ?thesis
        using last [of "\<lambda>m. return_db (PlainText (cron_Diff (cm_OldContent m) (cm_NewContent m)))" "cron_prepare hash q"]
        by (simp add: system_cron_Execute_def Some runs return_db_def)
    next
      case 4
      then show ?thesis
        using last [of "\<lambda>m. return_db (Changed (cm_Action m) (cm_Target m))" "cron_change hash q"]
        by (simp add: system_cron_Execute_def Some runs return_db_def fail_db_def)
    qed
    then show ?thesis
      using listing [OF runs(1)] prepared [OF runs(2)] changed [OF runs(3)] Some by (auto split: prod.split)
  qed (simp add: system_cron_Execute_def fail_db_def)
qed

section \<open>A sample crontab\<close>

definition sample_crontab :: string where
  "sample_crontab = Join [''0 1 * * * echo a'', ''# cvkeharness:id=cron_b'', ''5 1 * * * echo b'', '''',
     ''# 7 1 * * * echo c'', ''9 1 * * * echo d''] [LF] @ [LF]"

definition sample_crontab_host :: cron_host where
  "sample_crontab_host = \<lparr>ct_content = sample_crontab, ct_answer = (\<lambda>_. None), ct_others = (\<lambda>_ c. c),
     ct_random = (\<lambda>_. Some ''12345678''), ct_choice = (\<lambda>_ _. Some 1), ct_recorded = (\<lambda>_. True), ct_count = 0,
     ct_shown = [], ct_audits = []\<rparr>"

theorem update_changes_one_entry_witness:
  "case rewritten (\<lambda>s. s) sample_crontab ''update'' ''cron_b'' (\<lambda>_. cron_raw ''5 2 * * *'' ''echo b'') of
     Inl _ \<Rightarrow> False
   | Inr m \<Rightarrow> \<exists>before en after. Parse (\<lambda>s. s) sample_crontab = before @ en # after \<and> ce_ID en = ''cron_b''
       \<and> Parse (\<lambda>s. s) (cm_NewContent m) =
           before @ listed (\<lambda>s. s) (ce_Line en) (ce_ID en) False ''5 2 * * * echo b'' ''5 2 * * * echo b'' # after"
proof -
  let ?r = "rewritten (\<lambda>s. s) sample_crontab ''update'' ''cron_b'' (\<lambda>_. cron_raw ''5 2 * * *'' ''echo b'')"
  have "ValidateEntry ''5 2 * * *'' ''echo b'' = None" "plain_text (cron_raw ''5 2 * * *'' ''echo b'')"
    "cron_raw ''5 2 * * *'' ''echo b'' = ''5 2 * * * echo b''"
    "list_all (\<lambda>en. is_target ''cron_b'' en \<longleftrightarrow> ce_ID en = ''cron_b'') (Parse (\<lambda>s. s) sample_crontab)" by code_simp+
  note facts = this
  have "case ?r of Inl _ \<Rightarrow> False | Inr _ \<Rightarrow> True" by code_simp
  then obtain m where m: "?r = Inr m" by (auto split: sum.splits)
  from update_changes_one_entry [OF m facts(1,2), unfolded facts(3)]
  have "\<exists>before en after. Parse (\<lambda>s. s) sample_crontab = before @ en # after \<and> ce_ID en = ''cron_b''
      \<and> Parse (\<lambda>s. s) (cm_NewContent m) =
          before @ listed (\<lambda>s. s) (ce_Line en) (ce_ID en) False ''5 2 * * * echo b'' ''5 2 * * * echo b'' # after"
    using facts(4) by fastforce
  then show ?thesis unfolding m sum.case .
qed

theorem set_enabled_changes_one_entry_witness:
  "case rewritten (\<lambda>s. s) sample_crontab ''enable'' ''5'' (enabled_raw True) of
     Inl _ \<Rightarrow> False
   | Inr m \<Rightarrow> \<exists>before en after. Parse (\<lambda>s. s) sample_crontab = before @ en # after
       \<and> Parse (\<lambda>s. s) (cm_NewContent m) =
           before @ en\<lparr>ce_Raw := enabled_raw True en, ce_Disabled := False, ce_Hash := take 16 (enabled_raw True en)\<rparr> # after"
proof -
  let ?r = "rewritten (\<lambda>s. s) sample_crontab ''enable'' ''5'' (enabled_raw True)"
  have plain: "list_all plain_text (splitLines sample_crontab)" by code_simp
  have "case ?r of Inl _ \<Rightarrow> False | Inr _ \<Rightarrow> True" by code_simp
  then obtain m where m: "?r = Inr m" by (auto split: sum.splits)
  from set_enabled_changes_one_entry [OF m plain] show ?thesis
    unfolding m sum.case hashLine_def by fastforce
qed



theorem crontab_changed_only_as_confirmed_witness:
  "case system_cron_Execute (\<lambda>s. s) (\<lambda>_. Some \<lparr>cq_Action = ''remove'', cq_Target = ''cron_b'', cq_Schedule = '''',
        cq_Command = '''', cq_Name = ''''\<rparr>) ''{}'' sample_crontab_host of (r, h') \<Rightarrow>
    ct_content h' = Join [''0 1 * * * echo a'', '''', ''# 7 1 * * * echo c'', ''9 1 * * * echo d''] [LF] @ [LF]
    \<and> (\<exists>m :: cron_mutation. ct_choice sample_crontab_host 0 (cron_Diff (cm_OldContent m) (cm_NewContent m)) = Some 1
         \<and> ct_content h' = cm_NewContent m)"
proof -
  let ?q = "\<lambda>_. Some \<lparr>cq_Action = ''remove'', cq_Target = ''cron_b'', cq_Schedule = '''', cq_Command = '''', cq_Name = ''''\<rparr>"
  let ?new = "Join [''0 1 * * * echo a'', '''', ''# 7 1 * * * echo c'', ''9 1 * * * echo d''] [LF] @ [LF]"
  have "ct_content (snd (system_cron_Execute (\<lambda>s. s) ?q ''{}'' sample_crontab_host)) = ?new" by code_simp
  moreover have "?new \<noteq> ct_content sample_crontab_host" by code_simp
  moreover have "ct_others sample_crontab_host = (\<lambda>_ c. c)" "ct_choice sample_crontab_host n d = Some 1" for n d
    by (simp_all add: sample_crontab_host_def)
  ultimately show ?thesis
    using crontab_changed_only_as_confirmed [where h = sample_crontab_host and hash = "\<lambda>s. s" and decode = ?q and args = "''{}''"]
    by (auto split: prod.splits)
qed

text \<open>An identifier that is not in the line before its entry stays behind when the entry is removed, and the next
  entry gets it: removing again takes out an entry the harness never managed.\<close>

definition commented_crontab :: string where
  "commented_crontab = Join [''# cvkeharness:id=cron_a'', ''# my job'', ''0 1 * * * echo a'', ''0 2 * * * echo b''] [LF] @ [LF]"

lemma removed_id_is_handed_over:
  "map ce_ID (Parse (\<lambda>s. s) commented_crontab) = [''cron_a'', '''']
   \<and> (case rewritten (\<lambda>s. s) commented_crontab ''remove'' ''cron_a'' (\<lambda>_. '''') of
        Inl _ \<Rightarrow> False
      | Inr m \<Rightarrow> map (\<lambda>en. (ce_ID en, ce_Command en)) (Parse (\<lambda>s. s) (cm_NewContent m)) = [(''cron_a'', ''echo b'')])"
  by code_simp

text \<open>A line number that is not an entry's selects the entry in the line after it.\<close>

lemma line_number_selects_next:
  "map_option ce_Raw (findEntry (Parse (\<lambda>s. s) commented_crontab) ''2'') = Some ''0 1 * * * echo a''"
  by code_simp

text \<open>A name of several lines adds entries that were not validated.\<close>

lemma name_adds_entries:
  "ValidateEntry ''0 1 * * *'' ''echo a'' = None \<and>
   map ce_Command (Parse (\<lambda>s. s) (cm_NewContent (added (\<lambda>s. s) '''' ''cron_a'' ''0 1 * * *'' ''echo a''
     (''job'' @ [LF] @ ''* * * * * echo injected'')))) = [''echo injected'', ''echo a'']"
  by code_simp

text \<open>Updating a disabled entry enables it.\<close>

lemma update_enables:
  "case rewritten (\<lambda>s. s) sample_crontab ''update'' ''5'' (\<lambda>_. cron_raw ''7 2 * * *'' ''echo c'') of
     Inl _ \<Rightarrow> False
   | Inr m \<Rightarrow> map ce_Disabled (Parse (\<lambda>s. s) sample_crontab) = [False, False, True, False]
       \<and> map ce_Disabled (Parse (\<lambda>s. s) (cm_NewContent m)) = [False, False, False, False]"
  by code_simp

end
