(* ===== verification/Recovery_Fleet.thy ===== *)
theory Recovery_Fleet
  imports Recovery_Engine
begin

text \<open>
  Changes on a fleet of hosts (\<open>recovery/fleet.go\<close>, \<open>recovery/fleet_ssh.go\<close>): a batch names operations already
  prepared on other hosts; the controller sends each of them over SSH, one after the other, and keeps in its
  journal what it has sent.  The controller runs on a machine of \<open>Recovery_Files\<close>; what a remote command
  prints is an answer of the world around it, and the world remembers the commands that were started.
\<close>

unbundle bit_operations_syntax

section \<open>Literal addresses\<close>

text \<open>\<open>net.ParseIP\<close> accepts the address.\<close>

definition ipv4_field :: "string \<Rightarrow> bool" where
  "ipv4_field s \<longleftrightarrow> s \<noteq> '''' \<and> list_all is_digit s \<and> (length s = 1 \<or> hd s \<noteq> CHR ''0'')
     \<and> length s \<le> 3 \<and> (case Atoi s of Some n \<Rightarrow> n \<le> 255 | None \<Rightarrow> False)"

definition is_ipv4 :: "string \<Rightarrow> bool" where
  "is_ipv4 s \<longleftrightarrow> length (SplitByte CHR ''.'' s) = 4 \<and> list_all ipv4_field (SplitByte CHR ''.'' s)"

definition is_hex :: "char \<Rightarrow> bool" where
  "is_hex c \<longleftrightarrow> c \<in> set ''0123456789abcdefABCDEF''"

text \<open>The groups of an IPv6 address from the text \<open>s\<close>; \<open>n\<close> of the eight groups are left, \<open>short\<close> says that \<open>::\<close>
  was read.\<close>

fun ipv6_groups :: "nat \<Rightarrow> bool \<Rightarrow> string \<Rightarrow> bool" where
  "ipv6_groups 0 short s = (\<not> short \<and> s = '''')"
| "ipv6_groups (Suc n) short s =
     (let digits = takeWhile is_hex s; rest = dropWhile is_hex s in
      if digits = '''' \<or> 4 < length digits then False
      else if HasPrefix rest ''.'' then (n = 1 \<and> \<not> short \<or> 1 < n \<and> short) \<and> is_ipv4 s
      else if rest = '''' then short \<and> n \<noteq> 0 \<or> \<not> short \<and> n = 0
      else if hd rest \<noteq> CHR '':'' \<or> length rest = 1 then False
      else if rest ! 1 = CHR '':''
        then (if short then False else if length rest = 2 then n \<noteq> 0 else ipv6_groups n True (drop 2 rest))
      else ipv6_groups n short (tl rest))"

definition is_ipv6 :: "string \<Rightarrow> bool" where
  "is_ipv6 s \<longleftrightarrow> (if s = ''::'' then True
     else if HasPrefix s ''::'' then ipv6_groups 8 True (drop 2 s) else ipv6_groups 8 False s)"

text \<open>The first of \<open>.\<close>, \<open>:\<close> and \<open>%\<close> says which kind of address it is; none has a zone.\<close>

definition is_ip :: "string \<Rightarrow> bool" where
  "is_ip s \<longleftrightarrow>
     (case find (\<lambda>c. c \<in> set ''.:%'') s of
        None \<Rightarrow> False
      | Some c \<Rightarrow> if c = CHR ''.'' then is_ipv4 s else c = CHR '':'' \<and> CHR ''%'' \<notin> set s \<and> is_ipv6 s)"

section \<open>Configuration\<close>

record fleet_limits =
  fl_MaxHosts :: int
  fl_MaxFiles :: int
  fl_MaxBytes :: int
  fl_MaxServices :: int
  fl_MaxRepairAttempts :: int
  fl_MaxAgeSeconds :: int

definition DefaultFleetLimits :: fleet_limits where
  "DefaultFleetLimits = \<lparr>fl_MaxHosts = 4, fl_MaxFiles = 100, fl_MaxBytes = 33554432, fl_MaxServices = 2,
     fl_MaxRepairAttempts = 2, fl_MaxAgeSeconds = 900\<rparr>"

definition fleet_limits_validate :: "fleet_limits \<Rightarrow> bool" where
  "fleet_limits_validate l \<longleftrightarrow>
     \<not> (fl_MaxHosts l < 1 \<or> 32 < fl_MaxHosts l \<or> fl_MaxFiles l < 1 \<or> 10000 < fl_MaxFiles l
        \<or> fl_MaxBytes l < 1 \<or> 1073741824 < fl_MaxBytes l \<or> fl_MaxServices l < 0 \<or> 32 < fl_MaxServices l
        \<or> fl_MaxRepairAttempts l < 1 \<or> 3 < fl_MaxRepairAttempts l
        \<or> fl_MaxAgeSeconds l < 1 \<or> 86400 < fl_MaxAgeSeconds l)"

record fleet_host =
  fh_Name :: string
  fh_Address :: string
  fh_Port :: int
  fh_User :: string
  fh_ExpectedTarget :: string
  fh_SSHBinary :: string
  fh_IdentityFile :: string
  fh_KnownHostsFile :: string
  fh_Executor :: string
  fh_StatePath :: string
  fh_TimeoutSeconds :: int

record fleet_config =
  fcf_Hosts :: "fleet_host list"
  fcf_Limits :: fleet_limits

definition hexID :: "string \<Rightarrow> nat \<Rightarrow> bool" where
  "hexID s n \<longleftrightarrow> length s = n \<and> Trim s ''0123456789abcdef'' = ''''"

definition plain_letters :: string where
  "plain_letters = ''abcdefghijklmnopqrstuvwxyzABCDEFGHIJKLMNOPQRSTUVWXYZ0123456789_-''"

definition plainName :: "string \<Rightarrow> bool" where
  "plainName s \<longleftrightarrow> 0 < length s \<and> length s \<le> 64 \<and> Trim s plain_letters = '''' \<and> hd s \<noteq> CHR ''-''"

definition fleet_letters :: string where
  "fleet_letters = ''abcdefghijklmnopqrstuvwxyzABCDEFGHIJKLMNOPQRSTUVWXYZ0123456789_./-''"

definition fleetPath :: "string \<Rightarrow> bool" where
  "fleetPath s \<longleftrightarrow> IsAbs s \<and> Clean s = s \<and> length s \<le> 1024 \<and> Trim s fleet_letters = ''''"

definition fleet_host_ok :: "string \<Rightarrow> string list \<Rightarrow> string list \<Rightarrow> fleet_host \<Rightarrow> bool" where
  "fleet_host_ok base names targets h \<longleftrightarrow>
     \<not> (\<not> plainName (fh_Name h) \<or> \<not> plainName (fh_User h) \<or> \<not> is_ip (fh_Address h) \<or> fh_Port h < 1 \<or> 65535 < fh_Port h
        \<or> \<not> hexID (fh_ExpectedTarget h) 64 \<or> fh_TimeoutSeconds h < 1 \<or> 120 < fh_TimeoutSeconds h
        \<or> List.member names (fh_Name h) \<or> List.member targets (fh_ExpectedTarget h))
     \<and> list_all fleetPath [fh_SSHBinary h, fh_IdentityFile h, fh_KnownHostsFile h, fh_Executor h, fh_StatePath h]
     \<and> \<not> (\<not> is_within (fh_IdentityFile h) base \<or> \<not> is_within (fh_KnownHostsFile h) base
           \<or> fh_IdentityFile h = fh_KnownHostsFile h)"

fun fleet_hosts_ok :: "string \<Rightarrow> string list \<Rightarrow> string list \<Rightarrow> fleet_host list \<Rightarrow> bool" where
  "fleet_hosts_ok base names targets [] = True"
| "fleet_hosts_ok base names targets (h # hs) =
     (fleet_host_ok base names targets h
      \<and> fleet_hosts_ok base (fh_Name h # names) (fh_ExpectedTarget h # targets) hs)"

definition fleet_validate :: "string \<Rightarrow> fleet_config \<Rightarrow> bool" where
  "fleet_validate base f \<longleftrightarrow>
     fleet_limits_validate (fcf_Limits f) \<and> length (fcf_Hosts f) \<le> 32 \<and> fleet_hosts_ok base [] [] (fcf_Hosts f)"

section \<open>Plans and batches\<close>

record fleet_host_plan =
  hp_Config :: fleet_host
  hp_SSHBinary :: fingerprint
  hp_Identity :: fingerprint
  hp_KnownHosts :: fingerprint

record fleet_reference =
  fr_Host :: string
  fr_ID :: string
  fr_Digest :: string

record fleet_entry =
  fe_Host :: fleet_host_plan
  fe_Operation :: operation

record fleet_impact =
  fi_Hosts :: int
  fi_Files :: int
  fi_Bytes :: int
  fi_Services :: int

record fleet_plan =
  fp_Version :: int
  fp_CreatedAt :: time
  fp_Limits :: fleet_limits
  fp_Impact :: fleet_impact
  fp_Entries :: "fleet_entry list"

record fleet_outcome =
  fo_Dispatched :: bool
  fo_State :: string
  fo_Repairs :: int
  fo_ObservedRevision :: int

record fleet_batch =
  fb_Record :: recovery_batch
  fb_Plan :: fleet_plan
  fb_Outcomes :: "fleet_outcome list"

definition FleetStopped :: string where "FleetStopped = ''rollout_stopped''"

text \<open>JSON of plans and outcomes, what a digest binds, and the decoder of a remote answer.\<close>

record fleet_codec =
  fc_review :: "string \<Rightarrow> string \<Rightarrow> fleet_plan \<Rightarrow> string"
  fc_plan :: "fleet_plan \<Rightarrow> string"
  fc_plan_of :: "string \<Rightarrow> fleet_plan option"
  fc_outcomes :: "fleet_outcome list \<Rightarrow> string"
  fc_outcomes_of :: "string \<Rightarrow> fleet_outcome list option"
  fc_operation_of :: "string \<Rightarrow> operation option"

record fleet_engine =
  fg_engine :: engine
  fg_fleet :: fleet_config
  fg_codec :: fleet_codec

definition batchDigest :: "fleet_engine \<Rightarrow> string \<Rightarrow> string \<Rightarrow> fleet_plan \<Rightarrow> string" where
  "batchDigest fg target policy p = cd_hash (eg_codec (fg_engine fg)) (fc_review (fg_codec fg) target policy p)"

section \<open>The world of a controller\<close>

record remote_call =
  rc_Host :: fleet_host_plan
  rc_Action :: string
  rc_ID :: string
  rc_Digest :: string
  rc_Arguments :: "string list"

record fleet_world =
  fw_machine :: machine
  fw_calls :: "remote_call list"
  fw_reply :: "nat \<Rightarrow> string list \<Rightarrow> string option"

type_synonym 'a fleet = "(fleet_world, recovery_error, 'a) state_op"

definition on_machine :: "'a sys \<Rightarrow> 'a fleet" where
  "on_machine f w = (let (r, m) = f (fw_machine w) in (r, w\<lparr>fw_machine := m\<rparr>))"

section \<open>SSH\<close>

definition fleetAsset :: "(string \<Rightarrow> string) \<Rightarrow> string \<Rightarrow> bool \<Rightarrow> fingerprint sys" where
  "fleetAsset hash path executable =
     then_db (parentFor path) (\<lambda>p.
     then_db (readRegular hash p (Base path) (if executable then 67108864 else 1048576)) (\<lambda>(f, _).
     then_db (refuse_when (\<not> fp_Exists f \<or> fp_Mode f AND 18 \<noteq> 0)
               ''fleet transport asset is missing or writable by another principal'') (\<lambda>_.
     then_db (if executable then refuse_when (fp_Mode f AND 73 = 0) ''fleet SSH executable is not executable''
              else refuse_when (fp_Mode f AND 63 \<noteq> 0)
                ''fleet credentials/known-hosts must be private (0600 or stricter)'') (\<lambda>_.
     return_db f))))"

definition captureFleetHost :: "(string \<Rightarrow> string) \<Rightarrow> fleet_host \<Rightarrow> fleet_host_plan sys" where
  "captureFleetHost hash h =
     then_db (fleetAsset hash (fh_SSHBinary h) True) (\<lambda>ssh.
     then_db (fleetAsset hash (fh_IdentityFile h) False) (\<lambda>identity.
     then_db (fleetAsset hash (fh_KnownHostsFile h) False) (\<lambda>known.
     return_db \<lparr>hp_Config = h, hp_SSHBinary = ssh, hp_Identity = identity, hp_KnownHosts = known\<rparr>)))"

definition remote_command :: "fleet_host \<Rightarrow> string \<Rightarrow> string \<Rightarrow> string \<Rightarrow> string" where
  "remote_command h action k digest =
     fh_Executor h @ '' recovery --state '' @ fh_StatePath h @ '' --expect-target '' @ fh_ExpectedTarget h
     @ '' '' @ action @ '' '' @ k @ (if action \<noteq> ''inspect'' then '' --confirm '' @ digest else '''')"

definition fleetSSHArguments :: "fleet_host \<Rightarrow> string \<Rightarrow> string \<Rightarrow> string \<Rightarrow> recovery_error + string list" where
  "fleetSSHArguments h action k digest =
     (if \<not> hexID k 32 \<or> \<not> hexID digest 64 \<or> \<not> hexID (fh_ExpectedTarget h) 64
      then Inl (Problem ''invalid remote operation reference'')
      else if action \<noteq> ''inspect'' \<and> action \<noteq> ''apply'' \<and> action \<noteq> ''recover''
      then Inl (Problem ''unsupported remote recovery action'')
      else if \<not> fleetPath (fh_Executor h) \<or> \<not> fleetPath (fh_StatePath h)
      then Inl (Problem ''invalid remote executor paths'')
      else Inr ([''-F'', ''none'', ''-T'', ''-a'', ''-x'', ''-o'', ''BatchMode=yes'', ''-o'', ''StrictHostKeyChecking=yes'',
        ''-o'', ''UpdateHostKeys=no'', ''-o'', ''VerifyHostKeyDNS=no'', ''-o'', ''GlobalKnownHostsFile=/dev/null'',
        ''-o'', ''UserKnownHostsFile='' @ fh_KnownHostsFile h, ''-o'', ''HostKeyAlias='' @ fh_ExpectedTarget h,
        ''-o'', ''IdentityAgent=none'', ''-o'', ''IdentitiesOnly=yes'', ''-o'', ''CertificateFile=none'',
        ''-o'', ''PreferredAuthentications=publickey'', ''-o'', ''PasswordAuthentication=no'',
        ''-o'', ''KbdInteractiveAuthentication=no'', ''-o'', ''ControlMaster=no'', ''-o'', ''ControlPath=none'',
        ''-o'', ''ClearAllForwardings=yes'', ''-o'', ''PermitLocalCommand=no'', ''-o'', ''ProxyCommand=none'',
        ''-o'', ''ProxyJump=none'', ''-o'', ''ConnectionAttempts=1'', ''-o'', ''ConnectTimeout=5'',
        ''-o'', ''ServerAliveInterval=5'', ''-o'', ''ServerAliveCountMax=2'', ''-i'', fh_IdentityFile h,
        ''-p'', int_text (fh_Port h), ''-l'', fh_User h, ''--'', fh_Address h, remote_command h action k digest]))"

text \<open>The command is started; it may fail, disconnect or run out of time, or print too much.\<close>

definition run_ssh :: "remote_call \<Rightarrow> string fleet" where
  "run_ssh c w =
     (let w' = w\<lparr>fw_calls := fw_calls w @ [c]\<rparr>
      in case fw_reply w (length (fw_calls w)) (fh_SSHBinary (hp_Config (rc_Host c)) # rc_Arguments c) of
           None \<Rightarrow> (Inl (Problem ''fixed SSH recovery failed or disconnected''), w')
         | Some out \<Rightarrow>
             if 16777216 < length out then (Inl (Problem ''fixed SSH recovery failed or disconnected''), w')
             else (Inr out, w'))"

definition callFleet :: "fleet_engine \<Rightarrow> fleet_host_plan \<Rightarrow> string \<Rightarrow> string \<Rightarrow> string \<Rightarrow> operation fleet" where
  "callFleet fg h action k digest =
     then_db (on_machine (captureFleetHost (cd_hash (eg_codec (fg_engine fg))) (hp_Config h))) (\<lambda>current.
     then_db (on_machine (refuse_when (current \<noteq> h) ''fleet transport executable, key or known-hosts changed'')) (\<lambda>_.
       case fleetSSHArguments (hp_Config h) action k digest of
         Inl e \<Rightarrow> fail_db e
       | Inr args \<Rightarrow>
           then_db (run_ssh \<lparr>rc_Host = h, rc_Action = action, rc_ID = k, rc_Digest = digest, rc_Arguments = args\<rparr>) (\<lambda>out.
             case fc_operation_of (fg_codec fg) out of
               None \<Rightarrow> fail_db (Problem ''invalid target executor response'')
             | Some op \<Rightarrow> return_db op)))"

section \<open>The journal of batches\<close>

text \<open>The batch the caller holds afterwards; the store sets its revision.\<close>

definition batch_with :: "fleet_engine \<Rightarrow> fleet_batch \<Rightarrow> string \<Rightarrow> string \<Rightarrow> fleet_batch" where
  "batch_with fg b status problem =
     b\<lparr>fb_Record := (fb_Record b)\<lparr>rb_Status := status, rb_Problem := problem,
         rb_Manifest := fc_plan (fg_codec fg) (fb_Plan b), rb_Progress := fc_outcomes (fg_codec fg) (fb_Outcomes b)\<rparr>\<rparr>"

definition saveBatch ::
  "fleet_engine \<Rightarrow> fleet_batch \<Rightarrow> string \<Rightarrow> string \<Rightarrow> (string \<times> string) list \<Rightarrow> fleet_batch fleet" where
  "saveBatch fg b status problem claims =
     (let b' = batch_with fg b status problem in
      then_db (on_machine (on_store (SaveRecoveryBatch (cd_valid (eg_codec (fg_engine fg))) (fb_Record b') claims)))
        (\<lambda>r. return_db (b'\<lparr>fb_Record := r\<rparr>)))"

text \<open>An outcome that stops the batch is saved; both errors are reported.\<close>

definition stop_batch :: "fleet_engine \<Rightarrow> fleet_batch \<Rightarrow> string \<Rightarrow> string \<Rightarrow> recovery_error \<Rightarrow> 'a fleet" where
  "stop_batch fg b status problem e =
     then_db (attempt (saveBatch fg b status problem []))
       (\<lambda>r. fail_db (join_errors e (case r of Inl f \<Rightarrow> Some f | Inr _ \<Rightarrow> None)))"

definition InspectBatch :: "fleet_engine \<Rightarrow> string \<Rightarrow> fleet_batch sys" where
  "InspectBatch fg k =
     then_db (on_store (GetRecoveryBatch k)) (\<lambda>r.
       case fc_plan_of (fg_codec fg) (rb_Manifest r) of
         None \<Rightarrow> fail_db (Problem ''decode batch manifest'')
       | Some plan \<Rightarrow>
           (case fc_outcomes_of (fg_codec fg) (rb_Progress r) of
              None \<Rightarrow> fail_db (Problem ''decode batch progress'')
            | Some outcomes \<Rightarrow>
                then_db (refuse_when (\<not> hexID k 32 \<or> rb_Target r \<noteq> eg_target (fg_engine fg) \<or> fp_Version plan \<noteq> 1
                    \<or> batchDigest fg (rb_Target r) (rb_Policy r) plan \<noteq> rb_Digest r
                    \<or> length outcomes \<noteq> length (fp_Entries plan) \<or> length outcomes < 1 \<or> 32 < length outcomes)
                  ''invalid, altered or foreign-controller batch'') (\<lambda>_.
                then_db (refuse_when (list_ex (\<lambda>out. fo_Repairs out < 0 \<or> fl_MaxRepairAttempts (fp_Limits plan) < fo_Repairs out) outcomes)
                  ''invalid repair evidence'') (\<lambda>_.
                return_db \<lparr>fb_Record = r, fb_Plan = plan, fb_Outcomes = outcomes\<rparr>))))"

definition ListBatches :: "recovery_batch list sys" where
  "ListBatches = on_store ListRecoveryBatches"

definition validateFleetOperation ::
  "fleet_engine \<Rightarrow> operation \<Rightarrow> string \<Rightarrow> string \<Rightarrow> string \<Rightarrow> recovery_error option" where
  "validateFleetOperation fg op k digest target =
     (if \<not> hexID k 32 \<or> \<not> hexID digest 64 \<or> op_ID op \<noteq> k \<or> op_Digest op \<noteq> digest \<or> op_Target op \<noteq> target
         \<or> mf_Version (op_Plan op) \<noteq> 1
         \<or> planDigest (eg_codec (fg_engine fg)) (op_Target op) (op_Policy op) (op_Plan op) \<noteq> op_Digest op
      then Some (Problem ''remote operation identity or digest mismatch'')
      else if mf_SSH (op_Plan op) \<noteq> None \<or> mf_Snapshot (op_Plan op) \<noteq> None \<or> length (mf_Entries (op_Plan op)) < 1
         \<or> 10000 < length (mf_Entries (op_Plan op))
      then Some (Problem ''fleet supports bounded regular-file and NGINX plans only'')
      else None)"

definition validated :: "fleet_engine \<Rightarrow> string \<Rightarrow> string \<Rightarrow> string \<Rightarrow> operation \<Rightarrow> operation fleet" where
  "validated fg k digest target op =
     (case validateFleetOperation fg op k digest target of Some e \<Rightarrow> fail_db e | None \<Rightarrow> return_db op)"

section \<open>The impact of a batch\<close>

fun add_file_bytes :: "int \<Rightarrow> int list \<Rightarrow> recovery_error + int" where
  "add_file_bytes bytes [] = Inr bytes"
| "add_file_bytes bytes (n # ns) =
     (if n < 0 \<or> 1073741824 < n \<or> 1073741824 - n < bytes then Inl (Problem ''aggregate byte impact exceeds 1 GiB'')
      else add_file_bytes (bytes + n) ns)"

fun measure_entries :: "string list \<Rightarrow> fleet_impact \<Rightarrow> fleet_entry list \<Rightarrow> recovery_error + fleet_impact" where
  "measure_entries seen impact [] = Inr impact"
| "measure_entries seen impact (en # ens) =
     (if List.member seen (op_Target (fe_Operation en))
      then Inl (Problem ''a batch may affect each machine/principal only once'')
      else
        (let plan = op_Plan (fe_Operation en) in
         case add_file_bytes (fi_Bytes impact)
                (concat (map (\<lambda>file. [fp_Bytes (en_Before file), fp_Bytes (en_After file)]) (mf_Entries plan))) of
           Inl e \<Rightarrow> Inl e
         | Inr bytes \<Rightarrow>
             measure_entries (op_Target (fe_Operation en) # seen)
               (impact\<lparr>fi_Files := fi_Files impact + int (length (mf_Entries plan)), fi_Bytes := bytes,
                  fi_Services := fi_Services impact + (if mf_Service plan \<noteq> None then 1 else 0)\<rparr>) ens))"

definition measureFleet :: "fleet_entry list \<Rightarrow> recovery_error + fleet_impact" where
  "measureFleet ens =
     measure_entries [] \<lparr>fi_Hosts = int (length ens), fi_Files = 0, fi_Bytes = 0, fi_Services = 0\<rparr> ens"

definition impact_within :: "fleet_impact \<Rightarrow> fleet_limits \<Rightarrow> bool" where
  "impact_within i l \<longleftrightarrow> fi_Hosts i \<le> fl_MaxHosts l \<and> fi_Files i \<le> fl_MaxFiles l \<and> fi_Bytes i \<le> fl_MaxBytes l
     \<and> fi_Services i \<le> fl_MaxServices l"

section \<open>Preparing a batch\<close>

text \<open>The entry of one reference: the host as configured, the operation as its host reports it, without its
  encoded manifest and its measurements.\<close>

definition prepare_reference :: "fleet_engine \<Rightarrow> fleet_reference \<Rightarrow> fleet_entry fleet" where
  "prepare_reference fg r =
     (case find (\<lambda>h. fh_Name h = fr_Host r) (fcf_Hosts (fg_fleet fg)) of
        None \<Rightarrow> fail_db (Problem ''fleet host must be operator-configured and different from controller'')
      | Some host \<Rightarrow>
          then_db (on_machine (refuse_when (fh_Name host = '''' \<or> fh_ExpectedTarget host = eg_target (fg_engine fg))
                    ''fleet host must be operator-configured and different from controller'')) (\<lambda>_.
          then_db (on_machine (captureFleetHost (cd_hash (eg_codec (fg_engine fg))) host)) (\<lambda>h.
          then_db (callFleet fg h ''inspect'' (fr_ID r) (fr_Digest r)) (\<lambda>op.
          then_db (validated fg (fr_ID r) (fr_Digest r) (fh_ExpectedTarget host) op) (\<lambda>_.
          then_db (on_machine (refuse_when (op_Status op \<noteq> Ready) ''remote operation must be ready'')) (\<lambda>_.
          return_db \<lparr>fe_Host = h, fe_Operation = op\<lparr>op_Record := (op_Record op)\<lparr>ro_Manifest := ''''\<rparr>, op_Checks := []\<rparr>\<rparr>))))))"

fun prepare_references :: "fleet_engine \<Rightarrow> fleet_reference list \<Rightarrow> fleet_entry list fleet" where
  "prepare_references fg [] = return_db []"
| "prepare_references fg (r # rs) =
     then_db (prepare_reference fg r) (\<lambda>en.
     then_db (prepare_references fg rs) (\<lambda>ens. return_db (en # ens)))"

definition entry_ref :: "fleet_entry \<Rightarrow> string \<times> string" where
  "entry_ref en = (op_Target (fe_Operation en), op_ID (fe_Operation en))"

definition first_outcome :: fleet_outcome where
  "first_outcome = \<lparr>fo_Dispatched = False, fo_State = Ready, fo_Repairs = 0, fo_ObservedRevision = 0\<rparr>"

definition new_batch :: "fleet_engine \<Rightarrow> time \<Rightarrow> string \<Rightarrow> fleet_entry list \<Rightarrow> fleet_impact \<Rightarrow> fleet_batch" where
  "new_batch fg now k ens impact =
     (let plan = \<lparr>fp_Version = 1, fp_CreatedAt = now, fp_Limits = fcf_Limits (fg_fleet fg), fp_Impact = impact,
            fp_Entries = ens\<rparr>;
          target = eg_target (fg_engine fg); policy = eg_policy (fg_engine fg) in
      \<lparr>fb_Record = \<lparr>rb_ID = k, rb_Target = target, rb_Policy = policy, rb_Digest = batchDigest fg target policy plan,
         rb_Manifest = '''', rb_Progress = '''', rb_Status = '''', rb_Problem = '''', rb_Revision = 0, rb_UpdatedAt = zero_time\<rparr>,
       fb_Plan = plan, fb_Outcomes = map (\<lambda>_. first_outcome) ens\<rparr>)"

definition PrepareBatch :: "fleet_engine \<Rightarrow> fleet_reference list \<Rightarrow> fleet_batch fleet" where
  "PrepareBatch fg refs =
     then_db (on_machine (locked (fg_engine fg))) (\<lambda>_.
     then_db (on_machine (noArmedSSH (fg_engine fg))) (\<lambda>_.
     then_db (on_machine (refuse_when (length refs < 1 \<or> fl_MaxHosts (fcf_Limits (fg_fleet fg)) < int (length refs))
               ''batch exceeds configured host limit'')) (\<lambda>_.
     then_db (on_machine (on_store clock_now)) (\<lambda>now.
     then_db (prepare_references fg refs) (\<lambda>ens.
       case measureFleet ens of
         Inl e \<Rightarrow> fail_db e
       | Inr impact \<Rightarrow>
           then_db (on_machine (refuse_when (\<not> impact_within impact (fcf_Limits (fg_fleet fg)))
                     ''aggregate file, byte or service impact exceeds operator limits'')) (\<lambda>_.
           then_db (on_machine (ask sr_random)) (\<lambda>bytes.
           saveBatch fg (new_batch fg now (hex_encode bytes) ens impact) Ready '''' (map entry_ref ens))))))))"

section \<open>Applying a batch\<close>

definition currentFleetPlan :: "fleet_engine \<Rightarrow> fleet_batch \<Rightarrow> unit sys" where
  "currentFleetPlan fg b =
     then_db (refuse_when (rb_Policy (fb_Record b) \<noteq> eg_policy (fg_engine fg)) ''controller policy changed; application refused'') (\<lambda>_.
     then_db (refuse_when (\<not> impact_within (fp_Impact (fb_Plan b)) (fcf_Limits (fg_fleet fg)))
               ''batch exceeds current operator impact limits'') (\<lambda>_.
     then_db (on_store clock_now) (\<lambda>now.
     then_db (on_store clock_now) (\<lambda>now'.
     then_db (refuse_when
         (min (fl_MaxAgeSeconds (fp_Limits (fb_Plan b))) (fl_MaxAgeSeconds (fcf_Limits (fg_fleet fg))) * Second
            < now - fp_CreatedAt (fb_Plan b)
          \<or> now' + Second < fp_CreatedAt (fb_Plan b)) ''batch approval manifest expired'') (\<lambda>_.
     refuse_when (\<not> list_all (\<lambda>en. List.member (fcf_Hosts (fg_fleet fg)) (hp_Config (fe_Host en))) (fp_Entries (fb_Plan b)))
       ''fleet transport configuration changed; application refused'')))))"

definition inspectFleetEntry :: "fleet_engine \<Rightarrow> fleet_entry \<Rightarrow> operation fleet" where
  "inspectFleetEntry fg en =
     then_db (callFleet fg (fe_Host en) ''inspect'' (op_ID (fe_Operation en)) (op_Digest (fe_Operation en)))
       (validated fg (op_ID (fe_Operation en)) (op_Digest (fe_Operation en)) (op_Target (fe_Operation en)))"

definition still_ready :: "fleet_engine \<Rightarrow> fleet_entry \<Rightarrow> unit fleet" where
  "still_ready fg en =
     then_db (inspectFleetEntry fg en) (\<lambda>op.
     on_machine (refuse_when (op_Status op \<noteq> Ready) ''a target operation is no longer ready''))"

fun inspect_all :: "fleet_engine \<Rightarrow> fleet_entry list \<Rightarrow> unit fleet" where
  "inspect_all fg [] = return_db ()"
| "inspect_all fg (en # ens) = then_db (still_ready fg en) (\<lambda>_. inspect_all fg ens)"

definition with_outcome :: "nat \<Rightarrow> (fleet_outcome \<Rightarrow> fleet_outcome) \<Rightarrow> fleet_batch \<Rightarrow> fleet_batch" where
  "with_outcome i f b = b\<lparr>fb_Outcomes := (fb_Outcomes b)[i := f (fb_Outcomes b ! i)]\<rparr>"

text \<open>A command that changes a target: sent after its save, and its answer checked against the plan.\<close>

definition dispatch :: "fleet_engine \<Rightarrow> string \<Rightarrow> fleet_entry \<Rightarrow> operation fleet" where
  "dispatch fg action en =
     callFleet fg (fe_Host en) action (op_ID (fe_Operation en)) (op_Digest (fe_Operation en))"

definition check_answer :: "fleet_engine \<Rightarrow> fleet_entry \<Rightarrow> recovery_error + operation \<Rightarrow> operation fleet" where
  "check_answer fg en r =
     (case r of
        Inl e \<Rightarrow> fail_db e
      | Inr op \<Rightarrow> validated fg (op_ID (fe_Operation en)) (op_Digest (fe_Operation en)) (op_Target (fe_Operation en)) op)"

definition observed :: "operation \<Rightarrow> fleet_outcome \<Rightarrow> fleet_outcome" where
  "observed op out = out\<lparr>fo_State := op_Status op, fo_ObservedRevision := ro_Revision (op_Record op)\<rparr>"

text \<open>The answer to an application is recorded.\<close>

definition record_apply :: "fleet_engine \<Rightarrow> nat \<Rightarrow> fleet_batch \<Rightarrow> operation \<Rightarrow> fleet_batch fleet" where
  "record_apply fg i b op =
     (let b' = with_outcome i (observed op) b in
      if op_Status op \<noteq> Committed
      then stop_batch fg b' FleetStopped ''target did not commit; later hosts untouched'' (Problem ''target did not commit'')
      else
        then_db (saveBatch fg b' Applying '''' []) (\<lambda>b''.
        then_db (on_machine (checkpoint (fg_engine fg) ''fleet_recorded'' (int i))) (\<lambda>_.
        return_db b'')))"

definition send_apply :: "fleet_engine \<Rightarrow> nat \<Rightarrow> fleet_entry \<Rightarrow> fleet_batch \<Rightarrow> fleet_batch fleet" where
  "send_apply fg i en b =
     then_db (on_machine (checkpoint (fg_engine fg) ''fleet_dispatched'' (int i))) (\<lambda>_.
     then_db (attempt (dispatch fg ''apply'' en)) (\<lambda>r.
     then_db (on_machine (checkpoint (fg_engine fg) ''fleet_responded'' (int i))) (\<lambda>_.
     then_db (on_error (check_answer fg en r)
       (stop_batch fg b Unknown ''dispatched target outcome is unknown; rollout stopped; inspect before recovery''))
     (record_apply fg i b))))"

text \<open>One host: it is inspected again, the dispatch is journaled, the command is sent.\<close>

definition dispatched :: "fleet_outcome \<Rightarrow> fleet_outcome" where
  "dispatched out = out\<lparr>fo_Dispatched := True, fo_State := Unknown\<rparr>"

definition apply_host :: "fleet_engine \<Rightarrow> nat \<Rightarrow> fleet_entry \<Rightarrow> fleet_batch \<Rightarrow> fleet_batch fleet" where
  "apply_host fg i en b =
     then_db (on_error (then_db (on_machine ctx_Err) (\<lambda>_. still_ready fg en))
       (stop_batch fg b FleetStopped ''pre-dispatch inspection failed; rollout stopped'')) (\<lambda>_.
     then_db (saveBatch fg (with_outcome i dispatched b) Applying '''' []) (send_apply fg i en))"

fun apply_hosts :: "fleet_engine \<Rightarrow> nat \<Rightarrow> fleet_entry list \<Rightarrow> fleet_batch \<Rightarrow> fleet_batch fleet" where
  "apply_hosts fg i [] b = return_db b"
| "apply_hosts fg i (en # ens) b = then_db (apply_host fg i en b) (apply_hosts fg (i + 1) ens)"

definition ApplyBatch :: "fleet_engine \<Rightarrow> string \<Rightarrow> string \<Rightarrow> fleet_batch fleet" where
  "ApplyBatch fg k digest =
     then_db (on_machine (locked (fg_engine fg))) (\<lambda>_.
     then_db (on_machine (InspectBatch fg k)) (\<lambda>b.
     then_db (on_machine (refuse_when (digest \<noteq> rb_Digest (fb_Record b)) ''exact batch digest required'')) (\<lambda>_.
     then_db (on_machine (refuse_when (rb_Status (fb_Record b) \<noteq> Ready)
               ''a dispatched batch cannot be applied again; inspect/reconcile/recover'')) (\<lambda>_.
     then_db (on_machine (noArmedSSH (fg_engine fg))) (\<lambda>_.
     then_db (on_machine (currentFleetPlan fg b)) (\<lambda>_.
     then_db (inspect_all fg (fp_Entries (fb_Plan b))) (\<lambda>_.
     then_db (apply_hosts fg 0 (fp_Entries (fb_Plan b)) b) (\<lambda>b'.
     saveBatch fg b' Committed '''' []))))))))"

section \<open>Reconciling a batch\<close>

text \<open>One host is inspected; a target that is still ready after the dispatch has an unknown outcome.\<close>

definition reconcile_host :: "fleet_engine \<Rightarrow> fleet_entry \<Rightarrow> fleet_outcome \<Rightarrow> (fleet_outcome \<times> recovery_error list) fleet" where
  "reconcile_host fg en out =
     (if \<not> fo_Dispatched out then return_db (out, [])
      else then_db (attempt (inspectFleetEntry fg en)) (\<lambda>r.
        case r of
          Inl e \<Rightarrow> return_db (out\<lparr>fo_State := Unknown\<rparr>, [e])
        | Inr op \<Rightarrow>
            return_db (if op_Status op = Ready then (observed op out)\<lparr>fo_State := Unknown\<rparr> else observed op out, [])))"

fun reconcile_hosts ::
  "fleet_engine \<Rightarrow> fleet_entry list \<Rightarrow> fleet_outcome list \<Rightarrow> (fleet_outcome list \<times> recovery_error list) fleet" where
  "reconcile_hosts fg (en # ens) (out # outs) =
     then_db (reconcile_host fg en out) (\<lambda>(out', problems).
     then_db (reconcile_hosts fg ens outs) (\<lambda>(outs', problems').
     return_db (out' # outs', problems @ problems')))"
| "reconcile_hosts fg _ _ = return_db ([], [])"

definition reconciled_status :: "fleet_outcome list \<Rightarrow> recovery_error list \<Rightarrow> string \<times> string" where
  "reconciled_status outs problems =
     (if problems \<noteq> [] then (Unknown, ''one or more target outcomes could not be inspected'')
      else if list_all (\<lambda>out. fo_Dispatched out \<and> fo_State out = Committed) outs then (Committed, '''')
      else if list_all (\<lambda>out. fo_Dispatched out \<longrightarrow> fo_State out = Recovered) outs then (Recovered, '''')
      else (FleetStopped, ''inspected partial rollout; apply will not resume; explicit recovery remains available''))"

definition ReconcileBatch :: "fleet_engine \<Rightarrow> string \<Rightarrow> fleet_batch fleet" where
  "ReconcileBatch fg k =
     then_db (on_machine (locked (fg_engine fg))) (\<lambda>_.
     then_db (on_machine (InspectBatch fg k)) (\<lambda>b.
     if rb_Status (fb_Record b) = Ready then return_db b
     else
       then_db (reconcile_hosts fg (fp_Entries (fb_Plan b)) (fb_Outcomes b)) (\<lambda>(outs, problems).
       let (status, problem) = reconciled_status outs problems in
       then_db (attempt (saveBatch fg (b\<lparr>fb_Outcomes := outs\<rparr>) status problem [])) (\<lambda>r.
         case r of
           Inl e \<Rightarrow> fail_db (Joined (problems @ [e]))
         | Inr b' \<Rightarrow> if problems \<noteq> [] then fail_db (Joined problems) else return_db b'))))"

section \<open>Recovering a batch\<close>

definition repair_ceiling :: "fleet_engine \<Rightarrow> fleet_batch \<Rightarrow> int" where
  "repair_ceiling fg b =
     min (fl_MaxRepairAttempts (fp_Limits (fb_Plan b))) (fl_MaxRepairAttempts (fcf_Limits (fg_fleet fg)))"

definition record_repair :: "fleet_engine \<Rightarrow> nat \<Rightarrow> fleet_batch \<Rightarrow> operation \<Rightarrow> fleet_batch fleet" where
  "record_repair fg i b op =
     (let b' = with_outcome i (observed op) b in
      if op_Status op \<noteq> Recovered
      then stop_batch fg b' RecoveryFailed ''target recovery did not verify; remaining repairs stopped''
             (Problem ''target recovery did not verify'')
      else saveBatch fg b' RollingBack '''' [])"

definition send_repair :: "fleet_engine \<Rightarrow> nat \<Rightarrow> fleet_entry \<Rightarrow> fleet_batch \<Rightarrow> fleet_batch fleet" where
  "send_repair fg i en b =
     then_db (on_machine (checkpoint (fg_engine fg) ''fleet_repair_dispatched'' (int i))) (\<lambda>_.
     then_db (attempt (dispatch fg ''recover'' en)) (\<lambda>r.
     then_db (on_machine (checkpoint (fg_engine fg) ''fleet_repair_responded'' (int i))) (\<lambda>_.
     then_db (on_error (check_answer fg en r)
       (stop_batch fg b Unknown ''repair outcome unknown; inspect before another bounded attempt''))
     (record_repair fg i b))))"

definition repaired :: "fleet_outcome \<Rightarrow> fleet_outcome" where
  "repaired out = out\<lparr>fo_Repairs := fo_Repairs out + 1, fo_State := Unknown\<rparr>"

definition recover_host :: "fleet_engine \<Rightarrow> nat \<Rightarrow> fleet_entry \<Rightarrow> fleet_batch \<Rightarrow> fleet_batch fleet" where
  "recover_host fg i en b =
     (if \<not> fo_Dispatched (fb_Outcomes b ! i) then return_db b
      else
        then_db (on_error (inspectFleetEntry fg en)
          (stop_batch fg b Unknown ''recovery inspection unavailable; no retry was dispatched'')) (\<lambda>op.
        if op_Status op = Recovered then return_db (with_outcome i (observed op) b)
        else if repair_ceiling fg b \<le> fo_Repairs (fb_Outcomes b ! i)
        then stop_batch fg b RecoveryFailed ''repair budget exhausted; automatic/controller repair stopped''
               (Problem ''target repair-attempt limit reached'')
        else then_db (saveBatch fg (with_outcome i repaired b) RollingBack '''' []) (send_repair fg i en)))"

text \<open>The hosts below \<open>n\<close>, the last one first.\<close>

fun recover_hosts :: "fleet_engine \<Rightarrow> nat \<Rightarrow> fleet_batch \<Rightarrow> fleet_batch fleet" where
  "recover_hosts fg 0 b = return_db b"
| "recover_hosts fg (Suc i) b =
     then_db (recover_host fg i (fp_Entries (fb_Plan b) ! i) b) (recover_hosts fg i)"

definition RecoverBatch :: "fleet_engine \<Rightarrow> string \<Rightarrow> string \<Rightarrow> fleet_batch fleet" where
  "RecoverBatch fg k digest =
     then_db (on_machine (locked (fg_engine fg))) (\<lambda>_.
     then_db (on_machine (InspectBatch fg k)) (\<lambda>b.
     then_db (on_machine (refuse_when (digest \<noteq> rb_Digest (fb_Record b)) ''exact batch digest required'')) (\<lambda>_.
     then_db (on_machine (refuse_when (rb_Status (fb_Record b) = Ready) ''batch has not dispatched; nothing to restore'')) (\<lambda>_.
     if rb_Status (fb_Record b) = Recovered then return_db b
     else
       then_db (on_machine (noArmedSSH (fg_engine fg))) (\<lambda>_.
       then_db (recover_hosts fg (length (fp_Entries (fb_Plan b))) b) (\<lambda>b'.
       saveBatch fg b' Recovered '''' []))))))"

end
