(* ===== verification/Fleet_Ledger.thy ===== *)
theory Fleet_Ledger
  imports Recovery_Fleet
begin

text \<open>
  What the journal of batches knows about the commands a controller has sent.  An operation is reasoned about
  through its postconditions; most steps of a controller are undisturbing: they change neither the batches, nor their
  claims, nor send a command that could change a host.
\<close>

section \<open>Postconditions\<close>

definition post :: "('s, 'e, 'a) state_op \<Rightarrow> ('a \<Rightarrow> 's \<Rightarrow> bool) \<Rightarrow> ('e \<Rightarrow> 's \<Rightarrow> bool) \<Rightarrow> 's \<Rightarrow> bool" where
  "post f Q E s \<longleftrightarrow> (case f s of (Inr x, s') \<Rightarrow> Q x s' | (Inl e, s') \<Rightarrow> E e s')"

lemma post_run: "post f Q E s \<Longrightarrow> f s = (r, s') \<Longrightarrow> (case r of Inr x \<Rightarrow> Q x s' | Inl e \<Rightarrow> E e s')"
  by (cases r) (simp_all add: post_def)

lemma post_mono:
  "post f Q E s \<Longrightarrow> (\<And>x s'. Q x s' \<Longrightarrow> Q' x s') \<Longrightarrow> (\<And>e s'. E e s' \<Longrightarrow> E' e s') \<Longrightarrow> post f Q' E' s"
  by (auto simp: post_def split: prod.splits sum.splits)

lemma post_return: "Q x s \<Longrightarrow> post (return_db x) Q E s"
  by (simp add: post_def return_db_def)

lemma post_fail: "E e s \<Longrightarrow> post (fail_db e) Q E s"
  by (simp add: post_def fail_db_def)

lemma post_then: "post f (\<lambda>x. post (g x) Q E) E s \<Longrightarrow> post (then_db f g) Q E s"
  by (auto simp: post_def then_db_def split: prod.splits sum.splits)

lemma post_on_error: "post f Q (\<lambda>e. post (h e) Q E) s \<Longrightarrow> post (on_error f h) Q E s"
  by (auto simp: post_def on_error_def split: prod.splits sum.splits)

lemma post_attempt: "post f (\<lambda>x. Q (Inr x)) (\<lambda>e. Q (Inl e)) s \<Longrightarrow> post (attempt f) Q E s"
  by (auto simp: post_def attempt_def split: prod.splits sum.splits)

lemma post_if: "(c \<Longrightarrow> post f Q E s) \<Longrightarrow> (\<not> c \<Longrightarrow> post g Q E s) \<Longrightarrow> post (if c then f else g) Q E s"
  by simp

lemmas post_intros = post_return post_fail post_then post_on_error post_attempt post_if

section \<open>Steps that leave the batches alone\<close>

text \<open>Other processes may change the database, but the lock keeps them from the batches.\<close>

definition alone_store :: "store \<Rightarrow> bool" where
  "alone_store st \<longleftrightarrow> (\<forall>n d. db_batches (st_others st n d) = db_batches d
     \<and> db_batch_claims (st_others st n d) = db_batch_claims d)"

definition batches_kept :: "store \<Rightarrow> store \<Rightarrow> bool" where
  "batches_kept st st' \<longleftrightarrow> st_others st' = st_others st \<and> db_batches (st_db st') = db_batches (st_db st)
     \<and> db_batch_claims (st_db st') = db_batch_claims (st_db st)"

lemma batches_kept_refl [simp]: "batches_kept st st"
  by (simp add: batches_kept_def)

lemma batches_kept_trans: "batches_kept st st' \<Longrightarrow> batches_kept st' st'' \<Longrightarrow> batches_kept st st''"
  by (simp add: batches_kept_def)

lemma batches_kept_alone: "batches_kept st st' \<Longrightarrow> alone_store st \<Longrightarrow> alone_store st'"
  by (simp add: batches_kept_def alone_store_def)

definition undisturbing :: "'a sys \<Rightarrow> bool" where
  "undisturbing f \<longleftrightarrow> (\<forall>m. alone_store (mc_store m) \<longrightarrow> batches_kept (mc_store m) (mc_store (snd (f m))))"

named_theorems undisturbing_rules \<open>machine steps that leave the batches alone\<close>

lemma undisturbing_return [undisturbing_rules]: "undisturbing (return_db x)"
  by (simp add: undisturbing_def return_db_def)

lemma undisturbing_fail [undisturbing_rules]: "undisturbing (fail_db x)"
  by (simp add: undisturbing_def fail_db_def)

lemma undisturbing_then [undisturbing_rules]:
  assumes "undisturbing f" "\<And>x. undisturbing (g x)"
  shows "undisturbing (then_db f g)"
  unfolding undisturbing_def
proof (intro allI impI)
  fix m :: machine
  assume m: "alone_store (mc_store m)"
  obtain r m1 where f: "f m = (r, m1)" by fastforce
  have k1: "batches_kept (mc_store m) (mc_store m1)" using assms(1) m f by (metis undisturbing_def snd_conv)
  with m have "alone_store (mc_store m1)" by (rule batches_kept_alone [rotated])
  then have "batches_kept (mc_store m1) (mc_store (snd (g x m1)))" for x using assms(2) by (simp add: undisturbing_def)
  with k1 show "batches_kept (mc_store m) (mc_store (snd (then_db f g m)))"
    by (cases r) (auto simp: then_db_def f intro: batches_kept_trans)
qed

lemma undisturbing_on_error [undisturbing_rules]:
  assumes "undisturbing f" "\<And>x. undisturbing (h x)"
  shows "undisturbing (on_error f h)"
  unfolding undisturbing_def
proof (intro allI impI)
  fix m :: machine
  assume m: "alone_store (mc_store m)"
  obtain r m1 where f: "f m = (r, m1)" by fastforce
  have k1: "batches_kept (mc_store m) (mc_store m1)" using assms(1) m f by (metis undisturbing_def snd_conv)
  with m have "alone_store (mc_store m1)" by (rule batches_kept_alone [rotated])
  then have "batches_kept (mc_store m1) (mc_store (snd (h x m1)))" for x using assms(2) by (simp add: undisturbing_def)
  with k1 show "batches_kept (mc_store m) (mc_store (snd (on_error f h m)))"
    by (cases r) (auto simp: on_error_def f intro: batches_kept_trans)
qed

lemma undisturbing_attempt [undisturbing_rules]: "undisturbing f \<Longrightarrow> undisturbing (attempt f)"
  by (auto simp: undisturbing_def attempt_def split: prod.splits)

lemma undisturbing_if [undisturbing_rules]: "undisturbing f \<Longrightarrow> undisturbing g \<Longrightarrow> undisturbing (if c then f else g)"
  by simp

lemma undisturbing_syscall_partial [undisturbing_rules]: "undisturbing (syscall_partial g f)"
  by (auto simp: undisturbing_def syscall_partial_def Let_def split: sys_answer.splits prod.splits)

lemma undisturbing_syscall [undisturbing_rules]: "undisturbing (syscall f)"
  by (simp add: syscall_def undisturbing_rules)

lemma undisturbing_ask [undisturbing_rules]: "undisturbing (ask q)"
  by (auto simp: undisturbing_def ask_def Let_def split: sys_answer.splits)

lemma undisturbing_ctx_Err [undisturbing_rules]: "undisturbing ctx_Err"
  by (auto simp: undisturbing_def ctx_Err_def Let_def)

lemma undisturbing_Geteuid [undisturbing_rules]: "undisturbing Geteuid"
  by (simp add: undisturbing_def Geteuid_def)

lemma undisturbing_refuse_when [undisturbing_rules]: "undisturbing (refuse_when c t)"
  by (simp add: refuse_when_def undisturbing_rules)

lemma undisturbing_prod [undisturbing_rules]: "(\<And>x y. undisturbing (f x y)) \<Longrightarrow> undisturbing (case p of (x, y) \<Rightarrow> f x y)"
  by (cases p) simp

lemma undisturbing_sum [undisturbing_rules]:
  "(\<And>x. undisturbing (f x)) \<Longrightarrow> (\<And>x. undisturbing (g x)) \<Longrightarrow> undisturbing (case p of Inl x \<Rightarrow> f x | Inr x \<Rightarrow> g x)"
  by (cases p) simp_all

lemma undisturbing_option [undisturbing_rules]:
  "undisturbing f \<Longrightarrow> (\<And>x. undisturbing (g x)) \<Longrightarrow> undisturbing (case p of None \<Rightarrow> f | Some x \<Rightarrow> g x)"
  by (cases p) simp_all

text \<open>Store operations that only read.\<close>

lemma undisturbing_on_store:
  "(\<And>st. alone_store st \<Longrightarrow> batches_kept st (snd (f st))) \<Longrightarrow> undisturbing (on_store f)"
  by (auto simp: undisturbing_def on_store_def Let_def split: prod.splits sum.splits) (metis snd_conv)+

lemma statement_reads: "alone_store st \<Longrightarrow> batches_kept st (snd (statement (\<lambda>d. (q d, d)) st))"
  by (auto simp: batches_kept_def alone_store_def statement_def Let_def split: exec_answer.splits)

lemma undisturbing_clock_now [undisturbing_rules]: "undisturbing (on_store clock_now)"
  by (rule undisturbing_on_store) (simp add: clock_now_def batches_kept_def)

lemma undisturbing_guard_armed [undisturbing_rules]: "undisturbing (on_store (RecoveryGuardArmed target))"
  by (rule undisturbing_on_store) (simp add: RecoveryGuardArmed_def when_available_def statement_reads)

lemma GetRecoveryBatch_reads: "alone_store st \<Longrightarrow> batches_kept st (snd (GetRecoveryBatch k st))"
  using statement_reads [of st "\<lambda>d. map_of (db_batches d) k"]
  by (auto simp: GetRecoveryBatch_def when_available_def then_db_def return_db_def fail_db_def
      split: prod.splits sum.splits option.splits)

lemma undisturbing_GetRecoveryBatch [undisturbing_rules]: "undisturbing (on_store (GetRecoveryBatch k))"
  by (rule undisturbing_on_store) (rule GetRecoveryBatch_reads)

lemma undisturbing_noArmedSSH [undisturbing_rules]: "undisturbing (noArmedSSH eg)"
  unfolding noArmedSSH_def by (intro undisturbing_rules)

lemma undisturbing_mkdir_parts [undisturbing_rules]: "undisturbing (mkdir_parts d ps)"
  by (induction ps arbitrary: d) (auto simp: mkdirat_def openat_dir_def intro!: undisturbing_rules)

lemma undisturbing_open_parts [undisturbing_rules]: "undisturbing (open_parts d ps)"
  by (induction ps arbitrary: d) (auto simp: openat_dir_def intro!: undisturbing_rules)

lemma undisturbing_openDirectory [undisturbing_rules]: "undisturbing (openDirectory p)"
  unfolding openDirectory_def by (intro undisturbing_rules)

lemma undisturbing_locked [undisturbing_rules]: "undisturbing (locked eg)"
  unfolding locked_def privateDirectory_def check_private_def lockDirectory_def fstat_def no_effect_def
  by (intro undisturbing_rules)

lemma undisturbing_readRegular [undisturbing_rules]: "undisturbing (readRegular hash d n limit)"
  unfolding readRegular_def read_open_def openat_file_def fstat_def checkExtendedMetadata_def flistxattr_def read_upto_def
  by (intro undisturbing_rules)

lemma undisturbing_checkpoint [undisturbing_rules]: "undisturbing (checkpoint eg stage i)"
  unfolding checkpoint_def by (intro undisturbing_rules)

lemma undisturbing_captureFleetHost [undisturbing_rules]: "undisturbing (captureFleetHost hash h)"
  unfolding captureFleetHost_def fleetAsset_def parentFor_def by (intro undisturbing_rules)

lemma undisturbing_InspectBatch [undisturbing_rules]: "undisturbing (InspectBatch fg k)"
  unfolding InspectBatch_def by (intro undisturbing_rules)

lemma undisturbing_currentFleetPlan [undisturbing_rules]: "undisturbing (currentFleetPlan fg b)"
  unfolding currentFleetPlan_def by (intro undisturbing_rules)

section \<open>The controller's view\<close>

text \<open>The batches, their claims and the commands sent that are more than inspections.\<close>

definition changing :: "remote_call list \<Rightarrow> remote_call list" where
  "changing calls = filter (\<lambda>c. rc_Action c \<noteq> ''inspect'') calls"

type_synonym fleet_view = "(string \<times> recovery_batch) list \<times> ((string \<times> string) \<times> string) list \<times> remote_call list"

definition view :: "fleet_world \<Rightarrow> fleet_view" where
  "view w = (let d = st_db (mc_store (fw_machine w)) in (db_batches d, db_batch_claims d, changing (fw_calls w)))"

definition alone_world :: "fleet_world \<Rightarrow> bool" where
  "alone_world w \<longleftrightarrow> alone_store (mc_store (fw_machine w))"

definition calm :: "'a fleet \<Rightarrow> bool" where
  "calm f \<longleftrightarrow> (\<forall>w. alone_world w \<longrightarrow> alone_world (snd (f w)) \<and> view (snd (f w)) = view w)"

lemma post_calm:
  assumes "calm f" "alone_world w" "\<And>x w'. alone_world w' \<Longrightarrow> view w' = view w \<Longrightarrow> Q x w'"
    "\<And>e w'. alone_world w' \<Longrightarrow> view w' = view w \<Longrightarrow> E e w'"
  shows "post f Q E w"
  using assms by (auto simp: calm_def post_def split: prod.splits sum.splits)

lemma post_calm_and:
  assumes "post f (\<lambda>x _. P x) (\<lambda>_ _. True) w" "calm f" "alone_world w"
    "\<And>x w'. P x \<Longrightarrow> alone_world w' \<Longrightarrow> view w' = view w \<Longrightarrow> Q x w'"
    "\<And>e w'. alone_world w' \<Longrightarrow> view w' = view w \<Longrightarrow> E e w'"
  shows "post f Q E w"
  using assms by (auto simp: calm_def post_def split: prod.splits sum.splits)

named_theorems calm_rules \<open>controller steps that leave the view alone\<close>

lemma calm_on_machine [calm_rules]:
  assumes "undisturbing f"
  shows "calm (on_machine f)"
  unfolding calm_def
proof (intro allI impI)
  fix w
  assume w: "alone_world w"
  with assms have "batches_kept (mc_store (fw_machine w)) (mc_store (snd (f (fw_machine w))))"
    by (simp add: undisturbing_def alone_world_def)
  with w show "alone_world (snd (on_machine f w)) \<and> view (snd (on_machine f w)) = view w"
    by (auto simp: on_machine_def alone_world_def view_def Let_def batches_kept_def alone_store_def split: prod.splits)
qed

lemma calm_return [calm_rules]: "calm (return_db x)"
  by (simp add: calm_def return_db_def)

lemma calm_fail [calm_rules]: "calm (fail_db x)"
  by (simp add: calm_def fail_db_def)

lemma calm_then [calm_rules]: "calm f \<Longrightarrow> (\<And>x. calm (g x)) \<Longrightarrow> calm (then_db f g)"
  by (auto simp: calm_def then_db_def split: prod.splits sum.splits)

lemma calm_attempt [calm_rules]: "calm f \<Longrightarrow> calm (attempt f)"
  by (auto simp: calm_def attempt_def split: prod.splits)

lemma calm_sum [calm_rules]:
  "(\<And>x. calm (f x)) \<Longrightarrow> (\<And>x. calm (g x)) \<Longrightarrow> calm (case p of Inl x \<Rightarrow> f x | Inr x \<Rightarrow> g x)"
  by (cases p) simp_all

lemma calm_option [calm_rules]: "calm f \<Longrightarrow> (\<And>x. calm (g x)) \<Longrightarrow> calm (case p of None \<Rightarrow> f | Some x \<Rightarrow> g x)"
  by (cases p) simp_all

lemma calm_if [calm_rules]: "calm f \<Longrightarrow> calm g \<Longrightarrow> calm (if c then f else g)"
  by simp

lemma calm_run_inspection [calm_rules]: "rc_Action c = ''inspect'' \<Longrightarrow> calm (run_ssh c)"
  by (auto simp: calm_def run_ssh_def Let_def view_def changing_def alone_world_def split: option.splits)

lemma calm_inspection [calm_rules]: "calm (callFleet fg h ''inspect'' k digest)"
  unfolding callFleet_def by (intro calm_rules undisturbing_rules) simp

lemma calm_validated [calm_rules]: "calm (validated fg k digest target op)"
  unfolding validated_def by (intro calm_rules)

lemma calm_inspectFleetEntry [calm_rules]: "calm (inspectFleetEntry fg en)"
  unfolding inspectFleetEntry_def by (intro calm_rules)

lemma calm_still_ready [calm_rules]: "calm (still_ready fg en)"
  unfolding still_ready_def by (intro calm_rules undisturbing_rules)

lemma calm_inspect_all [calm_rules]: "calm (inspect_all fg ens)"
  by (induction ens) (auto intro: calm_rules)

lemma calm_check_answer [calm_rules]: "calm (check_answer fg en r)"
  unfolding check_answer_def by (intro calm_rules)

lemma calm_prepare_reference [calm_rules]: "calm (prepare_reference fg r)"
  unfolding prepare_reference_def by (intro calm_rules undisturbing_rules)

lemma calm_prepare_references [calm_rules]: "calm (prepare_references fg rs)"
  by (induction rs) (auto intro: calm_rules)

lemma calm_reconcile_hosts [calm_rules]: "calm (reconcile_hosts fg ens outs)"
  by (induction fg ens outs rule: reconcile_hosts.induct)
    (auto simp: reconcile_host_def intro!: calm_rules split: prod.splits)

text \<open>A dispatch sends at most one command, with the reference of its entry.\<close>

definition sends :: "fleet_entry \<Rightarrow> string \<Rightarrow> fleet_world \<Rightarrow> fleet_world \<Rightarrow> bool" where
  "sends en action w w' \<longleftrightarrow> alone_world w' \<and> (view w' = view w \<or> (\<exists>c. rc_Action c = action \<and> rc_Host c = fe_Host en
     \<and> rc_ID c = op_ID (fe_Operation en) \<and> view w' = (\<lambda>(batches, claims, calls). (batches, claims, calls @ [c])) (view w)))"

lemma post_dispatch:
  assumes "alone_world w" "action \<noteq> ''inspect''"
  shows "post (dispatch fg action en) (\<lambda>_. sends en action w) (\<lambda>_. sends en action w) w"
proof -
  have run: "post (run_ssh c) (\<lambda>_. sends en action w) (\<lambda>_. sends en action w) w'"
    if "view w' = view w" "alone_world w'" "rc_Action c = action" "rc_Host c = fe_Host en" "rc_ID c = op_ID (fe_Operation en)"
    for c w'
  proof -
    have "changing (fw_calls w' @ [c]) = changing (fw_calls w') @ [c]"
      using that(3) assms(2) by (simp add: changing_def)
    with that have "sends en action w (w'\<lparr>fw_calls := fw_calls w' @ [c]\<rparr>)"
      by (auto simp: sends_def view_def Let_def alone_world_def)
    then show ?thesis by (auto simp: post_def run_ssh_def Let_def split: option.splits)
  qed
  have same: "sends en action w w'" if "alone_world w'" "view w' = view w" for w'
    using that by (simp add: sends_def)
  have start: "post (case fleetSSHArguments (hp_Config (fe_Host en)) action (op_ID (fe_Operation en)) (op_Digest (fe_Operation en)) of
      Inl e \<Rightarrow> fail_db e
    | Inr args \<Rightarrow>
        then_db (run_ssh \<lparr>rc_Host = fe_Host en, rc_Action = action, rc_ID = op_ID (fe_Operation en),
            rc_Digest = op_Digest (fe_Operation en), rc_Arguments = args\<rparr>) (\<lambda>out.
          case fc_operation_of (fg_codec fg) out of
            None \<Rightarrow> fail_db (Problem ''invalid target executor response'')
          | Some op \<Rightarrow> return_db op)) (\<lambda>_. sends en action w) (\<lambda>_. sends en action w) w'"
    if "alone_world w'" "view w' = view w" for w'
    using same that
    by (auto split: sum.split option.split intro!: post_fail post_return post_then post_mono [OF run])
  show ?thesis
    unfolding dispatch_def callFleet_def
    by (rule post_then, rule post_calm [OF _ assms(1)], intro calm_rules undisturbing_rules,
        rule post_then, rule post_calm, intro calm_rules undisturbing_rules)
      (use start same in auto)
qed

section \<open>The ledger\<close>

text \<open>How often a command was sent for an operation of a target.\<close>

definition call_ref :: "remote_call \<Rightarrow> string \<times> string" where
  "call_ref c = (fh_ExpectedTarget (hp_Config (rc_Host c)), rc_ID c)"

definition sent :: "string \<Rightarrow> string \<times> string \<Rightarrow> remote_call list \<Rightarrow> nat" where
  "sent action ref calls = length (filter (\<lambda>c. rc_Action c = action \<and> call_ref c = ref) calls)"

lemma sent_append [simp]: "sent action ref (calls @ [c]) =
    sent action ref calls + (if rc_Action c = action \<and> call_ref c = ref then 1 else 0)"
  by (simp add: sent_def)

lemma sent_changing: "action \<noteq> ''inspect'' \<Longrightarrow> sent action ref (changing calls) = sent action ref calls"
  by (simp add: sent_def changing_def) (metis (mono_tags, lifting) filter_cong)

text \<open>The journaled outcome of an entry accounts for the commands sent for it.\<close>

definition accounts :: "remote_call list \<Rightarrow> fleet_entry \<Rightarrow> fleet_outcome \<Rightarrow> bool" where
  "accounts calls en out \<longleftrightarrow> sent ''apply'' (entry_ref en) calls \<le> (if fo_Dispatched out then 1 else 0)
     \<and> int (sent ''recover'' (entry_ref en) calls) \<le> fo_Repairs out"

definition entry_claimed :: "((string \<times> string) \<times> string) list \<Rightarrow> string \<Rightarrow> fleet_entry \<Rightarrow> bool" where
  "entry_claimed claims k en \<longleftrightarrow> map_of claims (entry_ref en) = Some k
     \<and> fh_ExpectedTarget (hp_Config (fe_Host en)) = op_Target (fe_Operation en)"

definition sound_outcomes :: "int \<Rightarrow> remote_call list \<Rightarrow> fleet_plan \<Rightarrow> fleet_outcome list \<Rightarrow> bool" where
  "sound_outcomes n calls plan outs \<longleftrightarrow> list_all2 (accounts calls) (fp_Entries plan) outs
     \<and> (\<forall>out \<in> set outs. fo_Repairs out \<le> n)"

text \<open>A row that cannot be decoded is of no use to the controller.\<close>

definition batch_ok ::
  "fleet_codec \<Rightarrow> int \<Rightarrow> ((string \<times> string) \<times> string) list \<Rightarrow> remote_call list \<Rightarrow> string \<Rightarrow> recovery_batch \<Rightarrow> bool" where
  "batch_ok c n claims calls k row \<longleftrightarrow> rb_ID row = k \<and>
     (\<forall>plan outs. fc_plan_of c (rb_Manifest row) = Some plan \<and> fc_outcomes_of c (rb_Progress row) = Some outs
        \<and> length outs = length (fp_Entries plan) \<longrightarrow>
        sound_outcomes n calls plan outs \<and> (rb_Status row = Ready \<longrightarrow> (\<forall>out \<in> set outs. \<not> fo_Dispatched out))
        \<and> distinct (map entry_ref (fp_Entries plan)) \<and> (\<forall>en \<in> set (fp_Entries plan). entry_claimed claims k en))"

definition ledger :: "fleet_codec \<Rightarrow> int \<Rightarrow> fleet_view \<Rightarrow> bool" where
  "ledger c n = (\<lambda>(batches, claims, calls).
     (\<forall>k row. map_of batches k = Some row \<longrightarrow> batch_ok c n claims calls k row)
     \<and> (\<forall>ref. map_of claims ref = None \<longrightarrow> sent ''apply'' ref calls = 0 \<and> sent ''recover'' ref calls = 0)
     \<and> (\<forall>ref. sent ''apply'' ref calls \<le> 1 \<and> int (sent ''recover'' ref calls) \<le> n))"

end
