(* ===== verification/Fleet_Rollout.thy ===== *)
theory Fleet_Rollout
  imports Fleet_Ledger
begin

text \<open>
  The ledger of \<open>Fleet_Ledger\<close> is kept by every operation of the controller, wherever it is interrupted.  So a
  prepared operation is sent to its host for application at most once, and for repair at most as often as
  the operator allows, through any sequence of operations on any batches.
\<close>

section \<open>A batch and its row\<close>

text \<open>The part of an outcome that must not be forgotten.\<close>

definition progress :: "fleet_outcome \<Rightarrow> bool \<times> int" where
  "progress out = (fo_Dispatched out, fo_Repairs out)"

definition tracks :: "fleet_codec \<Rightarrow> fleet_batch \<Rightarrow> fleet_view \<Rightarrow> bool" where
  "tracks c b = (\<lambda>(batches, claims, calls).
     (\<exists>row. map_of batches (rb_ID (fb_Record b)) = Some row
        \<and> (\<forall>plan. fc_plan_of c (rb_Manifest row) = Some plan \<longrightarrow> plan = fb_Plan b)
        \<and> (\<forall>outs. fc_outcomes_of c (rb_Progress row) = Some outs \<longrightarrow> map progress outs = map progress (fb_Outcomes b)))
     \<and> distinct (map entry_ref (fp_Entries (fb_Plan b)))
     \<and> (\<forall>en \<in> set (fp_Entries (fb_Plan b)). entry_claimed claims (rb_ID (fb_Record b)) en))"

text \<open>Decoding what was encoded never gives another value.\<close>

definition faithful_codec :: "fleet_codec \<Rightarrow> bool" where
  "faithful_codec c \<longleftrightarrow> (\<forall>p q. fc_plan_of c (fc_plan c p) = Some q \<longrightarrow> q = p)
     \<and> (\<forall>outs outs'. fc_outcomes_of c (fc_outcomes c outs) = Some outs' \<longrightarrow> outs' = outs)"

lemma accounts_progress: "progress out = progress out' \<Longrightarrow> accounts calls en out = accounts calls en out'"
  by (simp add: accounts_def progress_def)

lemma sound_outcomes_progress:
  assumes "sound_outcomes n calls plan outs" "map progress outs = map progress outs'"
  shows "sound_outcomes n calls plan outs'"
proof -
  have len: "length outs = length outs'" using assms(2) by (metis length_map)
  have nth: "progress (outs ! i) = progress (outs' ! i)" if "i < length outs'" for i
    using assms(2) that by (metis len nth_map)
  have "fo_Repairs out \<le> n" if "out \<in> set outs'" for out
  proof -
    from that obtain i where "i < length outs'" "outs' ! i = out" by (auto simp: in_set_conv_nth)
    with assms(1) nth [of i] len show ?thesis by (simp add: sound_outcomes_def progress_def) (metis nth_mem)
  qed
  then show ?thesis
    using assms(1) nth len by (auto simp: sound_outcomes_def list_all2_conv_all_nth accounts_progress [OF nth])
qed

section \<open>Saving\<close>

lemma SaveRecoveryBatch_effect:
  assumes "SaveRecoveryBatch valid b claims st = (r, st')" "alone_store st"
  shows "st_others st' = st_others st \<and> (case r of
      Inl _ \<Rightarrow> batches_kept st st'
    | Inr b' \<Rightarrow> \<exists>now d. db_batches d = db_batches (st_db st) \<and> db_batch_claims d = db_batch_claims (st_db st)
        \<and> write_batch claims b now d = Inr ((), st_db st')
        \<and> b' = b\<lparr>rb_Revision := rb_Revision b + 1, rb_UpdatedAt := now\<rparr>)"
proof (cases "\<not> st_available st \<or> rb_ID b = '''' \<or> \<not> valid (rb_Manifest b) \<or> \<not> valid (rb_Progress b)
    \<or> 67108864 < length (rb_Manifest b) \<or> 65536 < length (rb_Progress b)")
  case True
  then show ?thesis using assms by (auto simp: SaveRecoveryBatch_def fail_db_def)
next
  case False
  let ?now = "st_clock st (st_ticks st)" and ?d = "st_others st (st_count st) (st_db st)"
  have d: "db_batches ?d = db_batches (st_db st)" "db_batch_claims ?d = db_batch_claims (st_db st)"
    using assms(2) by (simp_all add: alone_store_def)
  show ?thesis
  proof (cases "st_answer st (st_count st)")
    case (ExecError e)
    with assms False d show ?thesis
      by (auto simp: SaveRecoveryBatch_def then_db_def clock_now_def transaction_def statement_def batches_kept_def Let_def)
  next
    case ExecOk
    then have "(r, st') = (let st1 = st\<lparr>st_ticks := st_ticks st + 1, st_count := st_count st + 1\<rparr> in
      case write_batch claims b ?now ?d of
        Inl e \<Rightarrow> (Inl e, st1\<lparr>st_db := ?d\<rparr>)
      | Inr (u, d') \<Rightarrow> (Inr (b\<lparr>rb_Revision := rb_Revision b + 1, rb_UpdatedAt := ?now\<rparr>), st1\<lparr>st_db := d'\<rparr>))"
      using assms(1) False
      by (auto simp: SaveRecoveryBatch_def then_db_def clock_now_def transaction_def statement_def Let_def return_db_def
          fail_db_def split: sum.splits prod.splits)
    with d show ?thesis
      by (auto simp: Let_def batches_kept_def split: sum.splits prod.splits)
  qed
qed

definition kept :: "fleet_codec \<Rightarrow> int \<Rightarrow> fleet_world \<Rightarrow> bool" where
  "kept c n w \<longleftrightarrow> alone_world w \<and> ledger c n (view w)"

abbreviation calls_of :: "fleet_world \<Rightarrow> remote_call list" where
  "calls_of w \<equiv> snd (snd (view w))"

definition good :: "fleet_codec \<Rightarrow> int \<Rightarrow> fleet_batch \<Rightarrow> fleet_world \<Rightarrow> bool" where
  "good c n b w \<longleftrightarrow> kept c n w \<and> tracks c b (view w) \<and> sound_outcomes n (calls_of w) (fb_Plan b) (fb_Outcomes b)"

lemma good_same: "good c n b w \<Longrightarrow> alone_world w' \<Longrightarrow> view w' = view w \<Longrightarrow> good c n b w'"
  by (simp add: good_def kept_def)

lemma good_sound: "good c n b w \<Longrightarrow> sound_outcomes n (calls_of w) (fb_Plan b) (fb_Outcomes b)"
  by (simp add: good_def)

lemma post_save:
  assumes "good c n b0 w" "rb_ID (fb_Record b) = rb_ID (fb_Record b0)" "fb_Plan b = fb_Plan b0"
    "sound_outcomes n (calls_of w) (fb_Plan b) (fb_Outcomes b)" "status \<noteq> Ready" "c = fg_codec fg" "faithful_codec c"
    and Q: "\<And>b' w'. good c n b' w' \<Longrightarrow> rb_ID (fb_Record b') = rb_ID (fb_Record b) \<Longrightarrow> fb_Plan b' = fb_Plan b
      \<Longrightarrow> fb_Outcomes b' = fb_Outcomes b \<Longrightarrow> calls_of w' = calls_of w \<Longrightarrow> Q b' w'"
    and E: "\<And>e w'. alone_world w' \<Longrightarrow> view w' = view w \<Longrightarrow> E e w'"
  shows "post (saveBatch fg b status problem []) Q E w"
proof -
  let ?b = "batch_with fg b status problem" and ?st = "mc_store (fw_machine w)"
  obtain batches claims calls where v: "view w = (batches, claims, calls)" by (cases "view w")
  obtain r st' where run: "SaveRecoveryBatch (cd_valid (eg_codec (fg_engine fg))) (fb_Record ?b) [] ?st = (r, st')" by fastforce
  have alone: "alone_store ?st" and led: "ledger c n (batches, claims, calls)" and trk: "tracks c b0 (batches, claims, calls)"
    using assms(1) v by (simp_all add: good_def kept_def alone_world_def)
  have db: "db_batches (st_db ?st) = batches" "db_batch_claims (st_db ?st) = claims" "changing (fw_calls w) = calls"
    using v by (simp_all add: view_def Let_def)
  note eff = SaveRecoveryBatch_effect [OF run alone]
  let ?w = "w\<lparr>fw_machine := (fw_machine w)\<lparr>mc_store := st'\<rparr>\<rparr>"
  have alone': "alone_world ?w" using eff alone by (simp add: alone_world_def alone_store_def)
  have step: "saveBatch fg b status problem [] w =
      (case r of Inl e \<Rightarrow> (Inl (StoreErr e), ?w) | Inr r \<Rightarrow> (Inr (?b\<lparr>fb_Record := r\<rparr>), ?w))"
    by (simp add: saveBatch_def then_db_def on_machine_def on_store_def run Let_def return_db_def split: sum.split)
  show ?thesis
  proof (cases r)
    case (Inl e)
    with eff have "view ?w = view w" by (simp add: view_def Let_def batches_kept_def)
    then show ?thesis using E [OF alone'] by (simp add: post_def step Inl)
  next
    case (Inr b')
    with eff obtain now d where d: "db_batches d = batches" "db_batch_claims d = claims"
      "write_batch [] (fb_Record ?b) now d = Inr ((), st_db st')" "b' = (fb_Record ?b)\<lparr>rb_Revision := rb_Revision (fb_Record ?b) + 1, rb_UpdatedAt := now\<rparr>"
      using db by auto
    let ?k = "rb_ID (fb_Record b)"
    from d(3) obtain row where row: "map_of batches ?k = Some row" "same_batch (fb_Record ?b) row"
      "db_batch_claims (st_db st') = claims"
      "db_batches (st_db st') = AList.update ?k (row\<lparr>rb_Progress := rb_Progress (fb_Record ?b), rb_Status := status,
          rb_Problem := problem, rb_Revision := rb_Revision (fb_Record ?b) + 1, rb_UpdatedAt := now\<rparr>) batches"
      by (rule write_batch_cases) (use d(1,2) in \<open>auto simp: batch_with_def\<close>)
    let ?row = "row\<lparr>rb_Progress := rb_Progress (fb_Record ?b), rb_Status := status, rb_Problem := problem,
          rb_Revision := rb_Revision (fb_Record ?b) + 1, rb_UpdatedAt := now\<rparr>"
    have v': "view ?w = (AList.update ?k ?row batches, claims, calls)"
      using row(3,4) db(3) by (simp add: view_def Let_def)
    have decoded: "fc_plan_of c (rb_Manifest ?row) = Some plan \<Longrightarrow> plan = fb_Plan b"
      "fc_outcomes_of c (rb_Progress ?row) = Some outs \<Longrightarrow> outs = fb_Outcomes b" for plan outs
      using row(2) assms(6,7) by (simp_all add: same_batch_def batch_with_def faithful_codec_def)
    have "rb_ID row = ?k" using led row(1) by (auto simp: ledger_def batch_ok_def)
    then have "batch_ok c n claims calls ?k ?row"
      using decoded assms(2-5) trk v by (auto simp: batch_ok_def tracks_def)
    then have "ledger c n (view ?w)"
      using led by (auto simp: v' ledger_def update_conv)
    moreover have "\<exists>row. map_of (AList.update ?k ?row batches) ?k = Some row
        \<and> (\<forall>plan. fc_plan_of c (rb_Manifest row) = Some plan \<longrightarrow> plan = fb_Plan b)
        \<and> (\<forall>outs. fc_outcomes_of c (rb_Progress row) = Some outs \<longrightarrow> outs = fb_Outcomes b)"
    proof (intro exI conjI)
      show "map_of (AList.update ?k ?row batches) ?k = Some ?row" by (simp add: update_conv)
    qed (use decoded in blast)+
    then have "tracks c (?b\<lparr>fb_Record := b'\<rparr>) (view ?w)"
      using trk assms(2,3) by (auto simp: v' tracks_def d(4) batch_with_def)
    ultimately have "good c n (?b\<lparr>fb_Record := b'\<rparr>) ?w"
      using alone' assms(4) v v' by (simp add: good_def kept_def batch_with_def)
    then show ?thesis
      using Q v v' by (simp add: post_def step Inr d(4) batch_with_def)
  qed
qed

lemma post_stop:
  assumes "good c n b w" "status \<noteq> Ready" "c = fg_codec fg" "faithful_codec c" "\<And>e w'. kept c n w' \<Longrightarrow> E e w'"
  shows "post (stop_batch fg b status problem e) Q E w"
  unfolding stop_batch_def
  by (intro post_intros post_save [OF assms(1)])
    (use assms good_sound [OF assms(1)] in \<open>auto simp: good_def kept_def intro!: post_fail\<close>)

section \<open>Sending\<close>

lemma with_outcome_simps [simp]:
  "fb_Record (with_outcome i f b) = fb_Record b" "fb_Plan (with_outcome i f b) = fb_Plan b"
  "fb_Outcomes (with_outcome i f b) = (fb_Outcomes b)[i := f (fb_Outcomes b ! i)]"
  by (simp_all add: with_outcome_def)

lemma observed_simps [simp]: "fo_Dispatched (observed op out) = fo_Dispatched out" "fo_Repairs (observed op out) = fo_Repairs out"
  by (simp_all add: observed_def)

lemma progress_observed: "map progress ((fb_Outcomes b)[i := observed op (fb_Outcomes b ! i)]) = map progress (fb_Outcomes b)"
proof -
  have "progress (observed op out) = progress out" for out by (simp add: progress_def)
  then show ?thesis
    by (cases "i < length (fb_Outcomes b)") (simp_all add: map_update list_update_same_conv list_update_beyond)
qed

lemma tracks_observed: "tracks c b v \<Longrightarrow> tracks c (with_outcome i (observed op) b) v"
  by (auto simp: tracks_def progress_observed)

lemma good_observed: "good c n b w \<Longrightarrow> good c n (with_outcome i (observed op) b) w"
  by (auto simp: good_def tracks_observed intro: sound_outcomes_progress [OF _ progress_observed [symmetric]])

text \<open>What a command needs to be sent.\<close>

definition allowed :: "string \<Rightarrow> remote_call list \<Rightarrow> fleet_entry \<Rightarrow> fleet_outcome \<Rightarrow> bool" where
  "allowed action calls en out \<longleftrightarrow>
     action = ''apply'' \<and> fo_Dispatched out \<and> sent ''apply'' (entry_ref en) calls = 0
     \<or> action = ''recover'' \<and> int (sent ''recover'' (entry_ref en) calls) < fo_Repairs out"

lemma sound_dispatch:
  assumes sound: "sound_outcomes n calls plan outs" and distinct: "distinct (map entry_ref (fp_Entries plan))"
    and i: "i < length (fp_Entries plan)" and ref: "call_ref cl = entry_ref (fp_Entries plan ! i)"
    and ok: "allowed (rc_Action cl) calls (fp_Entries plan ! i) (outs ! i)"
  shows "sound_outcomes n (calls @ [cl]) plan outs"
proof -
  have len: "length outs = length (fp_Entries plan)" using sound by (auto simp: sound_outcomes_def dest: list_all2_lengthD)
  have "accounts (calls @ [cl]) (fp_Entries plan ! j) (outs ! j)" if "j < length outs" for j
  proof (cases "j = i")
    case True
    then show ?thesis
      using sound that ok by (auto simp: sound_outcomes_def list_all2_conv_all_nth accounts_def allowed_def ref)
  next
    case False
    with distinct have "call_ref cl \<noteq> entry_ref (fp_Entries plan ! j)"
      using that i len by (simp add: distinct_conv_nth ref)
    with sound that show ?thesis by (simp add: sound_outcomes_def list_all2_conv_all_nth accounts_def)
  qed
  with sound show ?thesis by (simp add: sound_outcomes_def list_all2_conv_all_nth)
qed

lemma ledger_dispatch:
  assumes led: "ledger c n (batches, claims, calls)" and trk: "tracks c b (batches, claims, calls)"
    and sound: "sound_outcomes n (calls @ [cl]) (fb_Plan b) (fb_Outcomes b)"
    and i: "i < length (fp_Entries (fb_Plan b))" and ref: "call_ref cl = entry_ref (fp_Entries (fb_Plan b) ! i)"
    and ok: "allowed (rc_Action cl) calls (fp_Entries (fb_Plan b) ! i) (fb_Outcomes b ! i)"
  shows "ledger c n (batches, claims, calls @ [cl])"
proof -
  let ?en = "fp_Entries (fb_Plan b) ! i" and ?k = "rb_ID (fb_Record b)"
  from trk obtain row where row: "map_of batches ?k = Some row"
    "\<And>plan. fc_plan_of c (rb_Manifest row) = Some plan \<Longrightarrow> plan = fb_Plan b"
    "\<And>outs. fc_outcomes_of c (rb_Progress row) = Some outs \<Longrightarrow> map progress outs = map progress (fb_Outcomes b)"
    by (auto simp: tracks_def)
  have claimed: "entry_claimed claims ?k ?en" using trk i by (simp add: tracks_def)
  have "sound_outcomes n (calls @ [cl]) plan' outs'"
    if b': "map_of batches k' = Some row'" "fc_plan_of c (rb_Manifest row') = Some plan'"
      "fc_outcomes_of c (rb_Progress row') = Some outs'" "sound_outcomes n calls plan' outs'"
      "\<forall>en \<in> set (fp_Entries plan'). entry_claimed claims k' en" for k' row' plan' outs'
  proof (cases "k' = ?k")
    case True
    then have "plan' = fb_Plan b" "map progress outs' = map progress (fb_Outcomes b)" using b' row by auto
    with sound show ?thesis by (metis sound_outcomes_progress)
  next
    case False
    with b'(5) claimed have "call_ref cl \<noteq> entry_ref en" if "en \<in> set (fp_Entries plan')" for en
      using that by (fastforce simp: entry_claimed_def ref)
    then have "accounts (calls @ [cl]) (fp_Entries plan' ! j) out = accounts calls (fp_Entries plan' ! j) out"
      if "j < length (fp_Entries plan')" for j out using that by (simp add: accounts_def)
    with b'(4) show ?thesis by (auto simp: sound_outcomes_def list_all2_conv_all_nth)
  qed
  then have "\<forall>k row. map_of batches k = Some row \<longrightarrow> batch_ok c n claims (calls @ [cl]) k row"
    using led by (fastforce simp: ledger_def batch_ok_def)
  moreover have "accounts (calls @ [cl]) ?en (fb_Outcomes b ! i)" "fo_Repairs (fb_Outcomes b ! i) \<le> n"
    using sound i by (auto simp: sound_outcomes_def list_all2_conv_all_nth)
  ultimately show ?thesis
    using led claimed ok by (auto simp: ledger_def ref entry_claimed_def accounts_def allowed_def split: if_splits)
qed

lemma good_sends:
  assumes "good c n b w" "i < length (fp_Entries (fb_Plan b))" "sends (fp_Entries (fb_Plan b) ! i) action w w'"
    "allowed action (calls_of w) (fp_Entries (fb_Plan b) ! i) (fb_Outcomes b ! i)"
  shows "good c n b w'"
proof -
  obtain batches claims calls where v: "view w = (batches, claims, calls)" by (cases "view w")
  from assms(3) consider "view w' = view w" | cl where "rc_Action cl = action"
    "rc_Host cl = fe_Host (fp_Entries (fb_Plan b) ! i)" "rc_ID cl = op_ID (fe_Operation (fp_Entries (fb_Plan b) ! i))"
    "view w' = (batches, claims, calls @ [cl])" by (auto simp: sends_def v)
  then show ?thesis
  proof cases
    case 1
    with assms(1,3) show ?thesis by (simp add: good_same sends_def)
  next
    case 2
    moreover have ref: "call_ref cl = entry_ref (fp_Entries (fb_Plan b) ! i)"
      using assms(1,2) 2 by (auto simp: good_def tracks_def v call_ref_def entry_ref_def entry_claimed_def)
    moreover have sound: "sound_outcomes n (calls @ [cl]) (fb_Plan b) (fb_Outcomes b)"
      by (rule sound_dispatch [OF _ _ assms(2) ref]) (use assms(1,4) 2 v in \<open>simp_all add: good_def tracks_def\<close>)
    moreover have "ledger c n (batches, claims, calls @ [cl])"
      by (rule ledger_dispatch [OF _ _ sound assms(2) ref]) (use assms(1,4) 2 v in \<open>simp_all add: good_def kept_def\<close>)
    ultimately show ?thesis
      using assms(1,3) by (auto simp: good_def kept_def v tracks_def sends_def)
  qed
qed

text \<open>An outcome updated before its command is sent.\<close>

lemma sound_with_outcome:
  assumes "good c n b w" "i < length (fp_Entries (fb_Plan b))" "accounts (calls_of w) (fp_Entries (fb_Plan b) ! i) (f (fb_Outcomes b ! i))"
    "fo_Repairs (f (fb_Outcomes b ! i)) \<le> n"
  shows "sound_outcomes n (calls_of w) (fb_Plan b) ((fb_Outcomes b)[i := f (fb_Outcomes b ! i)])"
  using good_sound [OF assms(1)] assms(2-4)
  by (auto simp: sound_outcomes_def list_all2_conv_all_nth nth_list_update dest!: set_update_subset_insert [THEN subsetD])

definition continues :: "fleet_codec \<Rightarrow> int \<Rightarrow> fleet_batch \<Rightarrow> nat set \<Rightarrow> fleet_batch \<Rightarrow> fleet_world \<Rightarrow> bool" where
  "continues c n b I b' w \<longleftrightarrow> good c n b' w \<and> rb_ID (fb_Record b') = rb_ID (fb_Record b) \<and> fb_Plan b' = fb_Plan b
     \<and> length (fb_Outcomes b') = length (fb_Outcomes b) \<and> (\<forall>j \<in> I. fb_Outcomes b' ! j = fb_Outcomes b ! j)"

lemma continues_refl: "good c n b w \<Longrightarrow> continues c n b I b w"
  by (simp add: continues_def)

lemma good_length: "good c n b w \<Longrightarrow> length (fb_Outcomes b) = length (fp_Entries (fb_Plan b))"
  using good_sound [of c n b w] by (auto simp: sound_outcomes_def dest: list_all2_lengthD)

lemmas fleet_statuses = status_defs FleetStopped_def

section \<open>Applying and repairing one host\<close>

text \<open>The steps after a save have the batch \<open>b\<close> of the caller but for its outcome \<open>i\<close>.\<close>

abbreviation steps :: "fleet_codec \<Rightarrow> int \<Rightarrow> fleet_batch \<Rightarrow> nat \<Rightarrow> fleet_batch fleet \<Rightarrow> fleet_world \<Rightarrow> bool" where
  "steps c n b i f \<equiv> post f (continues c n b (- {i})) (\<lambda>_. kept c n)"

lemma continues_change:
  "continues c n b1 (- {i}) b' w \<Longrightarrow> rb_ID (fb_Record b1) = rb_ID (fb_Record b) \<Longrightarrow> fb_Plan b1 = fb_Plan b
    \<Longrightarrow> fb_Outcomes b1 = (fb_Outcomes b)[i := out] \<Longrightarrow> continues c n b (- {i}) b' w"
  by (auto simp: continues_def)

lemma post_stopped:
  assumes "c = fg_codec fg" "faithful_codec c" "good c n b w" "alone_world w'" "view w' = view w" "status \<noteq> Ready"
  shows "post (stop_batch fg b status t e) Q (\<lambda>_. kept c n) w'"
  by (rule post_stop [OF good_same [OF assms(3-5)] assms(6,1,2)])

lemma post_record_apply:
  assumes c: "c = fg_codec fg" "faithful_codec c" and g0: "good c n b w"
  shows "steps c n b i (record_apply fg i b op) w"
proof -
  let ?b = "with_outcome i (observed op) b"
  note g = good_observed [OF g0, of i op]
  have rec: "steps c n b i (then_db (on_machine (checkpoint (fg_engine fg) ''fleet_recorded'' (int i))) (\<lambda>_. return_db b')) w'"
    if b': "good c n b' w'" "rb_ID (fb_Record b') = rb_ID (fb_Record ?b)" "fb_Plan b' = fb_Plan ?b" "fb_Outcomes b' = fb_Outcomes ?b" for b' w'
    by (rule post_then, rule post_calm, intro calm_rules undisturbing_rules)
      (use b' good_same [OF b'(1)] in \<open>auto simp: good_def kept_def continues_def intro!: post_return\<close>)
  have save: "steps c n b i (then_db (saveBatch fg ?b Applying '''' []) (\<lambda>b'.
      then_db (on_machine (checkpoint (fg_engine fg) ''fleet_recorded'' (int i))) (\<lambda>_. return_db b'))) w"
    by (rule post_then, rule post_save [OF g refl refl good_sound [OF g] _ c])
      (use rec g in \<open>auto simp: fleet_statuses good_def kept_def\<close>)
  show ?thesis
    unfolding record_apply_def Let_def
    using save g by (intro post_if post_stopped [OF c g]) (simp_all add: fleet_statuses good_def kept_def)
qed

lemma post_record_repair:
  assumes c: "c = fg_codec fg" "faithful_codec c" and g0: "good c n b w"
  shows "steps c n b i (record_repair fg i b op) w"
proof -
  let ?b = "with_outcome i (observed op) b"
  note g = good_observed [OF g0, of i op]
  have save: "steps c n b i (saveBatch fg ?b RollingBack '''' []) w"
    by (rule post_save [OF g refl refl good_sound [OF g] _ c])
      (use g in \<open>auto simp: fleet_statuses good_def kept_def continues_def\<close>)
  show ?thesis
    unfolding record_repair_def Let_def
    using save g by (intro post_if post_stopped [OF c g]) (simp_all add: fleet_statuses good_def kept_def)
qed

lemma post_send:
  assumes c: "c = fg_codec fg" "faithful_codec c"
    and g: "good c n b w" and i: "i < length (fp_Entries (fb_Plan b))"
    and ok: "allowed action (calls_of w) (fp_Entries (fb_Plan b) ! i) (fb_Outcomes b ! i)"
    and rec: "\<And>op w'. good c n b w' \<Longrightarrow> steps c n b i (f op) w'"
  shows "steps c n b i (then_db (on_machine (checkpoint (fg_engine fg) t1 (int i))) (\<lambda>_.
     then_db (attempt (dispatch fg action (fp_Entries (fb_Plan b) ! i))) (\<lambda>r.
     then_db (on_machine (checkpoint (fg_engine fg) t2 (int i))) (\<lambda>_.
     then_db (on_error (check_answer fg (fp_Entries (fb_Plan b) ! i) r) (stop_batch fg b Unknown t3)) f)))) w"
proof -
  let ?en = "fp_Entries (fb_Plan b) ! i"
  have after: "steps c n b i (then_db (on_machine (checkpoint (fg_engine fg) t2 (int i))) (\<lambda>_.
     then_db (on_error (check_answer fg ?en r) (stop_batch fg b Unknown t3)) f)) w'" if g1: "good c n b w'" for r w'
  proof -
    have k: "alone_world w'" "kept c n w'" using g1 by (simp_all add: good_def kept_def)
    show ?thesis
      by (rule post_then, rule post_calm [OF _ k(1)], intro calm_rules undisturbing_rules,
          rule post_then, rule post_on_error, rule post_calm, intro calm_rules)
        (use k rec good_same [OF g1] in \<open>auto simp: kept_def fleet_statuses intro!: post_stopped [OF c g1]\<close>)
  qed
  have k: "alone_world w" "kept c n w" using g by (simp_all add: good_def kept_def)
  have "good c n b w2" if "alone_world w1" "view w1 = view w" "sends ?en action w1 w2" for w1 w2
    by (rule good_sends [OF good_same [OF g that(1,2)] i that(3)]) (use that(2) ok in simp)
  moreover have "action \<noteq> ''inspect''" using ok by (auto simp: allowed_def)
  ultimately show ?thesis
    by (intro post_then post_calm [OF _ k(1)] post_attempt calm_rules undisturbing_rules)
      (use k after in \<open>auto simp: kept_def intro!: post_mono [OF post_dispatch]\<close>)
qed

lemma post_changed_save:
  assumes c: "c = fg_codec fg" "faithful_codec c"
    and g: "good c n b w" and i: "i < length (fp_Entries (fb_Plan b))" and s: "status \<noteq> Ready"
    and acc: "accounts (calls_of w) (fp_Entries (fb_Plan b) ! i) (f (fb_Outcomes b ! i))" "fo_Repairs (f (fb_Outcomes b ! i)) \<le> n"
    and send: "\<And>b1 w1. good c n b1 w1 \<Longrightarrow> fb_Plan b1 = fb_Plan b \<Longrightarrow> fb_Outcomes b1 ! i = f (fb_Outcomes b ! i)
      \<Longrightarrow> calls_of w1 = calls_of w \<Longrightarrow> steps c n b1 i (h b1) w1"
  shows "steps c n b i (then_db (saveBatch fg (with_outcome i f b) status '''' []) h) w"
proof -
  have "steps c n b i (h b1) w1" if b1: "good c n b1 w1" "rb_ID (fb_Record b1) = rb_ID (fb_Record (with_outcome i f b))"
    "fb_Plan b1 = fb_Plan (with_outcome i f b)" "fb_Outcomes b1 = fb_Outcomes (with_outcome i f b)" "calls_of w1 = calls_of w" for b1 w1
    by (rule post_mono [OF send [OF b1(1)]])
      (use b1 i good_length [OF g] in \<open>auto elim!: continues_change\<close>)
  then show ?thesis
    by (intro post_then post_save [OF g _ _ _ s c])
      (use sound_with_outcome [OF g i, where f = f] acc g in \<open>auto simp: good_def kept_def\<close>)
qed

lemma post_apply_host:
  assumes c: "c = fg_codec fg" "faithful_codec c"
    and g: "good c n b w" and i: "i < length (fp_Entries (fb_Plan b))" and fresh: "\<not> fo_Dispatched (fb_Outcomes b ! i)"
  shows "steps c n b i (apply_host fg i (fp_Entries (fb_Plan b) ! i) b) w"
proof -
  let ?en = "fp_Entries (fb_Plan b) ! i"
  have acc: "accounts (calls_of w) ?en (fb_Outcomes b ! i)" "fo_Repairs (fb_Outcomes b ! i) \<le> n"
    using good_sound [OF g] i good_length [OF g] by (auto simp: sound_outcomes_def list_all2_conv_all_nth)
  have none: "sent ''apply'' (entry_ref ?en) (calls_of w) = 0"
    using acc(1) fresh by (simp add: accounts_def)
  have send: "steps c n b1 i (send_apply fg i ?en b1) w1"
    if "good c n b1 w1" "fb_Plan b1 = fb_Plan b" "fb_Outcomes b1 ! i = dispatched (fb_Outcomes b ! i)" "calls_of w1 = calls_of w" for b1 w1
    unfolding send_apply_def that(2) [symmetric]
    by (rule post_send [OF c that(1) _ _ post_record_apply [OF c]]) (use that i none in \<open>simp_all add: allowed_def dispatched_def\<close>)
  have save: "steps c n b i (then_db (saveBatch fg (with_outcome i dispatched b) Applying '''' []) (send_apply fg i ?en)) w'"
    if "alone_world w'" "view w' = view w" for w'
    by (rule post_changed_save [OF c good_same [OF g that] i])
      (use that acc none send in \<open>simp_all add: fleet_statuses accounts_def dispatched_def\<close>)
  have ready: "calm (then_db (on_machine ctx_Err) (\<lambda>_. still_ready fg ?en))"
    by (intro calm_rules undisturbing_rules)
  show ?thesis
    unfolding apply_host_def
    by (rule post_then, rule post_on_error, rule post_calm [OF ready])
      (use save good_same [OF g] g in \<open>auto simp: good_def kept_def fleet_statuses intro!: post_stopped [OF c g]\<close>)
qed

lemma post_recover_host:
  assumes c: "c = fg_codec fg" "faithful_codec c"
    and g: "good c n b w" and i: "i < length (fp_Entries (fb_Plan b))" and most: "fl_MaxRepairAttempts (fcf_Limits (fg_fleet fg)) \<le> n"
  shows "steps c n b i (recover_host fg i (fp_Entries (fb_Plan b) ! i) b) w"
proof -
  let ?en = "fp_Entries (fb_Plan b) ! i"
  have acc: "accounts (calls_of w) ?en (fb_Outcomes b ! i)"
    using good_sound [OF g] i good_length [OF g] by (auto simp: sound_outcomes_def list_all2_conv_all_nth)
  have send: "steps c n b1 i (send_repair fg i ?en b1) w1"
    if "good c n b1 w1" "fb_Plan b1 = fb_Plan b" "fb_Outcomes b1 ! i = repaired (fb_Outcomes b ! i)" "calls_of w1 = calls_of w" for b1 w1
    unfolding send_repair_def that(2) [symmetric]
    by (rule post_send [OF c that(1) _ _ post_record_repair [OF c]]) (use that i acc in \<open>simp_all add: allowed_def repaired_def accounts_def\<close>)
  have save: "steps c n b i (then_db (saveBatch fg (with_outcome i repaired b) RollingBack '''' []) (send_repair fg i ?en)) w'"
    if "alone_world w'" "view w' = view w" "\<not> repair_ceiling fg b \<le> fo_Repairs (fb_Outcomes b ! i)" for w'
    by (rule post_changed_save [OF c good_same [OF g that(1,2)] i])
      (use that acc most send in \<open>auto simp: fleet_statuses accounts_def repaired_def repair_ceiling_def\<close>)
  have seen: "steps c n b i (return_db (with_outcome i (observed op) b)) w'" if "alone_world w'" "view w' = view w" for op w'
    using good_observed [OF good_same [OF g that]] by (auto simp: continues_def intro!: post_return)
  have "steps c n b i (if op_Status op = Recovered then return_db (with_outcome i (observed op) b)
      else if repair_ceiling fg b \<le> fo_Repairs (fb_Outcomes b ! i)
      then stop_batch fg b RecoveryFailed t e
      else then_db (saveBatch fg (with_outcome i repaired b) RollingBack '''' []) (send_repair fg i ?en)) w'"
    if "alone_world w'" "view w' = view w" for op t e w'
    using that save seen by (auto simp: fleet_statuses intro: post_stopped [OF c g that])
  moreover have "steps c n b i (return_db b) w" by (rule post_return) (rule continues_refl [OF g])
  moreover have "calm (inspectFleetEntry fg ?en)" by (intro calm_rules)
  ultimately show ?thesis
    unfolding recover_host_def
    by (intro post_if post_then post_on_error) (simp, rule post_calm,
      use g in \<open>auto simp: good_def kept_def fleet_statuses intro!: post_stopped [OF c g]\<close>)
qed

end
