(* ===== verification/Fleet_Operations.thy ===== *)
theory Fleet_Operations
  imports Fleet_Rollout
begin

text \<open>
  Every operation of the fleet controller keeps the ledger of \<open>Fleet_Ledger\<close>: preparing a batch, applying,
  reconciling and recovering it.
\<close>

section \<open>Operations keep the ledger\<close>

lemma InspectBatch_value:
  assumes "InspectBatch fg k m = (Inr b, m')" "alone_store (mc_store m)"
  shows "map_of (db_batches (st_db (mc_store m))) k = Some (fb_Record b)
    \<and> fc_plan_of (fg_codec fg) (rb_Manifest (fb_Record b)) = Some (fb_Plan b)
    \<and> fc_outcomes_of (fg_codec fg) (rb_Progress (fb_Record b)) = Some (fb_Outcomes b)
    \<and> length (fb_Outcomes b) = length (fp_Entries (fb_Plan b))
    \<and> batchDigest fg (eg_target (fg_engine fg)) (rb_Policy (fb_Record b)) (fb_Plan b) = rb_Digest (fb_Record b)"
  using assms
  by (auto simp: InspectBatch_def on_store_def GetRecoveryBatch_def when_available_def then_db_def return_db_def fail_db_def
      statement_def refuse_when_def Let_def alone_store_def
      split: if_splits option.splits sum.splits prod.splits exec_answer.splits)

lemma post_inspect:
  assumes "kept c n w" "c = fg_codec fg"
    and "\<And>b w'. good c n b w' \<Longrightarrow> rb_ID (fb_Record b) = k
      \<Longrightarrow> (rb_Status (fb_Record b) = Ready \<longrightarrow> (\<forall>out \<in> set (fb_Outcomes b). \<not> fo_Dispatched out)) \<Longrightarrow> Q b w'"
    and "\<And>e w'. kept c n w' \<Longrightarrow> E e w'"
  shows "post (on_machine (InspectBatch fg k)) Q E w"
proof -
  obtain r m where run: "InspectBatch fg k (fw_machine w) = (r, m)" by fastforce
  let ?w = "w\<lparr>fw_machine := m\<rparr>"
  have w': "on_machine (InspectBatch fg k) w = (r, ?w)" by (simp add: on_machine_def run)
  have "calm (on_machine (InspectBatch fg k))" by (intro calm_rules undisturbing_rules)
  then have same: "alone_world ?w" "view ?w = view w"
    using assms(1) w' by (auto simp: calm_def kept_def dest!: spec [of _ w])
  show ?thesis
  proof (cases r)
    case (Inl e)
    with assms(1,4) same show ?thesis by (simp add: post_def w' kept_def)
  next
    case (Inr b)
    have alone: "alone_store (mc_store (fw_machine w))" using assms(1) by (simp add: kept_def alone_world_def)
    note stored = InspectBatch_value [OF run [unfolded Inr] alone]
    obtain batches claims calls where v: "view w = (batches, claims, calls)" by (cases "view w")
    have row: "map_of batches k = Some (fb_Record b)" using stored v by (simp add: view_def Let_def)
    then have ok: "batch_ok c n claims calls k (fb_Record b)" using assms(1) v by (simp add: kept_def ledger_def)
    then have k: "rb_ID (fb_Record b) = k" by (simp add: batch_ok_def)
    have facts: "sound_outcomes n calls (fb_Plan b) (fb_Outcomes b)"
      "rb_Status (fb_Record b) = Ready \<longrightarrow> (\<forall>out \<in> set (fb_Outcomes b). \<not> fo_Dispatched out)"
      "distinct (map entry_ref (fp_Entries (fb_Plan b)))" "\<forall>en \<in> set (fp_Entries (fb_Plan b)). entry_claimed claims k en"
      using ok stored assms(2) by (simp_all add: batch_ok_def)
    then have "good c n b ?w"
      using assms(1,2) same v row stored k by (auto simp: good_def kept_def tracks_def)
    with facts(2) k show ?thesis using assms(3) by (simp add: post_def w' Inr)
  qed
qed

lemma continues_good: "continues c n b I b' w \<Longrightarrow> good c n b' w"
  by (simp add: continues_def)

lemma post_apply_hosts:
  assumes "c = fg_codec fg" "faithful_codec c" "good c n b w" "ens = drop i (fp_Entries (fb_Plan b))"
    "\<forall>j < length (fp_Entries (fb_Plan b)). i \<le> j \<longrightarrow> \<not> fo_Dispatched (fb_Outcomes b ! j)"
  shows "post (apply_hosts fg i ens b) (\<lambda>b'. good c n b') (\<lambda>_. kept c n) w"
  using assms(3-)
proof (induction ens arbitrary: i b w)
  case Nil
  then show ?case by (simp add: post_return)
next
  case (Cons en ens)
  then have i: "i < length (fp_Entries (fb_Plan b))" by (metis drop_all list.distinct(1) not_le)
  then have en: "en = fp_Entries (fb_Plan b) ! i" "ens = drop (i + 1) (fp_Entries (fb_Plan b))"
    using Cons.prems(2) by (simp_all add: Cons_nth_drop_Suc [symmetric])
  have fresh: "\<not> fo_Dispatched (fb_Outcomes b ! i)" using Cons.prems(3) i by simp
  have "post (apply_hosts fg (i + 1) ens b') (\<lambda>b'. good c n b') (\<lambda>_. kept c n) w'"
    if "continues c n b (- {i}) b' w'" for b' w'
    by (rule Cons.IH) (use that en Cons.prems(3) in \<open>auto simp: continues_def\<close>)
  then show ?case
    unfolding apply_hosts.simps en(1)
    by (intro post_then post_mono [OF post_apply_host [OF assms(1,2) Cons.prems(1) i fresh]])
qed

lemma post_recover_hosts:
  assumes "c = fg_codec fg" "faithful_codec c" "good c n b w" "i \<le> length (fp_Entries (fb_Plan b))"
    "fl_MaxRepairAttempts (fcf_Limits (fg_fleet fg)) \<le> n"
  shows "post (recover_hosts fg i b) (\<lambda>b'. good c n b') (\<lambda>_. kept c n) w"
  using assms(3,4)
proof (induction i arbitrary: b w)
  case 0
  then show ?case by (simp add: post_return)
next
  case (Suc i)
  then have i: "i < length (fp_Entries (fb_Plan b))" by simp
  have "post (recover_hosts fg i b') (\<lambda>b'. good c n b') (\<lambda>_. kept c n) w'" if "continues c n b (- {i}) b' w'" for b' w'
    by (rule Suc.IH) (use that i in \<open>auto simp: continues_def\<close>)
  then show ?case
    unfolding recover_hosts.simps
    by (intro post_then post_mono [OF post_recover_host [OF assms(1,2) Suc.prems(1) i assms(5)]])
qed

lemma good_kept: "good c n b w \<Longrightarrow> kept c n w"
  by (simp add: good_def)

lemma post_final_save:
  assumes "c = fg_codec fg" "faithful_codec c" "good c n b w" "status \<noteq> Ready"
  shows "post (saveBatch fg b status t []) (\<lambda>_. kept c n) (\<lambda>_. kept c n) w"
  by (rule post_save [OF assms(3) refl refl good_sound [OF assms(3)] assms(4,1,2)])
    (use assms(3) in \<open>auto simp: good_def kept_def\<close>)

text \<open>Steps before the first save.\<close>

lemma post_calm_then:
  "calm f \<Longrightarrow> good c n b w \<Longrightarrow> (\<And>x w'. good c n b w' \<Longrightarrow> post (g x) Q (\<lambda>_. kept c n) w')
    \<Longrightarrow> post (then_db f g) Q (\<lambda>_. kept c n) w"
  by (intro post_then, rule post_calm) (auto simp: good_def kept_def)

lemma post_calm_then_kept:
  "calm f \<Longrightarrow> kept c n w \<Longrightarrow> (\<And>x w'. kept c n w' \<Longrightarrow> post (g x) Q (\<lambda>_. kept c n) w')
    \<Longrightarrow> post (then_db f g) Q (\<lambda>_. kept c n) w"
  by (intro post_then, rule post_calm) (auto simp: kept_def)

lemma post_refuse_then:
  "good c n b w \<Longrightarrow> (\<not> p \<Longrightarrow> post (g ()) Q (\<lambda>_. kept c n) w)
    \<Longrightarrow> post (then_db (on_machine (refuse_when p t)) g) Q (\<lambda>_. kept c n) w"
  by (simp add: post_def then_db_def on_machine_def refuse_when_def fail_db_def return_db_def good_kept)

lemma post_InspectBatch_then:
  assumes "kept c n w" "c = fg_codec fg"
    and "\<And>b w'. good c n b w' \<Longrightarrow> (rb_Status (fb_Record b) = Ready \<longrightarrow> (\<forall>out \<in> set (fb_Outcomes b). \<not> fo_Dispatched out))
      \<Longrightarrow> post (g b) Q (\<lambda>_. kept c n) w'"
  shows "post (then_db (on_machine (InspectBatch fg k)) g) Q (\<lambda>_. kept c n) w"
  by (rule post_then, rule post_inspect [OF assms(1,2)]) (use assms in auto)

lemma post_ApplyBatch:
  assumes c: "c = fg_codec fg" "faithful_codec c" and k: "kept c n w"
  shows "post (ApplyBatch fg k digest) (\<lambda>_. kept c n) (\<lambda>_. kept c n) w"
proof -
  have main: "post (then_db (apply_hosts fg 0 (fp_Entries (fb_Plan b)) b) (\<lambda>b'. saveBatch fg b' Committed '''' []))
      (\<lambda>_. kept c n) (\<lambda>_. kept c n) w'"
    if "good c n b w'" "\<forall>out \<in> set (fb_Outcomes b). \<not> fo_Dispatched out" for b w'
  proof (rule post_then, rule post_mono [OF post_apply_hosts [OF c that(1)]])
    show "post (saveBatch fg b' Committed '''' []) (\<lambda>_. kept c n) (\<lambda>_. kept c n) s'" if "good c n b' s'" for b' s'
      by (rule post_final_save [OF c that]) (simp add: fleet_statuses)
  qed (use that good_length [OF that(1)] in simp_all)
  show ?thesis
    unfolding ApplyBatch_def
    by (rule post_calm_then_kept [OF _ k], intro calm_rules undisturbing_rules, rule post_InspectBatch_then [OF _ c(1)], assumption,
        rule post_refuse_then, assumption, rule post_refuse_then, assumption,
        (rule post_calm_then, intro calm_rules undisturbing_rules, assumption)+, rule main) simp_all
qed

lemma post_RecoverBatch:
  assumes c: "c = fg_codec fg" "faithful_codec c" and k: "kept c n w" and most: "fl_MaxRepairAttempts (fcf_Limits (fg_fleet fg)) \<le> n"
  shows "post (RecoverBatch fg k digest) (\<lambda>_. kept c n) (\<lambda>_. kept c n) w"
proof -
  have main: "post (then_db (recover_hosts fg (length (fp_Entries (fb_Plan b))) b) (\<lambda>b'. saveBatch fg b' Recovered '''' []))
      (\<lambda>_. kept c n) (\<lambda>_. kept c n) w'" if "good c n b w'" for b w'
  proof (rule post_then, rule post_mono [OF post_recover_hosts [OF c that order_refl most]])
    show "post (saveBatch fg b' Recovered '''' []) (\<lambda>_. kept c n) (\<lambda>_. kept c n) s'" if "good c n b' s'" for b' s'
      by (rule post_final_save [OF c that]) (simp add: fleet_statuses)
  qed simp
  show ?thesis
    unfolding RecoverBatch_def
    by (rule post_calm_then_kept [OF _ k], intro calm_rules undisturbing_rules, rule post_InspectBatch_then [OF _ c(1)], assumption,
        rule post_refuse_then, assumption, rule post_refuse_then, assumption, rule post_if, rule post_return, erule good_kept,
        rule post_calm_then, intro calm_rules undisturbing_rules, assumption, rule main)
qed

lemma progress_reconciled:
  "progress (out\<lparr>fo_State := s\<rparr>) = progress out" "progress (observed op out) = progress out"
  by (simp_all add: progress_def)

lemma reconcile_hosts_progress:
  "length ens = length outs \<Longrightarrow>
   post (reconcile_hosts fg ens outs) (\<lambda>p _. map progress (fst p) = map progress outs) (\<lambda>_ _. True) w"
proof (induction fg ens outs arbitrary: w rule: reconcile_hosts.induct)
  case (1 fg en ens out outs w)
  have "post (reconcile_host fg en out) (\<lambda>p _. progress (fst p) = progress out) (\<lambda>_ _. True) w"
    by (auto simp: reconcile_host_def post_def return_db_def then_db_def attempt_def progress_reconciled
        split: prod.splits sum.splits)
  moreover have "post (then_db (reconcile_hosts fg ens outs) (\<lambda>(outs', problems'). return_db (out' # outs', problems @ problems')))
      (\<lambda>p _. map progress (fst p) = map progress (out # outs)) (\<lambda>_ _. True) w'"
    if "progress out' = progress out" for out' problems w'
    by (rule post_then, rule post_mono [OF 1(1)]) (use 1(2) that in \<open>auto intro!: post_return\<close>)
  ultimately show ?case
    unfolding reconcile_hosts.simps by (intro post_then, elim post_mono) auto
qed (auto simp: post_return)

lemma post_ReconcileBatch:
  assumes c: "c = fg_codec fg" "faithful_codec c" and k: "kept c n w"
  shows "post (ReconcileBatch fg k) (\<lambda>_. kept c n) (\<lambda>_. kept c n) w"
proof -
  have save: "post (attempt (saveBatch fg (b\<lparr>fb_Outcomes := outs\<rparr>) status t [])) (\<lambda>_. kept c n) (\<lambda>_. kept c n) w'"
    if "good c n b w'" "map progress outs = map progress (fb_Outcomes b)" "status \<noteq> Ready" for b outs status t w'
    by (intro post_attempt post_save [OF that(1) _ _ _ that(3) c])
      (use that good_sound [OF that(1)] in \<open>auto simp: good_def kept_def intro: sound_outcomes_progress [OF _ that(2) [symmetric]]\<close>)
  have settled: "fst (reconciled_status outs problems) \<noteq> Ready" for outs problems
    by (simp add: reconciled_status_def fleet_statuses)
  have main: "post (then_db (reconcile_hosts fg (fp_Entries (fb_Plan b)) (fb_Outcomes b)) (\<lambda>(outs, problems).
      let (status, problem) = reconciled_status outs problems in
      then_db (attempt (saveBatch fg (b\<lparr>fb_Outcomes := outs\<rparr>) status problem [])) (\<lambda>r.
        case r of
          Inl e \<Rightarrow> fail_db (Joined (problems @ [e]))
        | Inr b' \<Rightarrow> if problems \<noteq> [] then fail_db (Joined problems) else return_db b')))
      (\<lambda>_. kept c n) (\<lambda>_. kept c n) w'" if g: "good c n b w'" for b w'
  proof (rule post_then, rule post_calm_and [OF reconcile_hosts_progress])
    show "length (fp_Entries (fb_Plan b)) = length (fb_Outcomes b)" using good_length [OF g] by simp
    show "calm (reconcile_hosts fg (fp_Entries (fb_Plan b)) (fb_Outcomes b))" by (intro calm_rules)
    show "alone_world w'" using g by (simp add: good_def kept_def)
    show "kept c n s'" if "alone_world s'" "view s' = view w'" for s'
      using good_same [OF g that] by (rule good_kept)
    show "post (case x of (outs, problems) \<Rightarrow>
        let (status, problem) = reconciled_status outs problems in
        then_db (attempt (saveBatch fg (b\<lparr>fb_Outcomes := outs\<rparr>) status problem [])) (\<lambda>r.
          case r of
            Inl e \<Rightarrow> fail_db (Joined (problems @ [e]))
          | Inr b' \<Rightarrow> if problems \<noteq> [] then fail_db (Joined problems) else return_db b'))
        (\<lambda>_. kept c n) (\<lambda>_. kept c n) s'"
      if "map progress (fst x) = map progress (fb_Outcomes b)" "alone_world s'" "view s' = view w'" for x s'
    proof -
      obtain outs problems status t where x: "x = (outs, problems)" "reconciled_status outs problems = (status, t)"
        by (metis surj_pair)
      have "status \<noteq> Ready" using settled [of outs problems] x(2) by simp
      with that x(1) have saved: "post (attempt (saveBatch fg (b\<lparr>fb_Outcomes := outs\<rparr>) status t [])) (\<lambda>_. kept c n) (\<lambda>_. kept c n) s'"
        by (intro save good_same [OF g]) simp_all
      show ?thesis
        unfolding x Let_def prod.case x(2)
        by (rule post_then, rule post_mono [OF saved]) (auto intro!: post_fail post_return split: sum.split)
    qed
  qed
  show ?thesis
    unfolding ReconcileBatch_def
    by (rule post_calm_then_kept [OF _ k], intro calm_rules undisturbing_rules, rule post_InspectBatch_then [OF _ c(1)], assumption,
        rule post_if, rule post_return, erule good_kept, rule main)
qed

section \<open>Preparing a batch\<close>

text \<open>What a prepared entry is: a configured host other than the controller, its assets as they are now, and the
  operation it reports, ready and with the digest that was asked for.\<close>

definition prepared_entry :: "fleet_engine \<Rightarrow> fleet_reference \<Rightarrow> fleet_entry \<Rightarrow> bool" where
  "prepared_entry fg r en \<longleftrightarrow>
     hp_Config (fe_Host en) \<in> set (fcf_Hosts (fg_fleet fg)) \<and> fh_Name (hp_Config (fe_Host en)) = fr_Host r
     \<and> fh_ExpectedTarget (hp_Config (fe_Host en)) = op_Target (fe_Operation en)
     \<and> op_Target (fe_Operation en) \<noteq> eg_target (fg_engine fg)
     \<and> op_ID (fe_Operation en) = fr_ID r \<and> op_Digest (fe_Operation en) = fr_Digest r \<and> op_Status (fe_Operation en) = Ready
     \<and> planDigest (eg_codec (fg_engine fg)) (op_Target (fe_Operation en)) (op_Policy (fe_Operation en))
          (op_Plan (fe_Operation en)) = fr_Digest r
     \<and> mf_SSH (op_Plan (fe_Operation en)) = None \<and> mf_Snapshot (op_Plan (fe_Operation en)) = None"

lemma post_any: "post f (\<lambda>_ _. True) (\<lambda>_ _. True) w"
  by (simp add: post_def split: prod.split sum.split)

lemma post_capture: "post (on_machine (captureFleetHost hash h)) (\<lambda>p _. hp_Config p = h) (\<lambda>_ _. True) w"
  by (auto simp: post_def on_machine_def captureFleetHost_def then_db_def return_db_def split: prod.splits sum.splits)

lemma post_refuse: "(\<not> p \<Longrightarrow> Q () w) \<Longrightarrow> post (on_machine (refuse_when p t)) Q (\<lambda>_ _. True) w"
  by (simp add: post_def on_machine_def refuse_when_def return_db_def fail_db_def)

lemma post_validated: "(validateFleetOperation fg op k d t = None \<Longrightarrow> Q op w) \<Longrightarrow> post (validated fg k d t op) Q (\<lambda>_ _. True) w"
  by (simp add: post_def validated_def return_db_def fail_db_def split: option.split)

lemma post_prepare_reference: "post (prepare_reference fg r) (\<lambda>en _. prepared_entry fg r en) (\<lambda>_ _. True) w"
proof (cases "find (\<lambda>h. fh_Name h = fr_Host r) (fcf_Hosts (fg_fleet fg))")
  case None
  then show ?thesis by (simp add: prepare_reference_def post_fail)
next
  case (Some host)
  then have found: "host \<in> set (fcf_Hosts (fg_fleet fg))" "fh_Name host = fr_Host r"
    by (auto simp: find_Some_iff)
  have entry: "prepared_entry fg r \<lparr>fe_Host = h, fe_Operation = op\<lparr>op_Record := (op_Record op)\<lparr>ro_Manifest := ''''\<rparr>, op_Checks := []\<rparr>\<rparr>"
    if "fh_ExpectedTarget host \<noteq> eg_target (fg_engine fg)" "hp_Config h = host"
      "validateFleetOperation fg op (fr_ID r) (fr_Digest r) (fh_ExpectedTarget host) = None" "op_Status op = Ready" for h op
    using that found by (auto simp: prepared_entry_def validateFleetOperation_def split: if_splits)
  show ?thesis
    unfolding prepare_reference_def Some option.case
    by (rule post_then, rule post_refuse, rule post_then, rule post_mono [OF post_capture], rule post_then,
        rule post_mono [OF post_any], rule post_then, rule post_validated, rule post_then, rule post_refuse, rule post_return,
        rule entry) auto
qed

lemma post_prepare_references:
  "post (prepare_references fg rs) (\<lambda>ens _. list_all2 (prepared_entry fg) rs ens) (\<lambda>_ _. True) w"
proof (induction rs arbitrary: w)
  case (Cons r rs)
  show ?case
    unfolding prepare_references.simps
    by (rule post_then, rule post_mono [OF post_prepare_reference], rule post_then, rule post_mono [OF Cons.IH])
      (auto intro!: post_return)
qed (simp add: post_return)

lemma insert_claims_distinct: "insert_claims b cs d = Inr d' \<Longrightarrow> distinct cs"
proof (induction cs arbitrary: d)
  case (Cons c cs)
  then have "insert_claims b cs (d\<lparr>db_batch_claims := AList.update c b (db_batch_claims d)\<rparr>) = Inr d'"
    by (auto split: if_splits)
  from Cons.IH [OF this] insert_claims_free [OF this, of c] show ?case by (auto simp: update_conv)
qed simp

lemma post_save_new:
  assumes "kept c n w" "0 \<le> n" "c = fg_codec fg" "faithful_codec c"
    "\<forall>en \<in> set ens. fh_ExpectedTarget (hp_Config (fe_Host en)) = op_Target (fe_Operation en)"
  shows "post (saveBatch fg (new_batch fg now k ens impact) Ready '''' (map entry_ref ens)) (\<lambda>_. kept c n) (\<lambda>_. kept c n) w"
proof -
  let ?b = "batch_with fg (new_batch fg now k ens impact) Ready ''''" and ?st = "mc_store (fw_machine w)"
  let ?plan = "fb_Plan (new_batch fg now k ens impact)"
  obtain batches claims calls where v: "view w = (batches, claims, calls)" by (cases "view w")
  obtain r st' where run: "SaveRecoveryBatch (cd_valid (eg_codec (fg_engine fg))) (fb_Record ?b) (map entry_ref ens) ?st = (r, st')"
    by fastforce
  have alone: "alone_store ?st" and led: "ledger c n (batches, claims, calls)"
    using assms(1) v by (simp_all add: kept_def alone_world_def)
  have db: "db_batches (st_db ?st) = batches" "db_batch_claims (st_db ?st) = claims" "changing (fw_calls w) = calls"
    using v by (simp_all add: view_def Let_def)
  note eff = SaveRecoveryBatch_effect [OF run alone]
  let ?w = "w\<lparr>fw_machine := (fw_machine w)\<lparr>mc_store := st'\<rparr>\<rparr>"
  have alone': "alone_world ?w" using eff alone by (simp add: alone_world_def alone_store_def)
  have step: "snd (saveBatch fg (new_batch fg now k ens impact) Ready '''' (map entry_ref ens) w) = ?w"
    by (simp add: saveBatch_def then_db_def on_machine_def on_store_def run Let_def return_db_def split: sum.split)
  have "ledger c n (view ?w)"
  proof (cases r)
    case (Inl e)
    with eff have "view ?w = view w" by (simp add: view_def Let_def batches_kept_def)
    then show ?thesis using led v by simp
  next
    case (Inr b')
    with eff obtain now d where d: "db_batches d = batches" "db_batch_claims d = claims"
      "write_batch (map entry_ref ens) (fb_Record ?b) now d = Inr ((), st_db st')"
      using db by auto
    have b: "rb_ID (fb_Record ?b) = k" "rb_Revision (fb_Record ?b) = 0" "rb_Status (fb_Record ?b) = Ready"
      "rb_Manifest (fb_Record ?b) = fc_plan c ?plan" "rb_Progress (fb_Record ?b) = fc_outcomes c (map (\<lambda>_. first_outcome) ens)"
      "fp_Entries ?plan = ens"
      using assms(3) by (simp_all add: batch_with_def new_batch_def Let_def)
    let ?row = "(fb_Record ?b)\<lparr>rb_Revision := 1, rb_UpdatedAt := now\<rparr>"
    from d(3) obtain d1 where d1: "map_of batches k = None" "insert_claims k (map entry_ref ens) d = Inr d1"
      "db_batch_claims (st_db st') = db_batch_claims d1" "db_batches (st_db st') = AList.update k ?row batches"
      by (rule write_batch_cases) (use d(1) b in auto)
    let ?claims = "db_batch_claims d1"
    have claims: "map_of ?claims ref = (if ref \<in> set (map entry_ref ens) then Some k else map_of claims ref)" for ref
      using insert_claims_taken [OF d1(2)] d(2) by simp
    have free: "map_of claims (entry_ref en) = None" if "en \<in> set ens" for en
      using insert_claims_free [OF d1(2)] that d(2) by simp
    have v': "view ?w = (AList.update k ?row batches, ?claims, calls)"
      using d1(3,4) db(3) by (simp add: view_def Let_def)
    have none: "sent ''apply'' (entry_ref en) calls = 0" "sent ''recover'' (entry_ref en) calls = 0" if "en \<in> set ens" for en
      using led free [OF that] by (cases "entry_ref en"; simp add: ledger_def)+
    have new: "batch_ok c n ?claims calls k ?row"
    proof -
      have sound: "sound_outcomes n calls ?plan (map (\<lambda>_. first_outcome) ens)"
        using none assms(2) by (auto simp: sound_outcomes_def b list_all2_conv_all_nth accounts_def first_outcome_def)
      have claimed: "\<forall>en \<in> set ens. entry_claimed ?claims k en" using assms(5) claims by (simp add: entry_claimed_def)
      have "sound_outcomes n calls plan outs \<and> (\<forall>out \<in> set outs. \<not> fo_Dispatched out)
          \<and> distinct (map entry_ref (fp_Entries plan)) \<and> (\<forall>en \<in> set (fp_Entries plan). entry_claimed ?claims k en)"
        if "fc_plan_of c (rb_Manifest ?row) = Some plan" "fc_outcomes_of c (rb_Progress ?row) = Some outs" for plan outs
      proof -
        have eq: "plan = ?plan" "outs = map (\<lambda>_. first_outcome) ens"
          using that assms(4) b by (simp_all add: faithful_codec_def)
        show ?thesis
          unfolding eq b using sound claimed insert_claims_distinct [OF d1(2)] by (simp add: first_outcome_def)
      qed
      then show ?thesis using b unfolding batch_ok_def by fastforce
    qed
    have "batch_ok c n ?claims calls k' row" if "map_of batches k' = Some row" for k' row
    proof -
      have ok: "batch_ok c n claims calls k' row" using led that by (simp add: ledger_def)
      have "entry_claimed ?claims k' en" if "entry_claimed claims k' en" for en
      proof -
        have "entry_ref en \<notin> set (map entry_ref ens)" using that free by (auto simp: entry_claimed_def)
        with that show ?thesis by (simp only: entry_claimed_def claims if_False simp_thms)
      qed
      with ok show ?thesis by (auto simp: batch_ok_def)
    qed
    with led new show ?thesis
      by (auto simp: v' ledger_def update_conv claims split: if_splits)
  qed
  with alone' have "kept c n ?w" by (simp add: kept_def)
  then show ?thesis using step by (auto simp: post_def split: prod.split sum.split)
qed

lemma post_PrepareBatch:
  assumes "c = fg_codec fg" "faithful_codec c" "0 \<le> n" "kept c n w"
  shows "post (PrepareBatch fg refs) (\<lambda>_. kept c n) (\<lambda>_. kept c n) w"
proof -
  have save: "post (then_db (on_machine (refuse_when p t)) (\<lambda>_.
      then_db (on_machine (ask sr_random)) (\<lambda>bytes.
      saveBatch fg (new_batch fg now (hex_encode bytes) ens impact) Ready '''' (map entry_ref ens)))) (\<lambda>_. kept c n) (\<lambda>_. kept c n) w'"
    if "kept c n w'" "list_all2 (prepared_entry fg) refs ens" for p t now ens impact w'
  proof -
    have "\<forall>en \<in> set ens. fh_ExpectedTarget (hp_Config (fe_Host en)) = op_Target (fe_Operation en)"
      using that(2) by (auto simp: list_all2_conv_all_nth prepared_entry_def in_set_conv_nth)
    then show ?thesis
      by (intro post_calm_then_kept [OF _ that(1)] post_calm_then_kept [where f = "on_machine (ask sr_random)"]
          post_save_new [OF _ assms(3,1,2)] calm_rules undisturbing_rules)
  qed
  have main: "post (then_db (prepare_references fg refs) (\<lambda>ens.
       case measureFleet ens of
         Inl e \<Rightarrow> fail_db e
       | Inr impact \<Rightarrow>
           then_db (on_machine (refuse_when (\<not> impact_within impact (fcf_Limits (fg_fleet fg))) t)) (\<lambda>_.
           then_db (on_machine (ask sr_random)) (\<lambda>bytes.
           saveBatch fg (new_batch fg now (hex_encode bytes) ens impact) Ready '''' (map entry_ref ens))))) (\<lambda>_. kept c n) (\<lambda>_. kept c n) w'"
    if "kept c n w'" for t now w'
    by (rule post_then, rule post_calm_and [OF post_prepare_references], intro calm_rules)
      (use that save in \<open>auto simp: kept_def intro!: post_fail split: sum.split\<close>)
  show ?thesis
    unfolding PrepareBatch_def
    by (rule post_calm_then_kept [OF _ assms(4)], intro calm_rules undisturbing_rules,
        rule post_calm_then_kept, intro calm_rules undisturbing_rules, assumption,
        rule post_calm_then_kept, intro calm_rules undisturbing_rules, assumption,
        rule post_calm_then_kept, intro calm_rules undisturbing_rules, assumption, rule main)
qed

end
