(* ===== verification/Fleet_Sample.thy ===== *)
theory Fleet_Sample
  imports Recovery_Fleet Recovery_Sample
begin

text \<open>
  A controller with one host, on which the theorems about the fleet are applied.  Every hash is the same; the
  codec knows the values that occur.
\<close>

section \<open>A sample fleet\<close>

text \<open>One host with one prepared operation.  It is inspected when the batch is prepared, once before the rollout and
  once before the application, which it commits.\<close>

definition sample_digest :: string where "sample_digest = replicate 64 CHR ''0''"

definition fleet_id :: string where "fleet_id = replicate 32 CHR ''0''"

definition sample_batch_id :: string where "sample_batch_id = hex_encode ''0123456789abcdef''"

definition sample_host :: fleet_host where
  "sample_host = \<lparr>fh_Name = ''w'', fh_Address = ''::1'', fh_Port = 22, fh_User = ''u'',
     fh_ExpectedTarget = replicate 64 CHR ''1'', fh_SSHBinary = ''/ssh'', fh_IdentityFile = ''/key'', fh_KnownHostsFile = ''/hosts'',
     fh_Executor = ''/b'', fh_StatePath = ''/s'', fh_TimeoutSeconds = 30\<rparr>"

definition fleet_files :: file_system where
  "fleet_files = \<lparr>fs_table = [((0, ''ssh''), 1), ((0, ''key''), 2), ((0, ''hosts''), 3)],
     fs_nodes = [sample_node 0 Directory 493, sample_node 1 (Regular ''s'') 493, sample_node 2 (Regular ''k'') 384,
       sample_node 3 (Regular ''h'') 384],
     fs_euid = 0, fs_egid = 0, fs_inode = (\<lambda>k. k), fs_mtime = (\<lambda>_. 7000)\<rparr>"

definition fleet_manifest :: manifest where
  "fleet_manifest = sample_plan\<lparr>mf_Entries := [\<lparr>en_Action = ''create'', en_Path = ''/f'', en_Root = ''/'', en_ParentDevice = 1,
     en_ParentInode = 1, en_Before = no_file, en_After = sample_after no_file ''f'', en_Backup = '''', en_Candidate = '''',
     en_Quarantine = ''''\<rparr>]\<rparr>"

definition remote_operation :: "string \<Rightarrow> operation" where
  "remote_operation status =
     \<lparr>op_Record = \<lparr>ro_ID = fleet_id, ro_Target = replicate 64 CHR ''1'', ro_Policy = ''p'', ro_Status = status, ro_Digest = sample_digest,
        ro_Manifest = '''', ro_Revision = 3, ro_UpdatedAt = 0, ro_Problem = ''''\<rparr>,
      op_Plan = fleet_manifest, op_Checks = []\<rparr>"

definition fleet_hash :: "string \<Rightarrow> string" where "fleet_hash s = sample_digest"

definition captured_host :: "fleet_host \<Rightarrow> fleet_host_plan" where
  "captured_host h = \<lparr>hp_Config = h, hp_SSHBinary = fingerprint_of fleet_hash (sample_node 1 (Regular ''s'') 493) ''s'',
     hp_Identity = fingerprint_of fleet_hash (sample_node 2 (Regular ''k'') 384) ''k'',
     hp_KnownHosts = fingerprint_of fleet_hash (sample_node 3 (Regular ''h'') 384) ''h''\<rparr>"

definition sample_fleet_plan :: fleet_plan where
  "sample_fleet_plan = \<lparr>fp_Version = 1, fp_CreatedAt = 0, fp_Limits = DefaultFleetLimits,
     fp_Impact = \<lparr>fi_Hosts = 1, fi_Files = 1, fi_Bytes = 1, fi_Services = 0\<rparr>,
     fp_Entries = [\<lparr>fe_Host = captured_host sample_host, fe_Operation = remote_operation Ready\<rparr>]\<rparr>"

definition outcome :: "bool \<Rightarrow> string \<Rightarrow> int \<Rightarrow> int \<Rightarrow> fleet_outcome" where
  "outcome d s n v = \<lparr>fo_Dispatched = d, fo_State = s, fo_Repairs = n, fo_ObservedRevision = v\<rparr>"

text \<open>The codec knows the values on the way.\<close>

definition sample_fleet_codec :: fleet_codec where
  "sample_fleet_codec = \<lparr>fc_review = (\<lambda>_ _ _. ''''),
     fc_plan = (\<lambda>p. if p = sample_fleet_plan then ''p'' else ''''),
     fc_plan_of = (\<lambda>s. if s = ''p'' then Some sample_fleet_plan else None),
     fc_outcomes = (\<lambda>outs. if outs = [first_outcome] then ''0'' else if outs = [outcome True Unknown 0 0] then ''1''
       else if outs = [outcome True Committed 0 3] then ''2'' else ''''),
     fc_outcomes_of = (\<lambda>s. if s = ''0'' then Some [first_outcome] else if s = ''1'' then Some [outcome True Unknown 0 0]
       else if s = ''2'' then Some [outcome True Committed 0 3] else None),
     fc_operation_of = (\<lambda>s. if s = ''r'' then Some (remote_operation Ready) else if s = ''c'' then Some (remote_operation Committed)
       else None)\<rparr>"

definition sample_controller :: fleet_engine where
  "sample_controller = \<lparr>fg_engine = sample_engine\<lparr>eg_codec := sample_codec\<lparr>cd_hash := fleet_hash\<rparr>\<rparr>,
     fg_fleet = \<lparr>fcf_Hosts = [sample_host], fcf_Limits = DefaultFleetLimits\<rparr>, fg_codec = sample_fleet_codec\<rparr>"

definition sample_replies :: "string option list" where
  "sample_replies = [Some ''r'', Some ''r'', Some ''r'', Some ''c'']"

definition sample_world :: fleet_world where
  "sample_world = \<lparr>fw_machine = \<lparr>mc_store = quiet_store (\<lambda>_. 0) empty_db, mc_files = fleet_files, mc_answer = (\<lambda>_. SysOk),
       mc_others = (\<lambda>_ fs. fs), mc_count = 0, mc_env = sample_surroundings, mc_signals = []\<rparr>,
     fw_calls = [], fw_reply = (\<lambda>n _. if n < length sample_replies then sample_replies ! n else None)\<rparr>"

definition sample_references :: "fleet_reference list" where
  "sample_references = [\<lparr>fr_Host = ''w'', fr_ID = fleet_id, fr_Digest = sample_digest\<rparr>]"

end
