(* ===== verification/Fleet_Guarantees.thy ===== *)
theory Fleet_Guarantees
  imports Fleet_Operations Fleet_Sample System_Cron
begin

text \<open>
  What the fleet controller promises, for every sequence of its operations: how often a host is sent an
  application and a repair, that a rollout stops at the first host that does not commit, what a prepared batch
  holds, and what a remote command line contains.
\<close>

section \<open>Sequences of operations\<close>

datatype fleet_call =
    CallPrepare "fleet_reference list"
  | CallApply string string
  | CallReconcile string
  | CallRecover string string

fun run_fleet_call :: "fleet_engine \<Rightarrow> fleet_call \<Rightarrow> fleet_world \<Rightarrow> fleet_world" where
  "run_fleet_call fg (CallPrepare refs) w = snd (PrepareBatch fg refs w)"
| "run_fleet_call fg (CallApply k digest) w = snd (ApplyBatch fg k digest w)"
| "run_fleet_call fg (CallReconcile k) w = snd (ReconcileBatch fg k w)"
| "run_fleet_call fg (CallRecover k digest) w = snd (RecoverBatch fg k digest w)"

text \<open>The configuration may change between the operations.\<close>

fun run_fleet_calls :: "(fleet_engine \<times> fleet_call) list \<Rightarrow> fleet_world \<Rightarrow> fleet_world" where
  "run_fleet_calls [] w = w"
| "run_fleet_calls ((fg, call) # calls) w = run_fleet_calls calls (run_fleet_call fg call w)"

text \<open>No batch was ever prepared, no command sent, and only this controller writes batches.\<close>

definition fresh_controller :: "fleet_world \<Rightarrow> bool" where
  "fresh_controller w \<longleftrightarrow> alone_world w \<and> db_batches (st_db (mc_store (fw_machine w))) = []
     \<and> db_batch_claims (st_db (mc_store (fw_machine w))) = [] \<and> fw_calls w = []"

lemma fresh_kept: "fresh_controller w \<Longrightarrow> 0 \<le> n \<Longrightarrow> kept c n w"
  by (simp add: fresh_controller_def kept_def ledger_def view_def Let_def changing_def sent_def)

lemma run_fleet_call_kept:
  assumes "c = fg_codec fg" "faithful_codec c" "0 \<le> n" "fl_MaxRepairAttempts (fcf_Limits (fg_fleet fg)) \<le> n" "kept c n w"
  shows "kept c n (run_fleet_call fg call w)"
proof -
  have final: "kept c n (snd (f w))" if "post f (\<lambda>_. kept c n) (\<lambda>_. kept c n) w" for f :: "fleet_batch fleet"
    using that by (auto simp: post_def split: prod.splits sum.splits)
  show ?thesis
    by (cases call) (use assms final post_PrepareBatch post_ApplyBatch post_ReconcileBatch post_RecoverBatch in simp_all)
qed

lemma run_fleet_calls_kept:
  assumes "faithful_codec c" "0 \<le> n" "kept c n w"
    "\<forall>(fg, call) \<in> set calls. fg_codec fg = c \<and> fl_MaxRepairAttempts (fcf_Limits (fg_fleet fg)) \<le> n"
  shows "kept c n (run_fleet_calls calls w)"
  using assms(3,4)
proof (induction calls w rule: run_fleet_calls.induct)
  case (2 fg call calls w)
  then show ?case using run_fleet_call_kept [OF _ assms(1,2)] by auto
qed simp

lemma kept_sent:
  assumes "kept c n w"
  shows "sent ''apply'' ref (fw_calls w) \<le> 1 \<and> int (sent ''recover'' ref (fw_calls w)) \<le> n"
proof -
  have "sent ''apply'' ref (changing (fw_calls w)) \<le> 1 \<and> int (sent ''recover'' ref (changing (fw_calls w))) \<le> n"
    using assms by (cases ref) (simp add: kept_def ledger_def view_def Let_def)
  then show ?thesis by (simp add: sent_changing)
qed

lemma limits_bounded: "\<exists>n \<ge> 0. \<forall>p \<in> set calls. fl_MaxRepairAttempts (fcf_Limits (fg_fleet (fst p))) \<le> n"
proof (induction calls)
  case (Cons p calls)
  then obtain n where "0 \<le> n" "\<forall>p \<in> set calls. fl_MaxRepairAttempts (fcf_Limits (fg_fleet (fst p))) \<le> n" by blast
  then show ?case
    by (intro exI [of _ "max n (fl_MaxRepairAttempts (fcf_Limits (fg_fleet (fst p))))"]) auto
qed auto

text \<open>On the sample: a batch prepared and rolled out.\<close>

definition sample_calls :: "(fleet_engine \<times> fleet_call) list" where
  "sample_calls = [(sample_controller, CallPrepare sample_references), (sample_controller, CallApply sample_batch_id sample_digest)]"

definition sample_ref :: "string \<times> string" where "sample_ref = (replicate 64 CHR ''1'', fleet_id)"

definition prepared_world :: fleet_world where
  "prepared_world = snd (PrepareBatch sample_controller sample_references sample_world)"

lemma sample_rollout:
  "case ApplyBatch sample_controller sample_batch_id sample_digest prepared_world of
     (Inl _, _) \<Rightarrow> False
   | (Inr b, w') \<Rightarrow> fb_Plan b = sample_fleet_plan \<and> 0 < sent ''apply'' sample_ref (fw_calls w')"
  by code_simp

lemma sample_calls_run:
  "run_fleet_calls sample_calls sample_world = snd (ApplyBatch sample_controller sample_batch_id sample_digest prepared_world)"
  by (simp add: sample_calls_def prepared_world_def)

lemma sample_faithful: "faithful_codec sample_fleet_codec"
  by (auto simp: faithful_codec_def sample_fleet_codec_def first_outcome_def outcome_def split: if_splits)

lemma sample_fresh: "fresh_controller sample_world"
  by (auto simp: fresh_controller_def sample_world_def alone_world_def alone_store_def quiet_store_def empty_db_def)

text \<open>
  C25: A prepared operation is sent to its host for application at most once.  Through any sequence of preparing,
  applying, reconciling and recovering batches, under changing configurations, with system and database calls
  failing at any point, with a host that fails, disconnects or answers anything, and however the operation is
  wrapped in batches, at most one apply command names it.
\<close>

theorem applied_at_most_once:
  assumes "faithful_codec c" "fresh_controller w" "\<forall>(fg, call) \<in> set calls. fg_codec fg = c"
  shows "sent ''apply'' ref (fw_calls (run_fleet_calls calls w)) \<le> 1"
proof -
  obtain n where n: "0 \<le> n" "\<forall>p \<in> set calls. fl_MaxRepairAttempts (fcf_Limits (fg_fleet (fst p))) \<le> n"
    using limits_bounded by blast
  have "kept c n (run_fleet_calls calls w)"
    by (rule run_fleet_calls_kept [OF assms(1) n(1) fresh_kept [OF assms(2) n(1)]]) (use assms(3) n(2) in fastforce)
  then show ?thesis using kept_sent by blast
qed

theorem applied_at_most_once_witness:
  "sent ''apply'' sample_ref (fw_calls (run_fleet_calls sample_calls sample_world)) = 1"
proof -
  have "sent ''apply'' sample_ref (fw_calls (run_fleet_calls sample_calls sample_world)) \<le> 1"
    by (rule applied_at_most_once [OF sample_faithful sample_fresh]) (simp add: sample_calls_def sample_controller_def)
  moreover have "0 < sent ''apply'' sample_ref (fw_calls (run_fleet_calls sample_calls sample_world))"
    using sample_rollout by (simp add: sample_calls_run split: prod.splits sum.splits)
  ultimately show ?thesis by simp
qed

text \<open>
  C27: A controller does not repair without end.  Through any such sequence of operations, the repair commands sent
  for one operation are at most as many as the largest limit the operator configured meanwhile, however
  the repairs end and wherever the controller is interrupted.
\<close>

theorem repairs_within_limit:
  assumes "faithful_codec c" "fresh_controller w" "0 \<le> n"
    "\<forall>(fg, call) \<in> set calls. fg_codec fg = c \<and> fl_MaxRepairAttempts (fcf_Limits (fg_fleet fg)) \<le> n"
  shows "int (sent ''recover'' ref (fw_calls (run_fleet_calls calls w))) \<le> n"
  using kept_sent [OF run_fleet_calls_kept [OF assms(1,3) fresh_kept [OF assms(2,3)] assms(4)]] by blast

theorem repairs_within_limit_witness:
  "int (sent ''recover'' sample_ref (fw_calls (run_fleet_calls
     (sample_calls @ [(sample_controller, CallRecover sample_batch_id sample_digest)]) sample_world))) \<le> 3"
  by (rule repairs_within_limit [OF sample_faithful sample_fresh])
    (simp_all add: sample_calls_def sample_controller_def DefaultFleetLimits_def)

section \<open>The order of a rollout\<close>

text \<open>The apply commands sent, with their place in the sequence of all commands.\<close>

definition applications :: "fleet_world \<Rightarrow> (nat \<times> remote_call) list" where
  "applications w = filter (\<lambda>(i, c). rc_Action c = ''apply'') (enumerate 0 (fw_calls w))"

definition call_of :: "fleet_entry \<Rightarrow> fleet_host_plan \<times> string \<times> string" where
  "call_of en = (fe_Host en, op_ID (fe_Operation en), op_Digest (fe_Operation en))"

definition sent_for :: "nat \<times> remote_call \<Rightarrow> fleet_host_plan \<times> string \<times> string" where
  "sent_for p = (rc_Host (snd p), rc_ID (snd p), rc_Digest (snd p))"

text \<open>The host answered that the operation with this digest is committed.\<close>

definition answered_committed :: "fleet_engine \<Rightarrow> (nat \<Rightarrow> string list \<Rightarrow> string option) \<Rightarrow> nat \<times> remote_call \<Rightarrow> bool" where
  "answered_committed fg reply p \<longleftrightarrow>
     (let c = snd p in
      case reply (fst p) (fh_SSHBinary (hp_Config (rc_Host c)) # rc_Arguments c) of
        None \<Rightarrow> False
      | Some out \<Rightarrow>
          (case fc_operation_of (fg_codec fg) out of
             None \<Rightarrow> False
           | Some op \<Rightarrow> op_Status op = Committed \<and> op_ID op = rc_ID c \<and> op_Digest op = rc_Digest c))"

definition silent :: "'a fleet \<Rightarrow> bool" where
  "silent f \<longleftrightarrow> (\<forall>w. applications (snd (f w)) = applications w \<and> fw_reply (snd (f w)) = fw_reply w)"

lemma post_silent:
  assumes "silent f" "\<And>x w'. applications w' = applications w \<Longrightarrow> fw_reply w' = fw_reply w \<Longrightarrow> Q x w'"
    "\<And>e w'. applications w' = applications w \<Longrightarrow> fw_reply w' = fw_reply w \<Longrightarrow> E e w'"
  shows "post f Q E w"
  using assms by (auto simp: silent_def post_def split: prod.split sum.split) (metis snd_conv)+

named_theorems silent_rules \<open>controller steps that send no application\<close>

lemma silent_on_machine [silent_rules]: "silent (on_machine f)"
  by (auto simp: silent_def on_machine_def applications_def split: prod.split)

lemma silent_return [silent_rules]: "silent (return_db x)"
  by (simp add: silent_def return_db_def)

lemma silent_fail [silent_rules]: "silent (fail_db x)"
  by (simp add: silent_def fail_db_def)

lemma silent_then [silent_rules]: "silent f \<Longrightarrow> (\<And>x. silent (g x)) \<Longrightarrow> silent (then_db f g)"
  by (auto simp: silent_def then_db_def split: prod.split sum.split) (metis snd_conv)+

lemma silent_attempt [silent_rules]: "silent f \<Longrightarrow> silent (attempt f)"
  by (auto simp: silent_def attempt_def split: prod.split) (metis snd_conv)+

lemma silent_option [silent_rules]: "silent f \<Longrightarrow> (\<And>x. silent (g x)) \<Longrightarrow> silent (case p of None \<Rightarrow> f | Some x \<Rightarrow> g x)"
  by (cases p) simp_all

lemma silent_sum [silent_rules]:
  "(\<And>x. silent (f x)) \<Longrightarrow> (\<And>x. silent (g x)) \<Longrightarrow> silent (case p of Inl x \<Rightarrow> f x | Inr x \<Rightarrow> g x)"
  by (cases p) simp_all

lemma silent_run_ssh [silent_rules]: "rc_Action c \<noteq> ''apply'' \<Longrightarrow> silent (run_ssh c)"
  by (auto simp: silent_def run_ssh_def Let_def applications_def enumerate_append_eq split: option.split)

lemma silent_inspection [silent_rules]: "action \<noteq> ''apply'' \<Longrightarrow> silent (callFleet fg h action k digest)"
  unfolding callFleet_def by (intro silent_rules) simp

lemma silent_still_ready [silent_rules]: "silent (still_ready fg en)"
  unfolding still_ready_def inspectFleetEntry_def validated_def by (intro silent_rules) simp

lemma silent_inspect_all [silent_rules]: "silent (inspect_all fg ens)"
  by (induction ens) (auto intro: silent_rules)

lemma silent_saveBatch [silent_rules]: "silent (saveBatch fg b status t claims)"
  unfolding saveBatch_def Let_def by (intro silent_rules)

lemma silent_stop_batch [silent_rules]: "silent (stop_batch fg b status t e)"
  unfolding stop_batch_def by (intro silent_rules)

lemma post_stop_silent:
  "(\<And>e w'. applications w' = applications w \<Longrightarrow> fw_reply w' = fw_reply w \<Longrightarrow> E e w') \<Longrightarrow> post (stop_batch fg b status t e) Q E w"
  unfolding stop_batch_def by (rule post_then, rule post_silent, intro silent_rules) (auto intro: post_fail)

text \<open>The application for an entry is the next one sent; the answer to it is \<open>op\<close>, or that it is committed; or
  at most this one was sent.\<close>

definition applied_next :: "fleet_entry \<Rightarrow> fleet_world \<Rightarrow> (nat \<times> remote_call) \<Rightarrow> fleet_world \<Rightarrow> bool" where
  "applied_next en w p w' \<longleftrightarrow> applications w' = applications w @ [p] \<and> sent_for p = call_of en \<and> fw_reply w' = fw_reply w"

definition replied :: "fleet_engine \<Rightarrow> fleet_entry \<Rightarrow> operation \<Rightarrow> fleet_world \<Rightarrow> fleet_world \<Rightarrow> bool" where
  "replied fg en op w w' \<longleftrightarrow> (\<exists>p out. applied_next en w p w'
     \<and> fw_reply w (fst p) (fh_SSHBinary (hp_Config (rc_Host (snd p))) # rc_Arguments (snd p)) = Some out
     \<and> fc_operation_of (fg_codec fg) out = Some op)"

definition advanced :: "fleet_engine \<Rightarrow> fleet_entry \<Rightarrow> fleet_world \<Rightarrow> fleet_world \<Rightarrow> bool" where
  "advanced fg en w w' \<longleftrightarrow> (\<exists>p. applied_next en w p w' \<and> answered_committed fg (fw_reply w) p)"

definition touched :: "fleet_entry \<Rightarrow> fleet_world \<Rightarrow> fleet_world \<Rightarrow> bool" where
  "touched en w w' \<longleftrightarrow> applications w' = applications w \<and> fw_reply w' = fw_reply w \<or> (\<exists>p. applied_next en w p w')"

lemma silent_after:
  assumes "applications w2 = applications w1" "fw_reply w2 = fw_reply w1"
  shows "replied fg en op w w1 \<Longrightarrow> replied fg en op w w2" "advanced fg en w w1 \<Longrightarrow> advanced fg en w w2"
    "touched en w w1 \<Longrightarrow> touched en w w2"
  using assms by (simp_all add: replied_def advanced_def touched_def applied_next_def)

lemma touchedI: "replied fg en op w w1 \<Longrightarrow> touched en w w1" "advanced fg en w w1 \<Longrightarrow> touched en w w1"
  by (auto simp: replied_def advanced_def touched_def)

lemma touched_refl: "applications w' = applications w \<Longrightarrow> fw_reply w' = fw_reply w \<Longrightarrow> touched en w w'"
  by (simp add: touched_def)

lemma post_apply_call: "post (dispatch fg ''apply'' en) (\<lambda>op w'. replied fg en op w w') (\<lambda>_ w'. touched en w w') w0"
  if same: "applications w0 = applications w" "fw_reply w0 = fw_reply w"
proof -
  let ?c = "\<lambda>args. \<lparr>rc_Host = fe_Host en, rc_Action = ''apply'', rc_ID = op_ID (fe_Operation en),
      rc_Digest = op_Digest (fe_Operation en), rc_Arguments = args\<rparr>"
  have run: "post (run_ssh (?c args)) (\<lambda>out w'. touched en w w' \<and> (\<forall>op. fc_operation_of (fg_codec fg) out = Some op \<longrightarrow> replied fg en op w w'))
      (\<lambda>_ w'. touched en w w') w1" if "applications w1 = applications w" "fw_reply w1 = fw_reply w" for args w1
    using that by (auto simp: post_def run_ssh_def Let_def applications_def enumerate_append_eq applied_next_def sent_for_def
        call_of_def replied_def touched_def split: option.split)
  have start: "post (case fleetSSHArguments (hp_Config (fe_Host en)) ''apply'' (op_ID (fe_Operation en)) (op_Digest (fe_Operation en)) of
        Inl e \<Rightarrow> fail_db e
      | Inr args \<Rightarrow> then_db (run_ssh (?c args)) (\<lambda>out. case fc_operation_of (fg_codec fg) out of
            None \<Rightarrow> fail_db (Problem ''invalid target executor response'')
          | Some op \<Rightarrow> return_db op)) (\<lambda>op w'. replied fg en op w w') (\<lambda>_ w'. touched en w w') w1"
    if "applications w1 = applications w" "fw_reply w1 = fw_reply w" for w1
  proof (cases "fleetSSHArguments (hp_Config (fe_Host en)) ''apply'' (op_ID (fe_Operation en)) (op_Digest (fe_Operation en))")
    case (Inr args)
    show ?thesis
      unfolding Inr sum.case
      by (rule post_then, rule post_mono [OF run [OF that]]) (auto intro!: post_fail post_return split: option.split)
  qed (use that in \<open>simp add: post_fail touched_refl\<close>)
  show ?thesis
    unfolding dispatch_def callFleet_def
    by (rule post_then, rule post_silent [OF silent_on_machine], rule post_then, rule post_silent [OF silent_on_machine],
        rule start) (simp_all add: same touched_refl)
qed

lemma post_applied_record:
  assumes "replied fg en op w w1" "op_Status op = Committed \<Longrightarrow> advanced fg en w w1"
  shows "post (record_apply fg i b op) (\<lambda>_. advanced fg en w) (\<lambda>_. touched en w) w1"
proof (cases "op_Status op = Committed")
  case True
  have "silent (then_db (saveBatch fg (with_outcome i (observed op) b) Applying '''' []) (\<lambda>b''.
      then_db (on_machine (checkpoint (fg_engine fg) ''fleet_recorded'' (int i))) (\<lambda>_. return_db b'')))"
    by (intro silent_rules)
  from this show ?thesis
    unfolding record_apply_def Let_def using True assms(2) 
    by (simp, elim post_silent) (auto intro: silent_after touchedI)
next
  case False
  then show ?thesis
    unfolding record_apply_def Let_def using assms(1)
    by (simp, intro post_stop_silent) (auto intro: silent_after touchedI)
qed

lemma post_applied_host:
  "post (apply_host fg i en b) (\<lambda>_. advanced fg en w) (\<lambda>_. touched en w) w"
proof -
  have checked: "post (then_db (on_error (check_answer fg en (Inr op)) (stop_batch fg b1 st t)) (record_apply fg i b1))
      (\<lambda>_. advanced fg en w) (\<lambda>_. touched en w) w1"
    if p: "replied fg en op w w1" for b1 st t op w1
  proof (cases "validateFleetOperation fg op (op_ID (fe_Operation en)) (op_Digest (fe_Operation en)) (op_Target (fe_Operation en))")
    case None
    have "advanced fg en w w1" if "op_Status op = Committed"
      using that p None by (force simp: answered_committed_def replied_def advanced_def applied_next_def sent_for_def call_of_def
          validateFleetOperation_def Let_def split: if_splits)
    then show ?thesis
      using post_applied_record [OF p] None
      by (auto simp: check_answer_def validated_def intro!: post_then post_on_error post_return)
  next
    case (Some e)
    then show ?thesis
      using p by (auto simp: check_answer_def validated_def intro!: post_then post_on_error post_fail post_stop_silent
          intro: silent_after touchedI)
  qed
  have failed: "post (then_db (on_error (check_answer fg en (Inl e)) (stop_batch fg b1 st t)) (record_apply fg i b1))
      (\<lambda>_. advanced fg en w) (\<lambda>_. touched en w) w1" if "touched en w w1" for b1 st t e w1
    using that by (auto simp: check_answer_def intro!: post_then post_on_error post_fail post_stop_silent intro: silent_after)
  have answered: "post (then_db (on_machine f) (\<lambda>_. then_db (on_error (check_answer fg en r) (stop_batch fg b1 st t))
      (record_apply fg i b1))) (\<lambda>_. advanced fg en w) (\<lambda>_. touched en w) w1"
    if "touched en w w1" "\<And>op. r = Inr op \<Longrightarrow> replied fg en op w w1" for f :: "unit sys" and r b1 st t w1
    using that by (cases r) (auto intro!: post_then post_silent [OF silent_on_machine] checked failed intro: silent_after)
  have sent: "post (send_apply fg i en b1) (\<lambda>_. advanced fg en w) (\<lambda>_. touched en w) w1"
    if "applications w1 = applications w" "fw_reply w1 = fw_reply w" for b1 w1
    unfolding send_apply_def
    by (rule post_then, rule post_silent [OF silent_on_machine], rule post_then, rule post_attempt,
        rule post_mono [OF post_apply_call]) (auto simp: that intro: touched_refl touchedI intro!: answered)
  show ?thesis
    unfolding apply_host_def
    by (rule post_then, rule post_on_error, rule post_silent, intro silent_rules)
      (auto intro!: post_stop_silent post_then post_silent [OF silent_saveBatch] sent touched_refl)
qed

text \<open>A run over the hosts: all of them committed, or it stopped at one.\<close>

definition rolled_out :: "fleet_engine \<Rightarrow> fleet_entry list \<Rightarrow> fleet_world \<Rightarrow> fleet_world \<Rightarrow> bool" where
  "rolled_out fg ens w w' \<longleftrightarrow> (\<exists>ps. applications w' = applications w @ ps \<and> map sent_for ps = map call_of ens
     \<and> list_all (answered_committed fg (fw_reply w)) ps)"

definition stopped_at :: "fleet_engine \<Rightarrow> fleet_entry list \<Rightarrow> fleet_world \<Rightarrow> fleet_world \<Rightarrow> bool" where
  "stopped_at fg ens w w' \<longleftrightarrow> (\<exists>ps. applications w' = applications w @ ps \<and> prefix (map sent_for ps) (map call_of ens)
     \<and> list_all (answered_committed fg (fw_reply w)) (butlast ps))"

lemma stopped_refl: "applications w' = applications w \<Longrightarrow> stopped_at fg ens w w'"
  by (auto simp: stopped_at_def)

lemma stopped_touched: "touched en w w' \<Longrightarrow> stopped_at fg (en # ens) w w'"
  unfolding touched_def stopped_at_def applied_next_def by (elim disjE exE conjE) (auto intro: exI [of _ "[]"] exI [of _ "[_]"])

lemma advanced_then:
  assumes "advanced fg en w w1" 
  shows "stopped_at fg ens w1 w2 \<Longrightarrow> stopped_at fg (en # ens) w w2"
    "rolled_out fg ens w1 w2 \<Longrightarrow> rolled_out fg (en # ens) w w2"
proof -
  from assms obtain p where p: "applications w1 = applications w @ [p]" "sent_for p = call_of en" "fw_reply w1 = fw_reply w"
    "answered_committed fg (fw_reply w) p" by (auto simp: advanced_def applied_next_def)
  show "stopped_at fg (en # ens) w w2" if stop: "stopped_at fg ens w1 w2"
  proof -
    from stop obtain ps where "applications w2 = applications w1 @ ps" "prefix (map sent_for ps) (map call_of ens)"
      "list_all (answered_committed fg (fw_reply w1)) (butlast ps)" by (auto simp: stopped_at_def)
    with p show ?thesis unfolding stopped_at_def by (intro exI [of _ "p # ps"]) auto
  qed
  show "rolled_out fg (en # ens) w w2" if roll: "rolled_out fg ens w1 w2"
  proof -
    from roll obtain ps where "applications w2 = applications w1 @ ps" "map sent_for ps = map call_of ens"
      "list_all (answered_committed fg (fw_reply w1)) ps" by (auto simp: rolled_out_def)
    with p show ?thesis unfolding rolled_out_def by (intro exI [of _ "p # ps"]) auto
  qed
qed

lemma post_rollout:
  "post (apply_hosts fg i ens b) (\<lambda>_ w'. rolled_out fg ens w w' \<and> fw_reply w' = fw_reply w) (\<lambda>_. stopped_at fg ens w) w"
proof (induction ens arbitrary: i b w)
  case Nil
  show ?case by (auto simp: rolled_out_def intro!: post_return)
next
  case (Cons en ens)
  have "post (apply_hosts fg (i + 1) ens b') (\<lambda>_ w'. rolled_out fg (en # ens) w w' \<and> fw_reply w' = fw_reply w)
      (\<lambda>_. stopped_at fg (en # ens) w) w1" if "advanced fg en w w1" for b' w1
    by (rule post_mono [OF Cons.IH]) (use that advanced_then in \<open>auto simp: advanced_def applied_next_def\<close>)
  then show ?case
    unfolding apply_hosts.simps
    by (intro post_then post_mono [OF post_applied_host]) (auto intro: stopped_touched)
qed

text \<open>The plan, its digest and its policy stay with the batch.\<close>

definition same_plan :: "fleet_batch \<Rightarrow> fleet_batch \<Rightarrow> bool" where
  "same_plan b b' \<longleftrightarrow> fb_Plan b' = fb_Plan b \<and> rb_Digest (fb_Record b') = rb_Digest (fb_Record b)
     \<and> rb_Policy (fb_Record b') = rb_Policy (fb_Record b) \<and> rb_Target (fb_Record b') = rb_Target (fb_Record b)"

lemma same_plan_refl [simp]: "same_plan b b" "same_plan b (with_outcome i f b)"
  by (simp_all add: same_plan_def)

lemma same_plan_trans: "same_plan b b' \<Longrightarrow> same_plan b' b'' \<Longrightarrow> same_plan b b''"
  by (simp add: same_plan_def)

lemma same_plan_outcome: "same_plan (with_outcome i f b) b' = same_plan b b'"
  by (simp add: same_plan_def)

lemma SaveRecoveryBatch_value:
  "SaveRecoveryBatch valid b claims st = (Inr b', st') \<Longrightarrow>
   \<exists>now. b' = b\<lparr>rb_Revision := rb_Revision b + 1, rb_UpdatedAt := now\<rparr>"
  by (auto simp: SaveRecoveryBatch_def then_db_def return_db_def fail_db_def clock_now_def split: if_splits prod.splits sum.splits)

lemma post_saved: "post (saveBatch fg b status t claims)
    (\<lambda>b' _. same_plan b b' \<and> rb_Status (fb_Record b') = status \<and> rb_ID (fb_Record b') = rb_ID (fb_Record b)
       \<and> fb_Outcomes b' = fb_Outcomes b) (\<lambda>_ _. True) w"
  by (auto simp: post_def saveBatch_def then_db_def on_machine_def on_store_def return_db_def batch_with_def same_plan_def Let_def
      dest!: SaveRecoveryBatch_value split: prod.splits sum.splits)

lemma post_stop_any: "post (stop_batch fg b status t e) Q (\<lambda>_ _. True) w"
  unfolding stop_batch_def by (rule post_then, rule post_mono [OF post_any]) (auto intro: post_fail)

lemma post_same_plan_record: "post (record_apply fg i b op) (\<lambda>b' _. same_plan b b') (\<lambda>_ _. True) w"
  unfolding record_apply_def Let_def
  by (rule post_if, rule post_stop_any, rule post_then, rule post_mono [OF post_saved], rule post_then, rule post_mono [OF post_any])
    (auto simp: same_plan_outcome intro: post_return)

lemma post_same_plan_host: "post (apply_host fg i en b) (\<lambda>b' _. same_plan b b') (\<lambda>_ _. True) w"
proof -
  have sent: "post (send_apply fg i en b') (\<lambda>b' _. same_plan b b') (\<lambda>_ _. True) w'" if "same_plan b b'" for b' w'
    unfolding send_apply_def
    by (rule post_then, rule post_mono [OF post_any], rule post_then, rule post_mono [OF post_any], rule post_then,
        rule post_mono [OF post_any], rule post_then, rule post_on_error, rule post_mono [OF post_any])
      (auto intro: post_stop_any post_mono [OF post_same_plan_record] same_plan_trans [OF that])
  show ?thesis
    unfolding apply_host_def
    by (rule post_then, rule post_on_error, rule post_mono [OF post_any], rule post_then, rule post_mono [OF post_saved])
      (auto simp: same_plan_outcome intro: sent post_stop_any)
qed

lemma post_same_plan_hosts: "post (apply_hosts fg i ens b) (\<lambda>b' _. same_plan b b') (\<lambda>_ _. True) w"
proof (induction ens arbitrary: i b w)
  case (Cons en ens)
  show ?case
    unfolding apply_hosts.simps
    by (rule post_then, rule post_mono [OF post_same_plan_host], rule post_mono [OF Cons.IH]) (auto intro: same_plan_trans)
qed (simp add: post_return)

lemma post_conj: "post f Q E w \<Longrightarrow> post f Q' E' w \<Longrightarrow> post f (\<lambda>x w'. Q x w' \<and> Q' x w') (\<lambda>e w'. E e w' \<and> E' e w') w"
  by (auto simp: post_def split: prod.splits sum.splits)

lemma silent_same: "silent f \<Longrightarrow> post f (\<lambda>_ w'. applications w' = applications w \<and> fw_reply w' = fw_reply w)
    (\<lambda>_ w'. applications w' = applications w \<and> fw_reply w' = fw_reply w) w"
  by (rule post_silent) simp_all

lemma rolled_stopped: "rolled_out fg ens w w' \<Longrightarrow> stopped_at fg ens w w'"
  unfolding rolled_out_def stopped_at_def by (auto simp: list_all_iff) (metis in_set_butlastD)

lemma rolled_same: "applications w2 = applications w1 \<Longrightarrow> rolled_out fg ens w w1 \<Longrightarrow> rolled_out fg ens w w2"
  by (simp add: rolled_out_def)

lemma post_refusal: "(\<not> p \<Longrightarrow> Q () w) \<Longrightarrow> (p \<Longrightarrow> E (Problem t) w) \<Longrightarrow> post (on_machine (refuse_when p t)) Q E w"
  by (simp add: post_def on_machine_def refuse_when_def return_db_def fail_db_def)

lemma post_inspected: "post (on_machine (InspectBatch fg k))
    (\<lambda>b w'. rb_Target (fb_Record b) = eg_target (fg_engine fg)
       \<and> batchDigest fg (eg_target (fg_engine fg)) (rb_Policy (fb_Record b)) (fb_Plan b) = rb_Digest (fb_Record b)) (\<lambda>_ _. True) w"
  by (auto simp: post_def on_machine_def InspectBatch_def then_db_def return_db_def fail_db_def refuse_when_def
      split: prod.splits sum.splits option.splits if_splits)

text \<open>
  C26: A rollout goes to the reviewed hosts in the reviewed order and stops at the first that does not commit.  The
  apply commands a rollout sends are for the first entries of the plan whose digest was approved, each for
  exactly its host, operation and digest; before every one of them all earlier hosts have answered that their
  operation is committed.  When the rollout is reported as done, every host of the plan was sent its
  command and answered that it is committed.
\<close>

theorem rollout_stops_at_failure:
  assumes "ApplyBatch fg k digest w = (r, w')"
  shows "case r of
      Inl _ \<Rightarrow> applications w' = applications w
        \<or> (\<exists>plan policy. batchDigest fg (eg_target (fg_engine fg)) policy plan = digest \<and> stopped_at fg (fp_Entries plan) w w')
    | Inr b \<Rightarrow> batchDigest fg (eg_target (fg_engine fg)) (rb_Policy (fb_Record b)) (fb_Plan b) = digest
        \<and> rolled_out fg (fp_Entries (fb_Plan b)) w w' \<and> rb_Status (fb_Record b) = Committed"
proof -
  let ?digest = "\<lambda>b. batchDigest fg (eg_target (fg_engine fg)) (rb_Policy (fb_Record b)) (fb_Plan b)"
  let ?Q = "\<lambda>b w'. ?digest b = digest \<and> rolled_out fg (fp_Entries (fb_Plan b)) w w' \<and> rb_Status (fb_Record b) = Committed"
  let ?E = "\<lambda>_ :: recovery_error. \<lambda>w'. applications w' = applications w
      \<or> (\<exists>plan policy. batchDigest fg (eg_target (fg_engine fg)) policy plan = digest \<and> stopped_at fg (fp_Entries plan) w w')"
  have save: "post (saveBatch fg b' Committed '''' []) ?Q ?E w2"
    if "?digest b = digest" "same_plan b b'" "rolled_out fg (fp_Entries (fb_Plan b)) w w2" for b b' w2
    by (rule post_mono [OF post_conj [OF post_saved silent_same [OF silent_saveBatch]]])
      (use that in \<open>auto simp: same_plan_def intro: rolled_same rolled_stopped\<close>)
  have hosts: "post (then_db (apply_hosts fg 0 (fp_Entries (fb_Plan b)) b) (\<lambda>b'. saveBatch fg b' Committed '''' [])) ?Q ?E w1"
    if "?digest b = digest" "applications w1 = applications w" "fw_reply w1 = fw_reply w" for b w1
    by (rule post_then, rule post_mono [OF post_conj [OF post_rollout post_same_plan_hosts]])
      (use that save [OF that(1)] in \<open>auto simp: rolled_out_def stopped_at_def\<close>)
  have "post (ApplyBatch fg k digest) ?Q ?E w"
    unfolding ApplyBatch_def
    by (rule post_then, rule post_silent [OF silent_on_machine],
        rule post_then, rule post_mono [OF post_conj [OF post_inspected silent_same [OF silent_on_machine]]],
        rule post_then, rule post_refusal, rule post_then, rule post_refusal, rule post_then, rule post_silent [OF silent_on_machine],
        rule post_then, rule post_silent [OF silent_on_machine], rule post_then, rule post_silent [OF silent_inspect_all],
        rule hosts) simp_all
  from post_run [OF this assms] show ?thesis by (cases r) simp_all
qed

theorem rollout_stops_at_failure_witness:
  "case ApplyBatch sample_controller sample_batch_id sample_digest prepared_world of
     (Inl _, _) \<Rightarrow> False
   | (Inr b, w') \<Rightarrow> rolled_out sample_controller (fp_Entries sample_fleet_plan) prepared_world w' \<and> rb_Status (fb_Record b) = Committed"
proof (cases "ApplyBatch sample_controller sample_batch_id sample_digest prepared_world")
  case (Pair r w')
  then obtain b where "r = Inr b" "fb_Plan b = sample_fleet_plan"
    using sample_rollout by (cases r) simp_all
  with rollout_stops_at_failure [OF Pair] Pair show ?thesis by simp
qed

section \<open>A prepared batch\<close>

definition file_bytes :: "fleet_entry \<Rightarrow> int list" where
  "file_bytes en = concat (map (\<lambda>file. [fp_Bytes (en_Before file), fp_Bytes (en_After file)]) (mf_Entries (op_Plan (fe_Operation en))))"

definition total_impact :: "fleet_entry list \<Rightarrow> fleet_impact" where
  "total_impact ens =
     \<lparr>fi_Hosts = int (length ens),
      fi_Files = (\<Sum>en\<leftarrow>ens. int (length (mf_Entries (op_Plan (fe_Operation en))))),
      fi_Bytes = (\<Sum>en\<leftarrow>ens. sum_list (file_bytes en)),
      fi_Services = int (length (filter (\<lambda>en. mf_Service (op_Plan (fe_Operation en)) \<noteq> None) ens))\<rparr>"

lemma add_file_bytes_sum: "add_file_bytes n ns = Inr m \<Longrightarrow> m = n + sum_list ns \<and> (\<forall>x \<in> set ns. 0 \<le> x)"
  by (induction n ns rule: add_file_bytes.induct) (auto split: if_splits)

lemma measure_entries_sum:
  "measure_entries seen impact ens = Inr i \<Longrightarrow>
    i = impact\<lparr>fi_Files := fi_Files impact + fi_Files (total_impact ens), fi_Bytes := fi_Bytes impact + fi_Bytes (total_impact ens),
      fi_Services := fi_Services impact + fi_Services (total_impact ens)\<rparr>
    \<and> distinct (map (\<lambda>en. op_Target (fe_Operation en)) ens) \<and> (\<forall>en \<in> set ens. op_Target (fe_Operation en) \<notin> set seen)
    \<and> (\<forall>en \<in> set ens. \<forall>x \<in> set (file_bytes en). 0 \<le> x)"
proof (induction seen impact ens rule: measure_entries.induct)
  case (2 seen impact en ens)
  from 2(2) obtain bytes where bytes: "\<not> List.member seen (op_Target (fe_Operation en))"
    "add_file_bytes (fi_Bytes impact) (file_bytes en) = Inr bytes"
    "measure_entries (op_Target (fe_Operation en) # seen)
       (impact\<lparr>fi_Files := fi_Files impact + int (length (mf_Entries (op_Plan (fe_Operation en)))), fi_Bytes := bytes,
          fi_Services := fi_Services impact + (if mf_Service (op_Plan (fe_Operation en)) \<noteq> None then 1 else 0)\<rparr>) ens = Inr i"
    by (auto simp: Let_def file_bytes_def split: if_splits sum.splits)
  from 2(1) [OF bytes(1) refl bytes(2) [unfolded file_bytes_def] bytes(3)] add_file_bytes_sum [OF bytes(2)] bytes(1)
  show ?case by (auto simp: total_impact_def)
qed (simp add: total_impact_def)

text \<open>
  C28: A prepared batch is what was asked for, within what the operator allows.  It has one entry for every reference,
  on a configured host other than the controller and with its assets as they are; the operation is the one named, has the
  named digest, which its plan matches, is ready, and is a plan for files.  No host occurs twice, the impact is
  the sum over all entries, without a negative size that could hide another, and within the limits; the
  digest of the batch binds the plan, and nothing is marked as sent.
\<close>

theorem prepared_batch_sound:
  assumes "PrepareBatch fg refs w = (Inr b, w')"
  shows "list_all2 (prepared_entry fg) refs (fp_Entries (fb_Plan b))
    \<and> distinct (map (\<lambda>en. op_Target (fe_Operation en)) (fp_Entries (fb_Plan b)))
    \<and> fp_Impact (fb_Plan b) = total_impact (fp_Entries (fb_Plan b))
    \<and> (\<forall>en \<in> set (fp_Entries (fb_Plan b)). \<forall>x \<in> set (file_bytes en). 0 \<le> x)
    \<and> impact_within (fp_Impact (fb_Plan b)) (fcf_Limits (fg_fleet fg))
    \<and> rb_Digest (fb_Record b) = batchDigest fg (eg_target (fg_engine fg)) (eg_policy (fg_engine fg)) (fb_Plan b)
    \<and> rb_Status (fb_Record b) = Ready \<and> (\<forall>out \<in> set (fb_Outcomes b). \<not> fo_Dispatched out)"
  (is "?P b")
proof -
  let ?Q = "\<lambda>b (_ :: fleet_world). ?P b"
  let ?E = "\<lambda>(_ :: recovery_error) (_ :: fleet_world). True"
  have measured: "impact = total_impact ens \<and> distinct (map (\<lambda>en. op_Target (fe_Operation en)) ens)
      \<and> (\<forall>en \<in> set ens. \<forall>x \<in> set (file_bytes en). 0 \<le> x)" if "measureFleet ens = Inr impact" for ens impact
    using measure_entries_sum [OF that [unfolded measureFleet_def]] by (simp add: total_impact_def)
  have save: "post (saveBatch fg (new_batch fg now k ens impact) Ready '''' (map entry_ref ens)) ?Q ?E w1"
    if "list_all2 (prepared_entry fg) refs ens" "measureFleet ens = Inr impact" "impact_within impact (fcf_Limits (fg_fleet fg))"
    for now k ens impact w1
    by (rule post_mono [OF post_saved])
      (use that measured [OF that(2)] in \<open>auto simp: same_plan_def new_batch_def Let_def first_outcome_def\<close>)
  have rest: "post (case measureFleet ens of
         Inl e \<Rightarrow> fail_db e
       | Inr impact \<Rightarrow>
           then_db (on_machine (refuse_when (\<not> impact_within impact (fcf_Limits (fg_fleet fg))) t)) (\<lambda>_.
           then_db (on_machine (ask sr_random)) (\<lambda>bytes.
           saveBatch fg (new_batch fg now (hex_encode bytes) ens impact) Ready '''' (map entry_ref ens)))) ?Q ?E w1"
    if "list_all2 (prepared_entry fg) refs ens" for t now ens w1
  proof (cases "measureFleet ens")
    case (Inr impact)
    show ?thesis
      unfolding Inr sum.case
      by (rule post_then, rule post_refuse, rule post_then, rule post_mono [OF post_any], rule save [OF that Inr]) simp_all
  qed (simp add: post_fail)
  have "post (PrepareBatch fg refs) ?Q ?E w"
    unfolding PrepareBatch_def
    by (rule post_then, rule post_mono [OF post_any], rule post_then, rule post_mono [OF post_any], rule post_then,
        rule post_mono [OF post_any], rule post_then, rule post_mono [OF post_any], rule post_then,
        rule post_mono [OF post_prepare_references]) (use rest in simp_all)
  from post_run [OF this assms, unfolded sum.case] show ?thesis .
qed

lemma sample_prepared: "map_sum (\<lambda>_. ()) fb_Plan (fst (PrepareBatch sample_controller sample_references sample_world)) = Inr sample_fleet_plan"
  by code_simp

theorem prepared_batch_sound_witness:
  "case fst (PrepareBatch sample_controller sample_references sample_world) of
     Inl _ \<Rightarrow> False
   | Inr b \<Rightarrow> total_impact (fp_Entries sample_fleet_plan) = fp_Impact sample_fleet_plan
       \<and> list_all2 (prepared_entry sample_controller) sample_references (fp_Entries sample_fleet_plan)
       \<and> rb_Status (fb_Record b) = Ready"
proof (cases "PrepareBatch sample_controller sample_references sample_world")
  case (Pair r w')
  then obtain b where b: "r = Inr b" "fb_Plan b = sample_fleet_plan"
    using sample_prepared by (cases r) simp_all
  from prepared_batch_sound [OF Pair [unfolded b(1)]] show ?thesis unfolding Pair b by simp
qed

section \<open>The remote command line\<close>

lemma Trim_letters: "Trim s cs = '''' \<Longrightarrow> set s \<subseteq> set cs"
  by (auto simp: Trim_empty list_all_iff)

lemma SplitByte_words: "sep \<notin> set x \<Longrightarrow> SplitByte sep (x @ sep # y) = x # SplitByte sep y"
  by (simp add: SplitByte_append SplitByte_plain)

text \<open>
  C29: A remote command line is made of plain words only.  When arguments are accepted, the command the remote shell
  gets consists of letters, digits, \<open>_\<close>, \<open>.\<close>, \<open>/\<close>, \<open>-\<close> and single blanks, so it holds nothing the shell expands, and its
  words are exactly the executor, its fixed options, the action and the reference; the digest is confirmed
  by every action that changes the host.
\<close>

theorem remote_command_plain:
  assumes "fleetSSHArguments h action k digest = Inr args"
  shows "set (last args) \<subseteq> insert SPC (set fleet_letters)
    \<and> SplitByte SPC (last args) = [fh_Executor h, ''recovery'', ''--state'', fh_StatePath h, ''--expect-target'',
         fh_ExpectedTarget h, action, k] @ (if action = ''inspect'' then [] else [''--confirm'', digest])
    \<and> List.member [''inspect'', ''apply'', ''recover''] action"
proof -
  from assms have ok: "hexID k 32" "hexID digest 64" "hexID (fh_ExpectedTarget h) 64" "fleetPath (fh_Executor h)" "fleetPath (fh_StatePath h)"
    and action: "List.member [''inspect'', ''apply'', ''recover''] action" and cmd: "last args = remote_command h action k digest"
    by (auto simp: fleetSSHArguments_def split: if_splits)
  have hex: "set ''0123456789abcdef'' \<subseteq> set fleet_letters" by (simp add: fleet_letters_def)
  have letters: "set k \<subseteq> set fleet_letters" "set digest \<subseteq> set fleet_letters" "set (fh_ExpectedTarget h) \<subseteq> set fleet_letters"
    "set (fh_Executor h) \<subseteq> set fleet_letters" "set (fh_StatePath h) \<subseteq> set fleet_letters"
    using ok Trim_letters hex unfolding hexID_def fleetPath_def by blast+
  have blank: "SPC \<notin> set fleet_letters" by code_simp
  have words: "SPC \<notin> set x" if "set x \<subseteq> set fleet_letters" for x using that blank by blast
  have fixed: "set ''recovery'' \<subseteq> set fleet_letters" "set ''--state'' \<subseteq> set fleet_letters" "set ''--expect-target'' \<subseteq> set fleet_letters"
    "set ''--confirm'' \<subseteq> set fleet_letters" "set action \<subseteq> set fleet_letters"
    using action by (auto simp: fleet_letters_def)
  have line: "last args = fh_Executor h @ SPC # ''recovery'' @ SPC # ''--state'' @ SPC # fh_StatePath h @ SPC # ''--expect-target'' @ SPC #
      fh_ExpectedTarget h @ SPC # action @ SPC # k @ (if action = ''inspect'' then [] else SPC # ''--confirm'' @ SPC # digest)"
    by (simp add: cmd remote_command_def)
  have split: "SplitByte SPC (k @ (if action = ''inspect'' then [] else SPC # ''--confirm'' @ SPC # digest))
      = k # (if action = ''inspect'' then [] else [''--confirm'', digest])"
    using words [OF letters(1)] words [OF letters(2)] words [OF fixed(4)] by (simp add: SplitByte_words SplitByte_plain del: append.simps)
  have "SplitByte SPC (last args) = fh_Executor h # ''recovery'' # ''--state'' # fh_StatePath h # ''--expect-target'' #
         fh_ExpectedTarget h # action # k # (if action = ''inspect'' then [] else [''--confirm'', digest])"
    unfolding line using words [OF letters(3)] words [OF letters(4)] words [OF letters(5)] words [OF fixed(1)] words [OF fixed(2)]
      words [OF fixed(3)] words [OF fixed(5)]
    by (simp only: SplitByte_words split not_False_eq_True)
  moreover have "set (last args) \<subseteq> insert SPC (set fleet_letters)"
    unfolding line using letters fixed by (auto split: if_splits)
  ultimately show ?thesis using action by (simp only: append_Cons append_Nil simp_thms)
qed

theorem remote_command_plain_witness:
  "SplitByte SPC (''/b recovery --state /s --expect-target '' @ replicate 64 CHR ''1'' @ '' inspect '' @ fleet_id)
     = [''/b'', ''recovery'', ''--state'', ''/s'', ''--expect-target'', replicate 64 CHR ''1'', ''inspect'', fleet_id]"
proof -
  have accepted: "case fleetSSHArguments sample_host ''inspect'' fleet_id sample_digest of
      Inl _ \<Rightarrow> False
    | Inr args \<Rightarrow> last args = ''/b recovery --state /s --expect-target '' @ replicate 64 CHR ''1'' @ '' inspect '' @ fleet_id"
    by code_simp
  then obtain args where args: "fleetSSHArguments sample_host ''inspect'' fleet_id sample_digest = Inr args"
    "last args = ''/b recovery --state /s --expect-target '' @ replicate 64 CHR ''1'' @ '' inspect '' @ fleet_id"
    by (auto split: sum.splits)
  have "fh_Executor sample_host = ''/b'' \<and> fh_StatePath sample_host = ''/s'' \<and> fh_ExpectedTarget sample_host = replicate 64 CHR ''1''"
    by (simp add: sample_host_def)
  with remote_command_plain [OF args(1)] show ?thesis unfolding args(2) by simp
qed

end
