(* ===== verification/Spec2Isabelle.thy ===== *)
theory Spec2Isabelle
  imports Security_Policy Shell_Parser Secrets Shell_Targets Shell_Tokens Shell_Classify Shell_Assess
    Grant_Store Shell_Allowlist Tool_Effects Action_Grants Shell_Approval Shell_Exec Tool_Registry
    Cron State_DB Scheduler_Store Scheduler Blocked_Work Quantity Recovery_Journal Recovery_Files Recovery_Rules Recovery_Frames Recovery_Types
    Recovery_Entries Nginx_Config Recovery_Service Recovery_Engine Recovery_Rollback Recovery_Runs Recovery_Sample
    Recovery_Guarantees Recovery_Budget System_Cron
    Recovery_Fleet Fleet_Ledger Fleet_Rollout Fleet_Operations Fleet_Sample Fleet_Guarantees
begin

text \<open>
  CvkeHarness is an agent harness: a language model proposes shell commands and tool calls on a host, and
  the harness decides which of them run.  This development models the parts that make those decisions and
  the parts that keep their state, from the Go sources under \<open>src/\<close>, and proves what they promise.

  \<^bold>\<open>The parts and how they interact\<close>

  A tool call reaches the registry (\<open>tools/registry.go\<close>, theory \<open>Tool_Registry\<close>).  What the call does is
  classified (\<open>Tool_Effects\<close>); a shell command is parsed (\<open>tools/shell.go\<close>, \<open>Shell_Parser\<close>), its segments
  are split into words and redirections (\<open>Shell_Tokens\<close>), its paths are resolved (\<open>Shell_Targets\<close>), and the
  effects of each segment are found (\<open>tools/shell_policy.go\<close>, \<open>Shell_Classify\<close>).  \<open>Shell_Assess\<close> decides the
  effects under an effective policy, which \<open>Security_Policy\<close> (\<open>securitypolicy/\<close>) resolves from a profile
  and overrides.  Where the decision is to ask, a human or an advisor answers (\<open>Shell_Approval\<close>), or a
  scoped grant is spent: \<open>Action_Grants\<close> (\<open>tools/shell_grant.go\<close>) binds a grant to one action by a digest,
  \<open>Grant_Store\<close> (\<open>state/store_security_grants.go\<close>) holds the grants.  \<open>Shell_Exec\<close> is the gate before a
  command runs and the capture of its output, with \<open>Shell_Allowlist\<close> for hosts without a policy and
  \<open>Secrets\<close> for the masking.

  Work that has to wait for a human is kept in the database (\<open>State_DB\<close>, \<open>Blocked_Work\<close>); its approval
  issues a grant and releases the jobs that wait.  \<open>Scheduler\<close> runs prompts at the times \<open>Cron\<close> computes
  from a schedule; the claims that keep two schedulers apart are in \<open>Scheduler_Store\<close>.  \<open>System_Cron\<close>
  (\<open>systemcron/systemcron.go\<close>, \<open>tools/system_cron.go\<close>) edits the user's own crontab: every change is shown as
  a difference and applied on a human's choice; the theorems say what each change does to the parsed entries.

  The recovery engine (\<open>recovery/engine.go\<close>) changes files under a journal.  \<open>Recovery_Journal\<close> holds the
  journal, the watchdog guards and the fleet batches (\<open>state/store_recovery.go\<close>, \<open>store_guard.go\<close>,
  \<open>store_batch.go\<close>); \<open>Recovery_Types\<close> the plans, limits and statuses, with \<open>Quantity\<close> for checked arithmetic;
  \<open>Recovery_Files\<close> the calls on the file system (\<open>recovery/files_unix.go\<close>).  \<open>Recovery_Entries\<close> applies and
  restores one entry of a plan, \<open>Recovery_Engine\<close> prepares, applies, recovers, reconciles and inspects whole
  operations; \<open>Nginx_Config\<close> and \<open>Recovery_Service\<close> are the checks around a change of an NGINX service.

  What the engine promises is proved in layers.  \<open>Recovery_Rules\<close> holds weakest preconditions of the system
  calls, \<open>Recovery_Frames\<close> what each leaves alone; \<open>Recovery_Rollback\<close> the invariant that every entry, at any
  point of an application, still has its original at the destination, in quarantine or in the backup;
  \<open>Recovery_Runs\<close> the runs of all entries and the operations on the journal; \<open>Recovery_Sample\<close> one concrete
  operation for the witnesses.  \<open>Recovery_Guarantees\<close> states the results: an interrupted application followed by
  a restoration restores every destination, a restoration never overwrites a foreign file, files are changed
  only under the reviewed plan, and committed and recovered mean what they say.  \<open>Recovery_Budget\<close> bounds the
  repair attempts of a model.

  The fleet controller (\<open>recovery/fleet.go\<close>, \<open>recovery/fleet_ssh.go\<close>, theory \<open>Recovery_Fleet\<close>) prepares batches of
  operations that other hosts hold ready, sends each host its command over SSH, reconciles what the hosts report
  and recovers in reverse order.  Its world is the machine of the controller, the commands sent so far and the
  answers of the hosts, which are arbitrary; the journal of batches is that of \<open>Recovery_Journal\<close>.
  \<open>Fleet_Ledger\<close> has the rules for the controller's steps and the ledger, the invariant that ties the
  commands sent to the stored batches and the claims on the targets; \<open>Fleet_Rollout\<close> keeps it through one host,
  \<open>Fleet_Operations\<close> through every operation.  \<open>Fleet_Guarantees\<close> states the results: no operation is sent for
  application twice, repairs stay within the configured limit, a rollout stops at the first host that does not
  commit, what a prepared batch holds and what a remote command line contains; \<open>Fleet_Sample\<close> is a controller
  with one host for the witnesses.

  \<open>Go_Strings\<close>, \<open>Go_Paths\<close> and \<open>Go_Time\<close> are the prelude: the packages \<open>strings\<close>, \<open>strconv\<close>, \<open>path/filepath\<close>
  and \<open>time\<close> as far as the code uses them, and the development's \<open>named_theorems\<close>.

  \<^bold>\<open>How state is modelled\<close>

  A store operation is a function from a store to an error or a value and the store afterwards; the
  combinators of \<open>State_DB\<close> compose them as Go's error returns do.  A statement is atomic; before it other
  processes may change the database (\<open>st_others\<close>), and it may be answered with an error (\<open>st_answer\<close>).
  System calls of the recovery engine run the same way on a machine.  Theorems that need it assume a quiet
  store or state what the others keep; all the rest hold for every answer and every interference.

  \<^bold>\<open>Parameters\<close>

  Hash functions, JSON encoders and decoders, models, terminals, runners, random bytes and the answers of
  the operating system are arguments of the definitions.  Where a property needs a law of one (an encoding
  is injective, a grant decodes to itself) the law is a hypothesis and a witness instantiates it.

  \<^bold>\<open>Bounds and fuel\<close>

  Loops whose recursion is not structural have termination proofs; the range loop of the cron parser, which
  counts with a wrapping 64-bit integer, is a partial function shown to return (\<open>NextRun_returns\<close>).
  Nested shells are classified with the source's own depth limit; the NGINX blocks are parsed with one more than the number of
  tokens as fuel, one token at least being read by each step; the health of a service is polled for ten rounds
  per second of the configured timeout, as the ticker of the source allows at most.  The grant store retries a busy
  database as often as the source does.

  \<^bold>\<open>Limits of the model\<close>

  Strings are bytes; white space and letter case are those of ASCII.  Error texts are constructors that name
  the message.  Telemetry, events and logging are left out.  Times are unbounded nanoseconds, and
  \<open>time.ParseDuration\<close> reads its fractions exactly.  Rows that a query's ordering leaves tied keep the order
  of the table.

  The file system has inodes, directories and open descriptors; a call fails as its answer says, and other
  processes act between calls where a theorem does not assume them quiet.  Permission bits and the umask are
  failing calls; symbolic links are refused where the source opens with \<open>O_NOFOLLOW\<close> and are not followed by
  \<open>MkdirAll\<close>; directories are not renamed while an operation holds their descriptor.

  \<^bold>\<open>Not modelled\<close>

  The agent loop, the model providers, the memory files, the terminal interfaces and setup flows, the
  command line, configuration loading, the web tools and the reports; the guarded SSH changes and the btrfs
  snapshots of the recovery tools, whose journal is modelled and whose plan for SSH is a parameter
  of the engine: input and output around the modelled parts, or components of their own.
\<close>

end
